(* ===== verification/Prelude.thy ===== *)
theory Prelude
  imports
    Complex_Main
    "HOL-Library.Word"
    "HOL-Library.AList"
    "HOL-Library.Sublist"
    "HOL-Library.Char_ord"
    "HOL-Library.List_Lexorder"
begin

text \<open>
  Shared vocabulary of the development: the Python and JavaScript values the components
  exchange, errors as values of a sum type, ordered dictionaries as association lists,
  string tests, and the interface of codecs that several components share.

  Conventions. A \<open>bytes\<close> object is a list of 8-bit words. A \<open>str\<close> is an Isabelle
  \<^typ>\<open>string\<close>. A Python \<open>float\<close> and a JavaScript number are \<^typ>\<open>real\<close>: rounding is not
  modelled. A \<open>dict\<close> is an association list in insertion order. A raised exception is
  \<open>Inl\<close> of a \<open>py_error\<close> that carries the literal part of the message.
\<close>

named_theorems err_simps \<open>equations of the error results\<close>
named_theorems dict_simps \<open>equations of ordered dictionaries\<close>

type_synonym bytes = "8 word list"
type_synonym did = string

subsection \<open>Errors as values\<close>

datatype py_error =
    ValueError string
  | KeyError string
  | TypeError string
  | IndexError string
  | ZeroDivisionError string
  | RuntimeError string
  | PermissionError string
  | ConnectionError string
  | LibError string

text \<open>\<open>LibError\<close> is an exception class of a library, such as \<open>struct.error\<close> or \<open>CryptoError\<close>.\<close>

type_synonym 'a result = "py_error + 'a"

definition bindE :: "'a result \<Rightarrow> ('a \<Rightarrow> 'b result) \<Rightarrow> 'b result" where
  "bindE r f = (case r of Inl e \<Rightarrow> Inl e | Inr x \<Rightarrow> f x)"

lemma bindE_Inl [simp, err_simps]: "bindE (Inl e) f = Inl e"
  by (simp add: bindE_def)

lemma bindE_Inr [simp, err_simps]: "bindE (Inr x) f = f x"
  by (simp add: bindE_def)

lemma bindE_eq_Inr_iff [err_simps]: "bindE r f = Inr y \<longleftrightarrow> (\<exists>x. r = Inr x \<and> f x = Inr y)"
  by (cases r) auto

lemma bindE_eq_Inl_iff: "bindE r f = Inl e \<longleftrightarrow> r = Inl e \<or> (\<exists>x. r = Inr x \<and> f x = Inl e)"
  by (cases r) auto

text \<open>A guard: raise the error when the condition holds, continue otherwise.\<close>

definition raise_if :: "bool \<Rightarrow> py_error \<Rightarrow> unit result" where
  "raise_if b e = (if b then Inl e else Inr ())"

lemma raise_if_simps [simp, err_simps]:
  "raise_if True e = Inl e" "raise_if False e = Inr ()"
  by (simp_all add: raise_if_def)

lemma raise_if_eq_Inr_iff [err_simps]: "raise_if b e = Inr u \<longleftrightarrow> \<not> b"
  by (simp add: raise_if_def)

definition from_option :: "py_error \<Rightarrow> 'a option \<Rightarrow> 'a result" where
  "from_option e x = (case x of None \<Rightarrow> Inl e | Some v \<Rightarrow> Inr v)"

lemma from_option_simps [simp, err_simps]:
  "from_option e None = Inl e" "from_option e (Some v) = Inr v"
  by (simp_all add: from_option_def)

lemma from_option_eq_Inr_iff [err_simps]: "from_option e x = Inr v \<longleftrightarrow> x = Some v"
  by (cases x) simp_all

subsection \<open>Values of the wire and of the key-value store\<close>

datatype pyval =
    VNone
  | VBool bool
  | VInt int
  | VFloat real
  | VStr string
  | VList "pyval list"
  | VDict "(string \<times> pyval) list"

type_synonym dict = "(string \<times> pyval) list"

subsection \<open>Strings\<close>

abbreviation startswith :: "string \<Rightarrow> string \<Rightarrow> bool" where
  "startswith s p \<equiv> prefix p s"

abbreviation endswith :: "string \<Rightarrow> string \<Rightarrow> bool" where
  "endswith s p \<equiv> suffix p s"

text \<open>Lower case of ASCII letters, and \<open>t in s\<close>.\<close>

definition lower_char :: "char \<Rightarrow> char" where
  "lower_char c = (if 65 \<le> (of_char c :: nat) \<and> (of_char c :: nat) \<le> 90 then char_of ((of_char c :: nat) + 32) else c)"

definition to_lower :: "string \<Rightarrow> string" where
  "to_lower s = List.map lower_char s"

abbreviation has_sub :: "string \<Rightarrow> string \<Rightarrow> bool" where
  "has_sub s t \<equiv> sublist t s"

definition rstrip_char :: "char \<Rightarrow> string \<Rightarrow> string" where
  "rstrip_char c s = rev (dropWhile (\<lambda>x. x = c) (rev s))"

lemma rstrip_char_Nil [simp]: "rstrip_char c [] = []"
  by (simp add: rstrip_char_def)

lemma rstrip_char_snoc: "rstrip_char c (s @ [x]) = (if x = c then rstrip_char c s else s @ [x])"
  by (simp add: rstrip_char_def)

lemma rstrip_char_prefix: "prefix (rstrip_char c s) s"
  by (metis rstrip_char_def rev_rev_ident suffix_dropWhile suffix_to_prefix)

lemma startswith_append [simp]: "startswith (p @ s) p"
  by simp

lemma drop_prefix_eq: "prefix p s \<Longrightarrow> p @ drop (length p) s = s"
  by (auto simp: prefix_def)

text \<open>Decimal printing.\<close>

definition digit_char :: "nat \<Rightarrow> char" where
  "digit_char d = char_of (48 + d)"

fun show_nat :: "nat \<Rightarrow> string" where
  "show_nat n = (if n < 10 then [digit_char n] else show_nat (n div 10) @ [digit_char (n mod 10)])"

declare show_nat.simps [simp del]

definition show_int :: "int \<Rightarrow> string" where
  "show_int i = (if i < 0 then ''-'' @ show_nat (nat (- i)) else show_nat (nat i))"

subsection \<open>Ordered dictionaries\<close>

text \<open>
  \<open>d[k] = v\<close> keeps the position of a key that is present and appends a new one, which is
  \<open>AList.update\<close>; \<open>d.pop(k, None)\<close> is \<open>AList.delete\<close>; \<open>d.get(k)\<close> is \<open>map_of\<close>.
\<close>

abbreviation dget :: "('k \<times> 'v) list \<Rightarrow> 'k \<Rightarrow> 'v option" where
  "dget d k \<equiv> map_of d k"

abbreviation dset :: "'k \<Rightarrow> 'v \<Rightarrow> ('k \<times> 'v) list \<Rightarrow> ('k \<times> 'v) list" where
  "dset \<equiv> AList.update"

abbreviation dpop :: "'k \<Rightarrow> ('k \<times> 'v) list \<Rightarrow> ('k \<times> 'v) list" where
  "dpop \<equiv> AList.delete"

abbreviation dkeys :: "('k \<times> 'v) list \<Rightarrow> 'k list" where
  "dkeys d \<equiv> map fst d"

lemma dget_dset [simp, dict_simps]: "dget (dset k v d) k' = (if k' = k then Some v else dget d k')"
  by (simp add: update_conv')

lemma dget_dpop [simp, dict_simps]: "dget (dpop k d) k' = (if k' = k then None else dget d k')"
  by (simp add: delete_conv')

lemma distinct_dkeys_dset [simp]: "distinct (dkeys d) \<Longrightarrow> distinct (dkeys (dset k v d))"
  by (rule distinct_update)

lemma distinct_dkeys_dpop [simp]: "distinct (dkeys d) \<Longrightarrow> distinct (dkeys (dpop k d))"
  by (rule distinct_delete)

lemma set_dkeys_dset [simp]: "fst ` set (dset k v d) = insert k (fst ` set d)"
  using dom_update[of k v d] by simp

lemma set_dset_sub: "set (dset k v d) \<subseteq> insert (k, v) (set d)"
  by (induction d) (auto split: if_splits)

lemma set_dpop_sub: "set (dpop k d) \<subseteq> set d"
  by (auto simp: AList.delete_eq)

lemma dget_Some_mem: "dget d k = Some v \<Longrightarrow> (k, v) \<in> set d"
  by (rule map_of_SomeD)

lemma dget_mem: "distinct (dkeys d) \<Longrightarrow> (k, v) \<in> set d \<Longrightarrow> dget d k = Some v"
  by simp

definition dgetd :: "('k \<times> 'v) list \<Rightarrow> 'k \<Rightarrow> 'v \<Rightarrow> 'v" where
  "dgetd d k dflt = (case dget d k of None \<Rightarrow> dflt | Some v \<Rightarrow> v)"

subsection \<open>Code the sources call but do not contain\<close>

text \<open>
  PyNaCl (Ed25519), the digest functions and the text format of \<open>json\<close> are arguments of the
  model, collected in one record. \<open>'k\<close> is the type of signing keys. What a lemma relies on is
  a hypothesis of that lemma.
\<close>

record 'k lib =
  ed_public :: "'k \<Rightarrow> bytes"
  ed_sign :: "'k \<Rightarrow> bytes \<Rightarrow> bytes"
  ed_verify :: "bytes \<Rightarrow> bytes \<Rightarrow> bytes \<Rightarrow> bool"
  digest_hex :: "bytes \<Rightarrow> string"
  sha256_hex :: "bytes \<Rightarrow> string"
  json_dumps :: "pyval \<Rightarrow> bytes"
  json_loads :: "bytes \<Rightarrow> pyval result"

definition ed25519_ok :: "('k, 'z) lib_scheme \<Rightarrow> bool" where
  "ed25519_ok L \<longleftrightarrow> (\<forall>k m. ed_verify L (ed_public L k) m (ed_sign L k m))
                  \<and> (\<forall>k. length (ed_public L k) = 32)"

text \<open>\<^verbatim>\<open>str.encode\<close> for the ASCII texts the code encodes.\<close>

definition encode_str :: "string \<Rightarrow> bytes" where
  "encode_str s = map (\<lambda>c. of_nat (of_char c)) s"

text \<open>\<^verbatim>\<open>util.py\<close>: \<open>json.dumps(obj, sort_keys=True, separators=(",", ":"))\<close> and the hash over it.\<close>

fun sort_keys :: "pyval \<Rightarrow> pyval" where
  "sort_keys (VDict d) = VDict (sort_key fst (map (\<lambda>p. (fst p, sort_keys (snd p))) d))"
| "sort_keys (VList xs) = VList (map sort_keys xs)"
| "sort_keys v = v"

definition canonical_json :: "('k, 'z) lib_scheme \<Rightarrow> pyval \<Rightarrow> bytes" where
  "canonical_json L v = json_dumps L (sort_keys v)"

definition content_hash :: "('k, 'z) lib_scheme \<Rightarrow> pyval \<Rightarrow> nat \<Rightarrow> string" where
  "content_hash L v len = take len (digest_hex L (canonical_json L v))"

subsection \<open>Reading typed fields of a decoded dictionary\<close>

definition as_str :: "pyval \<Rightarrow> string result" where
  "as_str v = (case v of VStr s \<Rightarrow> Inr s | _ \<Rightarrow> Inl (TypeError ''expected str''))"

definition as_float :: "pyval \<Rightarrow> real result" where
  "as_float v = (case v of VFloat r \<Rightarrow> Inr r | VInt i \<Rightarrow> Inr (of_int i)
                 | _ \<Rightarrow> Inl (TypeError ''expected float''))"

definition as_list :: "pyval \<Rightarrow> pyval list result" where
  "as_list v = (case v of VList xs \<Rightarrow> Inr xs | _ \<Rightarrow> Inl (TypeError ''expected list''))"

definition as_dict :: "pyval \<Rightarrow> dict result" where
  "as_dict v = (case v of VDict d \<Rightarrow> Inr d | _ \<Rightarrow> Inl (TypeError ''expected dict''))"

lemma as_simps [simp, err_simps]:
  "as_str (VStr s) = Inr s" "as_float (VFloat r) = Inr r" "as_list (VList xs) = Inr xs"
  "as_dict (VDict d) = Inr d" "as_float (VInt i) = Inr (of_int i)"
  by (simp_all add: as_str_def as_float_def as_list_def as_dict_def)

text \<open>\<open>d[k]\<close>, which raises when the key is missing.\<close>

definition dict_item :: "dict \<Rightarrow> string \<Rightarrow> pyval result" where
  "dict_item d k = from_option (KeyError k) (dget d k)"

text \<open>A list comprehension whose element expression may raise.\<close>

fun mapE :: "('a \<Rightarrow> 'b result) \<Rightarrow> 'a list \<Rightarrow> 'b list result" where
  "mapE f [] = Inr []"
| "mapE f (x # xs) = bindE (f x) (\<lambda>y. bindE (mapE f xs) (\<lambda>ys. Inr (y # ys)))"

lemma mapE_map: "(\<And>x. x \<in> set xs \<Longrightarrow> f (g x) = Inr (h x)) \<Longrightarrow> mapE f (map g xs) = Inr (map h xs)"
  by (induction xs) simp_all

text \<open>A \<open>for\<close> loop whose body may raise.\<close>

fun eachE :: "('a \<Rightarrow> unit result) \<Rightarrow> 'a list \<Rightarrow> unit result" where
  "eachE f [] = Inr ()"
| "eachE f (x # xs) = bindE (f x) (\<lambda>_. eachE f xs)"

lemma eachE_Inr_iff: "eachE f xs = Inr u \<longleftrightarrow> (\<forall>x \<in> set xs. f x = Inr ())"
  by (induction xs) (auto simp: bindE_eq_Inr_iff)

subsection \<open>Codecs\<close>

text \<open>
  An encoder with a decoder that inverts it on the values \<open>ok\<close> selects. The strict form
  adds that no other text decodes to the same value, so that equality of texts is equality
  of values (which is what lets the code compare DIDs as strings).
\<close>

locale codec =
  fixes enc :: "'a \<Rightarrow> 'b result"
    and dec :: "'b \<Rightarrow> 'a result"
    and ok :: "'a \<Rightarrow> bool"
  assumes enc_ok: "ok x \<Longrightarrow> \<exists>s. enc x = Inr s"
    and dec_enc: "ok x \<Longrightarrow> enc x = Inr s \<Longrightarrow> dec s = Inr x"
begin

lemma roundtrip: "ok x \<Longrightarrow> bindE (enc x) dec = Inr x"
  using enc_ok dec_enc by (force simp: bindE_eq_Inr_iff)

lemma enc_inj: "ok x \<Longrightarrow> ok y \<Longrightarrow> enc x = enc y \<Longrightarrow> x = y"
  by (metis dec_enc enc_ok sum.inject(2))

end

locale strict_codec = codec +
  assumes enc_dec: "dec s = Inr x \<Longrightarrow> ok x \<and> enc x = Inr s"
begin

lemma dec_inj: "dec s = Inr x \<Longrightarrow> dec t = Inr x \<Longrightarrow> s = t"
  by (metis enc_dec sum.inject(2))

lemma dec_iff: "dec s = Inr x \<longleftrightarrow> ok x \<and> enc x = Inr s"
  using enc_dec dec_enc by blast

end

end
