(* ===== verification/Did.thy ===== *)
theory Did
  imports Prelude
begin

text \<open>
  \<^verbatim>\<open>identity/did.py\<close>: base58 with the Bitcoin alphabet and the \<^verbatim>\<open>did:key\<close> form of an
  Ed25519 public key. The lemmas show that base58 is a bijection between byte strings and
  strings over its alphabet, and that a DID determines its key and a key its DID.
\<close>

subsection \<open>Definitions\<close>

definition B58_ALPHABET :: string where
  "B58_ALPHABET = ''123456789ABCDEFGHJKLMNPQRSTUVWXYZabcdefghijkmnopqrstuvwxyz''"

definition ED25519_MULTICODEC :: bytes where
  "ED25519_MULTICODEC = [0xED, 0x01]"

text \<open>\<open>int.from_bytes(data, "big")\<close>\<close>

definition int_from_bytes :: "bytes \<Rightarrow> nat" where
  "int_from_bytes bs = foldl (\<lambda>n b. n * 256 + unat b) 0 bs"

text \<open>The \<open>while n > 0\<close> loop: the least significant digit first.\<close>

fun b58_digits :: "nat \<Rightarrow> string" where
  "b58_digits n = (if n > 0 then B58_ALPHABET ! (n mod 58) # b58_digits (n div 58) else [])"

declare b58_digits.simps [simp del]

definition b58encode :: "bytes \<Rightarrow> string" where
  "b58encode data =
     rev (b58_digits (int_from_bytes data)
          @ map (\<lambda>_. B58_ALPHABET ! 0) (takeWhile (\<lambda>b. b = 0) data))"

text \<open>\<open>bytes.find\<close>: the first position of a character, or \<open>None\<close> for -1.\<close>

fun find_char :: "char \<Rightarrow> string \<Rightarrow> nat option" where
  "find_char c [] = None"
| "find_char c (x # xs) = (if x = c then Some 0 else map_option Suc (find_char c xs))"

fun b58_value :: "nat \<Rightarrow> string \<Rightarrow> nat result" where
  "b58_value n [] = Inr n"
| "b58_value n (ch # s) =
     (case find_char ch B58_ALPHABET of
        None \<Rightarrow> Inl (ValueError ''Invalid base58 character'')
      | Some idx \<Rightarrow> b58_value (n * 58 + idx) s)"

fun bit_length :: "nat \<Rightarrow> nat" where
  "bit_length n = (if n = 0 then 0 else Suc (bit_length (n div 2)))"

declare bit_length.simps [simp del]

text \<open>\<open>n.to_bytes(len, "big")\<close> for \<open>n\<close> that fits.\<close>

fun to_bytes_be :: "nat \<Rightarrow> nat \<Rightarrow> bytes" where
  "to_bytes_be 0 n = []"
| "to_bytes_be (Suc len) n = to_bytes_be len (n div 256) @ [of_nat (n mod 256)]"

definition b58decode :: "string \<Rightarrow> bytes result" where
  "b58decode s =
     (if s = [] then Inr []
      else bindE (b58_value 0 s) (\<lambda>n.
        let leading = length (takeWhile (\<lambda>ch. ch = CHR ''1'') s);
            body = (if n \<noteq> 0 then to_bytes_be ((bit_length n + 7) div 8) n else [])
        in Inr (replicate leading 0 @ body)))"

definition DID_PREFIX :: string where
  "DID_PREFIX = ''did:key:z''"

definition public_key_to_did :: "bytes \<Rightarrow> did result" where
  "public_key_to_did pk =
     (if length pk \<noteq> 32 then Inl (ValueError ''Ed25519 public key must be 32 bytes'')
      else Inr (DID_PREFIX @ b58encode (ED25519_MULTICODEC @ pk)))"

definition did_to_public_key :: "did \<Rightarrow> bytes result" where
  "did_to_public_key did =
     (if \<not> startswith did DID_PREFIX then Inl (ValueError ''DID must start with did:key:z'')
      else bindE (b58decode (drop (length DID_PREFIX) did)) (\<lambda>decoded.
        if take 2 decoded \<noteq> ED25519_MULTICODEC
        then Inl (ValueError ''DID multicodec is not Ed25519 (0xED01)'')
        else let pk = drop 2 decoded in
          if length pk \<noteq> 32 then Inl (ValueError ''Decoded public key length != 32'')
          else Inr pk))"

definition did_short :: "did \<Rightarrow> nat \<Rightarrow> string" where
  "did_short did chars = take 16 did @ ''...'' @ drop (length did - chars) did"

subsection \<open>The alphabet\<close>

lemma length_alphabet: "length B58_ALPHABET = 58"
  by (simp add: B58_ALPHABET_def)

lemma distinct_alphabet: "distinct B58_ALPHABET"
  by (simp add: B58_ALPHABET_def)

lemma alphabet_0: "B58_ALPHABET ! 0 = CHR ''1''"
  by (simp add: B58_ALPHABET_def)

lemma find_char_nth:
  "distinct xs \<Longrightarrow> i < length xs \<Longrightarrow> find_char (xs ! i) xs = Some i"
proof (induction xs arbitrary: i)
  case (Cons x xs)
  then show ?case by (cases i) (auto simp: nth_mem)
qed simp

lemma find_char_SomeD: "find_char c xs = Some i \<Longrightarrow> i < length xs \<and> xs ! i = c"
  by (induction xs arbitrary: i) (auto split: if_splits)

lemma find_char_alphabet: "i < 58 \<Longrightarrow> find_char (B58_ALPHABET ! i) B58_ALPHABET = Some i"
  by (simp add: find_char_nth distinct_alphabet length_alphabet)

lemma alphabet_eq_1_iff: "i < 58 \<Longrightarrow> B58_ALPHABET ! i = CHR ''1'' \<longleftrightarrow> i = 0"
  using nth_eq_iff_index_eq[OF distinct_alphabet, of i 0]
  by (simp add: alphabet_0 length_alphabet)

subsection \<open>Big-endian numbers\<close>

lemma foldl_bytes_acc:
  "foldl (\<lambda>n b. n * 256 + unat (b :: 8 word)) a bs
     = a * 256 ^ length bs + foldl (\<lambda>n b. n * 256 + unat b) 0 bs"
proof (induction bs arbitrary: a)
  case (Cons b bs)
  show ?case
    using Cons.IH[of "a * 256 + unat b"] Cons.IH[of "unat b"]
    by (simp add: algebra_simps)
qed simp

lemma int_from_bytes_Nil [simp]: "int_from_bytes [] = 0"
  by (simp add: int_from_bytes_def)

lemma int_from_bytes_Cons:
  "int_from_bytes (b # bs) = unat b * 256 ^ length bs + int_from_bytes bs"
  using foldl_bytes_acc[of "unat b" bs] by (simp add: int_from_bytes_def)

lemma int_from_bytes_snoc: "int_from_bytes (bs @ [b]) = int_from_bytes bs * 256 + unat b"
  by (simp add: int_from_bytes_def)

lemma unat_byte_less: "unat (b :: 8 word) < 256"
  using unsigned_less[of b, where ?'a = nat] by simp

lemma int_from_bytes_less: "int_from_bytes bs < 256 ^ length bs"
proof (induction bs rule: rev_induct)
  case (snoc b bs)
  have "int_from_bytes bs * 256 + unat b < (int_from_bytes bs + 1) * 256"
    using unat_byte_less[of b] by simp
  also have "\<dots> \<le> 256 ^ length bs * 256" using snoc by (intro mult_le_mono1) simp
  finally show ?case by (simp add: int_from_bytes_snoc)
qed simp

lemma to_bytes_be_int_from_bytes: "to_bytes_be (length bs) (int_from_bytes bs) = bs"
proof (induction bs rule: rev_induct)
  case (snoc b bs)
  have "(int_from_bytes bs * 256 + unat b) div 256 = int_from_bytes bs"
    and "(int_from_bytes bs * 256 + unat b) mod 256 = unat b"
    using unat_byte_less[of b] by simp_all
  with snoc show ?case by (simp add: int_from_bytes_snoc)
qed simp

lemma length_to_bytes_be [simp]: "length (to_bytes_be len n) = len"
  by (induction len arbitrary: n) simp_all

lemma int_from_to_bytes_be: "n < 256 ^ len \<Longrightarrow> int_from_bytes (to_bytes_be len n) = n"
proof (induction len arbitrary: n)
  case (Suc len)
  then have "n div 256 < 256 ^ len" by (simp add: less_mult_imp_div_less mult.commute)
  then show ?case
    by (simp add: Suc.IH int_from_bytes_snoc unat_of_nat)
qed simp

lemma bit_length_bounds: "n > 0 \<Longrightarrow> 2 ^ (bit_length n - 1) \<le> n \<and> n < 2 ^ bit_length n \<and> bit_length n > 0"
proof (induction n rule: less_induct)
  case (less n)
  show ?case
  proof (cases "n = 1")
    case True
    then show ?thesis by (simp add: bit_length.simps)
  next
    case False
    with less.prems have m: "n div 2 > 0" "n div 2 < n" by auto
    from less.IH[OF m(2,1)] obtain k where
      k: "bit_length (n div 2) = Suc k" "2 ^ k \<le> n div 2" "n div 2 < 2 ^ Suc k"
      by (metis Suc_pred diff_Suc_1)
    then have "2 ^ Suc k \<le> n" "n < 2 ^ Suc (Suc k)" by auto
    with less.prems k(1) show ?thesis by (simp add: bit_length.simps[of n])
  qed
qed

text \<open>\<open>(bit_length + 7) // 8\<close> is the least number of bytes that holds a positive number.\<close>

lemma byte_length_eq:
  assumes "n > 0" and "256 ^ k \<le> n" and "n < 256 ^ Suc k"
  shows "(bit_length n + 7) div 8 = Suc k"
proof -
  have p: "(256::nat) ^ j = 2 ^ (8 * j)" for j by (simp add: power_mult)
  from bit_length_bounds[OF assms(1)] have b:
    "2 ^ (bit_length n - 1) \<le> n" "n < 2 ^ bit_length n" "bit_length n > 0" by auto
  from assms(2) b(2) have "(2::nat) ^ (8 * k) < 2 ^ bit_length n"
    unfolding p by (rule le_less_trans)
  then have lo: "8 * k < bit_length n" by simp
  from assms(3) b(1) have "(2::nat) ^ (bit_length n - 1) < 2 ^ (8 * Suc k)"
    unfolding p by (rule le_less_trans[rotated])
  then have "bit_length n - 1 < 8 * Suc k" by (rule power_less_imp_less_exp[rotated]) simp
  then have "bit_length n \<le> 8 * Suc k" by simp
  with lo show ?thesis by (intro div_nat_eqI) simp_all
qed

lemma to_bytes_be_minimal:
  assumes "b \<noteq> 0"
  shows "to_bytes_be ((bit_length (int_from_bytes (b # bs)) + 7) div 8) (int_from_bytes (b # bs))
           = b # bs"
proof -
  let ?n = "int_from_bytes (b # bs)"
  have "unat b > 0" using assms by (simp add: unat_gt_0)
  then have ge: "256 ^ length bs \<le> ?n" by (simp add: int_from_bytes_Cons trans_le_add1)
  have "(bit_length ?n + 7) div 8 = Suc (length bs)"
  proof (rule byte_length_eq)
    show "?n > 0" using ge by (rule less_le_trans[rotated]) simp
    show "256 ^ length bs \<le> ?n" by (rule ge)
    show "?n < 256 ^ Suc (length bs)" using int_from_bytes_less[of "b # bs"] by simp
  qed
  then show ?thesis using to_bytes_be_int_from_bytes[of "b # bs"] by simp
qed

lemma to_bytes_be_head_nonzero:
  assumes "n > 0"
  shows "\<exists>b bs. to_bytes_be ((bit_length n + 7) div 8) n = b # bs \<and> b \<noteq> 0"
proof -
  obtain k where k: "256 ^ k \<le> n" "n < 256 ^ Suc k"
  proof -
    have "\<exists>k. 256 ^ k \<le> n \<and> n < 256 ^ (k + 1)"
      by (rule ex_power_ivl1) (use assms in auto)
    then show thesis using that by auto
  qed
  have len: "(bit_length n + 7) div 8 = Suc k" using byte_length_eq assms k by blast
  let ?bs = "to_bytes_be (Suc k) n"
  obtain b bs where bs: "?bs = b # bs" "length bs = k"
    by (metis length_Suc_conv length_to_bytes_be)
  have "n = unat b * 256 ^ k + int_from_bytes bs"
    using int_from_to_bytes_be[OF k(2)] bs by (simp add: int_from_bytes_Cons)
  with k(1) int_from_bytes_less[of bs] bs(2) have "b \<noteq> 0" by auto
  with bs len show ?thesis by auto
qed

subsection \<open>Base58 is a bijection\<close>

lemma b58_digits_0 [simp]: "b58_digits 0 = []"
  by (simp add: b58_digits.simps)

lemma b58_digits_pos: "n > 0 \<Longrightarrow> b58_digits n = B58_ALPHABET ! (n mod 58) # b58_digits (n div 58)"
  by (simp add: b58_digits.simps[of n])

lemma b58_value_append: "b58_value n (s @ t) = bindE (b58_value n s) (\<lambda>m. b58_value m t)"
  by (induction s arbitrary: n) (auto split: option.splits)

lemma b58_value_rev_digits: "b58_value 0 (rev (b58_digits n)) = Inr n"
proof (induction n rule: b58_digits.induct)
  case (1 n)
  then show ?case
    by (cases "n > 0") (simp_all add: b58_digits_pos b58_value_append find_char_alphabet)
qed

lemma b58_value_ones: "b58_value 0 (replicate k (CHR ''1'') @ s) = b58_value 0 s"
  using find_char_alphabet[of 0] by (induction k) (simp_all add: alphabet_0)

lemma rev_b58_digits_head: "rev (b58_digits n) = c # s \<Longrightarrow> c \<noteq> CHR ''1''"
proof (induction n arbitrary: c s rule: b58_digits.induct)
  case (1 n)
  show ?case
  proof (cases "n div 58 > 0")
    case True
    then obtain c' s' where r: "rev (b58_digits (n div 58)) = c' # s'"
      by (metis b58_digits_pos list.exhaust list.simps(3) rev_is_Nil_conv)
    have "n > 0" using True by (simp add: div_greater_zero_iff)
    then have "c' = c" using 1(2) r by (simp add: b58_digits_pos)
    with 1(1)[OF \<open>n > 0\<close> r] show ?thesis by simp
  next
    case False
    with 1(2) have "n > 0" "n < 58" by (auto intro!: Nat.gr0I simp: div_greater_zero_iff)
    with 1(2) show ?thesis by (auto simp: b58_digits_pos alphabet_eq_1_iff)
  qed
qed

lemma takeWhile_rev_digits: "takeWhile (\<lambda>ch. ch = CHR ''1'') (rev (b58_digits n)) = []"
  using rev_b58_digits_head[of n] by (cases "rev (b58_digits n)") auto

lemma b58encode_eq:
  "b58encode bs = replicate (length (takeWhile (\<lambda>b. b = 0) bs)) (CHR ''1'')
                   @ rev (b58_digits (int_from_bytes bs))"
  by (simp add: b58encode_def alphabet_0 map_replicate_const)

lemma int_from_bytes_zeros [simp]: "int_from_bytes (replicate k 0 @ bs) = int_from_bytes bs"
  by (induction k) (simp_all add: int_from_bytes_Cons)

lemma split_zeros: "\<exists>k bs'. bs = replicate k 0 @ bs' \<and> (bs' = [] \<or> hd bs' \<noteq> (0 :: 8 word))"
proof -
  have "bs = takeWhile (\<lambda>b. b = 0) bs @ dropWhile (\<lambda>b. b = 0) bs" by simp
  moreover have "takeWhile (\<lambda>b. b = 0) bs = replicate (length (takeWhile (\<lambda>b. b = 0) bs)) 0"
    by (metis (mono_tags, lifting) replicate_length_same set_takeWhileD)
  moreover have "dropWhile (\<lambda>b. b = 0) bs = [] \<or> hd (dropWhile (\<lambda>b. b = 0) bs) \<noteq> 0"
    using hd_dropWhile[of "\<lambda>b. b = 0" bs] by auto
  ultimately show ?thesis by metis
qed

lemma takeWhile_zeros:
  "bs' = [] \<or> hd bs' \<noteq> (0 :: 8 word) \<Longrightarrow>
     takeWhile (\<lambda>b. b = 0) (replicate k 0 @ bs') = replicate k 0"
  by (cases bs') (auto simp: takeWhile_append)

lemma takeWhile_ones:
  "takeWhile (\<lambda>ch. ch = CHR ''1'') (replicate k (CHR ''1'') @ rev (b58_digits n))
     = replicate k (CHR ''1'')"
  by (simp add: takeWhile_append takeWhile_rev_digits)

lemma b58decode_canonical:
  "b58decode (replicate k (CHR ''1'') @ rev (b58_digits n))
     = Inr (replicate k 0 @ (if n \<noteq> 0 then to_bytes_be ((bit_length n + 7) div 8) n else []))"
proof (cases "replicate k (CHR ''1'') @ rev (b58_digits n) = []")
  case True
  then have "k = 0 \<and> n = 0" by (metis append_is_Nil_conv b58_digits_pos gr0I list.simps(3)
      replicate_empty rev_is_Nil_conv)
  then show ?thesis by (simp add: b58decode_def)
next
  case False
  then show ?thesis
    unfolding b58decode_def
    by (simp only: if_False b58_value_ones b58_value_rev_digits takeWhile_ones Let_def
        bindE_Inr length_replicate)
qed

lemma b58decode_encode: "b58decode (b58encode bs) = Inr bs"
proof -
  obtain k bs' where bs: "bs = replicate k 0 @ bs'" "bs' = [] \<or> hd bs' \<noteq> 0"
    using split_zeros by blast
  have "(if int_from_bytes bs' \<noteq> 0
         then to_bytes_be ((bit_length (int_from_bytes bs') + 7) div 8) (int_from_bytes bs')
         else []) = bs'"
  proof (cases bs')
    case (Cons b r)
    then have "b \<noteq> 0" using bs(2) by simp
    then have "int_from_bytes bs' \<noteq> 0"
      using Cons by (simp add: int_from_bytes_Cons unat_eq_0)
    with to_bytes_be_minimal[OF \<open>b \<noteq> 0\<close>, of r] Cons show ?thesis by simp
  qed simp
  with bs takeWhile_zeros[OF bs(2), of k] show ?thesis
    by (simp add: b58encode_eq b58decode_canonical)
qed

lemma b58_value_digits:
  "b58_value 0 s = Inr n \<Longrightarrow> (s = [] \<or> hd s \<noteq> CHR ''1'') \<Longrightarrow> rev (b58_digits n) = s"
proof (induction s arbitrary: n rule: rev_induct)
  case (snoc c s)
  from snoc.prems(1) obtain m i where m: "b58_value 0 s = Inr m"
    and i: "find_char c B58_ALPHABET = Some i" and n: "n = m * 58 + i"
    by (auto simp: b58_value_append bindE_eq_Inr_iff split: option.splits)
  from find_char_SomeD[OF i] have i58: "i < 58" "B58_ALPHABET ! i = c"
    by (simp_all add: length_alphabet)
  have IH: "rev (b58_digits m) = s" using snoc.IH[OF m] snoc.prems(2) by (cases s) auto
  have "n > 0"
  proof (cases "s = []")
    case True
    then have "m = 0" using m by simp
    moreover have "i \<noteq> 0"
    proof
      assume "i = 0"
      with i58(2) alphabet_0 have "c = CHR ''1''" by simp
      with snoc.prems(2) True show False by simp
    qed
    ultimately show ?thesis using n by simp
  next
    case False
    then have "m \<noteq> 0" using IH by (metis b58_digits_0 rev.simps(1))
    then show ?thesis using n by simp
  qed
  moreover have "n mod 58 = i" "n div 58 = m" using n i58 by simp_all
  ultimately show ?case using IH i58 by (simp add: b58_digits_pos)
qed simp

lemma b58encode_decode:
  assumes "b58decode s = Inr bs"
  shows "b58encode bs = s"
proof (cases "s = []")
  case True
  with assms show ?thesis by (simp add: b58decode_def b58encode_eq)
next
  case False
  define t where "t = dropWhile (\<lambda>ch. ch = CHR ''1'') s"
  define k where "k = length (takeWhile (\<lambda>ch. ch = CHR ''1'') s)"
  have "takeWhile (\<lambda>ch. ch = CHR ''1'') s = replicate k (CHR ''1'')"
    unfolding k_def by (rule replicate_length_same[symmetric]) (auto dest: set_takeWhileD)
  then have s: "s = replicate k (CHR ''1'') @ t"
    using takeWhile_dropWhile_id[of "\<lambda>ch. ch = CHR ''1''" s] by (simp add: t_def)
  have t: "t = [] \<or> hd t \<noteq> CHR ''1''"
    using hd_dropWhile[of "\<lambda>ch. ch = CHR ''1''" s] by (auto simp: t_def)
  from assms False obtain n where "b58_value 0 s = Inr n"
    by (auto simp: b58decode_def bindE_eq_Inr_iff)
  then have n: "b58_value 0 t = Inr n" by (simp add: s b58_value_ones)
  then have dig: "rev (b58_digits n) = t" using b58_value_digits t by blast
  from assms have bs: "bs = replicate k 0
      @ (if n \<noteq> 0 then to_bytes_be ((bit_length n + 7) div 8) n else [])"
    using b58decode_canonical[of k n] by (simp add: s dig)
  show ?thesis
  proof (cases "n = 0")
    case True
    then show ?thesis using bs s dig int_from_bytes_zeros[of k "[]"]
      by (simp add: b58encode_eq)
  next
    case False
    define body where "body = to_bytes_be ((bit_length n + 7) div 8) n"
    from False obtain b r where br: "body = b # r" "b \<noteq> 0"
      using to_bytes_be_head_nonzero body_def by blast
    have "int_from_bytes body = n"
    proof -
      have "n < 2 ^ bit_length n" using bit_length_bounds False by simp
      also have "\<dots> \<le> 2 ^ (8 * ((bit_length n + 7) div 8))"
        by (rule power_increasing) linarith+
      finally show ?thesis by (simp add: body_def int_from_to_bytes_be power_mult)
    qed
    then show ?thesis using bs s dig takeWhile_zeros[of body k] br False
      by (simp add: b58encode_eq body_def[symmetric])
  qed
qed

interpretation b58: strict_codec "\<lambda>bs. Inr (b58encode bs)" b58decode "\<lambda>_. True"
  by unfold_locales (simp_all add: b58decode_encode b58encode_decode)

subsection \<open>DIDs and public keys\<close>

definition key_length_ok :: "bytes \<Rightarrow> bool" where
  "key_length_ok pk \<longleftrightarrow> length pk = 32"

lemma did_of_key: "length pk = 32 \<Longrightarrow> did_to_public_key (DID_PREFIX @ b58encode (ED25519_MULTICODEC @ pk)) = Inr pk"
  by (simp add: did_to_public_key_def b58.dec_enc ED25519_MULTICODEC_def)

lemma key_of_did:
  assumes "did_to_public_key did = Inr pk"
  shows "length pk = 32 \<and> public_key_to_did pk = Inr did"
proof -
  from assms obtain decoded where
    did: "startswith did DID_PREFIX" and
    dec: "b58decode (drop (length DID_PREFIX) did) = Inr decoded" and
    codec: "take 2 decoded = ED25519_MULTICODEC" and
    pk: "pk = drop 2 decoded" "length pk = 32"
    by (auto simp: did_to_public_key_def bindE_eq_Inr_iff Let_def split: if_splits)
  from codec pk(1) have "decoded = ED25519_MULTICODEC @ pk"
    by (metis append_take_drop_id)
  with dec b58.enc_dec have "b58encode (ED25519_MULTICODEC @ pk) = drop (length DID_PREFIX) did"
    by fastforce
  with did pk(2) show ?thesis
    by (simp add: public_key_to_did_def drop_prefix_eq)
qed

interpretation did_key: strict_codec public_key_to_did did_to_public_key key_length_ok
  by unfold_locales
    (auto simp: key_length_ok_def public_key_to_did_def did_of_key dest: key_of_did split: if_splits)

lemma public_key_to_did_error:
  "length pk \<noteq> 32 \<Longrightarrow> public_key_to_did pk = Inl (ValueError ''Ed25519 public key must be 32 bytes'')"
  by (simp add: public_key_to_did_def)

text \<open>
  The did:key form and the public key determine each other: decoding a string as a DID
  gives a key exactly when the key has 32 bytes and that very string is its DID. So the code
  may compare DIDs as strings (revocation lists, connection tables): no second spelling of a
  DID decodes to the same key.
\<close>

theorem did_to_public_key_iff:
  "did_to_public_key did = Inr pk \<longleftrightarrow> length pk = 32 \<and> public_key_to_did pk = Inr did"
  using did_key.dec_iff[of did pk] by (simp add: key_length_ok_def)

end
