(* ===== verification/Base64.thy ===== *)
theory Base64
  imports Prelude
begin

text \<open>
  The unpadded URL-safe base64 of \<^verbatim>\<open>identity/ucan.py\<close> (\<^verbatim>\<open>_b64url\<close>, \<^verbatim>\<open>_b64url_decode\<close>)
  on top of Python's \<^verbatim>\<open>base64\<close> module: the encoder with padding, and the lenient decoder of
  \<^verbatim>\<open>binascii.a2b_base64\<close> (characters outside the alphabet are skipped, a complete padding
  ends the text, an incomplete group is an error). The lemmas show that decoding inverts
  encoding and that an encoded text has no dot, which is what makes the three-part token
  form of a UCAN unambiguous.
\<close>

subsection \<open>Definitions\<close>

definition B64_ALPHABET :: string where
  "B64_ALPHABET = ''ABCDEFGHIJKLMNOPQRSTUVWXYZabcdefghijklmnopqrstuvwxyz0123456789-_''"

fun sextets :: "bytes \<Rightarrow> nat list" where
  "sextets [] = []"
| "sextets [a] = [unat a div 4, (unat a mod 4) * 16]"
| "sextets [a, b] = [unat a div 4, (unat a mod 4) * 16 + unat b div 16, (unat b mod 16) * 4]"
| "sextets (a # b # c # r) =
     [unat a div 4, (unat a mod 4) * 16 + unat b div 16,
      (unat b mod 16) * 4 + unat c div 64, unat c mod 64] @ sextets r"

text \<open>\<open>base64.urlsafe_b64encode\<close>: the sextets, padded with \<open>=\<close> to a multiple of four.\<close>

definition pad_len :: "nat \<Rightarrow> nat" where
  "pad_len n = (4 - n mod 4) mod 4"

definition urlsafe_b64encode :: "bytes \<Rightarrow> string" where
  "urlsafe_b64encode data =
     (let s = map (\<lambda>i. B64_ALPHABET ! i) (sextets data)
      in s @ replicate (pad_len (length s)) (CHR ''=''))"

definition b64url :: "bytes \<Rightarrow> string" where
  "b64url data = rstrip_char (CHR ''='') (urlsafe_b64encode data)"

text \<open>
  The decoder's table after \<open>urlsafe_b64decode\<close> has translated \<open>-_\<close> to \<open>+/\<close>: both
  spellings of the last two digits are accepted.
\<close>

fun index_of :: "char \<Rightarrow> string \<Rightarrow> nat option" where
  "index_of c [] = None"
| "index_of c (x # xs) = (if x = c then Some 0 else map_option Suc (index_of c xs))"

definition b64_value :: "char \<Rightarrow> nat option" where
  "b64_value c =
     (if c = CHR ''+'' then Some 62 else if c = CHR ''/'' then Some 63
      else index_of c B64_ALPHABET)"

definition emit :: "nat \<Rightarrow> bytes result \<Rightarrow> bytes result" where
  "emit b r = bindE r (\<lambda>bs. Inr (of_nat b # bs))"

fun a2b :: "nat \<Rightarrow> nat \<Rightarrow> nat \<Rightarrow> string \<Rightarrow> bytes result" where
  "a2b quad_pos leftchar pads [] =
     (if quad_pos = 0 then Inr [] else Inl (ValueError ''Incorrect padding''))"
| "a2b quad_pos leftchar pads (c # s) =
     (if c = CHR ''='' then
        (if quad_pos \<ge> 2 then
           (if quad_pos + Suc pads \<ge> 4 then Inr [] else a2b quad_pos leftchar (Suc pads) s)
         else a2b quad_pos leftchar pads s)
      else (case b64_value c of
          None \<Rightarrow> a2b quad_pos leftchar pads s
        | Some v \<Rightarrow>
            (if quad_pos = 0 then a2b 1 v 0 s
             else if quad_pos = 1 then emit (leftchar * 4 + v div 16) (a2b 2 (v mod 16) 0 s)
             else if quad_pos = 2 then emit (leftchar * 16 + v div 4) (a2b 3 (v mod 4) 0 s)
             else emit (leftchar * 64 + v) (a2b 0 0 0 s))))"

definition is_ascii :: "string \<Rightarrow> bool" where
  "is_ascii s = list_all (\<lambda>c. (of_char c :: nat) < 128) s"

definition b64url_decode :: "string \<Rightarrow> bytes result" where
  "b64url_decode s =
     (let t = s @ replicate (pad_len (length s)) (CHR ''='')
      in if is_ascii t then a2b 0 0 0 t
         else Inl (ValueError ''string argument should contain only ASCII characters''))"

subsection \<open>Lemmas\<close>

lemma length_b64_alphabet: "length B64_ALPHABET = 64"
  by (simp add: B64_ALPHABET_def)

lemma alphabet_facts:
  "list_all (\<lambda>c. c \<noteq> CHR ''='' \<and> c \<noteq> CHR ''.'' \<and> c \<noteq> CHR ''+'' \<and> c \<noteq> CHR ''/''
               \<and> (of_char c :: nat) < 128) B64_ALPHABET"
  by (simp add: B64_ALPHABET_def)

lemma alphabet_nth:
  assumes "i < 64"
  shows "B64_ALPHABET ! i \<noteq> CHR ''=''" "B64_ALPHABET ! i \<noteq> CHR ''.''"
    "B64_ALPHABET ! i \<noteq> CHR ''+''" "B64_ALPHABET ! i \<noteq> CHR ''/''"
    "(of_char (B64_ALPHABET ! i) :: nat) < 128"
  using alphabet_facts assms by (simp_all add: list_all_length length_b64_alphabet)

lemma distinct_b64_alphabet: "distinct B64_ALPHABET"
  by (simp add: B64_ALPHABET_def)

lemma index_of_nth: "distinct xs \<Longrightarrow> i < length xs \<Longrightarrow> index_of (xs ! i) xs = Some i"
proof (induction xs arbitrary: i)
  case (Cons x xs)
  then show ?case by (cases i) (auto simp: nth_mem)
qed simp

lemma b64_value_nth [simp]: "i < 64 \<Longrightarrow> b64_value (B64_ALPHABET ! i) = Some i"
  by (simp add: b64_value_def alphabet_nth index_of_nth distinct_b64_alphabet length_b64_alphabet)

lemma byte_less: "unat (b :: 8 word) < 256"
  using unsigned_less[of b, where ?'a = nat] by simp

lemma sextets_less: "i \<in> set (sextets bs) \<Longrightarrow> i < 64"
proof (induction bs rule: sextets.induct)
  case (2 a)
  then show ?case using byte_less[of a] by auto
next
  case (3 a b)
  then show ?case using byte_less[of a] byte_less[of b] by auto
next
  case (4 a b c r)
  then show ?case using byte_less[of a] byte_less[of b] byte_less[of c] by auto
qed simp

lemma no_pad_char: "CHR ''='' \<notin> set (map (\<lambda>i. B64_ALPHABET ! i) (sextets bs))"
  using sextets_less alphabet_nth(1) by fastforce

lemma rstrip_replicate:
  "c \<notin> set s \<Longrightarrow> rstrip_char c (s @ replicate k c) = s"
proof -
  assume a: "c \<notin> set s"
  have "dropWhile (\<lambda>x. x = c) (replicate k c @ rev s) = rev s"
    using a by (induction k) (auto simp: dropWhile_eq_self_iff hd_rev)
  then show ?thesis by (simp add: rstrip_char_def)
qed

lemma b64url_eq: "b64url bs = map (\<lambda>i. B64_ALPHABET ! i) (sextets bs)"
  unfolding b64url_def urlsafe_b64encode_def Let_def by (rule rstrip_replicate[OF no_pad_char])

lemma dot_notin_b64url: "CHR ''.'' \<notin> set (b64url bs)"
  using sextets_less alphabet_nth(2) by (fastforce simp: b64url_eq)

lemma ascii_b64url: "is_ascii (b64url bs)"
  using sextets_less alphabet_nth(5) by (fastforce simp: b64url_eq is_ascii_def list_all_iff)

lemma pad_len_add4: "pad_len (n + 4) = pad_len n"
  by (simp add: pad_len_def)

lemma byte_of_parts:
  "unat (a :: 8 word) div 4 * 4 + unat a mod 4 = unat a"
  "unat a div 16 * 16 + unat a mod 16 = unat a"
  "unat a div 64 * 64 + unat a mod 64 = unat a"
  by simp_all

lemma a2b_sextets:
  "a2b 0 0 0 (map (\<lambda>i. B64_ALPHABET ! i) (sextets bs)
     @ replicate (pad_len (length (sextets bs))) (CHR ''='')) = Inr bs"
proof (induction bs rule: sextets.induct)
  case 1
  then show ?case by (simp add: pad_len_def)
next
  case (2 a)
  have "unat a div 4 < 64" "unat a mod 4 * 16 < 64" using byte_less[of a] by auto
  then show ?case
    by (simp add: pad_len_def alphabet_nth emit_def numeral_2_eq_2 byte_of_parts)
next
  case (3 a b)
  have "unat a div 4 < 64" "unat a mod 4 * 16 + unat b div 16 < 64" "unat b mod 16 * 4 < 64"
    using byte_less[of a] byte_less[of b] by auto
  moreover have "(unat a mod 4 * 16 + unat b div 16) div 16 = unat a mod 4"
    "(unat a mod 4 * 16 + unat b div 16) mod 16 = unat b div 16"
    using byte_less[of b] by auto
  ultimately show ?case
    by (simp add: pad_len_def alphabet_nth emit_def byte_of_parts)
next
  case (4 a b c r)
  have "unat a div 4 < 64" "unat a mod 4 * 16 + unat b div 16 < 64"
    "unat b mod 16 * 4 + unat c div 64 < 64" "unat c mod 64 < 64"
    using byte_less[of a] byte_less[of b] byte_less[of c] by auto
  moreover have "(unat a mod 4 * 16 + unat b div 16) div 16 = unat a mod 4"
    "(unat a mod 4 * 16 + unat b div 16) mod 16 = unat b div 16"
    "(unat b mod 16 * 4 + unat c div 64) div 4 = unat b mod 16"
    "(unat b mod 16 * 4 + unat c div 64) mod 4 = unat c div 64"
    using byte_less[of b] byte_less[of c] by auto
  moreover have "length (sextets (a # b # c # r)) = length (sextets r) + 4" by simp
  then have "pad_len (length (sextets (a # b # c # r))) = pad_len (length (sextets r))"
    by (simp only: pad_len_add4)
  ultimately show ?case using 4
    by (simp add: alphabet_nth emit_def byte_of_parts)
qed

lemma b64url_decode_b64url: "b64url_decode (b64url bs) = Inr bs"
proof -
  have "is_ascii (b64url bs @ replicate (pad_len (length (b64url bs))) (CHR ''=''))"
    using ascii_b64url[of bs] by (auto simp: is_ascii_def list_all_iff)
  then show ?thesis
    using a2b_sextets[of bs] by (simp add: b64url_decode_def Let_def b64url_eq)
qed

interpretation b64: codec "\<lambda>bs. Inr (b64url bs)" b64url_decode "\<lambda>_. True"
  by unfold_locales (simp_all add: b64url_decode_b64url)

end
