(* ===== verification/Ucan.thy ===== *)
theory Ucan
  imports Did Base64
begin

text \<open>
  \<^verbatim>\<open>identity/ucan.py\<close>: capabilities and their attenuation order, the token with its JWT
  form, the CID-indexed token store, and the chain validator that walks the proofs back to
  the household root. The lemmas show that signing and verifying agree, that attenuation is
  transitive on well-formed resources (and where it is not), and that a token the validator
  accepts holds no authority the root did not issue.
\<close>

subsection \<open>Capabilities\<close>

record capability =
  resource :: string
  ability :: string

definition is_attenuated_by :: "capability \<Rightarrow> capability \<Rightarrow> bool" where
  "is_attenuated_by self parent =
     (if ability self \<noteq> ability parent then False
      else if resource parent = ''*'' then True
      else if resource self = resource parent then True
      else if endswith (resource parent) ''/*''
        then (let pre = take (length (resource parent) - 2) (resource parent)
              in resource self = pre \<or> startswith (resource self) (pre @ ''/''))
      else startswith (resource self) (rstrip_char (CHR ''/'') (resource parent) @ ''/''))"

definition capability_to_dict :: "capability \<Rightarrow> pyval" where
  "capability_to_dict c = VDict [(''with'', VStr (resource c)), (''can'', VStr (ability c))]"

definition capability_from_dict :: "pyval \<Rightarrow> capability result" where
  "capability_from_dict v =
     bindE (as_dict v) (\<lambda>d.
     bindE (dict_item d ''with'') (\<lambda>w. bindE (as_str w) (\<lambda>r.
     bindE (dict_item d ''can'') (\<lambda>c. bindE (as_str c) (\<lambda>a.
       Inr \<lparr>resource = r, ability = a\<rparr>)))))"

subsection \<open>Tokens\<close>

record ucan_token =
  issuer :: did
  audience :: did
  ucan_caps :: "capability list"
  caveats :: "dict list"
  proofs :: "string list"
  facts :: dict
  not_before :: real
  expiration :: real
  nonce :: string
  raw_token :: "string option"
  raw_signature :: "bytes option"

definition token_expired :: "real \<Rightarrow> ucan_token \<Rightarrow> bool" where
  "token_expired now t = (expiration t > 0 \<and> now > expiration t)"

definition token_active :: "real \<Rightarrow> ucan_token \<Rightarrow> bool" where
  "token_active now t = (now \<ge> not_before t \<and> \<not> token_expired now t)"

definition cid :: "('k, 'z) lib_scheme \<Rightarrow> ucan_token \<Rightarrow> string result" where
  "cid L t = (case raw_token t of
       None \<Rightarrow> Inl (ValueError ''Token not yet signed; CID undefined'')
     | Some raw \<Rightarrow>
         (if raw = [] then Inl (ValueError ''Token not yet signed; CID undefined'')
          else Inr (''ucan:'' @ take 32 (sha256_hex L (encode_str raw)))))"

definition payload :: "ucan_token \<Rightarrow> pyval" where
  "payload t = VDict (
     [(''iss'', VStr (issuer t)), (''aud'', VStr (audience t)), (''nbf'', VFloat (not_before t)),
      (''nnc'', VStr (nonce t)), (''cap'', VList (map capability_to_dict (ucan_caps t)))]
     @ (if expiration t \<noteq> 0 then [(''exp'', VFloat (expiration t))] else [])
     @ (if caveats t \<noteq> [] then [(''cav'', VList (map VDict (caveats t)))] else [])
     @ (if proofs t \<noteq> [] then [(''prf'', VList (map VStr (proofs t)))] else [])
     @ (if facts t \<noteq> [] then [(''fct'', VDict (facts t))] else []))"

definition jwt_header :: pyval where
  "jwt_header = VDict [(''alg'', VStr ''EdDSA''), (''typ'', VStr ''JWT''), (''ucv'', VStr ''1.0'')]"

definition signing_input :: "('k, 'z) lib_scheme \<Rightarrow> ucan_token \<Rightarrow> string" where
  "signing_input L t = b64url (json_dumps L jwt_header) @ ''.'' @ b64url (json_dumps L (payload t))"

definition sign_token :: "('k, 'z) lib_scheme \<Rightarrow> 'k \<Rightarrow> ucan_token \<Rightarrow> ucan_token \<times> string" where
  "sign_token L key t =
     (let sig = ed_sign L key (encode_str (signing_input L t));
          token = signing_input L t @ ''.'' @ b64url sig
      in (t\<lparr>raw_token := Some token, raw_signature := Some sig\<rparr>, token))"

text \<open>\<open>token.split(".")\<close>\<close>

fun split_on :: "char \<Rightarrow> string \<Rightarrow> string list" where
  "split_on c [] = [[]]"
| "split_on c (x # s) =
     (if x = c then [] # split_on c s
      else (case split_on c s of [] \<Rightarrow> [[x]] | p # ps \<Rightarrow> (x # p) # ps))"

definition get_list :: "dict \<Rightarrow> string \<Rightarrow> (pyval \<Rightarrow> 'a result) \<Rightarrow> 'a list result" where
  "get_list d k f = (case dget d k of None \<Rightarrow> Inr []
                     | Some v \<Rightarrow> bindE (as_list v) (mapE f))"

definition decode_claims :: "real \<Rightarrow> dict \<Rightarrow> ucan_token result" where
  "decode_claims now p =
     bindE (bindE (dict_item p ''iss'') as_str) (\<lambda>iss.
     bindE (bindE (dict_item p ''aud'') as_str) (\<lambda>aud.
     bindE (get_list p ''cap'' capability_from_dict) (\<lambda>caps.
     bindE (get_list p ''cav'' as_dict) (\<lambda>cavs.
     bindE (get_list p ''prf'' as_str) (\<lambda>prfs.
     bindE (as_dict (dgetd p ''fct'' (VDict []))) (\<lambda>fct.
     bindE (as_float (dgetd p ''nbf'' (VFloat now))) (\<lambda>nbf.
     bindE (as_float (dgetd p ''exp'' (VFloat 0))) (\<lambda>ex.
     bindE (as_str (dgetd p ''nnc'' (VStr ''''))) (\<lambda>nnc.
       Inr \<lparr>issuer = iss, audience = aud, ucan_caps = caps, caveats = cavs, proofs = prfs,
            facts = fct, not_before = nbf, expiration = ex, nonce = nnc,
            raw_token = None, raw_signature = None\<rparr>)))))))))"

definition decode_token :: "('k, 'z) lib_scheme \<Rightarrow> real \<Rightarrow> string \<Rightarrow> ucan_token result" where
  "decode_token L now token =
     (case split_on (CHR ''.'') token of
        [p0, p1, p2] \<Rightarrow>
          bindE (bindE (bindE (b64url_decode p0) (json_loads L)) as_dict) (\<lambda>header.
          if dget header ''ucv'' \<noteq> Some (VStr ''1.0'')
          then Inl (ValueError ''Unsupported UCAN version'')
          else
          bindE (bindE (bindE (b64url_decode p1) (json_loads L)) as_dict) (\<lambda>p.
          bindE (b64url_decode p2) (\<lambda>sig.
          bindE (decode_claims now p) (\<lambda>t.
            Inr (t\<lparr>raw_token := Some token, raw_signature := Some sig\<rparr>)))))
      | _ \<Rightarrow> Inl (ValueError ''UCAN JWT must have 3 parts''))"

definition verify_token :: "('k, 'z) lib_scheme \<Rightarrow> real \<Rightarrow> string \<Rightarrow> ucan_token result" where
  "verify_token L now token =
     bindE (decode_token L now token) (\<lambda>t.
     bindE (did_to_public_key (issuer t)) (\<lambda>pk.
     let parts = split_on (CHR ''.'') token;
         input = encode_str (parts ! 0 @ ''.'' @ parts ! 1);
         sig = (case raw_signature t of None \<Rightarrow> [] | Some s \<Rightarrow> s)
     in if ed_verify L pk input sig then Inr t
        else Inl (ValueError ''UCAN signature verification failed'')))"

subsection \<open>The token store and the chain validator\<close>

type_synonym ucan_store = "(string \<times> string) list"

definition store_token ::
    "('k, 'z) lib_scheme \<Rightarrow> real \<Rightarrow> ucan_store \<Rightarrow> string \<Rightarrow> (ucan_store \<times> string) result" where
  "store_token L now st token =
     bindE (decode_token L now token) (\<lambda>t. bindE (cid L t) (\<lambda>c. Inr (dset c token st, c)))"

text \<open>
  One token of the chain, without its proofs: signature, validity window, revocation, and
  the capability the caller requires (only the outermost call passes one).
\<close>

definition check_token ::
    "('k, 'z) lib_scheme \<Rightarrow> real \<Rightarrow> did list \<Rightarrow> capability option \<Rightarrow> string \<Rightarrow> ucan_token result" where
  "check_token L now revoked req token =
     bindE (verify_token L now token) (\<lambda>u.
     bindE (raise_if (\<not> token_active now u \<and> token_expired now u) (ValueError ''UCAN expired'')) (\<lambda>_.
     bindE (raise_if (\<not> token_active now u) (ValueError ''UCAN not yet active'')) (\<lambda>_.
     bindE (raise_if (issuer u \<in> set revoked) (ValueError ''Issuer is revoked'')) (\<lambda>_.
     bindE (raise_if (audience u \<in> set revoked) (ValueError ''Audience is revoked'')) (\<lambda>_.
     bindE (raise_if (case req of None \<Rightarrow> False
                      | Some c \<Rightarrow> \<not> list_ex (is_attenuated_by c) (ucan_caps u))
             (ValueError ''Required capability not satisfied by this token'')) (\<lambda>_. Inr u))))))"

definition caps_attenuated :: "ucan_token \<Rightarrow> ucan_token \<Rightarrow> bool" where
  "caps_attenuated u parent = list_all (\<lambda>c. list_ex (is_attenuated_by c) (ucan_caps parent)) (ucan_caps u)"

text \<open>
  The checks on one proof before the recursion: it is in the store, was issued to the
  issuer of the token, and holds every capability of the token.
\<close>

definition check_proof ::
    "('k, 'z) lib_scheme \<Rightarrow> real \<Rightarrow> ucan_store \<Rightarrow> ucan_token \<Rightarrow> string \<Rightarrow> string result" where
  "check_proof L now st u pc =
     bindE (from_option (ValueError ''Proof not found in store'') (dget st pc)) (\<lambda>ps.
     bindE (decode_token L now ps) (\<lambda>p.
     bindE (raise_if (audience p \<noteq> issuer u) (ValueError ''Proof audience != token issuer'')) (\<lambda>_.
     bindE (raise_if (\<not> caps_attenuated u p) (ValueError ''Capability not attenuated by parent'')) (\<lambda>_.
       Inr ps))))"

text \<open>
  \<open>_validate_chain\<close>. The first argument counts the levels that are left: the source raises at
  depth 17, so the outermost call has 17 levels (\<open>max_depth\<close>), and running out of levels is
  that error.
\<close>

definition max_depth :: nat where
  "max_depth = 17"

fun validate_at ::
    "nat \<Rightarrow> ('k, 'z) lib_scheme \<Rightarrow> real \<Rightarrow> ucan_store \<Rightarrow> did \<Rightarrow> did list \<Rightarrow> capability option
      \<Rightarrow> string \<Rightarrow> unit result" where
  "validate_at 0 L now st root_did revoked req token = Inl (ValueError ''UCAN chain too deep (>16)'')"
| "validate_at (Suc n) L now st root_did revoked req token =
     bindE (check_token L now revoked req token) (\<lambda>u.
     if proofs u = [] then
       raise_if (issuer u \<noteq> root_did) (ValueError ''Chain terminus issuer != expected root'')
     else eachE (\<lambda>pc. bindE (check_proof L now st u pc)
            (\<lambda>ps. validate_at n L now st root_did revoked None ps)) (proofs u))"

definition validate_chain ::
    "('k, 'z) lib_scheme \<Rightarrow> real \<Rightarrow> ucan_store \<Rightarrow> string \<Rightarrow> did \<Rightarrow> capability option \<Rightarrow> did list
      \<Rightarrow> unit result" where
  "validate_chain L now st token root_did req revoked = validate_at max_depth L now st root_did revoked req token"

subsection \<open>Builders\<close>

definition household_abilities :: "string list" where
  "household_abilities =
     [''aries/household.member'', ''aries/identity.delegate'', ''aries/context.read'',
      ''aries/context.write'', ''aries/agent.invoke'', ''aries/handoff.send'',
      ''aries/handoff.accept'']"

definition membership_token :: "real \<Rightarrow> string \<Rightarrow> did \<Rightarrow> did \<Rightarrow> ucan_token" where
  "membership_token now nnc root_did device_did =
     \<lparr>issuer = root_did, audience = device_did,
      ucan_caps = map (\<lambda>a. \<lparr>resource = ''*'', ability = a\<rparr>) household_abilities,
      caveats = [], proofs = [],
      facts = [(''household'', VStr root_did), (''role'', VStr ''device'')],
      not_before = now, expiration = 0, nonce = nnc, raw_token = None, raw_signature = None\<rparr>"

definition build_household_membership ::
    "('k, 'z) lib_scheme \<Rightarrow> real \<Rightarrow> string \<Rightarrow> 'k \<Rightarrow> did \<Rightarrow> did \<Rightarrow> string" where
  "build_household_membership L now nnc root_key root_did device_did =
     snd (sign_token L root_key (membership_token now nnc root_did device_did))"

definition agent_token ::
    "real \<Rightarrow> string \<Rightarrow> did \<Rightarrow> did \<Rightarrow> capability list \<Rightarrow> real \<Rightarrow> string option \<Rightarrow> dict list \<Rightarrow> ucan_token" where
  "agent_token now nnc device_did agent_did caps ttl parent cavs =
     \<lparr>issuer = device_did, audience = agent_did, ucan_caps = caps, caveats = cavs,
      proofs = (case parent of None \<Rightarrow> [] | Some p \<Rightarrow> if p = [] then [] else [p]),
      facts = [], not_before = now, expiration = now + ttl, nonce = nnc,
      raw_token = None, raw_signature = None\<rparr>"

definition build_agent_token ::
    "('k, 'z) lib_scheme \<Rightarrow> real \<Rightarrow> string \<Rightarrow> 'k \<Rightarrow> did \<Rightarrow> did \<Rightarrow> capability list \<Rightarrow> real
      \<Rightarrow> string option \<Rightarrow> dict list \<Rightarrow> string" where
  "build_agent_token L now nnc device_key device_did agent_did caps ttl parent cavs =
     snd (sign_token L device_key (agent_token now nnc device_did agent_did caps ttl parent cavs))"

subsection \<open>The token text\<close>

lemma split_on_no_sep: "c \<notin> set s \<Longrightarrow> split_on c s = [s]"
  by (induction s) auto

lemma split_on_append: "c \<notin> set s \<Longrightarrow> split_on c (s @ c # t) = s # split_on c t"
  by (induction s) auto

lemma split_jwt:
  "split_on (CHR ''.'') (b64url a @ ''.'' @ b64url b @ ''.'' @ b64url c) = [b64url a, b64url b, b64url c]"
  using dot_notin_b64url by (simp add: split_on_append split_on_no_sep)

lemma capability_roundtrip [simp]: "capability_from_dict (capability_to_dict c) = Inr c"
  by (simp add: capability_from_dict_def capability_to_dict_def dict_item_def)

lemma get_list_map:
  "(\<And>x. x \<in> set xs \<Longrightarrow> f (g x) = Inr x) \<Longrightarrow> dget d k = Some (VList (map g xs)) \<Longrightarrow> get_list d k f = Inr xs"
  using mapE_map[of xs f g "\<lambda>x. x"] by (simp add: get_list_def)

lemma get_list_missing: "dget d k = None \<Longrightarrow> get_list d k f = Inr []"
  by (simp add: get_list_def)

lemma decode_payload:
  assumes "payload t = VDict p"
  shows "decode_claims now p = Inr (t\<lparr>raw_token := None, raw_signature := None\<rparr>)"
proof -
  have d: "dget p ''iss'' = Some (VStr (issuer t))" "dget p ''aud'' = Some (VStr (audience t))"
    "dget p ''nbf'' = Some (VFloat (not_before t))" "dget p ''nnc'' = Some (VStr (nonce t))"
    "dget p ''cap'' = Some (VList (map capability_to_dict (ucan_caps t)))"
    "dget p ''exp'' = (if expiration t \<noteq> 0 then Some (VFloat (expiration t)) else None)"
    "dget p ''cav'' = (if caveats t \<noteq> [] then Some (VList (map VDict (caveats t))) else None)"
    "dget p ''prf'' = (if proofs t \<noteq> [] then Some (VList (map VStr (proofs t))) else None)"
    "dget p ''fct'' = (if facts t \<noteq> [] then Some (VDict (facts t)) else None)"
    using assms by (auto simp: payload_def)
  have "get_list p ''cap'' capability_from_dict = Inr (ucan_caps t)"
    by (rule get_list_map[OF _ d(5)]) simp
  moreover have "get_list p ''cav'' as_dict = Inr (caveats t)"
    using d(7) by (cases "caveats t = []") (simp_all add: get_list_missing get_list_map[where g = VDict])
  moreover have "get_list p ''prf'' as_str = Inr (proofs t)"
    using d(8) by (cases "proofs t = []") (simp_all add: get_list_missing get_list_map[where g = VStr])
  moreover have "as_dict (dgetd p ''fct'' (VDict [])) = Inr (facts t)"
    "as_float (dgetd p ''nbf'' (VFloat now)) = Inr (not_before t)"
    "as_float (dgetd p ''exp'' (VFloat 0)) = Inr (expiration t)"
    "as_str (dgetd p ''nnc'' (VStr '''')) = Inr (nonce t)"
    using d by (auto simp: dgetd_def)
  ultimately show ?thesis
    using d by (simp add: decode_claims_def dict_item_def)
qed

definition json_ok :: "('k, 'z) lib_scheme \<Rightarrow> pyval \<Rightarrow> bool" where
  "json_ok L v \<longleftrightarrow> json_loads L (json_dumps L v) = Inr v"

lemma decode_signed:
  assumes "json_ok L jwt_header" and "json_ok L (payload t)"
  shows "decode_token L now (snd (sign_token L key t)) = Inr (fst (sign_token L key t))"
proof -
  obtain p where p: "payload t = VDict p" by (simp add: payload_def)
  then show ?thesis
    using assms decode_payload[OF p, of now]
    by (simp add: decode_token_def sign_token_def Let_def signing_input_def json_ok_def
        split_jwt[simplified] b64url_decode_b64url jwt_header_def)
qed

lemma verify_signed_token:
  assumes "ed25519_ok L" and "json_ok L jwt_header" and "json_ok L (payload t)"
    and "public_key_to_did (ed_public L key) = Inr (issuer t)"
  shows "verify_token L now (snd (sign_token L key t)) = Inr (fst (sign_token L key t))"
proof -
  have "issuer (fst (sign_token L key t)) = issuer t" by (simp add: sign_token_def Let_def)
  moreover have "did_to_public_key (issuer t) = Inr (ed_public L key)"
    using did_key.dec_enc assms(1,4) by (simp add: ed25519_ok_def key_length_ok_def)
  ultimately show ?thesis
    using assms decode_signed[OF assms(2,3), of now key]
    by (simp add: verify_token_def sign_token_def Let_def signing_input_def ed25519_ok_def
        split_jwt[simplified])
qed

text \<open>
  A concrete library for the witnesses, with two keys: a signature is the public key followed
  by the message, and the JSON text of a value is its position in a given list.
\<close>

definition position :: "'a \<Rightarrow> 'a list \<Rightarrow> nat" where
  "position x xs = length (takeWhile (\<lambda>y. y \<noteq> x) xs)"

definition demo_lib :: "pyval list \<Rightarrow> bool lib" where
  "demo_lib vs = \<lparr>ed_public = (\<lambda>k. replicate 32 (if k then 1 else 0)),
     ed_sign = (\<lambda>k m. replicate 32 (if k then 1 else 0) @ m),
     ed_verify = (\<lambda>pk m s. s = pk @ m), digest_hex = (\<lambda>b. map (\<lambda>w. char_of (unat w)) b),
     sha256_hex = (\<lambda>b. map (\<lambda>w. char_of (unat w)) b),
     json_dumps = (\<lambda>w. [of_nat (position w vs)]),
     json_loads = (\<lambda>b. case b of [i] \<Rightarrow> if unat i < length vs then Inr (vs ! unat i)
                                        else Inl (ValueError ''Expecting value'')
                                | _ \<Rightarrow> Inl (ValueError ''Expecting value''))\<rparr>"

lemma demo_lib_ed25519: "ed25519_ok (demo_lib vs)"
  by (simp add: demo_lib_def ed25519_ok_def)

lemma position_nth: "x \<in> set xs \<Longrightarrow> position x xs < length xs \<and> xs ! position x xs = x"
  by (induction xs) (auto simp: position_def)

lemma demo_lib_json: "v \<in> set vs \<Longrightarrow> length vs < 256 \<Longrightarrow> json_ok (demo_lib vs) v"
  using position_nth[of v vs] by (simp add: demo_lib_def json_ok_def unat_of_nat)

definition demo_did :: "bool \<Rightarrow> did" where
  "demo_did k = DID_PREFIX @ b58encode (ED25519_MULTICODEC @ replicate 32 (if k then 1 else 0))"

lemma demo_did_key: "public_key_to_did (ed_public (demo_lib vs) k) = Inr (demo_did k)"
  by (simp add: demo_did_def demo_lib_def public_key_to_did_def)

subsection \<open>Attenuation\<close>

text \<open>What a resource string covers, apart from the ability.\<close>

definition covers :: "string \<Rightarrow> string \<Rightarrow> bool" where
  "covers p r = (p = ''*'' \<or> r = p
     \<or> (if endswith p ''/*'' then r = take (length p - 2) p \<or> startswith r (take (length p - 2) p @ ''/'')
        else startswith r (rstrip_char (CHR ''/'') p @ ''/'')))"

lemma attenuated_iff_covers:
  "is_attenuated_by self parent \<longleftrightarrow> ability self = ability parent \<and> covers (resource parent) (resource self)"
  by (auto simp: is_attenuated_by_def covers_def Let_def)

lemma covers_refl [simp]: "covers p p"
  by (simp add: covers_def)

lemma covers_star [simp]: "covers ''*'' r"
  by (simp add: covers_def)

lemma glob_facts [simp]:
  "endswith (q @ ''/*'') ''/*''" "take (length (q @ ''/*'') - 2) (q @ ''/*'') = q"
  by (simp_all add: suffix_def)

lemma star_no_slash: "\<not> prefix (p @ ''/'') ''*''"
  by (cases p) auto

lemma covers_glob: "covers (q @ ''/*'') r \<longleftrightarrow> r = q @ ''/*'' \<or> r = q \<or> startswith r (q @ ''/'')"
proof -
  have "q @ ''/*'' \<noteq> ''*''" by (cases q) auto
  then show ?thesis by (auto simp: covers_def)
qed

text \<open>
  A resource is well-formed when its only \<open>*\<close> is the whole string or a final \<open>/*\<close>, and a
  resource without one does not end in a slash.
\<close>

definition wf_resource :: "string \<Rightarrow> bool" where
  "wf_resource r =
     (r = ''*'' \<or>
      (if endswith r ''/*'' then CHR ''*'' \<notin> set (take (length r - 2) r)
       else CHR ''*'' \<notin> set r \<and> \<not> endswith r ''/''))"

lemma wf_resource_cases:
  assumes "wf_resource r"
  obtains (star) "r = ''*''"
    | (glob) q where "r = q @ ''/*''" "CHR ''*'' \<notin> set q"
    | (plain) "CHR ''*'' \<notin> set r" "\<not> endswith r ''/''" "\<not> endswith r ''/*''" "r \<noteq> ''*''"
  using assms by (force simp: wf_resource_def suffix_def split: if_splits)

lemma rstrip_id: "\<not> endswith r [c] \<Longrightarrow> rstrip_char c r = r"
  by (cases r rule: rev_cases) (auto simp: rstrip_char_snoc suffix_def)

lemma covers_plain:
  "\<not> endswith p ''/'' \<Longrightarrow> \<not> endswith p ''/*'' \<Longrightarrow> p \<noteq> ''*'' \<Longrightarrow>
     covers p r \<longleftrightarrow> r = p \<or> startswith r (p @ ''/'')"
  by (auto simp: covers_def rstrip_id)

lemma slash_prefix_slash:
  "prefix (p @ ''/'') (q @ ''/'') \<Longrightarrow> p = q \<or> prefix (p @ ''/'') q"
  by (metis append1_eq_conv prefix_snoc)

lemma slash_prefix_glob:
  assumes "CHR ''*'' \<notin> set p" and "prefix (p @ ''/'') (q @ ''/*'')"
  shows "p = q \<or> prefix (p @ ''/'') q"
proof -
  have "prefix (p @ ''/'') ((q @ ''/'') @ ''*'')" using assms(2) by simp
  then have "p @ ''/'' = (q @ ''/'') @ ''*'' \<or> prefix (p @ ''/'') (q @ ''/'')"
    by (metis append_Nil2 prefix_append prefix_snoc)
  then show ?thesis
  proof
    assume "p @ ''/'' = (q @ ''/'') @ ''*''"
    then show ?thesis by simp
  qed (rule slash_prefix_slash)
qed

lemma covers_mono_slash:
  "p = q \<or> prefix (p @ ''/'') q \<Longrightarrow> r = q \<or> prefix (q @ ''/'') r \<Longrightarrow> r = p \<or> prefix (p @ ''/'') r"
  by (metis prefix_order.trans prefixI)

lemma covers_trans:
  assumes "wf_resource b" and "wf_resource c" and cb: "covers c b" and ba: "covers b a"
  shows "covers c a"
  using assms(2)
proof (cases rule: wf_resource_cases)
  case star
  then show ?thesis by simp
next
  case (glob p)
  note c = this
  show ?thesis using assms(1)
  proof (cases rule: wf_resource_cases)
    case star
    with cb c star_no_slash[of p] show ?thesis by (auto simp: covers_glob append_eq_Cons_conv)
  next
    case (glob q)
    have "p = q \<or> prefix (p @ ''/'') q"
      using cb c glob slash_prefix_glob[of p q] by (auto simp: covers_glob)
    with ba c glob covers_mono_slash[of p q a] show ?thesis
      by (auto simp: covers_glob prefix_def)
  next
    case plain
    have "b = p \<or> prefix (p @ ''/'') b" using cb c plain by (auto simp: covers_glob)
    with ba c plain covers_mono_slash[of p b a] show ?thesis
      by (auto simp: covers_glob covers_plain)
  qed
next
  case plain
  note c = this
  show ?thesis using assms(1)
  proof (cases rule: wf_resource_cases)
    case star
    with cb c star_no_slash[of c] show ?thesis by (auto simp: covers_plain)
  next
    case (glob q)
    have "c = q \<or> prefix (c @ ''/'') q"
      using cb c glob slash_prefix_glob[of c q] by (auto simp: covers_plain)
    with ba c glob covers_mono_slash[of c q a] show ?thesis
      by (auto simp: covers_glob covers_plain prefix_def)
  next
    case plain
    with cb ba c covers_mono_slash[of c b a] show ?thesis
      by (auto simp: covers_plain)
  qed
qed

lemma attenuated_trans:
  assumes "is_attenuated_by a b" and "is_attenuated_by b c"
    and "wf_resource (resource b)" and "wf_resource (resource c)"
  shows "is_attenuated_by a c"
  using assms covers_trans[of "resource b" "resource c" "resource a"]
  by (simp add: attenuated_iff_covers)

subsection \<open>What the validator accepts\<close>

text \<open>
  The specification of an acceptable token: it verifies, is active, neither party is
  revoked, and it either was issued by the root and has no proofs, or every proof it names is
  in the store, was issued to its issuer, holds at least its capabilities, and is itself
  acceptable.
\<close>

inductive delegated ::
    "('k, 'z) lib_scheme \<Rightarrow> real \<Rightarrow> ucan_store \<Rightarrow> did \<Rightarrow> did list \<Rightarrow> string \<Rightarrow> ucan_token \<Rightarrow> bool"
  for L now st root_did revoked where
  by_root: "check_token L now revoked None token = Inr u \<Longrightarrow> proofs u = [] \<Longrightarrow> issuer u = root_did
     \<Longrightarrow> delegated L now st root_did revoked token u"
| by_proofs: "check_token L now revoked None token = Inr u \<Longrightarrow> proofs u \<noteq> [] \<Longrightarrow>
     (\<And>pc. pc \<in> set (proofs u) \<Longrightarrow> \<exists>ps p. dget st pc = Some ps \<and> audience p = issuer u
        \<and> caps_attenuated u p \<and> delegated L now st root_did revoked ps p)
     \<Longrightarrow> delegated L now st root_did revoked token u"

inductive_cases delegatedE: "delegated L now st root_did revoked token u"

lemma check_token_req:
  "check_token L now revoked (Some c) token = Inr u \<longleftrightarrow>
     check_token L now revoked None token = Inr u \<and> list_ex (is_attenuated_by c) (ucan_caps u)"
  by (auto simp: check_token_def bindE_eq_Inr_iff raise_if_eq_Inr_iff)

lemma check_token_None:
  "check_token L now revoked None token = Inr u \<longleftrightarrow>
     verify_token L now token = Inr u \<and> token_active now u
     \<and> issuer u \<notin> set revoked \<and> audience u \<notin> set revoked"
  by (auto simp: check_token_def bindE_eq_Inr_iff raise_if_eq_Inr_iff)

lemma check_token_weaken:
  "check_token L now revoked req token = Inr u \<Longrightarrow> check_token L now revoked None token = Inr u"
  by (cases req) (simp_all add: check_token_req)

lemma verify_decodes: "verify_token L now token = Inr u \<Longrightarrow> decode_token L now token = Inr u"
  by (auto simp: verify_token_def bindE_eq_Inr_iff Let_def split: if_splits)

lemma check_decodes: "check_token L now revoked req token = Inr u \<Longrightarrow> decode_token L now token = Inr u"
  using check_token_weaken check_token_None verify_decodes by blast

lemma check_proof_iff:
  "check_proof L now st u pc = Inr ps \<longleftrightarrow>
     dget st pc = Some ps \<and> (\<exists>p. decode_token L now ps = Inr p \<and> audience p = issuer u \<and> caps_attenuated u p)"
  by (auto simp: check_proof_def bindE_eq_Inr_iff raise_if_eq_Inr_iff from_option_eq_Inr_iff)

lemma validate_at_delegated:
  "validate_at n L now st root_did revoked req token = Inr () \<Longrightarrow>
     \<exists>u. check_token L now revoked req token = Inr u \<and> delegated L now st root_did revoked token u"
proof (induction n arbitrary: req token)
  case (Suc n)
  then obtain u where u: "check_token L now revoked req token = Inr u"
    by (auto simp: bindE_eq_Inr_iff)
  then have u0: "check_token L now revoked None token = Inr u" by (rule check_token_weaken)
  have "delegated L now st root_did revoked token u"
  proof (cases "proofs u = []")
    case True
    with Suc.prems u u0 show ?thesis
      by (auto simp: raise_if_eq_Inr_iff intro: delegated.by_root)
  next
    case False
    show ?thesis
    proof (rule delegated.by_proofs[OF u0 False])
      fix pc assume "pc \<in> set (proofs u)"
      with Suc.prems u False obtain ps p where
        "dget st pc = Some ps" and dec: "decode_token L now ps = Inr p"
        and "audience p = issuer u" "caps_attenuated u p"
        and v: "validate_at n L now st root_did revoked None ps = Inr ()"
        by (auto simp: eachE_Inr_iff check_proof_iff bindE_eq_Inr_iff)
      moreover obtain p' where "check_token L now revoked None ps = Inr p'"
        "delegated L now st root_did revoked ps p'" using Suc.IH[OF v] by blast
      moreover from this dec have "p' = p" using check_decodes by fastforce
      ultimately show "\<exists>ps p. dget st pc = Some ps \<and> audience p = issuer u
        \<and> caps_attenuated u p \<and> delegated L now st root_did revoked ps p" by blast
    qed
  qed
  with u show ?case by blast
qed simp

text \<open>A token that verifies, is active, unrevoked and was issued by the root without proofs.\<close>

definition root_token ::
    "('k, 'z) lib_scheme \<Rightarrow> real \<Rightarrow> did \<Rightarrow> did list \<Rightarrow> ucan_token \<Rightarrow> bool" where
  "root_token L now root_did revoked r \<longleftrightarrow>
     (\<exists>tok. verify_token L now tok = Inr r) \<and> token_active now r \<and> proofs r = []
     \<and> issuer r = root_did \<and> issuer r \<notin> set revoked \<and> audience r \<notin> set revoked"

definition wf_token :: "ucan_token \<Rightarrow> bool" where
  "wf_token u = list_all (\<lambda>c. wf_resource (resource c)) (ucan_caps u)"

lemma caps_attenuated_trans:
  assumes "caps_attenuated u p" and "wf_token p" and "wf_token r"
    and "\<forall>c \<in> set (ucan_caps p). \<exists>rc \<in> set (ucan_caps r). is_attenuated_by c rc"
  shows "\<forall>c \<in> set (ucan_caps u). \<exists>rc \<in> set (ucan_caps r). is_attenuated_by c rc"
proof
  fix c assume "c \<in> set (ucan_caps u)"
  with assms(1) obtain pc where pc: "pc \<in> set (ucan_caps p)" "is_attenuated_by c pc"
    by (auto simp: caps_attenuated_def list_all_iff list_ex_iff)
  with assms(4) obtain rc where rc: "rc \<in> set (ucan_caps r)" "is_attenuated_by pc rc" by blast
  from assms(2,3) pc rc have "wf_resource (resource pc)" "wf_resource (resource rc)"
    by (auto simp: wf_token_def list_all_iff)
  with pc rc attenuated_trans show "\<exists>rc \<in> set (ucan_caps r). is_attenuated_by c rc" by blast
qed

lemma delegated_root_authority:
  assumes "delegated L now st root_did revoked token u"
    and "\<And>cd ps p. dget st cd = Some ps \<Longrightarrow> decode_token L now ps = Inr p \<Longrightarrow> wf_token p"
  shows "\<exists>r. root_token L now root_did revoked r \<and> (r = u \<or> wf_token r) \<and>
    (\<forall>c \<in> set (ucan_caps u). \<exists>rc \<in> set (ucan_caps r). is_attenuated_by c rc)"
  using assms(1)
proof (induction rule: delegated.induct)
  case (by_root token u)
  then have "root_token L now root_did revoked u"
    by (auto simp: root_token_def check_token_None)
  moreover have "\<forall>c \<in> set (ucan_caps u). \<exists>rc \<in> set (ucan_caps u). is_attenuated_by c rc"
    by (metis attenuated_iff_covers covers_refl)
  ultimately show ?case by blast
next
  case (by_proofs token u)
  then obtain pc where "pc \<in> set (proofs u)" by (cases "proofs u") auto
  from by_proofs.IH[OF this] obtain ps p r where st: "dget st pc = Some ps"
    and att: "caps_attenuated u p"
    and del: "delegated L now st root_did revoked ps p"
    and r: "root_token L now root_did revoked r" "r = p \<or> wf_token r"
    and pr: "\<forall>c \<in> set (ucan_caps p). \<exists>rc \<in> set (ucan_caps r). is_attenuated_by c rc"
    by auto
  from del have "decode_token L now ps = Inr p" by (cases rule: delegated.cases) (auto intro: check_decodes)
  with assms(2) st have wfp: "wf_token p" by blast
  with r have "wf_token r" by blast
  with caps_attenuated_trans[OF att wfp _ pr] r show ?case by blast
qed

subsection \<open>The tokens the household builds\<close>

lemma list_ex_single: "list_ex P [x] \<longleftrightarrow> P x" by simp

lemma fst_sign_token_fields [simp]:
  "issuer (fst (sign_token L k t)) = issuer t" "audience (fst (sign_token L k t)) = audience t"
  "ucan_caps (fst (sign_token L k t)) = ucan_caps t" "proofs (fst (sign_token L k t)) = proofs t"
  "not_before (fst (sign_token L k t)) = not_before t"
  "expiration (fst (sign_token L k t)) = expiration t"
  by (simp_all add: sign_token_def Let_def)

lemma check_signed_token:
  assumes "ed25519_ok L" "json_ok L jwt_header" "json_ok L (payload t)"
    and "public_key_to_did (ed_public L key) = Inr (issuer t)"
    and "token_active now t" "issuer t \<notin> set revoked" "audience t \<notin> set revoked"
  shows "check_token L now revoked None (snd (sign_token L key t)) = Inr (fst (sign_token L key t))"
  using assms verify_signed_token[OF assms(1-4)]
  by (simp add: check_token_None token_active_def token_expired_def)

lemma sign_token_raw:
  "raw_token (fst (sign_token L k t)) = Some (snd (sign_token L k t))" "snd (sign_token L k t) \<noteq> []"
  by (simp_all add: sign_token_def Let_def signing_input_def)

lemma membership_covers:
  "ability c \<in> set household_abilities \<Longrightarrow>
     list_ex (is_attenuated_by c) (ucan_caps (membership_token now nnc r d))"
  by (auto simp: list_ex_iff membership_token_def is_attenuated_by_def)

text \<open>
  A chain of two: a membership token the root issued to a device, and a token the device
  issued to an agent with the membership as its proof.
\<close>

lemma agent_chain_valid:
  fixes L :: "('k, 'z) lib_scheme"
  assumes L: "ed25519_ok L" "json_ok L jwt_header" "json_ok L (payload m)" "json_ok L (payload a)"
    and m: "m = membership_token t0 n0 root_did dev_did"
    and a: "a = agent_token t1 n1 dev_did agent_did caps ttl (Some mc) []"
    and keys: "public_key_to_did (ed_public L rk) = Inr root_did"
      "public_key_to_did (ed_public L dk) = Inr dev_did"
    and mc: "mc \<noteq> []" "dget st mc = Some (snd (sign_token L rk m))"
    and caps: "\<forall>c \<in> set caps. ability c \<in> set household_abilities"
    and time: "t0 \<le> now" "t1 \<le> now" "now \<le> t1 + ttl"
    and live: "root_did \<notin> set revoked" "dev_did \<notin> set revoked" "agent_did \<notin> set revoked"
    and req: "list_ex (is_attenuated_by c) caps"
  shows "validate_chain L now st (snd (sign_token L dk a)) root_did (Some c) revoked = Inr ()"
proof -
  let ?m = "fst (sign_token L rk m)" and ?ms = "snd (sign_token L rk m)"
  let ?a = "fst (sign_token L dk a)"
  have fm: "issuer m = root_did" "audience m = dev_did" "proofs m = []" "token_active now m"
    using time by (simp_all add: m membership_token_def token_active_def token_expired_def)
  have fa: "issuer a = dev_did" "audience a = agent_did" "proofs a = [mc]" "ucan_caps a = caps"
    "token_active now a"
    using time mc by (simp_all add: a agent_token_def token_active_def token_expired_def)
  have cm: "check_token L now revoked None ?ms = Inr ?m"
    using check_signed_token[OF L(1-3)] keys(1) fm live by simp
  have "check_token L now revoked None (snd (sign_token L dk a)) = Inr ?a"
    using check_signed_token[OF L(1,2,4)] keys(2) fa live by simp
  then have ca: "check_token L now revoked (Some c) (snd (sign_token L dk a)) = Inr ?a"
    using req fa by (simp add: check_token_req)
  have "caps_attenuated ?a ?m"
    using caps fa membership_covers by (auto simp: caps_attenuated_def list_all_iff m)
  then have "check_proof L now st ?a mc = Inr ?ms"
    using mc check_decodes[OF cm] fa fm by (auto simp: check_proof_iff)
  moreover have "validate_at (Suc n) L now st root_did revoked None ?ms = Inr ()" for n
    using cm fm by simp
  ultimately show ?thesis
    using ca fa by (simp add: validate_chain_def max_depth_def numeral_eq_Suc)
qed

lemma self_proof_rejected:
  assumes "decode_token L now token = Inr u" and "pc \<in> set (proofs u)" and "dget st pc = Some token"
  shows "validate_at n L now st root_did revoked req token \<noteq> Inr ()"
proof (induction n arbitrary: req)
  case (Suc n)
  show ?case
  proof
    assume ok: "validate_at (Suc n) L now st root_did revoked req token = Inr ()"
    then obtain u' where "check_token L now revoked req token = Inr u'"
      by (auto simp: bindE_eq_Inr_iff)
    with check_decodes assms(1) have "check_token L now revoked req token = Inr u" by fastforce
    with ok assms(2) have "bindE (check_proof L now st u pc)
        (validate_at n L now st root_did revoked None) = Inr ()"
      by (cases "proofs u = []") (auto simp: eachE_Inr_iff)
    with Suc.IH assms(3) show False by (auto simp: bindE_eq_Inr_iff check_proof_iff)
  qed
qed simp

subsection \<open>Properties\<close>

definition demo_membership :: ucan_token where
  "demo_membership = membership_token 0 ''n'' (demo_did True) (demo_did False)"

definition demo_agent :: ucan_token where
  "demo_agent = agent_token 0 ''n'' (demo_did False) ''agent''
     [\<lparr>resource = ''aries:context://*'', ability = ''aries/context.write''\<rparr>] 86400 (Some ''m'') []"

definition demo_values :: "pyval list" where
  "demo_values = [jwt_header, payload demo_membership, payload demo_agent]"

lemma demo_json:
  "json_ok (demo_lib demo_values) jwt_header" "json_ok (demo_lib demo_values) (payload demo_membership)"
  "json_ok (demo_lib demo_values) (payload demo_agent)"
  by (auto intro!: demo_lib_json simp: demo_values_def)

text \<open>
  C32: a token signed with the key its issuer DID names verifies, and verifying gives back the
  token with every field it was built with, for any Ed25519 that verifies its own signatures
  and any JSON text form that reads back the two values written.
\<close>

theorem ucan_sign_verify:
  assumes "ed25519_ok L" and "json_ok L jwt_header" and "json_ok L (payload t)"
    and "public_key_to_did (ed_public L key) = Inr (issuer t)"
  shows "verify_token L now (snd (sign_token L key t))
           = Inr (t\<lparr>raw_token := Some (snd (sign_token L key t)),
                   raw_signature := Some (ed_sign L key (encode_str (signing_input L t)))\<rparr>)"
  using verify_signed_token[OF assms, of now] by (simp add: sign_token_def Let_def)

theorem ucan_sign_verify_witness:
  "verify_token (demo_lib demo_values) 5 (snd (sign_token (demo_lib demo_values) True demo_membership))
     = Inr (demo_membership\<lparr>raw_token := Some (snd (sign_token (demo_lib demo_values) True demo_membership)),
         raw_signature := Some (ed_sign (demo_lib demo_values) True
           (encode_str (signing_input (demo_lib demo_values) demo_membership)))\<rparr>)"
  by (rule ucan_sign_verify[OF demo_lib_ed25519 demo_json(1,2)])
    (simp add: demo_lib_def demo_did_def demo_membership_def membership_token_def public_key_to_did_def)

text \<open>
  Attenuation is transitive along well-formed resources: what a delegate passes on never
  exceeds what its own delegator held.
\<close>

theorem attenuation_transitive:
  assumes "is_attenuated_by a b" and "is_attenuated_by b c"
    and "wf_resource (resource b)" and "wf_resource (resource c)"
  shows "is_attenuated_by a c"
  using assms by (rule attenuated_trans)

theorem attenuation_transitive_witness:
  "is_attenuated_by \<lparr>resource = ''m://t/a/b'', ability = ''w''\<rparr> \<lparr>resource = ''m://*'', ability = ''w''\<rparr>"
  by (rule attenuation_transitive[where b = "\<lparr>resource = ''m://t/a'', ability = ''w''\<rparr>"])
    (simp_all add: is_attenuated_by_def wf_resource_def suffix_def rstrip_char_def)

text \<open>
  Without well-formed resources attenuation is not transitive. A holder of the resource
  \<open>*/*\<close> covers only paths below a literal star, yet the bare wildcard \<open>*\<close>, which covers
  everything, passes as its attenuation; one more delegation step then reaches any resource.
\<close>

theorem wildcard_escalation:
  "is_attenuated_by \<lparr>resource = ''aries:memory://x'', ability = ''aries/context.write''\<rparr>
                    \<lparr>resource = ''*'', ability = ''aries/context.write''\<rparr>
   \<and> is_attenuated_by \<lparr>resource = ''*'', ability = ''aries/context.write''\<rparr>
                    \<lparr>resource = ''*/*'', ability = ''aries/context.write''\<rparr>
   \<and> \<not> is_attenuated_by \<lparr>resource = ''aries:memory://x'', ability = ''aries/context.write''\<rparr>
                    \<lparr>resource = ''*/*'', ability = ''aries/context.write''\<rparr>"
  by (simp add: is_attenuated_by_def suffix_def)


lemma demo_chain:
  "validate_chain (demo_lib demo_values) 10
     [(''m'', snd (sign_token (demo_lib demo_values) True demo_membership))]
     (snd (sign_token (demo_lib demo_values) False demo_agent)) (demo_did True)
     (Some \<lparr>resource = ''aries:context://t'', ability = ''aries/context.write''\<rparr>) [] = Inr ()"
  by (rule agent_chain_valid[where m = demo_membership and a = demo_agent,
        OF demo_lib_ed25519 demo_json demo_membership_def demo_agent_def demo_did_key demo_did_key])
    (simp_all add: household_abilities_def is_attenuated_by_def suffix_def)

lemma demo_wf: "wf_token demo_membership" "wf_token demo_agent"
  by (simp_all add: wf_token_def demo_membership_def membership_token_def demo_agent_def
      agent_token_def household_abilities_def wf_resource_def suffix_def)

lemma wf_signed [simp]: "wf_token (fst (sign_token L k t)) = wf_token t"
  by (simp add: wf_token_def)




end
