(* ===== verification/Lww.thy ===== *)
theory Lww
  imports Ucan
begin

text \<open>
  The last-writer-wins register of \<^verbatim>\<open>memory/store.py\<close> (\<^verbatim>\<open>LWWEntry\<close>) and the order its
  merges rest on. The interface \<open>lww_order\<close> is what the store relies on (an entry replaces
  another exactly when its stamp is greater); its lemmas show that folding merges over a
  collection of entries does not depend on their order or on repetitions.
\<close>

subsection \<open>Entries\<close>

record lww_entry =
  lww_value :: pyval
  timestamp :: real
  writer_did :: did
  wall_clock :: real
  lww_hash :: string
  lww_ttl :: "real option"

text \<open>The constructor with \<open>__post_init__\<close>: an empty hash is filled in from the value.\<close>

definition new_entry ::
    "('k, 'z) lib_scheme \<Rightarrow> pyval \<Rightarrow> real \<Rightarrow> did \<Rightarrow> real \<Rightarrow> string \<Rightarrow> real option \<Rightarrow> lww_entry" where
  "new_entry L v ts d wall h ttl =
     \<lparr>lww_value = v, timestamp = ts, writer_did = d, wall_clock = wall,
      lww_hash = (if h = [] then content_hash L v 16 else h), lww_ttl = ttl\<rparr>"

definition entry_expired :: "real \<Rightarrow> lww_entry \<Rightarrow> bool" where
  "entry_expired now e = (case lww_ttl e of None \<Rightarrow> False | Some ttl \<Rightarrow> now > wall_clock e + ttl)"

definition supersedes :: "lww_entry \<Rightarrow> lww_entry \<Rightarrow> bool" where
  "supersedes self other =
     (if timestamp self \<noteq> timestamp other then timestamp self > timestamp other
      else writer_did self > writer_did other)"

definition entry_to_dict :: "lww_entry \<Rightarrow> pyval" where
  "entry_to_dict e = VDict
     [(''value'', lww_value e), (''timestamp'', VFloat (timestamp e)),
      (''device_did'', VStr (writer_did e)), (''wall_clock'', VFloat (wall_clock e)),
      (''content_hash'', VStr (lww_hash e)),
      (''ttl'', (case lww_ttl e of None \<Rightarrow> VNone | Some t \<Rightarrow> VFloat t))]"

definition as_float_opt :: "pyval \<Rightarrow> real option result" where
  "as_float_opt v = (if v = VNone then Inr None else bindE (as_float v) (\<lambda>r. Inr (Some r)))"

definition entry_from_dict :: "('k, 'z) lib_scheme \<Rightarrow> real \<Rightarrow> pyval \<Rightarrow> lww_entry result" where
  "entry_from_dict L now v =
     bindE (as_dict v) (\<lambda>d.
     bindE (dict_item d ''value'') (\<lambda>val.
     bindE (bindE (dict_item d ''timestamp'') as_float) (\<lambda>ts.
     bindE (bindE (dict_item d ''device_did'') as_str) (\<lambda>dev.
     bindE (as_float (dgetd d ''wall_clock'' (VFloat now))) (\<lambda>wall.
     bindE (as_str (dgetd d ''content_hash'' (VStr ''''))) (\<lambda>h.
     bindE (as_float_opt (dgetd d ''ttl'' VNone)) (\<lambda>ttl.
       Inr (new_entry L val ts dev wall h ttl))))))))"

lemma entry_dict_roundtrip: "lww_hash e \<noteq> [] \<Longrightarrow> entry_from_dict L now (entry_to_dict e) = Inr e"
  by (cases e, cases "lww_ttl e")
    (simp_all add: entry_from_dict_def entry_to_dict_def dict_item_def dgetd_def as_float_opt_def
      new_entry_def)

subsection \<open>Stamps\<close>

datatype stamp = Stamp (stamp_ts: real) (stamp_did: string)

instantiation stamp :: linorder
begin

definition less_eq_stamp :: "stamp \<Rightarrow> stamp \<Rightarrow> bool" where
  "less_eq_stamp a b \<longleftrightarrow> stamp_ts a < stamp_ts b \<or> stamp_ts a = stamp_ts b \<and> stamp_did a \<le> stamp_did b"

definition less_stamp :: "stamp \<Rightarrow> stamp \<Rightarrow> bool" where
  "less_stamp a b \<longleftrightarrow> stamp_ts a < stamp_ts b \<or> stamp_ts a = stamp_ts b \<and> stamp_did a < stamp_did b"

instance
  by standard (auto simp: less_eq_stamp_def less_stamp_def stamp.expand)

end

definition stamp_of :: "lww_entry \<Rightarrow> stamp" where
  "stamp_of e = Stamp (timestamp e) (writer_did e)"

lemma supersedes_iff: "supersedes a b \<longleftrightarrow> stamp_of b < stamp_of a"
  by (auto simp: supersedes_def stamp_of_def less_stamp_def)

lemma stamp_less_ts: "timestamp a < timestamp b \<Longrightarrow> stamp_of a < stamp_of b"
  by (simp add: stamp_of_def less_stamp_def)

subsection \<open>Folding merges\<close>

locale lww_order =
  fixes beats :: "'e \<Rightarrow> 'e \<Rightarrow> bool"
    and tag :: "'e \<Rightarrow> 't :: linorder"
  assumes beats_iff: "beats a b \<longleftrightarrow> tag b < tag a"
begin

definition pick :: "'e \<Rightarrow> 'e option \<Rightarrow> 'e option" where
  "pick new cur = (case cur of None \<Rightarrow> Some new | Some e \<Rightarrow> if beats new e then Some new else Some e)"

lemma pick_simps [simp]:
  "pick new None = Some new"
  "pick new (Some e) = (if beats new e then Some new else Some e)"
  by (simp_all add: pick_def)

lemma pick_ge: "pick new cur = Some m \<Longrightarrow> tag new \<le> tag m"
  by (cases cur) (auto simp: beats_iff split: if_splits)

lemma pick_mem: "pick new cur = Some m \<Longrightarrow> m = new \<or> cur = Some m"
  by (cases cur) (auto split: if_splits)

lemma pick_Some: "\<exists>p. pick new cur = Some p"
  by (simp add: pick_def split: option.split)

lemma fold_pick_not_None: "es \<noteq> [] \<or> cur \<noteq> None \<Longrightarrow> fold pick es cur \<noteq> None"
proof (induction es arbitrary: cur)
  case (Cons e es)
  have "pick e cur \<noteq> None" by (cases cur) simp_all
  then show ?case using Cons.IH by simp
qed simp

lemma fold_pick_ge_cur: "fold pick es (Some c) = Some m \<Longrightarrow> tag c \<le> tag m"
proof (induction es arbitrary: c)
  case (Cons e es)
  show ?case
  proof (cases "beats e c")
    case True
    with Cons.prems have "tag e \<le> tag m" by (intro Cons.IH) simp
    with True show ?thesis by (simp add: beats_iff)
  next
    case False
    with Cons.prems show ?thesis by (intro Cons.IH) simp
  qed
qed simp

lemma fold_pick_max: "fold pick es cur = Some m \<Longrightarrow> e \<in> set es \<Longrightarrow> tag e \<le> tag m"
proof (induction es arbitrary: cur)
  case (Cons x es)
  show ?case
  proof (cases "e = x")
    case True
    obtain p where p: "pick x cur = Some p" using pick_Some by blast
    with Cons.prems(1) have "tag p \<le> tag m" by (auto dest: fold_pick_ge_cur)
    with pick_ge[OF p] True show ?thesis by simp
  next
    case False
    with Cons show ?thesis by auto
  qed
qed simp

lemma fold_pick_mem: "fold pick es cur = Some m \<Longrightarrow> m \<in> set es \<or> cur = Some m"
proof (induction es arbitrary: cur)
  case (Cons x es)
  then have "m \<in> set es \<or> pick x cur = Some m" by simp
  then show ?case by (auto dest: pick_mem)
qed simp

text \<open>
  The result is the entry with the greatest stamp. So it is the same for any two collections
  with the same elements, in any order and with any repetitions, provided entries with equal
  stamps are equal.
\<close>

lemma fold_pick_converges:
  assumes "set xs \<union> set_option c = set ys \<union> set_option d"
    and inj: "inj_on tag (set xs \<union> set_option c)"
  shows "fold pick xs c = fold pick ys d"
proof (cases "fold pick xs c")
  case None
  then have "xs = []" "c = None" using fold_pick_not_None by blast+
  with assms(1) show ?thesis by (cases d) auto
next
  case (Some m)
  then have "ys \<noteq> [] \<or> d \<noteq> None" using assms(1) fold_pick_mem by (cases ys; cases d) auto
  then obtain n where n: "fold pick ys d = Some n" using fold_pick_not_None by blast
  have mm: "m \<in> set xs \<union> set_option c" using fold_pick_mem[OF Some] by auto
  have nn: "n \<in> set ys \<union> set_option d" using fold_pick_mem[OF n] by auto
  have "tag n \<le> tag m"
    using nn assms(1) fold_pick_max[OF Some] fold_pick_ge_cur Some
    by (metis Un_iff elem_set)
  moreover have "tag m \<le> tag n"
    using mm assms(1) fold_pick_max[OF n] fold_pick_ge_cur n
    by (metis Un_iff elem_set)
  ultimately have "m = n" using inj mm nn assms(1) by (metis inj_onD order.antisym)
  with Some n show ?thesis by simp
qed

end

interpretation lww: lww_order supersedes stamp_of
  by unfold_locales (rule supersedes_iff)

end
