(* ===== verification/AppendLog.thy ===== *)
theory AppendLog
  imports Prelude "HOL-Library.Multiset"
begin

text \<open>
  The append-only log of \<^verbatim>\<open>memory/store.py\<close> (\<^verbatim>\<open>AppendLog\<close>): local appends number their
  records by position, a merge adds the remote records whose (device, number) pair is new and
  sorts the whole log by wall-clock time. The lemmas show what a merge keeps and adds, that
  it is idempotent and leaves no duplicates, and when two replicas agree.

  A record is a dictionary. The three fields the log itself writes and reads are kept apart
  and optional (a remote record may lack them); the other items are \<open>log_body\<close>.
\<close>

subsection \<open>Definitions\<close>

record log_rec =
  log_body :: dict
  log_device :: "did option"
  log_seq :: "int option"
  log_ts :: "real option"

type_synonym append_log = "log_rec list"

text \<open>\<open>(e.get("_device", ""), int(e.get("_seq", -1)))\<close> and \<open>float(e.get("_ts", 0.0))\<close>\<close>

definition rec_key :: "log_rec \<Rightarrow> did \<times> int" where
  "rec_key e = (case log_device e of None \<Rightarrow> '''' | Some d \<Rightarrow> d,
                case log_seq e of None \<Rightarrow> -1 | Some n \<Rightarrow> n)"

definition rec_ts :: "log_rec \<Rightarrow> real" where
  "rec_ts e = (case log_ts e of None \<Rightarrow> 0 | Some t \<Rightarrow> t)"

definition log_add :: "append_log \<Rightarrow> log_rec \<Rightarrow> did \<Rightarrow> real \<Rightarrow> append_log \<times> nat" where
  "log_add l e d now =
     (let idx = length l
      in (l @ [e\<lparr>log_seq := Some (int idx), log_device := Some d, log_ts := Some now\<rparr>], idx))"

fun merge_loop :: "(did \<times> int) set \<Rightarrow> append_log \<Rightarrow> append_log \<Rightarrow> append_log" where
  "merge_loop seen l [] = l"
| "merge_loop seen l (e # es) =
     (if rec_key e \<in> seen then merge_loop seen l es
      else merge_loop (insert (rec_key e) seen) (l @ [e]) es)"

definition log_merge :: "append_log \<Rightarrow> append_log \<Rightarrow> append_log" where
  "log_merge l remote = sort_key rec_ts (merge_loop (set (map rec_key l)) l remote)"

definition log_since :: "append_log \<Rightarrow> int \<Rightarrow> append_log" where
  "log_since l i = (if i < 0 then l else drop (nat i) l)"

subsection \<open>Lemmas\<close>

lemma merge_loop_Nil_iff [simp]: "merge_loop seen l es = [] \<longleftrightarrow> l = [] \<and> (\<forall>e \<in> set es. rec_key e \<in> seen)"
proof (induction es arbitrary: seen l)
  case (Cons e es)
  then show ?case by auto
qed simp

lemma merge_loop_append: "merge_loop seen l es = l @ merge_loop seen [] es"
proof (induction es arbitrary: seen l)
  case (Cons e es)
  show ?case
    using Cons.IH[of seen l] Cons.IH[of "insert (rec_key e) seen" "l @ [e]"]
      Cons.IH[of "insert (rec_key e) seen" "[e]"] by simp
qed simp

lemma merge_loop_new: "e \<in> set (merge_loop seen [] es) \<Longrightarrow> e \<in> set es \<and> rec_key e \<notin> seen"
proof (induction es arbitrary: seen)
  case (Cons x es)
  then show ?case
    using merge_loop_append[of "insert (rec_key x) seen" "[x]" es] by (auto split: if_splits)
qed simp

lemma merge_loop_keys:
  "rec_key ` set (merge_loop seen [] es) = rec_key ` set es - seen"
proof (induction es arbitrary: seen)
  case (Cons x es)
  then show ?case
    using merge_loop_append[of "insert (rec_key x) seen" "[x]" es] by auto
qed simp

lemma merge_loop_distinct: "distinct (map rec_key (merge_loop seen [] es))"
proof (induction es arbitrary: seen)
  case (Cons x es)
  have "rec_key x \<notin> rec_key ` set (merge_loop (insert (rec_key x) seen) [] es)"
    using merge_loop_keys by blast
  with Cons show ?case
    using merge_loop_append[of "insert (rec_key x) seen" "[x]" es] by simp
qed simp

lemma merge_loop_seen: "(\<forall>e \<in> set es. rec_key e \<in> seen) \<Longrightarrow> merge_loop seen l es = l"
  by (induction es) simp_all

lemma set_log_merge:
  "set (log_merge l r) = set l \<union> set (merge_loop (set (map rec_key l)) [] r)"
  using merge_loop_append[of "set (map rec_key l)" l r] by (simp add: log_merge_def)

lemma log_merge_keeps: "set l \<subseteq> set (log_merge l r)"
  by (auto simp: set_log_merge)

lemma log_merge_from: "set (log_merge l r) \<subseteq> set l \<union> set r"
  using merge_loop_new by (fastforce simp: set_log_merge)

lemma log_merge_keys: "rec_key ` set (log_merge l r) = rec_key ` set l \<union> rec_key ` set r"
  by (auto simp: set_log_merge image_Un merge_loop_keys)

lemma mset_log_merge: "mset (log_merge l r) = mset l + mset (merge_loop (set (map rec_key l)) [] r)"
  using merge_loop_append[of "set (map rec_key l)" l r] by (simp add: log_merge_def)

lemma distinct_map_mset: "mset xs = mset ys \<Longrightarrow> distinct (map f xs) \<longleftrightarrow> distinct (map f ys)"
  by (metis mset_eq_imp_distinct_iff mset_map)

lemma log_merge_distinct:
  assumes "distinct (map rec_key l)"
  shows "distinct (map rec_key (log_merge l r))"
proof -
  let ?n = "merge_loop (set (map rec_key l)) [] r"
  have "distinct (map rec_key (l @ ?n))"
    using assms merge_loop_distinct[of "set (map rec_key l)" r] merge_loop_keys[of "set (map rec_key l)" r]
    by auto
  moreover have "mset (l @ ?n) = mset (log_merge l r)" by (simp add: mset_log_merge)
  ultimately show ?thesis using distinct_map_mset by blast
qed

lemma log_merge_sorted: "sorted (map rec_ts (log_merge l r))"
  by (simp add: log_merge_def)

lemma log_merge_seen:
  "rec_key ` set r \<subseteq> rec_key ` set l \<Longrightarrow> log_merge l r = sort_key rec_ts l"
  by (subst log_merge_def, subst merge_loop_seen) auto

lemma log_merge_idem: "log_merge (log_merge l r) r = log_merge l r"
proof -
  have "log_merge (log_merge l r) r = sort_key rec_ts (log_merge l r)"
    by (rule log_merge_seen) (simp add: log_merge_keys)
  also have "\<dots> = log_merge l r"
    using log_merge_sorted by (rule sort_key_id_if_sorted)
  finally show ?thesis .
qed

lemma length_log_merge_ge: "length l \<le> length (log_merge l r)"
  using merge_loop_append[of "set (map rec_key l)" l r] by (simp add: log_merge_def)

lemma rec_key_added [simp]:
  "rec_key (e\<lparr>log_seq := Some (int n), log_device := Some d, log_ts := Some t\<rparr>) = (d, int n)"
  by (simp add: rec_key_def)

text \<open>
  Two sorted logs with the same records, pairwise at different times, are equal; so replicas
  that hold the same records show the same log.
\<close>

lemma sorted_logs_eq:
  assumes "sorted (map rec_ts l)" "sorted (map rec_ts m)" "set l = set m"
    and "distinct l" "distinct m" "inj_on rec_ts (set l)"
  shows "l = m"
proof -
  have "distinct (map rec_ts l)" "distinct (map rec_ts m)"
    using assms by (simp_all add: distinct_map)
  moreover have "set (map rec_ts l) = set (map rec_ts m)" using assms(3) by simp
  ultimately have "map rec_ts l = map rec_ts m"
    using assms(1,2) sorted_distinct_set_unique by blast
  moreover have "inj_on rec_ts (set l \<union> set m)" using assms(3,6) by simp
  ultimately show ?thesis using map_inj_on by blast
qed

end
