(* ===== verification/Store.thy ===== *)
theory Store
  imports Lww AppendLog
begin

text \<open>
  \<^verbatim>\<open>memory/store.py\<close>: the replicated key-value store of one device. Keys live in three
  namespaces, registers are last-writer-wins entries under a Lamport clock, logs are
  append-only, writes may be scoped by a UCAN, and two stores exchange what the other lacks
  as a state summary and a diff. The wall clock of an operation is its argument \<open>now\<close>.
\<close>

subsection \<open>Keys and namespaces\<close>

datatype Namespace = CONTEXT | MEMORY | CACHE

fun ns_value :: "Namespace \<Rightarrow> string" where
  "ns_value CONTEXT = ''context''"
| "ns_value MEMORY = ''memory''"
| "ns_value CACHE = ''cache''"

definition CANONICAL_PREFIXES :: "(string \<times> Namespace) list" where
  "CANONICAL_PREFIXES =
     [(''aries:context://'', CONTEXT), (''aries:memory://'', MEMORY), (''aries:cache://'', CACHE)]"

definition LEGACY_PREFIXES :: "(string \<times> Namespace) list" where
  "LEGACY_PREFIXES = [(''context://'', CONTEXT), (''memory://'', MEMORY), (''cache://'', CACHE)]"

definition canonical_key :: "Namespace \<Rightarrow> string \<Rightarrow> string" where
  "canonical_key ns path = ''aries:'' @ ns_value ns @ ''://'' @ path"

text \<open>The first prefix of a table that a key starts with, with the rest of the key.\<close>

fun match_prefix :: "(string \<times> Namespace) list \<Rightarrow> string \<Rightarrow> (Namespace \<times> string) option" where
  "match_prefix [] key = None"
| "match_prefix ((p, ns) # ps) key =
     (if startswith key p then Some (ns, drop (length p) key) else match_prefix ps key)"

definition normalize_key :: "string \<Rightarrow> string" where
  "normalize_key key =
     (case match_prefix CANONICAL_PREFIXES key of
        Some _ \<Rightarrow> key
      | None \<Rightarrow> (case match_prefix LEGACY_PREFIXES key of
          Some (ns, path) \<Rightarrow> canonical_key ns path
        | None \<Rightarrow> key))"

definition from_key :: "string \<Rightarrow> (Namespace \<times> string) result" where
  "from_key key =
     (case match_prefix CANONICAL_PREFIXES key of
        Some r \<Rightarrow> Inr r
      | None \<Rightarrow> (case match_prefix LEGACY_PREFIXES key of
          Some r \<Rightarrow> Inr r
        | None \<Rightarrow> Inl (ValueError ''Key missing namespace prefix'')))"

fun DEFAULT_TTLS :: "Namespace \<Rightarrow> real option" where
  "DEFAULT_TTLS CONTEXT = Some 86400"
| "DEFAULT_TTLS MEMORY = None"
| "DEFAULT_TTLS CACHE = Some 3600"

subsection \<open>State\<close>

text \<open>
  \<open>fired\<close> is the sequence of change notifications the store has fired (what its callbacks
  were called with); \<open>disk\<close> is the content of \<^verbatim>\<open>memory.json\<close>, and \<open>persist\<close> tells whether
  there is a persistence directory.
\<close>

datatype notification = RegisterNote string pyval | LogNote string log_rec

record snapshot =
  snap_clock :: real
  snap_registers :: "(string \<times> lww_entry) list"
  snap_logs :: "(string \<times> append_log) list"

record mstore =
  store_did :: did
  persist :: bool
  lamport :: real
  registers :: "(string \<times> lww_entry) list"
  logs :: "(string \<times> append_log) list"
  fired :: "notification list"
  disk :: "snapshot option"

definition snapshot_of :: "mstore \<Rightarrow> snapshot" where
  "snapshot_of st = \<lparr>snap_clock = lamport st, snap_registers = registers st, snap_logs = logs st\<rparr>"

definition save :: "mstore \<Rightarrow> mstore" where
  "save st = (if persist st then st\<lparr>disk := Some (snapshot_of st)\<rparr> else st)"

text \<open>The constructor: an empty store, then \<open>_load\<close> from the file when there is one.\<close>

definition load :: "did \<Rightarrow> bool \<Rightarrow> snapshot option \<Rightarrow> mstore" where
  "load d p file =
     (let st = \<lparr>store_did = d, persist = p, lamport = 0, registers = [], logs = [], fired = [], disk = file\<rparr>
      in case file of
           None \<Rightarrow> st
         | Some s \<Rightarrow> if p then st\<lparr>lamport := snap_clock s, registers := snap_registers s,
                                 logs := snap_logs s\<rparr> else st)"

definition tick :: "mstore \<Rightarrow> mstore" where
  "tick st = st\<lparr>lamport := lamport st + 1\<rparr>"

definition update_clock :: "mstore \<Rightarrow> real \<Rightarrow> mstore" where
  "update_clock st remote_ts = st\<lparr>lamport := max (lamport st) remote_ts + 1\<rparr>"

definition notify :: "notification \<Rightarrow> mstore \<Rightarrow> mstore" where
  "notify n st = st\<lparr>fired := fired st @ [n]\<rparr>"

subsection \<open>Write permission\<close>

definition WRITE_ABILITY :: string where
  "WRITE_ABILITY = ''aries/context.write''"

definition resource_covers_key :: "string \<Rightarrow> string \<Rightarrow> bool" where
  "resource_covers_key res key =
     (if res = ''*'' then True
      else if res = key then True
      else if endswith res ''/*''
        then (let pre = take (length res - 2) res
              in key = pre \<or> startswith key (pre @ ''/''))
      else startswith key (rstrip_char (CHR ''/'') res @ ''/''))"

definition check_write_permission :: "('k, 'z) lib_scheme \<Rightarrow> real \<Rightarrow> string \<Rightarrow> string \<Rightarrow> unit result" where
  "check_write_permission L now key token =
     (case decode_token L now token of
        Inl _ \<Rightarrow> Inl (PermissionError ''Invalid UCAN token'')
      | Inr t \<Rightarrow>
          if list_ex (\<lambda>c. ability c = WRITE_ABILITY
                \<and> resource_covers_key (normalize_key (resource c)) (normalize_key key)) (ucan_caps t)
          then Inr ()
          else Inl (PermissionError ''Agent not authorized to write''))"

text \<open>A token is checked only when one is passed.\<close>

definition check_optional :: "('k, 'z) lib_scheme \<Rightarrow> real \<Rightarrow> string \<Rightarrow> string option \<Rightarrow> unit result" where
  "check_optional L now key tok =
     (case tok of None \<Rightarrow> Inr () | Some t \<Rightarrow> check_write_permission L now key t)"

subsection \<open>Registers\<close>

definition get_entry :: "real \<Rightarrow> mstore \<Rightarrow> string \<Rightarrow> mstore \<times> lww_entry option" where
  "get_entry now st key0 =
     (let key = normalize_key key0
      in case dget (registers st) key of
           None \<Rightarrow> (st, None)
         | Some e \<Rightarrow> if entry_expired now e then (st\<lparr>registers := dpop key (registers st)\<rparr>, None)
                     else (st, Some e))"

definition store_get :: "real \<Rightarrow> mstore \<Rightarrow> string \<Rightarrow> mstore \<times> pyval" where
  "store_get now st key0 =
     (let key = normalize_key key0
      in case dget (registers st) key of
           None \<Rightarrow> (st, VNone)
         | Some e \<Rightarrow> if entry_expired now e then (st\<lparr>registers := dpop key (registers st)\<rparr>, VNone)
                     else (st, lww_value e))"

text \<open>The store may change (the clock) even where the call then returns the old entry.\<close>

definition store_set ::
    "('k, 'z) lib_scheme \<Rightarrow> real \<Rightarrow> mstore \<Rightarrow> string \<Rightarrow> pyval \<Rightarrow> real option \<Rightarrow> string option
      \<Rightarrow> mstore \<times> lww_entry result" where
  "store_set L now st key0 value ttl0 tok =
     (let key = normalize_key key0
      in case from_key key of
           Inl e \<Rightarrow> (st, Inl e)
         | Inr (ns, _) \<Rightarrow>
          (case check_optional L now key tok of
             Inl e \<Rightarrow> (st, Inl e)
           | Inr _ \<Rightarrow>
              (let ttl = (case ttl0 of None \<Rightarrow> DEFAULT_TTLS ns | Some t \<Rightarrow> Some t);
                   st1 = tick st;
                   entry = new_entry L value (lamport st1) (store_did st) now [] ttl
               in case dget (registers st1) key of
                    Some old \<Rightarrow>
                      if \<not> supersedes entry old then (st1, Inr old)
                      else (save (notify (RegisterNote key value)
                              (st1\<lparr>registers := dset key entry (registers st1)\<rparr>)), Inr entry)
                  | None \<Rightarrow> (save (notify (RegisterNote key value)
                              (st1\<lparr>registers := dset key entry (registers st1)\<rparr>)), Inr entry))))"

definition store_delete ::
    "('k, 'z) lib_scheme \<Rightarrow> real \<Rightarrow> mstore \<Rightarrow> string \<Rightarrow> mstore \<times> unit result" where
  "store_delete L now st key =
     (case store_set L now st key VNone None None of
        (st', Inl e) \<Rightarrow> (st', Inl e) | (st', Inr _) \<Rightarrow> (st', Inr ()))"

definition store_keys :: "real \<Rightarrow> mstore \<Rightarrow> string \<Rightarrow> string list" where
  "store_keys now st prefix0 =
     (let pre = (if prefix0 = [] then [] else normalize_key prefix0)
      in map fst (filter (\<lambda>(k, e). startswith k pre \<and> \<not> (entry_expired now e \<or> lww_value e = VNone))
                    (registers st)))"

definition list_namespace :: "real \<Rightarrow> mstore \<Rightarrow> Namespace \<Rightarrow> string list" where
  "list_namespace now st ns = store_keys now st (canonical_key ns '''')"

subsection \<open>Logs\<close>

definition get_log :: "mstore \<Rightarrow> string \<Rightarrow> append_log" where
  "get_log st key = dgetd (logs st) key []"

definition log_append ::
    "('k, 'z) lib_scheme \<Rightarrow> real \<Rightarrow> mstore \<Rightarrow> string \<Rightarrow> log_rec \<Rightarrow> string option \<Rightarrow> mstore \<times> nat result" where
  "log_append L now st key0 entry tok =
     (let key = normalize_key key0
      in case from_key key of
           Inl e \<Rightarrow> (st, Inl e)
         | Inr _ \<Rightarrow>
          (case check_optional L now key tok of
             Inl e \<Rightarrow> (st, Inl e)
           | Inr _ \<Rightarrow>
              (let (l, idx) = log_add (get_log st key) entry (store_did st) now
               in (save (notify (LogNote key entry) (st\<lparr>logs := dset key l (logs st)\<rparr>)), Inr idx))))"

definition log_read :: "mstore \<Rightarrow> string \<Rightarrow> int \<Rightarrow> append_log" where
  "log_read st key since =
     (case dget (logs st) (normalize_key key) of None \<Rightarrow> [] | Some l \<Rightarrow> log_since l since)"

definition log_len :: "mstore \<Rightarrow> string \<Rightarrow> nat" where
  "log_len st key = length (get_log st (normalize_key key))"

subsection \<open>Merging remote data\<close>

definition merge_entry :: "mstore \<Rightarrow> string \<Rightarrow> lww_entry \<Rightarrow> mstore \<times> bool" where
  "merge_entry st key0 remote =
     (let key = normalize_key key0; st1 = update_clock st (timestamp remote)
      in case dget (registers st1) key of
           Some old \<Rightarrow>
             if \<not> supersedes remote old then (st1, False)
             else (save (notify (RegisterNote key (lww_value remote))
                     (st1\<lparr>registers := dset key remote (registers st1)\<rparr>)), True)
         | None \<Rightarrow> (save (notify (RegisterNote key (lww_value remote))
                     (st1\<lparr>registers := dset key remote (registers st1)\<rparr>)), True))"

definition merge_log :: "mstore \<Rightarrow> string \<Rightarrow> append_log \<Rightarrow> mstore" where
  "merge_log st key0 remote =
     (let key = normalize_key key0;
          st1 = st\<lparr>logs := dset key (log_merge (get_log st key) remote) (logs st)\<rparr>;
          st2 = (if remote \<noteq> [] then notify (LogNote key (last remote)) st1 else st1)
      in save st2)"

subsection \<open>State summary and diff\<close>

record reg_summary =
  sum_ts :: real
  sum_hash :: string
  sum_device :: did

record sync_state =
  sync_registers :: "(string \<times> reg_summary) list"
  sync_logs :: "(string \<times> nat) list"
  sync_clock :: real

record sync_diff =
  diff_registers :: "(string \<times> pyval) list"
  diff_logs :: "(string \<times> append_log) list"

definition summarize :: "lww_entry \<Rightarrow> reg_summary" where
  "summarize e = \<lparr>sum_ts = timestamp e, sum_hash = lww_hash e, sum_device = writer_did e\<rparr>"

definition get_sync_state :: "real \<Rightarrow> mstore \<Rightarrow> sync_state" where
  "get_sync_state now st =
     \<lparr>sync_registers = map (\<lambda>(k, e). (k, summarize e))
                         (filter (\<lambda>(k, e). \<not> entry_expired now e) (registers st)),
      sync_logs = map (\<lambda>(k, l). (k, length l)) (logs st),
      sync_clock = lamport st\<rparr>"

definition include_register :: "lww_entry \<Rightarrow> reg_summary option \<Rightarrow> bool" where
  "include_register e rem =
     (case rem of
        None \<Rightarrow> True
      | Some r \<Rightarrow> timestamp e > sum_ts r \<or> (timestamp e = sum_ts r \<and> lww_hash e \<noteq> sum_hash r))"

definition compute_diff :: "real \<Rightarrow> mstore \<Rightarrow> sync_state \<Rightarrow> sync_diff" where
  "compute_diff now st remote =
     \<lparr>diff_registers = map (\<lambda>(k, e). (k, entry_to_dict e))
        (filter (\<lambda>(k, e). \<not> entry_expired now e \<and> include_register e (dget (sync_registers remote) k))
           (registers st)),
      diff_logs = map (\<lambda>(k, l). (k, log_since l (int (dgetd (sync_logs remote) k 0))))
        (filter (\<lambda>(k, l). length l > dgetd (sync_logs remote) k 0) (logs st))\<rparr>"

text \<open>
  \<open>apply_diff\<close>: an undecodable register raises, with the registers before it already merged.
\<close>

fun apply_registers ::
    "('k, 'z) lib_scheme \<Rightarrow> real \<Rightarrow> mstore \<Rightarrow> (string \<times> pyval) list \<Rightarrow> mstore \<times> unit result" where
  "apply_registers L now st [] = (st, Inr ())"
| "apply_registers L now st ((key, raw) # rest) =
     (case entry_from_dict L now raw of
        Inl e \<Rightarrow> (st, Inl e)
      | Inr e \<Rightarrow> apply_registers L now (fst (merge_entry st key e)) rest)"

definition apply_diff :: "('k, 'z) lib_scheme \<Rightarrow> real \<Rightarrow> mstore \<Rightarrow> sync_diff \<Rightarrow> mstore \<times> unit result" where
  "apply_diff L now st d =
     (case apply_registers L now st (diff_registers d) of
        (st1, Inl e) \<Rightarrow> (st1, Inl e)
      | (st1, Inr _) \<Rightarrow> (fold (\<lambda>(key, es) s. merge_log s key es) (diff_logs d) st1, Inr ()))"

subsection \<open>Keys\<close>

lemma match_prefix_Some:
  "match_prefix ps key = Some (ns, path) \<Longrightarrow> \<exists>p. (p, ns) \<in> set ps \<and> key = p @ path"
proof (induction ps)
  case (Cons q ps)
  obtain p n where q: "q = (p, n)" by (cases q)
  show ?case
  proof (cases "startswith key p")
    case True
    with Cons.prems q have "n = ns" "path = drop (length p) key" by simp_all
    with True q show ?thesis by (auto simp: drop_prefix_eq)
  next
    case False
    with Cons q show ?thesis by auto
  qed
qed simp

lemma canonical_key_prefix:
  "canonical_key CONTEXT path = ''aries:context://'' @ path"
  "canonical_key MEMORY path = ''aries:memory://'' @ path"
  "canonical_key CACHE path = ''aries:cache://'' @ path"
  by (simp_all add: canonical_key_def)

lemma match_canonical [simp]: "match_prefix CANONICAL_PREFIXES (canonical_key ns path) = Some (ns, path)"
  by (cases ns) (simp_all add: canonical_key_def CANONICAL_PREFIXES_def)

lemma match_canonical_iff: "match_prefix CANONICAL_PREFIXES key = Some (ns, path) \<longleftrightarrow> key = canonical_key ns path"
proof
  assume "match_prefix CANONICAL_PREFIXES key = Some (ns, path)"
  then show "key = canonical_key ns path"
    using match_prefix_Some[of CANONICAL_PREFIXES key ns path]
    by (auto simp: CANONICAL_PREFIXES_def canonical_key_prefix)
qed simp

lemma canonical_key_inj: "canonical_key n q = canonical_key ns path \<longleftrightarrow> n = ns \<and> q = path"
  by (metis match_canonical option.inject prod.inject)

lemma normalize_canonical [simp]: "normalize_key (canonical_key ns path) = canonical_key ns path"
  by (simp add: normalize_key_def)

lemma normalize_key_cases:
  "(\<exists>ns path. normalize_key key = canonical_key ns path) \<or> normalize_key key = key"
  by (auto simp: normalize_key_def split: option.split)

lemma normalize_idem [simp]: "normalize_key (normalize_key key) = normalize_key key"
  using normalize_key_cases[of key] by auto

lemma from_normalize: "from_key (normalize_key key) = from_key key"
  by (auto simp: from_key_def normalize_key_def split: option.splits)

lemma from_key_Inr_iff: "from_key key = Inr (ns, path) \<longleftrightarrow> normalize_key key = canonical_key ns path"
proof (cases "match_prefix CANONICAL_PREFIXES key")
  case None
  note N = this
  show ?thesis
  proof (cases "match_prefix LEGACY_PREFIXES key")
    case None
    then show ?thesis
      using N by (auto simp: from_key_def normalize_key_def)
  next
    case (Some a)
    then obtain n q where a: "a = (n, q)" by (cases a)
    with N Some a show ?thesis by (auto simp: from_key_def normalize_key_def canonical_key_inj)
  qed
next
  case (Some a)
  then obtain n q where "a = (n, q)" by (cases a)
  with Some have k: "key = canonical_key n q" by (simp add: match_canonical_iff)
  then show ?thesis by (auto simp: k from_key_def canonical_key_inj)
qed

lemma from_key_error: "from_key key = Inl e \<Longrightarrow> \<nexists>ns path. normalize_key key = canonical_key ns path"
  using from_key_Inr_iff by (metis sum.distinct(2))

text \<open>Every key in use has one name: the canonical form, whichever form the caller gives.\<close>

lemma legacy_alias: "normalize_key (ns_value ns @ ''://'' @ path) = canonical_key ns path"
  by (cases ns) (simp_all add: normalize_key_def CANONICAL_PREFIXES_def LEGACY_PREFIXES_def canonical_key_def)


subsection \<open>What an operation does to the registers\<close>

lemma save_fields [simp]:
  "registers (save st) = registers st" "logs (save st) = logs st" "lamport (save st) = lamport st"
  "store_did (save st) = store_did st" "fired (save st) = fired st" "persist (save st) = persist st"
  by (simp_all add: save_def)

lemma notify_fields [simp]:
  "registers (notify n st) = registers st" "logs (notify n st) = logs st"
  "lamport (notify n st) = lamport st" "store_did (notify n st) = store_did st"
  "disk (notify n st) = disk st" "fired (notify n st) = fired st @ [n]" "persist (notify n st) = persist st"
  by (simp_all add: notify_def)

lemma clock_fields [simp]:
  "registers (tick st) = registers st" "logs (tick st) = logs st" "disk (tick st) = disk st"
  "store_did (tick st) = store_did st" "lamport (tick st) = lamport st + 1" "persist (tick st) = persist st"
  "registers (update_clock st t) = registers st" "logs (update_clock st t) = logs st"
  "disk (update_clock st t) = disk st" "store_did (update_clock st t) = store_did st"
  "lamport (update_clock st t) = max (lamport st) t + 1" "persist (update_clock st t) = persist st"
  "fired (tick st) = fired st" "fired (update_clock st t) = fired st"
  by (simp_all add: tick_def update_clock_def)

lemma new_entry_fields [simp]:
  "timestamp (new_entry L v ts d w h ttl) = ts" "writer_did (new_entry L v ts d w h ttl) = d"
  "lww_value (new_entry L v ts d w h ttl) = v" "lww_ttl (new_entry L v ts d w h ttl) = ttl"
  "wall_clock (new_entry L v ts d w h ttl) = w"
  by (simp_all add: new_entry_def)

lemma save_disk: "disk (save st) = (if persist st then Some (snapshot_of st) else disk st)"
  by (simp add: save_def)

lemma merge_entry_registers:
  "dget (registers (fst (merge_entry st key e))) k =
     (if k = normalize_key key then lww.pick e (dget (registers st) k) else dget (registers st) k)"
  by (auto simp: merge_entry_def Let_def split: option.split)

lemma merge_entry_clock: "lamport (fst (merge_entry st key e)) = max (lamport st) (timestamp e) + 1"
  by (simp add: merge_entry_def Let_def split: option.split)

lemma merge_entry_kept [simp]:
  "logs (fst (merge_entry st key e)) = logs st" "store_did (fst (merge_entry st key e)) = store_did st"
  by (simp_all add: merge_entry_def Let_def split: option.split)

lemma merge_log_kept [simp]:
  "registers (merge_log st key es) = registers st" "lamport (merge_log st key es) = lamport st"
  "store_did (merge_log st key es) = store_did st"
  by (simp_all add: merge_log_def Let_def)

lemma merge_log_disk:
  "disk (merge_log st key es) = (if persist st then Some (snapshot_of (merge_log st key es)) else disk st)"
  by (simp add: merge_log_def Let_def save_disk)
    (simp add: save_def snapshot_of_def)

subsection \<open>The invariant of the registers\<close>

text \<open>
  Keys are unique and canonical, and no register is newer than the clock. Both hold of the
  file too, so they survive a restart.
\<close>

definition regs_ok :: "real \<Rightarrow> (string \<times> lww_entry) list \<Rightarrow> bool" where
  "regs_ok c rs \<longleftrightarrow> distinct (dkeys rs) \<and> list_all (\<lambda>(k, e). normalize_key k = k \<and> timestamp e \<le> c) rs"

definition store_inv :: "mstore \<Rightarrow> bool" where
  "store_inv st \<longleftrightarrow> regs_ok (lamport st) (registers st)
     \<and> (case disk st of None \<Rightarrow> True | Some s \<Rightarrow> regs_ok (snap_clock s) (snap_registers s))"

lemma regs_ok_mono: "regs_ok c rs \<Longrightarrow> c \<le> d \<Longrightarrow> regs_ok d rs"
  by (auto simp: regs_ok_def list_all_iff)

lemma regs_ok_dset:
  "regs_ok c rs \<Longrightarrow> normalize_key k = k \<Longrightarrow> timestamp e \<le> c \<Longrightarrow> regs_ok c (dset k e rs)"
  using set_dset_sub[of k e rs] by (auto simp: regs_ok_def list_all_iff)

lemma regs_ok_dpop: "regs_ok c rs \<Longrightarrow> regs_ok c (dpop k rs)"
  using set_dpop_sub[of k rs] by (auto simp: regs_ok_def list_all_iff)

lemma regs_ok_get: "regs_ok c rs \<Longrightarrow> dget rs k = Some e \<Longrightarrow> timestamp e \<le> c"
  by (auto simp: regs_ok_def list_all_iff dest!: dget_Some_mem)

lemma store_inv_save: "regs_ok (lamport st) (registers st) \<Longrightarrow> store_inv st \<Longrightarrow> store_inv (save st)"
  by (simp add: store_inv_def save_disk snapshot_of_def)

lemma store_inv_saved:
  "store_inv st0 \<Longrightarrow> registers st = registers st0 \<Longrightarrow> lamport st = lamport st0
     \<Longrightarrow> disk st = disk st0 \<or> disk st = Some (snapshot_of st) \<Longrightarrow> store_inv st"
  by (auto simp: store_inv_def snapshot_of_def)

lemma store_invI:
  "regs_ok (lamport st) (registers st) \<Longrightarrow> disk st = disk st0 \<Longrightarrow> store_inv st0 \<Longrightarrow> store_inv st"
  by (simp add: store_inv_def)

lemma store_inv_regs: "store_inv st \<Longrightarrow> regs_ok (lamport st) (registers st)"
  by (simp add: store_inv_def)

lemma store_inv_put:
  assumes "store_inv st" "lamport st \<le> lamport st1" "registers st1 = registers st" "disk st1 = disk st"
    and "timestamp e \<le> lamport st1"
  shows "store_inv (save (notify n (st1\<lparr>registers := dset (normalize_key k) e (registers st)\<rparr>)))"
proof -
  have "regs_ok (lamport st1) (dset (normalize_key k) e (registers st))"
    using assms(5) regs_ok_mono[OF store_inv_regs[OF assms(1)] assms(2)]
    by (simp add: regs_ok_dset)
  then show ?thesis
    using assms(1,4) by (simp add: store_inv_def save_disk snapshot_of_def)
qed

lemma store_get_inv: "store_inv st \<Longrightarrow> store_inv (fst (store_get now st key))"
  by (auto simp: store_get_def Let_def store_inv_def regs_ok_dpop split: option.splits)

lemma get_entry_inv: "store_inv st \<Longrightarrow> store_inv (fst (get_entry now st key))"
  by (auto simp: get_entry_def Let_def store_inv_def regs_ok_dpop split: option.splits)

lemma merge_entry_inv:
  assumes "store_inv st"
  shows "store_inv (fst (merge_entry st key e))"
proof -
  have "store_inv (update_clock st (timestamp e))"
    using assms by (rule store_invI[rotated 2]) (simp_all add: regs_ok_mono[OF store_inv_regs[OF assms]])
  moreover have "store_inv (save (notify n ((update_clock st (timestamp e))
      \<lparr>registers := dset (normalize_key key) e (registers st)\<rparr>)))" for n
    using assms by (intro store_inv_put[of st]) simp_all
  ultimately show ?thesis by (simp add: merge_entry_def Let_def split: option.split)
qed

lemma merge_log_inv: "store_inv st \<Longrightarrow> store_inv (merge_log st key es)"
  by (rule store_inv_saved[of st]) (simp_all add: merge_log_disk)

lemma apply_registers_inv: "store_inv st \<Longrightarrow> store_inv (fst (apply_registers L now st rs))"
  by (induction L now st rs rule: apply_registers.induct) (auto simp: merge_entry_inv split: sum.split)

lemma fold_merge_log_inv: "store_inv st \<Longrightarrow> store_inv (fold (\<lambda>(key, es) s. merge_log s key es) ls st)"
  by (induction ls arbitrary: st) (auto simp: merge_log_inv)

lemma apply_diff_inv: "store_inv st \<Longrightarrow> store_inv (fst (apply_diff L now st d))"
  using apply_registers_inv[of st L now "diff_registers d"]
  by (auto simp: apply_diff_def fold_merge_log_inv split: prod.split sum.split)

lemma log_append_inv: "store_inv st \<Longrightarrow> store_inv (fst (log_append L now st key e tok))"
  by (rule store_inv_saved[of st])
    (auto simp: log_append_def Let_def save_disk snapshot_of_def split: sum.split prod.split)

lemma restart_inv: "store_inv st \<Longrightarrow> store_inv (load (store_did st) (persist st) (disk st))"
  by (auto simp: load_def Let_def store_inv_def regs_ok_def split: option.splits)

lemma empty_store_inv: "store_inv (load d p None)"
  by (simp add: load_def store_inv_def regs_ok_def)


text \<open>Under the invariant a local write is never older than what it replaces.\<close>

lemma store_set_eq:
  assumes "store_inv st"
  shows "store_set L now st key v ttl tok =
    (case from_key key of
       Inl e \<Rightarrow> (st, Inl e)
     | Inr (ns, _) \<Rightarrow>
        (case check_optional L now (normalize_key key) tok of
           Inl e \<Rightarrow> (st, Inl e)
         | Inr _ \<Rightarrow>
            (let entry = new_entry L v (lamport st + 1) (store_did st) now []
                           (case ttl of None \<Rightarrow> DEFAULT_TTLS ns | Some t \<Rightarrow> Some t)
             in (save (notify (RegisterNote (normalize_key key) v)
                   ((tick st)\<lparr>registers := dset (normalize_key key) entry (registers (tick st))\<rparr>)), Inr entry))))"
proof -
  have "supersedes (new_entry L v (lamport st + 1) d now [] t) old"
    if "dget (registers st) k = Some old" for d t k old
    using regs_ok_get[OF store_inv_regs[OF assms] that] by (simp add: supersedes_def)
  then show ?thesis
    by (simp add: store_set_def Let_def from_normalize split: sum.split option.split prod.split)
qed

lemma store_set_inv: "store_inv st \<Longrightarrow> store_inv (fst (store_set L now st key v ttl tok))"
  by (auto simp: store_set_eq Let_def intro!: store_inv_put[of st] split: sum.split prod.split)

inductive store_reach :: "('k, 'z) lib_scheme \<Rightarrow> mstore \<Rightarrow> bool" for L where
  start: "store_reach L (load d p None)"
| get: "store_reach L st \<Longrightarrow> store_reach L (fst (store_get now st key))"
| entry: "store_reach L st \<Longrightarrow> store_reach L (fst (get_entry now st key))"
| put: "store_reach L st \<Longrightarrow> store_reach L (fst (store_set L now st key v ttl tok))"
| append: "store_reach L st \<Longrightarrow> store_reach L (fst (log_append L now st key rec tok))"
| merge: "store_reach L st \<Longrightarrow> store_reach L (fst (merge_entry st key e))"
| merge_log: "store_reach L st \<Longrightarrow> store_reach L (merge_log st key es)"
| patch: "store_reach L st \<Longrightarrow> store_reach L (fst (apply_diff L now st d))"
| restart: "store_reach L st \<Longrightarrow> store_reach L (load (store_did st) (persist st) (disk st))"

lemma store_reach_inv: "store_reach L st \<Longrightarrow> store_inv st"
  by (induction rule: store_reach.induct)
    (simp_all add: empty_store_inv store_get_inv get_entry_inv store_set_inv log_append_inv merge_entry_inv
      merge_log_inv apply_diff_inv restart_inv)

subsection \<open>The store as a map\<close>

text \<open>What a reader sees at time \<open>now\<close>: expired entries and deletions are absent.\<close>

definition view :: "real \<Rightarrow> mstore \<Rightarrow> string \<Rightarrow> pyval option" where
  "view now st k =
     (case dget (registers st) k of
        None \<Rightarrow> None
      | Some e \<Rightarrow> if entry_expired now e \<or> lww_value e = VNone then None else Some (lww_value e))"

lemma view_get: "snd (store_get now st key) = (case view now st (normalize_key key) of None \<Rightarrow> VNone | Some v \<Rightarrow> v)"
  by (simp add: store_get_def view_def Let_def split: option.split)

lemma view_after_get: "view now (fst (store_get now st key)) = view now st"
  by (auto simp: store_get_def view_def Let_def split: option.split)

lemma view_keys:
  assumes "store_inv st"
  shows "set (store_keys now st pre) =
    {k. view now st k \<noteq> None \<and> startswith k (if pre = [] then [] else normalize_key pre)}"
proof -
  have "(k, e) \<in> set (registers st) \<longleftrightarrow> dget (registers st) k = Some e" for k e
    using store_inv_regs[OF assms] by (auto simp: regs_ok_def dest: dget_Some_mem)
  then show ?thesis
    by (auto simp: store_keys_def view_def Let_def image_iff split: option.splits if_splits)
qed

lemma view_set:
  assumes "store_inv st" "from_key key = Inr (ns, path)"
    and "check_optional L now (normalize_key key) tok = Inr ()"
    and "\<forall>t. ttl = Some t \<longrightarrow> t \<ge> 0"
  shows "view now (fst (store_set L now st key v ttl tok)) =
    (view now st)(normalize_key key := (if v = VNone then None else Some v))"
proof -
  have "\<not> entry_expired now (new_entry L v ts d now [] (case ttl of None \<Rightarrow> DEFAULT_TTLS ns | Some t \<Rightarrow> Some t))" for ts d
    using assms(4) by (cases ns; cases ttl) (auto simp: entry_expired_def)
  then show ?thesis
    using assms(1-3) by (auto simp: store_set_eq view_def Let_def fun_eq_iff)
qed

subsection \<open>Merging\<close>

text \<open>The entries for one key in a batch of merges, and the fold over them.\<close>

definition for_key :: "string \<Rightarrow> (string \<times> lww_entry) list \<Rightarrow> lww_entry list" where
  "for_key k ms = map snd (filter (\<lambda>(k', e). normalize_key k' = k) ms)"

definition merge_all :: "(string \<times> lww_entry) list \<Rightarrow> mstore \<Rightarrow> mstore" where
  "merge_all ms st = fold (\<lambda>(k, e) s. fst (merge_entry s k e)) ms st"

lemma merge_all_simps [simp]:
  "merge_all [] st = st" "merge_all ((k, e) # ms) st = merge_all ms (fst (merge_entry st k e))"
  by (simp_all add: merge_all_def)

lemma merge_all_kept [simp]:
  "logs (merge_all ms st) = logs st" "store_did (merge_all ms st) = store_did st"
  by (induction ms arbitrary: st) (auto simp: merge_all_def)

lemma merge_all_inv: "store_inv st \<Longrightarrow> store_inv (merge_all ms st)"
  by (induction ms arbitrary: st) (auto simp: merge_entry_inv)

lemma merge_all_registers: "dget (registers (merge_all ms st)) k = fold lww.pick (for_key k ms) (dget (registers st) k)"
proof (induction ms arbitrary: st)
  case (Cons m ms)
  then show ?case by (cases m) (auto simp: merge_entry_registers for_key_def)
qed (simp add: for_key_def)

lemma set_for_key: "set (for_key k ms) = {e. \<exists>k'. (k', e) \<in> set ms \<and> normalize_key k' = k}"
  by (force simp: for_key_def)

lemma apply_registers_merge_all:
  "list_all (\<lambda>(k, e). lww_hash e \<noteq> []) ms \<Longrightarrow>
   apply_registers L now st (map (\<lambda>(k, e). (k, entry_to_dict e)) ms) = (merge_all ms st, Inr ())"
proof (induction ms arbitrary: st)
  case (Cons m ms)
  then show ?case by (cases m) (simp add: entry_dict_roundtrip)
qed simp

subsection \<open>Write permission\<close>

lemma resource_covers_key_eq: "resource_covers_key res key = covers res key"
  by (auto simp: resource_covers_key_def covers_def Let_def)

lemma check_write_Inr_iff:
  "check_write_permission L now key token = Inr () \<longleftrightarrow>
     (\<exists>t c. decode_token L now token = Inr t \<and> c \<in> set (ucan_caps t) \<and> ability c = WRITE_ABILITY
        \<and> covers (normalize_key (resource c)) (normalize_key key))"
  by (auto simp: check_write_permission_def list_ex_iff resource_covers_key_eq split: sum.split)


subsection \<open>Properties\<close>

definition demo_store :: mstore where
  "demo_store = load ''did:b'' True None"

abbreviation demo_L :: "bool lib" where
  "demo_L \<equiv> demo_lib demo_values"

text \<open>
  C18: in every store that can be reached, keys are unique and canonical and no register carries
  a timestamp above the Lamport clock, through local writes, merges of any remote data, expiry
  on read, and restarts from the file.
\<close>

theorem store_reach_sound:
  assumes "store_reach L st" and "dget (registers st) k = Some e"
  shows "distinct (dkeys (registers st)) \<and> normalize_key k = k \<and> timestamp e \<le> lamport st"
  using store_inv_regs[OF store_reach_inv[OF assms(1)]] dget_Some_mem[OF assms(2)]
  by (auto simp: regs_ok_def list_all_iff)

theorem store_reach_sound_witness:
  "distinct (dkeys (registers (fst (merge_entry demo_store ''cache://a'' (new_entry demo_L VNone 9 ''a'' 0 ''x'' None)))))
   \<and> normalize_key ''aries:cache://a'' = ''aries:cache://a''
   \<and> timestamp (new_entry demo_L VNone 9 ''a'' 0 ''x'' None)
      \<le> lamport (fst (merge_entry demo_store ''cache://a'' (new_entry demo_L VNone 9 ''a'' 0 ''x'' None)))"
  by (rule store_reach_sound[where L = demo_L])
    (auto simp: demo_store_def merge_entry_registers normalize_key_def CANONICAL_PREFIXES_def
      LEGACY_PREFIXES_def canonical_key_def load_def intro!: merge start[unfolded load_def, of _ _ True, simplified])




text \<open>
  The store's matching of a capability resource against a key is the matching of UCAN
  attenuation: a resource covers a key exactly when a capability on the key would be an
  attenuation of one on the resource.
\<close>

theorem resource_matching_agrees:
  "resource_covers_key res key
     = is_attenuated_by \<lparr>resource = key, ability = a\<rparr> \<lparr>resource = res, ability = a\<rparr>"
  by (simp add: resource_covers_key_eq attenuated_iff_covers)

text \<open>
  The write check reads a token's capabilities without checking its signature: a token
  that names one device as issuer but is signed with another's key fails verification and is
  still accepted for writing.
\<close>

theorem forged_token_writes:
  "(\<exists>e. verify_token demo_L 7 (snd (sign_token demo_L True demo_agent)) = Inl e)
   \<and> check_write_permission demo_L 7 ''aries:context://t'' (snd (sign_token demo_L True demo_agent)) = Inr ()"
  (is "?rejected \<and> ?accepted")
proof
  have pk: "did_to_public_key (demo_did False) = Inr (replicate 32 0)"
    using did_key.dec_enc[OF _ demo_did_key[of demo_values False]]
    by (simp add: demo_lib_def key_length_ok_def)
  have i: "issuer demo_agent = demo_did False" by (simp add: demo_agent_def agent_token_def)
  obtain m where s: "raw_signature (fst (sign_token demo_L True demo_agent)) = Some (replicate 32 1 @ m)"
    by (simp add: sign_token_def Let_def) (simp add: demo_lib_def)
  have v: "ed_verify demo_L (replicate 32 0) x (replicate 32 1 @ y) = False" for x y
    by (simp add: demo_lib_def numeral_eq_Suc)
  show ?rejected
    by (simp add: verify_token_def decode_signed[OF demo_json(1,3)] i pk s v Let_def)
  have "resource_covers_key ''aries:context://*'' ''aries:context://t''"
    by (simp add: resource_covers_key_def suffix_def)
  then show ?accepted
    by (simp add: check_write_permission_def decode_signed[OF demo_json(1,3)])
      (simp add: sign_token_def demo_agent_def agent_token_def Let_def WRITE_ABILITY_def
        normalize_key_def CANONICAL_PREFIXES_def)
qed

text \<open>
  C28: merging is insensitive to order and repetition: two stores that agree on a key, each fed
  the same entries for it in any order and any number of times, agree on it again, provided
  entries with the same timestamp and writer are the same entry.
\<close>

theorem merges_converge:
  assumes "dget (registers s) k = dget (registers t) k"
    and "set (for_key k xs) = set (for_key k ys)"
    and "inj_on stamp_of (set (for_key k xs) \<union> set_option (dget (registers s) k))"
  shows "dget (registers (merge_all xs s)) k = dget (registers (merge_all ys t)) k"
  unfolding merge_all_registers using assms by (intro lww.fold_pick_converges) simp_all

theorem merges_converge_witness:
  "dget (registers (merge_all [(''cache://a'', new_entry demo_L VNone 1 ''a'' 0 ''x'' None),
                               (''aries:cache://a'', new_entry demo_L VNone 1 ''b'' 0 ''y'' None)] demo_store)) ''aries:cache://a''
   = dget (registers (merge_all [(''cache://a'', new_entry demo_L VNone 1 ''b'' 0 ''y'' None),
                               (''cache://a'', new_entry demo_L VNone 1 ''a'' 0 ''x'' None),
                               (''cache://a'', new_entry demo_L VNone 1 ''b'' 0 ''y'' None)] demo_store)) ''aries:cache://a''"
  by (rule merges_converge)
    (auto simp: for_key_def normalize_key_def CANONICAL_PREFIXES_def LEGACY_PREFIXES_def canonical_key_def
      demo_store_def load_def stamp_of_def new_entry_def)

text \<open>
  A write on a store with a persistence directory survives a restart: the store loaded from
  the file has the clock, the registers and the logs the write left.
\<close>

theorem write_survives_restart:
  assumes "store_inv st" and "persist st" and "store_set L now st key v ttl tok = (st', Inr e)"
  shows "(load (store_did st') (persist st') (disk st'))\<lparr>fired := fired st'\<rparr> = st'"
  using assms by (auto simp: store_set_eq load_def Let_def save_def snapshot_of_def split: sum.splits prod.splits)

theorem write_survives_restart_witness:
  "case store_set demo_L 7 demo_store ''memory://a'' (VInt 1) None None of
     (st', r) \<Rightarrow> (load (store_did st') (persist st') (disk st'))\<lparr>fired := fired st'\<rparr> = st'"
proof -
  have k: "from_key ''memory://a'' = Inr (MEMORY, ''a'')"
    by (simp add: from_key_def CANONICAL_PREFIXES_def LEGACY_PREFIXES_def)
  have i: "store_inv demo_store" unfolding demo_store_def by (rule empty_store_inv)
  obtain st' e where r: "store_set demo_L 7 demo_store ''memory://a'' (VInt 1) None None = (st', Inr e)"
    using k by (auto simp: store_set_eq[OF i] check_optional_def Let_def)
  have "persist demo_store" by (simp add: demo_store_def load_def)
  from write_survives_restart[OF i this r] r show ?thesis by simp
qed

end
