(* ===== verification/Sync.thy ===== *)
theory Sync
  imports Store
begin

text \<open>
  \<^verbatim>\<open>memory/sync.py\<close>: the two-phase exchange that keeps the stores of connected devices equal.
  A device asks with a summary of its state; the peer answers with what the asker lacks and
  its own summary; the asker applies that and sends back what the peer lacks. Both handlers
  are functions of the store and the message; what they send is returned. The service adds
  the debounced and the periodic push.

  Sending is best effort in the code (a failing send is swallowed), so a message that is
  returned here may or may not arrive. A register that cannot be decoded raises out of the
  handler, which then sends nothing.
\<close>

subsection \<open>Messages and handlers\<close>

definition empty_diff :: sync_diff where
  "empty_diff = \<lparr>diff_registers = [], diff_logs = []\<rparr>"

datatype sync_msg =
    SyncRequest sync_state sync_diff
  | SyncResponse sync_diff sync_state
  | SyncOtherPhase
  | MemoryUpdate sync_diff

definition sync_request :: "real \<Rightarrow> mstore \<Rightarrow> sync_msg" where
  "sync_request now st = SyncRequest (get_sync_state now st) empty_diff"

fun handle_sync ::
    "('k, 'z) lib_scheme \<Rightarrow> real \<Rightarrow> mstore \<Rightarrow> sync_msg \<Rightarrow> mstore \<times> sync_msg list result" where
  "handle_sync L now st (SyncRequest remote_state d) =
     (let diff = compute_diff now st remote_state
      in case apply_diff L now st d of
           (st1, Inl e) \<Rightarrow> (st1, Inl e)
         | (st1, Inr _) \<Rightarrow> (st1, Inr [SyncResponse diff (get_sync_state now st1)]))"
| "handle_sync L now st (SyncResponse d remote_state) =
     (case apply_diff L now st d of
        (st1, Inl e) \<Rightarrow> (st1, Inl e)
      | (st1, Inr _) \<Rightarrow>
          (let our_diff = compute_diff now st1 remote_state
           in if diff_registers our_diff \<noteq> [] \<or> diff_logs our_diff \<noteq> []
              then (st1, Inr [MemoryUpdate our_diff]) else (st1, Inr [])))"
| "handle_sync L now st _ = (st, Inr [])"

definition handle_update ::
    "('k, 'z) lib_scheme \<Rightarrow> real \<Rightarrow> mstore \<Rightarrow> sync_diff \<Rightarrow> mstore \<times> unit result" where
  "handle_update L now st d = apply_diff L now st d"

text \<open>
  One exchange started by the first store, all messages delivered; a handler that raises ends
  the exchange.
\<close>

definition sync_round :: "('k, 'z) lib_scheme \<Rightarrow> real \<Rightarrow> mstore \<times> mstore \<Rightarrow> mstore \<times> mstore" where
  "sync_round L now ab =
     (case ab of (a, b) \<Rightarrow>
      case handle_sync L now b (sync_request now a) of
        (b1, Inr [resp]) \<Rightarrow>
          (case handle_sync L now a resp of
             (a1, Inr [MemoryUpdate d]) \<Rightarrow> (a1, fst (handle_update L now b1 d))
           | (a1, _) \<Rightarrow> (a1, b1))
      | (b1, _) \<Rightarrow> (a, b1))"

subsection \<open>The service\<close>

text \<open>
  \<open>pushed\<close> collects the broadcasts. A change notification starts one debounce task and is
  ignored while one is pending; without a running event loop nothing is scheduled.
\<close>

record sync_service =
  svc_store :: mstore
  svc_running :: bool
  svc_debounce :: bool
  pushed :: "sync_msg list"

definition svc_start :: "sync_service \<Rightarrow> sync_service" where
  "svc_start s = (if svc_running s then s else s\<lparr>svc_running := True\<rparr>)"

definition svc_stop :: "sync_service \<Rightarrow> sync_service" where
  "svc_stop s = s\<lparr>svc_running := False, svc_debounce := False\<rparr>"

definition on_local_change :: "bool \<Rightarrow> sync_service \<Rightarrow> sync_service" where
  "on_local_change has_loop s =
     (if svc_debounce s then s else if \<not> has_loop then s else s\<lparr>svc_debounce := True\<rparr>)"

definition push_to_peers :: "real \<Rightarrow> sync_service \<Rightarrow> sync_service" where
  "push_to_peers now s = s\<lparr>pushed := pushed s @ [sync_request now (svc_store s)]\<rparr>"

definition debounce_and_push :: "real \<Rightarrow> sync_service \<Rightarrow> sync_service" where
  "debounce_and_push now s =
     (if svc_debounce s then (push_to_peers now s)\<lparr>svc_debounce := False\<rparr> else s)"

definition periodic_tick :: "real \<Rightarrow> sync_service \<Rightarrow> sync_service" where
  "periodic_tick now s = (if svc_running s then push_to_peers now s else s)"

text \<open>A store operation of the service's store: each notification it fires reaches the hook.\<close>

definition svc_update :: "bool \<Rightarrow> mstore \<Rightarrow> sync_service \<Rightarrow> sync_service" where
  "svc_update has_loop st s =
     ((on_local_change has_loop ^^ (length (fired st) - length (fired (svc_store s)))) s)\<lparr>svc_store := st\<rparr>"

subsection \<open>What a diff transfers\<close>

lemma get_sync_registers:
  assumes "regs_ok c (registers st)"
  shows "dget (sync_registers (get_sync_state now st)) k =
    (case dget (registers st) k of None \<Rightarrow> None
     | Some e \<Rightarrow> if entry_expired now e then None else Some (summarize e))"
proof -
  have "dget (map (\<lambda>(k, e). (k, summarize e)) (filter (\<lambda>(k, e). \<not> entry_expired now e) rs)) k =
      (case dget rs k of None \<Rightarrow> None | Some e \<Rightarrow> if entry_expired now e then None else Some (summarize e))"
    if "distinct (dkeys rs)" for rs
    using that
  proof (induction rs)
    case (Cons r rs)
    obtain k' e where r: "r = (k', e)" by (cases r)
    have "k \<noteq> k' \<or> dget rs k = None" using Cons.prems r by (auto simp: map_of_eq_None_iff)
    with Cons r show ?case by auto
  qed simp
  with assms show ?thesis by (simp add: get_sync_state_def regs_ok_def)
qed

lemma for_key_filter:
  "regs_ok c rs \<Longrightarrow> for_key k (filter (\<lambda>(k, e). P k e) rs) =
     (case dget rs k of None \<Rightarrow> [] | Some e \<Rightarrow> if P k e then [e] else [])"
proof (induction rs)
  case (Cons r rs)
  obtain k' e where r: "r = (k', e)" by (cases r)
  have n: "normalize_key k' = k'" and ok: "regs_ok c rs" and d: "k' \<notin> fst ` set rs"
    using Cons.prems r by (auto simp: regs_ok_def)
  show ?case
  proof (cases "k' = k")
    case True
    with d have "dget rs k = None" by (simp add: map_of_eq_None_iff)
    with True Cons.IH[OF ok] r n show ?thesis by (auto simp: for_key_def)
  next
    case False
    with Cons.IH[OF ok] r n show ?thesis by (auto simp: for_key_def)
  qed
qed (simp add: for_key_def)

definition hashed :: "mstore \<Rightarrow> bool" where
  "hashed st = list_all (\<lambda>(k, e). lww_hash e \<noteq> []) (registers st)"

definition fresh :: "real \<Rightarrow> mstore \<Rightarrow> bool" where
  "fresh now st = list_all (\<lambda>(k, e). \<not> entry_expired now e) (registers st)"

text \<open>The registers of a diff, before they are turned into dictionaries.\<close>

definition diff_entries :: "real \<Rightarrow> mstore \<Rightarrow> sync_state \<Rightarrow> (string \<times> lww_entry) list" where
  "diff_entries now st remote =
     filter (\<lambda>(k, e). \<not> entry_expired now e \<and> include_register e (dget (sync_registers remote) k)) (registers st)"

lemma diff_registers_eq:
  "diff_registers (compute_diff now st remote) = map (\<lambda>(k, e). (k, entry_to_dict e)) (diff_entries now st remote)"
  by (simp add: compute_diff_def diff_entries_def)

lemma apply_computed_diff:
  assumes "hashed st"
  shows "apply_diff L now st' (compute_diff now st remote) =
    (fold (\<lambda>(key, es) s. merge_log s key es) (diff_logs (compute_diff now st remote))
       (merge_all (diff_entries now st remote) st'), Inr ())"
proof -
  have "list_all (\<lambda>(k, e). lww_hash e \<noteq> []) (diff_entries now st remote)"
    using assms by (auto simp: hashed_def diff_entries_def list_all_iff)
  then show ?thesis by (simp add: apply_diff_def diff_registers_eq apply_registers_merge_all)
qed

lemma fold_merge_log_registers [simp]:
  "registers (fold (\<lambda>(key, es) s. merge_log s key es) ls st) = registers st"
  by (induction ls arbitrary: st) auto

lemma apply_empty_diff [simp]: "apply_diff L now st empty_diff = (st, Inr ())"
  by (simp add: apply_diff_def empty_diff_def)

definition diff_pick :: "real \<Rightarrow> lww_entry option \<Rightarrow> lww_entry option \<Rightarrow> lww_entry option" where
  "diff_pick now theirs mine =
     (case theirs of None \<Rightarrow> mine
      | Some e \<Rightarrow> if \<not> entry_expired now e
            \<and> include_register e (case mine of None \<Rightarrow> None
                 | Some m \<Rightarrow> if entry_expired now m then None else Some (summarize m))
          then lww.pick e mine else mine)"

lemma apply_diff_registers:
  assumes "hashed st" "store_inv st" "store_inv old"
    and "\<And>k. dget (registers st') k = dget (registers old) k"
  shows "dget (registers (fst (apply_diff L now st' (compute_diff now st (get_sync_state now old))))) k =
    diff_pick now (dget (registers st) k) (dget (registers old) k)"
  using assms(4) for_key_filter[OF store_inv_regs[OF assms(2)]]
    get_sync_registers[OF store_inv_regs[OF assms(3)]]
  by (simp add: apply_computed_diff[OF assms(1)] merge_all_registers diff_entries_def diff_pick_def
      split: option.split)


subsection \<open>One round on the registers\<close>

lemma sync_round_eq:
  assumes "hashed a" "hashed b"
    and "hashed (fst (apply_diff L now a (compute_diff now b (get_sync_state now a))))"
  shows "sync_round L now (a, b) =
    (let a' = fst (apply_diff L now a (compute_diff now b (get_sync_state now a)))
     in (a', fst (apply_diff L now b (compute_diff now a' (get_sync_state now b)))))"
proof -
  have "apply_diff L now b d = (b, Inr ())" if "diff_registers d = []" "diff_logs d = []" for d
    using that by (simp add: apply_diff_def)
  then show ?thesis
    by (auto simp: sync_round_def sync_request_def Let_def handle_update_def apply_computed_diff[OF assms(2)])
qed

lemma inv_mem_iff: "store_inv st \<Longrightarrow> (k, e) \<in> set (registers st) \<longleftrightarrow> dget (registers st) k = Some e"
  by (auto simp: store_inv_def regs_ok_def dest: dget_Some_mem)

lemma hashed_iff: "store_inv st \<Longrightarrow> hashed st \<longleftrightarrow> (\<forall>k e. dget (registers st) k = Some e \<longrightarrow> lww_hash e \<noteq> [])"
  by (auto simp: hashed_def list_all_iff inv_mem_iff)

lemma fresh_iff: "store_inv st \<Longrightarrow> fresh now st \<longleftrightarrow> (\<forall>k e. dget (registers st) k = Some e \<longrightarrow> \<not> entry_expired now e)"
  by (auto simp: fresh_def list_all_iff inv_mem_iff)

lemma diff_pick_mem: "diff_pick now theirs mine = Some e \<Longrightarrow> theirs = Some e \<or> mine = Some e"
  by (auto simp: diff_pick_def split: option.splits if_splits dest: lww.pick_mem)

lemma hashed_apply:
  assumes "hashed a" "hashed b" "store_inv a" "store_inv b"
  shows "hashed (fst (apply_diff L now a (compute_diff now b (get_sync_state now a))))"
proof -
  let ?a = "fst (apply_diff L now a (compute_diff now b (get_sync_state now a)))"
  have "dget (registers ?a) k = diff_pick now (dget (registers b) k) (dget (registers a) k)" for k
    by (rule apply_diff_registers) (use assms in auto)
  moreover have "store_inv ?a" using assms(3) by (rule apply_diff_inv)
  ultimately show ?thesis
    using assms by (auto simp: hashed_iff dest!: diff_pick_mem)
qed

lemma round_registers:
  assumes "hashed a" "hashed b" "store_inv a" "store_inv b"
  shows "dget (registers (fst (sync_round L now (a, b)))) k = diff_pick now (dget (registers b) k) (dget (registers a) k)"
    and "dget (registers (snd (sync_round L now (a, b)))) k =
      diff_pick now (diff_pick now (dget (registers b) k) (dget (registers a) k)) (dget (registers b) k)"
proof -
  let ?a = "fst (apply_diff L now a (compute_diff now b (get_sync_state now a)))"
  have a: "dget (registers ?a) k = diff_pick now (dget (registers b) k) (dget (registers a) k)" for k
    by (rule apply_diff_registers) (use assms in auto)
  have h: "hashed ?a" using assms by (rule hashed_apply)
  have i: "store_inv ?a" using assms(3) by (rule apply_diff_inv)
  have b: "dget (registers (fst (apply_diff L now b (compute_diff now ?a (get_sync_state now b))))) k =
      diff_pick now (dget (registers ?a) k) (dget (registers b) k)"
    by (rule apply_diff_registers[OF h i assms(4)]) simp
  show "dget (registers (fst (sync_round L now (a, b)))) k = diff_pick now (dget (registers b) k) (dget (registers a) k)"
    using a sync_round_eq[OF assms(1,2) h] by (simp add: Let_def)
  show "dget (registers (snd (sync_round L now (a, b)))) k =
      diff_pick now (diff_pick now (dget (registers b) k) (dget (registers a) k)) (dget (registers b) k)"
    using b a sync_round_eq[OF assms(1,2) h] by (simp add: Let_def)
qed

text \<open>
  The entries of two stores are comparable when, key by key, two entries of the same time are
  the same entry as soon as they have the same writer or the same content hash.
\<close>

definition comparable :: "mstore \<Rightarrow> mstore \<Rightarrow> bool" where
  "comparable a b \<longleftrightarrow> (\<forall>k ea eb. dget (registers a) k = Some ea \<longrightarrow> dget (registers b) k = Some eb
     \<longrightarrow> timestamp ea = timestamp eb \<longrightarrow> writer_did ea = writer_did eb \<or> lww_hash ea = lww_hash eb
     \<longrightarrow> ea = eb)"

lemma diff_pick_both:
  assumes "\<And>e. theirs = Some e \<Longrightarrow> \<not> entry_expired now e" "\<And>e. mine = Some e \<Longrightarrow> \<not> entry_expired now e"
    and "\<And>e f. theirs = Some e \<Longrightarrow> mine = Some f \<Longrightarrow> timestamp e = timestamp f
      \<Longrightarrow> writer_did e = writer_did f \<or> lww_hash e = lww_hash f \<Longrightarrow> e = f"
  shows "diff_pick now theirs mine = (case theirs of None \<Rightarrow> mine | Some e \<Rightarrow> lww.pick e mine)"
proof (cases theirs)
  case (Some e)
  show ?thesis
  proof (cases mine)
    case None
    with Some assms(1) show ?thesis by (simp add: diff_pick_def include_register_def)
  next
    case (Some f)
    with \<open>theirs = Some e\<close> assms show ?thesis
      by (auto simp: diff_pick_def include_register_def summarize_def supersedes_def)
  qed
qed (simp add: diff_pick_def)

lemma pick_comm:
  "(timestamp e = timestamp f \<Longrightarrow> writer_did e = writer_did f \<Longrightarrow> e = f) \<Longrightarrow> lww.pick e (Some f) = lww.pick f (Some e)"
  by (auto simp: supersedes_def)

subsection \<open>One round on the logs\<close>

definition logs_ok :: "mstore \<Rightarrow> bool" where
  "logs_ok st \<longleftrightarrow> distinct (dkeys (logs st)) \<and> list_all (\<lambda>(k, l). normalize_key k = k) (logs st)"

lemma get_log_merge:
  "get_log (merge_log st key es) k = (if k = normalize_key key then log_merge (get_log st k) es else get_log st k)"
  by (auto simp: merge_log_def Let_def get_log_def dgetd_def)

lemma get_log_fold:
  "distinct (dkeys ls) \<Longrightarrow> list_all (\<lambda>(k, l). normalize_key k = k) ls \<Longrightarrow>
   get_log (fold (\<lambda>(key, es) s. merge_log s key es) ls st) k =
     (case dget ls k of None \<Rightarrow> get_log st k | Some es \<Rightarrow> log_merge (get_log st k) es)"
proof (induction ls arbitrary: st)
  case (Cons x ls)
  obtain k' es where x: "x = (k', es)" by (cases x)
  have "k = k' \<Longrightarrow> dget ls k = None" using Cons.prems x by (auto simp: map_of_eq_None_iff)
  with Cons x show ?case by (auto simp: get_log_merge split: option.split)
qed simp

lemma get_log_merge_all [simp]: "get_log (merge_all ms st) k = get_log st k"
  by (simp add: get_log_def)

lemma sync_logs_get: "dgetd (sync_logs (get_sync_state now st)) k 0 = length (get_log st k)"
  by (simp add: get_sync_state_def dgetd_def get_log_def map_of_map split: option.split)

lemma map_filter_keys:
  "distinct (dkeys ls) \<Longrightarrow>
   dget (map (\<lambda>(k, l). (k, f k l)) (filter (\<lambda>(k, l). P k l) ls)) k =
     (case dget ls k of None \<Rightarrow> None | Some l \<Rightarrow> if P k l then Some (f k l) else None)"
proof (induction ls)
  case (Cons x ls)
  obtain k' l where x: "x = (k', l)" by (cases x)
  have "k = k' \<Longrightarrow> dget ls k = None" using Cons.prems x by (auto simp: map_of_eq_None_iff)
  with Cons x show ?case by (auto split: option.split)
qed simp

lemma diff_logs_get:
  "logs_ok st \<Longrightarrow> dget (diff_logs (compute_diff now st (get_sync_state now old))) k =
    (if length (get_log st k) > length (get_log old k) then Some (drop (length (get_log old k)) (get_log st k)) else None)"
  by (auto simp: compute_diff_def logs_ok_def map_filter_keys sync_logs_get log_since_def
      get_log_def[of st] dgetd_def[of "logs st"] split: option.split)

lemma diff_logs_ok:
  "logs_ok st \<Longrightarrow> distinct (dkeys (diff_logs (compute_diff now st r)))
    \<and> list_all (\<lambda>(k, l). normalize_key k = k) (diff_logs (compute_diff now st r))"
proof -
  assume l: "logs_ok st"
  have "dkeys (diff_logs (compute_diff now st r)) =
      map fst (filter (\<lambda>(k, l). length l > dgetd (sync_logs r) k 0) (logs st))"
    by (simp add: compute_diff_def comp_def case_prod_unfold)
  with l show ?thesis
    unfolding logs_ok_def list_all_iff
    by (simp add: distinct_map_filter) (auto simp: compute_diff_def)
qed

lemma apply_diff_log:
  assumes "hashed st" "logs_ok st"
  shows "get_log (fst (apply_diff L now old (compute_diff now st (get_sync_state now old)))) k =
    (if length (get_log st k) > length (get_log old k)
     then log_merge (get_log old k) (drop (length (get_log old k)) (get_log st k)) else get_log old k)"
  using diff_logs_ok[OF assms(2), of now "get_sync_state now old"]
  by (simp add: apply_computed_diff[OF assms(1)] get_log_fold diff_logs_get[OF assms(2)])

lemma logs_ok_merge_log: "logs_ok st \<Longrightarrow> logs_ok (merge_log st key es)"
  using set_dset_sub[of "normalize_key key" "log_merge (get_log st (normalize_key key)) es" "logs st"]
  by (auto simp: logs_ok_def merge_log_def Let_def list_all_iff)

lemma logs_ok_fold: "logs_ok st \<Longrightarrow> logs_ok (fold (\<lambda>(key, es) s. merge_log s key es) ls st)"
  by (induction ls arbitrary: st) (auto simp: logs_ok_merge_log)

lemma logs_ok_apply:
  assumes "logs_ok st" "hashed other"
  shows "logs_ok (fst (apply_diff L now st (compute_diff now other r)))"
proof -
  have "logs_ok (merge_all ms st)" for ms using assms(1) by (simp add: logs_ok_def)
  then show ?thesis by (simp add: apply_computed_diff[OF assms(2)] logs_ok_fold)
qed

text \<open>What a log that extends another adds to it.\<close>

lemma log_merge_extension:
  assumes "sorted (map rec_ts (l @ new))" "distinct (map rec_key (l @ new))"
  shows "log_merge l new = l @ new"
proof -
  have "merge_loop seen [] new = new" if "seen \<inter> set (map rec_key new) = {}" for seen
    using assms(2) that
  proof (induction new arbitrary: seen l)
    case (Cons x xs)
    have "merge_loop (insert (rec_key x) seen) [] xs = xs"
      using Cons.prems by (intro Cons.IH[where l = l]) auto
    then show ?case
      using Cons.prems merge_loop_append[of "insert (rec_key x) seen" "[x]" xs] by simp
  qed simp
  moreover have "set (map rec_key l) \<inter> set (map rec_key new) = {}" using assms(2) by auto
  ultimately have "merge_loop (set (map rec_key l)) l new = l @ new"
    by (subst merge_loop_append) blast
  then show ?thesis
    using assms(1) by (simp add: log_merge_def sort_key_id_if_sorted)
qed


subsection \<open>Properties\<close>


text \<open>
  The exchange is quiet once two stores agree: a round between stores with the same
  registers and equally long logs changes neither store, fires no notification (so schedules
  no further push) and sends no update.
\<close>

theorem agreed_round_is_quiet:
  assumes "store_reach L a" "store_reach L b"
    and "\<And>k. dget (registers a) k = dget (registers b) k"
    and "logs_ok a" "logs_ok b" "\<And>k. length (get_log a k) = length (get_log b k)"
  shows "sync_round L now (a, b) = (a, b)"
proof -
  have empty: "compute_diff now s (get_sync_state now t) = empty_diff"
    if "store_inv s" "store_inv t" "\<And>k. dget (registers s) k = dget (registers t) k"
       "logs_ok s" "\<And>k. length (get_log s k) = length (get_log t k)" for s t
  proof -
    have "dget (registers t) k = Some e" if "(k, e) \<in> set (registers s)" for k e
      using that \<open>store_inv s\<close> \<open>\<And>k. dget (registers s) k = dget (registers t) k\<close> by (metis inv_mem_iff)
    then have "diff_entries now s (get_sync_state now t) = []"
      using get_sync_registers[OF store_inv_regs[OF that(2)], of now]
      by (auto simp: diff_entries_def filter_empty_conv include_register_def summarize_def)
    moreover have "dget (diff_logs (compute_diff now s (get_sync_state now t))) k = None" for k
      using that(5)[of k] by (simp add: diff_logs_get[OF that(4)])
    then have "diff_logs (compute_diff now s (get_sync_state now t)) = []"
      by (metis map_of_eq_empty_iff map_of.simps(1) ext)
    ultimately show ?thesis
      using diff_registers_eq[of now s "get_sync_state now t"] by (simp add: empty_diff_def)
  qed
  have "store_inv a" "store_inv b" using assms(1,2) store_reach_inv by auto
  then show ?thesis
    using empty[of a b] empty[of b a] assms(3-6)
    by (simp add: sync_round_def sync_request_def Let_def) (simp add: empty_diff_def)
qed

text \<open>
  A log only one device appends to is copied in one round: when the peer holds a beginning
  of the log, it holds all of it afterwards.
\<close>

theorem single_writer_log_copied:
  assumes "hashed a" "hashed b" "store_inv a" "store_inv b" "logs_ok a" "logs_ok b"
    and "get_log a k = get_log b k @ new"
    and "sorted (map rec_ts (get_log a k))" "distinct (map rec_key (get_log a k))"
  shows "case sync_round L now (a, b) of (a', b') \<Rightarrow> get_log b' k = get_log a k \<and> get_log a' k = get_log a k"
proof -
  let ?a = "fst (apply_diff L now a (compute_diff now b (get_sync_state now a)))"
  have h: "hashed ?a" using assms(1-4) by (rule hashed_apply)
  have a: "get_log ?a k' = (if length (get_log b k') > length (get_log a k')
     then log_merge (get_log a k') (drop (length (get_log a k')) (get_log b k')) else get_log a k')" for k'
    by (rule apply_diff_log) (use assms in auto)
  then have a1: "get_log ?a k = get_log a k" by (simp add: assms(7))
  have lo: "logs_ok ?a" by (rule logs_ok_apply) (use assms in auto)
  have "get_log (fst (apply_diff L now b (compute_diff now ?a (get_sync_state now b)))) k = get_log a k"
    using log_merge_extension assms(7-9)
    by (simp add: apply_diff_log[OF h lo] a1)
  then show ?thesis
    using a1 sync_round_eq[OF assms(1,2) h] by (simp add: Let_def)
qed

definition stuck_a :: mstore where
  "stuck_a = (load ''a'' False None)\<lparr>logs := [(''aries:memory://l'',
     [\<lparr>log_body = [], log_device = Some ''a'', log_seq = Some 0, log_ts = Some 1\<rparr>,
      \<lparr>log_body = [], log_device = Some ''a'', log_seq = Some 1, log_ts = Some 3\<rparr>])]\<rparr>"

definition stuck_b :: mstore where
  "stuck_b = (load ''b'' False None)\<lparr>logs := [(''aries:memory://l'',
     [\<lparr>log_body = [], log_device = Some ''b'', log_seq = Some 0, log_ts = Some 2\<rparr>])]\<rparr>"


definition stuck_b2 :: mstore where
  "stuck_b2 = stuck_b\<lparr>logs := [(''aries:memory://l'',
     [\<lparr>log_body = [], log_device = Some ''b'', log_seq = Some 0, log_ts = Some 2\<rparr>,
      \<lparr>log_body = [], log_device = Some ''a'', log_seq = Some 1, log_ts = Some 3\<rparr>])],
     fired := [LogNote ''aries:memory://l''
       \<lparr>log_body = [], log_device = Some ''a'', log_seq = Some 1, log_ts = Some 3\<rparr>]\<rparr>"

lemmas stuck_defs = stuck_a_def stuck_b_def stuck_b2_def load_def sync_round_def sync_request_def
  get_sync_state_def compute_diff_def dgetd_def log_since_def empty_diff_def apply_diff_def handle_update_def

lemma stuck_start: "sync_round demo_L now (stuck_a, stuck_b) = (stuck_a, stuck_b2)"
  by (simp add: stuck_defs Let_def merge_log_def normalize_key_def CANONICAL_PREFIXES_def get_log_def
      log_merge_def rec_key_def rec_ts_def notify_def save_def)

lemma stuck_step: "sync_round demo_L now (stuck_a, stuck_b2) = (stuck_a, stuck_b2)"
  by (simp add: stuck_defs Let_def)

definition demo_entry :: "did \<Rightarrow> string \<Rightarrow> lww_entry" where
  "demo_entry d h = \<lparr>lww_value = VStr d, timestamp = 1, writer_did = d, wall_clock = 0, lww_hash = h, lww_ttl = Some 10\<rparr>"

definition demo_with :: "did \<Rightarrow> string \<Rightarrow> mstore" where
  "demo_with d h = fst (merge_entry (load d False None) ''cache://a'' (demo_entry d h))"

lemma demo_with_reach: "store_reach demo_L (demo_with d h)"
  unfolding demo_with_def by (intro merge start)

lemma demo_with_get:
  "dget (registers (demo_with d h)) k = (if k = ''aries:cache://a'' then Some (demo_entry d h) else None)"
  by (simp add: demo_with_def merge_entry_registers load_def normalize_key_def CANONICAL_PREFIXES_def
      LEGACY_PREFIXES_def canonical_key_def)

lemma demo_with_ok:
  "h \<noteq> [] \<Longrightarrow> hashed (demo_with d h)" "fresh 5 (demo_with d h)" "logs_ok (demo_with d h)"
  using store_reach_inv[OF demo_with_reach, of d h]
  by (auto simp: hashed_iff fresh_iff demo_with_get demo_entry_def entry_expired_def logs_ok_def)
    (simp_all add: demo_with_def load_def)

text \<open>
  Logs with two writers can stop exchanging while they differ: the summary counts records
  and the answer is the records past that position, so records that sort earlier are never
  sent. With one record of each store missing in the other, a round changes nothing, however
  often it is run.
\<close>

theorem log_exchange_stuck:
  "(sync_round demo_L now ^^ n) (sync_round demo_L now (stuck_a, stuck_b)) = sync_round demo_L now (stuck_a, stuck_b)
   \<and> (case sync_round demo_L now (stuck_a, stuck_b) of (a, b) \<Rightarrow>
        (\<exists>r \<in> set (get_log b ''aries:memory://l''). r \<notin> set (get_log a ''aries:memory://l''))
      \<and> (\<exists>r \<in> set (get_log a ''aries:memory://l''). r \<notin> set (get_log b ''aries:memory://l'')))"
proof -
  have "(sync_round demo_L now ^^ n) (stuck_a, stuck_b2) = (stuck_a, stuck_b2)"
    by (induction n) (simp_all add: stuck_step)
  then show ?thesis
    by (simp add: stuck_start)
      (simp add: stuck_a_def stuck_b2_def stuck_b_def get_log_def dgetd_def)
qed


theorem agreed_round_is_quiet_witness:
  "sync_round demo_L 5 (demo_with ''a'' ''x'', demo_with ''a'' ''x'') = (demo_with ''a'' ''x'', demo_with ''a'' ''x'')"
  by (rule agreed_round_is_quiet[of demo_L]) (simp_all add: demo_with_reach demo_with_ok)

theorem single_writer_log_copied_witness:
  "case sync_round demo_L 5 (stuck_a, stuck_a\<lparr>logs := [(''aries:memory://l'', [hd (get_log stuck_a ''aries:memory://l'')])]\<rparr>) of
    (a', b') \<Rightarrow> get_log b' ''aries:memory://l'' = get_log stuck_a ''aries:memory://l''
      \<and> get_log a' ''aries:memory://l'' = get_log stuck_a ''aries:memory://l''"
  by (rule single_writer_log_copied[where new = "tl (get_log stuck_a ''aries:memory://l'')"])
    (simp_all add: stuck_a_def hashed_def logs_ok_def store_inv_def regs_ok_def load_def get_log_def dgetd_def
      rec_ts_def rec_key_def normalize_key_def CANONICAL_PREFIXES_def)

end
