(* ===== verification/Signed.thy ===== *)
theory Signed
  imports Ucan
begin

text \<open>
  What the two signed documents of the mesh share (\<^verbatim>\<open>receipt.py\<close> and \<^verbatim>\<open>continuation.py\<close>):
  hexadecimal text (\<open>bytes.hex\<close>, \<open>bytes.fromhex\<close>), and the interface \<open>signed_doc\<close> of a document
  with a content, a signature over the canonical JSON of that content, and the DID of its
  signer. Its lemmas are proved once and hold for receipts and for continuations, whose
  theories interpret it.
\<close>

subsection \<open>Hexadecimal text\<close>

definition HEX_DIGITS :: string where
  "HEX_DIGITS = ''0123456789abcdef''"

definition HEX_UPPER :: string where
  "HEX_UPPER = ''0123456789ABCDEF''"

definition bytes_hex :: "bytes \<Rightarrow> string" where
  "bytes_hex bs = concat (map (\<lambda>b. [HEX_DIGITS ! (unat b div 16), HEX_DIGITS ! (unat b mod 16)]) bs)"

definition hex_value :: "char \<Rightarrow> nat option" where
  "hex_value c = (case find_char c HEX_DIGITS of Some i \<Rightarrow> Some i | None \<Rightarrow> find_char c HEX_UPPER)"

definition ascii_space :: "char \<Rightarrow> bool" where
  "ascii_space c = (c \<in> {CHR '' '', CHR 0x09, CHR 0x0A, CHR 0x0B, CHR 0x0C, CHR 0x0D})"

text \<open>\<open>bytes.fromhex\<close>: two digits a byte, either case, ASCII white space allowed between bytes.\<close>

fun bytes_fromhex :: "string \<Rightarrow> bytes result" where
  "bytes_fromhex [] = Inr []"
| "bytes_fromhex (c # s) =
     (if ascii_space c then bytes_fromhex s
      else (case s of
          [] \<Rightarrow> Inl (ValueError ''non-hexadecimal number found in fromhex() arg'')
        | d # s' \<Rightarrow>
            (case (hex_value c, hex_value d) of
               (Some a, Some b) \<Rightarrow> bindE (bytes_fromhex s') (\<lambda>bs. Inr (of_nat (16 * a + b) # bs))
             | _ \<Rightarrow> Inl (ValueError ''non-hexadecimal number found in fromhex() arg''))))"

lemma hex_digit_facts:
  "length HEX_DIGITS = 16" "distinct HEX_DIGITS" "list_all (\<lambda>c. \<not> ascii_space c) HEX_DIGITS"
  by (simp_all add: HEX_DIGITS_def ascii_space_def)

lemma hex_value_nth [simp]: "i < 16 \<Longrightarrow> hex_value (HEX_DIGITS ! i) = Some i"
  by (simp add: hex_value_def find_char_nth hex_digit_facts)

lemma hex_digit_not_space [simp]: "i < 16 \<Longrightarrow> \<not> ascii_space (HEX_DIGITS ! i)"
  using hex_digit_facts by (simp add: list_all_length)

lemma bytes_hex_Nil [simp]: "bytes_hex [] = []"
  by (simp add: bytes_hex_def)

lemma bytes_hex_Cons: "bytes_hex (b # bs) = HEX_DIGITS ! (unat b div 16) # HEX_DIGITS ! (unat b mod 16) # bytes_hex bs"
  by (simp add: bytes_hex_def)

lemma bytes_hex_eq_Nil [simp]: "bytes_hex bs = [] \<longleftrightarrow> bs = []"
  by (cases bs) (simp_all add: bytes_hex_Cons)

lemma bytes_fromhex_hex: "bytes_fromhex (bytes_hex bs) = Inr bs"
proof (induction bs)
  case (Cons b bs)
  have "unat b div 16 < 16" using unat_byte_less[of b] by (simp add: less_mult_imp_div_less)
  moreover have "of_nat (16 * (unat b div 16) + unat b mod 16) = b" by simp
  ultimately show ?case
    using Cons by (simp add: bytes_hex_Cons del: mult_div_mod_eq of_nat_add)
qed simp

interpretation hexa: codec "\<lambda>bs. Inr (bytes_hex bs)" bytes_fromhex "\<lambda>_. True"
  by unfold_locales (simp_all add: bytes_fromhex_hex)

subsection \<open>Signed documents\<close>

text \<open>A key and the DID under which its holder signs.\<close>

definition owns :: "('k, 'z) lib_scheme \<Rightarrow> 'k \<Rightarrow> did \<Rightarrow> bool" where
  "owns L k d \<longleftrightarrow> ed25519_ok L \<and> public_key_to_did (ed_public L k) = Inr d \<and> (\<forall>m. ed_sign L k m \<noteq> [])"

lemma owns_key: "owns L k d \<Longrightarrow> did_to_public_key d = Inr (ed_public L k)"
  using did_key.dec_enc by (simp add: owns_def ed25519_ok_def key_length_ok_def)

lemma owns_did_nonempty: "owns L k d \<Longrightarrow> d \<noteq> []"
  by (auto simp: owns_def public_key_to_did_def DID_PREFIX_def split: if_splits)

lemma owns_verifies: "owns L k d \<Longrightarrow> ed_verify L (ed_public L k) m (ed_sign L k m)"
  by (simp add: owns_def ed25519_ok_def)

text \<open>
  The check of a signature, as a function of the content, the signature and the signer: no
  signature or no decodable signer is a refusal, a signature that is not hexadecimal raises.
\<close>

definition check_signature :: "('k, 'z) lib_scheme \<Rightarrow> pyval \<Rightarrow> string option \<Rightarrow> did option \<Rightarrow> bool result" where
  "check_signature L content sig signer =
     (case (sig, signer) of
        (Some s, Some d) \<Rightarrow>
          if s = [] \<or> d = [] then Inr False
          else (case did_to_public_key d of
              Inl _ \<Rightarrow> Inr False
            | Inr pk \<Rightarrow> bindE (bytes_fromhex s) (\<lambda>bs. Inr (ed_verify L pk (canonical_json L content) bs)))
      | _ \<Rightarrow> Inr False)"

lemma check_signature_True_iff:
  "check_signature L c sig signer = Inr True \<longleftrightarrow>
     (\<exists>s d pk bs. sig = Some s \<and> s \<noteq> [] \<and> signer = Some d \<and> did_to_public_key d = Inr pk
        \<and> bytes_fromhex s = Inr bs \<and> ed_verify L pk (canonical_json L c) bs)"
proof -
  have "did_to_public_key [] = Inr pk \<Longrightarrow> False" for pk
    by (simp add: did_to_public_key_def DID_PREFIX_def)
  then show ?thesis
    by (auto simp: check_signature_def bindE_eq_Inr_iff split: option.splits sum.splits)
qed

lemma check_signature_raises_iff:
  "(\<exists>e. check_signature L c sig signer = Inl e) \<longleftrightarrow>
     (\<exists>s d pk e. sig = Some s \<and> s \<noteq> [] \<and> signer = Some d \<and> did_to_public_key d = Inr pk
        \<and> bytes_fromhex s = Inl e)"
proof -
  have "did_to_public_key [] = Inr pk \<Longrightarrow> False" for pk
    by (simp add: did_to_public_key_def DID_PREFIX_def)
  then show ?thesis
    by (auto simp: check_signature_def bindE_eq_Inl_iff split: option.splits sum.splits)
qed

locale signed_doc =
  fixes L :: "('k, 'z) lib_scheme"
    and content :: "'d \<Rightarrow> pyval"
    and signature_of :: "'d \<Rightarrow> string option"
    and signer_of :: "'d \<Rightarrow> did option"
    and sign :: "'k \<Rightarrow> did \<Rightarrow> 'd \<Rightarrow> 'd"
    and verify :: "'d \<Rightarrow> bool result"
  assumes content_sign: "content (sign k d x) = content x"
    and signature_sign: "signature_of (sign k d x) = Some (bytes_hex (ed_sign L k (canonical_json L (content x))))"
    and signer_sign: "signer_of (sign k d x) = Some d"
    and verify_check: "verify x = check_signature L (content x) (signature_of x) (signer_of x)"
begin

lemma verify_sign:
  assumes "owns L k d"
  shows "verify (sign k d x) = Inr True"
  using owns_key[OF assms] owns_verifies[OF assms] assms
  by (simp add: verify_check check_signature_True_iff content_sign signature_sign signer_sign
      bytes_fromhex_hex owns_def)

lemma verified_by:
  "verify x = Inr True \<Longrightarrow>
     \<exists>d pk bs. signer_of x = Some d \<and> did_to_public_key d = Inr pk \<and> ed_verify L pk (canonical_json L (content x)) bs"
  by (auto simp: verify_check check_signature_True_iff)

lemma verify_transfer:
  "content x = content y \<Longrightarrow> signature_of x = signature_of y \<Longrightarrow> signer_of x = signer_of y \<Longrightarrow>
     verify x = verify y"
  by (simp add: verify_check)

lemma unsigned_refused: "signature_of x = None \<or> signer_of x = None \<Longrightarrow> verify x = Inr False"
  by (auto simp: verify_check check_signature_def split: option.splits)

lemma verify_raises_iff:
  "(\<exists>e. verify x = Inl e) \<longleftrightarrow>
     (\<exists>s d pk e. signature_of x = Some s \<and> s \<noteq> [] \<and> signer_of x = Some d
        \<and> did_to_public_key d = Inr pk \<and> bytes_fromhex s = Inl e)"
  by (simp add: verify_check check_signature_raises_iff)

end

definition opt_str :: "string option \<Rightarrow> pyval" where
  "opt_str x = (case x of None \<Rightarrow> VNone | Some s \<Rightarrow> VStr s)"

definition as_opt_str :: "pyval \<Rightarrow> string option result" where
  "as_opt_str v = (case v of VNone \<Rightarrow> Inr None | VStr s \<Rightarrow> Inr (Some s)
                   | _ \<Rightarrow> Inl (TypeError ''expected str''))"

definition as_int :: "pyval \<Rightarrow> int result" where
  "as_int v = (case v of VInt i \<Rightarrow> Inr i | _ \<Rightarrow> Inl (TypeError ''expected int''))"

lemma opt_str_inject [simp]: "opt_str x = opt_str y \<longleftrightarrow> x = y"
  by (simp add: opt_str_def split: option.splits)

lemma as_opt_str_opt_str [simp]: "as_opt_str (opt_str x) = Inr x"
  by (simp add: opt_str_def as_opt_str_def split: option.split)

text \<open>CBOR (\<^verbatim>\<open>cbor2\<close>) joins the libraries the model is parametric in.\<close>

record 'k wire_lib = "'k lib" +
  cbor_dumps :: "pyval \<Rightarrow> bytes"
  cbor_loads :: "bytes \<Rightarrow> pyval result"

definition cbor_ok :: "('k, 'z) wire_lib_scheme \<Rightarrow> pyval \<Rightarrow> bool" where
  "cbor_ok L v \<longleftrightarrow> cbor_loads L (cbor_dumps L v) = Inr v"

text \<open>For witnesses: a text form that gives the values of a list their position in it.\<close>

definition demo_wire :: "pyval list \<Rightarrow> bool wire_lib" where
  "demo_wire vs = lib.extend (demo_lib vs)
     \<lparr>cbor_dumps = json_dumps (demo_lib vs), cbor_loads = json_loads (demo_lib vs)\<rparr>"

lemma demo_wire_cbor: "v \<in> set vs \<Longrightarrow> length vs < 256 \<Longrightarrow> cbor_ok (demo_wire vs) v"
  using demo_lib_json[of v vs] by (simp add: cbor_ok_def json_ok_def demo_wire_def lib.defs demo_lib_def)

lemma demo_wire_owns: "owns (demo_wire vs) k (demo_did k)"
  using demo_did_key[of vs k] demo_lib_ed25519[of vs]
  by (simp add: owns_def ed25519_ok_def demo_wire_def lib.defs demo_lib_def)

lemma demo_owns: "owns (demo_lib vs) k (demo_did k)"
  using demo_did_key[of vs k] demo_lib_ed25519[of vs] by (simp add: owns_def demo_lib_def)

end
