(* ===== verification/Receipts.thy ===== *)
theory Receipts
  imports Signed
begin

text \<open>
  \<^verbatim>\<open>receipt.py\<close>: execution receipts, their signed content, and the hash-linked chain of one task.
  The lemmas show that a chain built by signed \<open>add\<close> calls verifies, what the verification
  checks, and how much of a chain its last hash fixes.
\<close>

subsection \<open>Definitions\<close>

record receipt =
  rc_task_id :: string
  rc_device_did :: did
  rc_agent_did :: did
  rc_action :: string
  rc_status :: string
  rc_model_used :: string
  rc_tokens_used :: int
  rc_latency_ms :: real
  rc_input_hash :: string
  rc_output_hash :: string
  rc_summary :: string
  rc_continuation_id :: "string option"
  rc_previous_id :: "string option"
  rc_previous_hash :: "string option"
  rc_started_at :: real
  rc_completed_at :: real
  rc_id :: string
  rc_signature :: "string option"
  rc_signed_by :: "did option"

text \<open>\<open>asdict(self)\<close>, in the order of the fields\<close>

definition receipt_to_dict :: "receipt \<Rightarrow> dict" where
  "receipt_to_dict r =
     [(''task_id'', VStr (rc_task_id r)), (''device_did'', VStr (rc_device_did r)),
      (''agent_did'', VStr (rc_agent_did r)), (''action'', VStr (rc_action r)),
      (''status'', VStr (rc_status r)), (''model_used'', VStr (rc_model_used r)),
      (''tokens_used'', VInt (rc_tokens_used r)), (''latency_ms'', VFloat (rc_latency_ms r)),
      (''input_hash'', VStr (rc_input_hash r)), (''output_hash'', VStr (rc_output_hash r)),
      (''summary'', VStr (rc_summary r)), (''continuation_id'', opt_str (rc_continuation_id r)),
      (''previous_receipt_id'', opt_str (rc_previous_id r)),
      (''previous_receipt_hash'', opt_str (rc_previous_hash r)),
      (''started_at'', VFloat (rc_started_at r)), (''completed_at'', VFloat (rc_completed_at r)),
      (''id'', VStr (rc_id r)), (''signature'', opt_str (rc_signature r)),
      (''signed_by'', opt_str (rc_signed_by r))]"

definition receipt_content :: "receipt \<Rightarrow> pyval" where
  "receipt_content r = VDict (dpop ''signed_by'' (dpop ''signature'' (receipt_to_dict r)))"

definition receipt_hash :: "('k, 'z) lib_scheme \<Rightarrow> receipt \<Rightarrow> string" where
  "receipt_hash L r = sha256_hex L (canonical_json L (receipt_content r))"

definition receipt_sign :: "('k, 'z) lib_scheme \<Rightarrow> 'k \<Rightarrow> did \<Rightarrow> receipt \<Rightarrow> receipt" where
  "receipt_sign L key signer r =
     (let r1 = r\<lparr>rc_signed_by := Some signer\<rparr>;
          pl = canonical_json L (receipt_content r1)
      in r1\<lparr>rc_signature := Some (bytes_hex (ed_sign L key pl))\<rparr>)"

definition receipt_verify :: "('k, 'z) lib_scheme \<Rightarrow> receipt \<Rightarrow> bool result" where
  "receipt_verify L r =
     (case (rc_signature r, rc_signed_by r) of
        (Some sig, Some signer) \<Rightarrow>
          if sig = [] \<or> signer = [] then Inr False
          else (case did_to_public_key signer of
              Inl _ \<Rightarrow> Inr False
            | Inr pub \<Rightarrow> bindE (bytes_fromhex sig) (\<lambda>s.
                Inr (ed_verify L pub (canonical_json L (receipt_content r)) s)))
      | _ \<Rightarrow> Inr False)"

text \<open>\<open>cls(**d)\<close>: an unknown key and a missing field without default are a \<open>TypeError\<close>.\<close>

definition receipt_fields :: "string list" where
  "receipt_fields =
     [''task_id'', ''device_did'', ''agent_did'', ''action'', ''status'', ''model_used'',
      ''tokens_used'', ''latency_ms'', ''input_hash'', ''output_hash'', ''summary'',
      ''continuation_id'', ''previous_receipt_id'', ''previous_receipt_hash'', ''started_at'',
      ''completed_at'', ''id'', ''signature'', ''signed_by'']"

definition keyword :: "dict \<Rightarrow> string \<Rightarrow> (pyval \<Rightarrow> 'a result) \<Rightarrow> 'a result" where
  "keyword d k f = bindE (from_option (TypeError ''missing required argument'') (dget d k)) f"

definition keyword_or :: "dict \<Rightarrow> string \<Rightarrow> (pyval \<Rightarrow> 'a result) \<Rightarrow> 'a \<Rightarrow> 'a result" where
  "keyword_or d k f dflt = (case dget d k of None \<Rightarrow> Inr dflt | Some v \<Rightarrow> f v)"

definition receipt_from_dict :: "real \<Rightarrow> string \<Rightarrow> dict \<Rightarrow> receipt result" where
  "receipt_from_dict now uid d =
     bindE (raise_if (\<not> list_all (\<lambda>k. k \<in> set receipt_fields) (dkeys d))
       (TypeError ''unexpected keyword argument'')) (\<lambda>_.
     bindE (keyword d ''task_id'' as_str) (\<lambda>task.
     bindE (keyword d ''device_did'' as_str) (\<lambda>dev.
     bindE (keyword d ''agent_did'' as_str) (\<lambda>agent.
     bindE (keyword d ''action'' as_str) (\<lambda>act.
     bindE (keyword_or d ''status'' as_str ''success'') (\<lambda>st.
     bindE (keyword_or d ''model_used'' as_str '''') (\<lambda>model.
     bindE (keyword_or d ''tokens_used'' as_int 0) (\<lambda>tokens.
     bindE (keyword_or d ''latency_ms'' as_float 0) (\<lambda>lat.
     bindE (keyword_or d ''input_hash'' as_str '''') (\<lambda>ih.
     bindE (keyword_or d ''output_hash'' as_str '''') (\<lambda>oh.
     bindE (keyword_or d ''summary'' as_str '''') (\<lambda>summ.
     bindE (keyword_or d ''continuation_id'' as_opt_str None) (\<lambda>cont.
     bindE (keyword_or d ''previous_receipt_id'' as_opt_str None) (\<lambda>pid.
     bindE (keyword_or d ''previous_receipt_hash'' as_opt_str None) (\<lambda>ph.
     bindE (keyword_or d ''started_at'' as_float now) (\<lambda>t0.
     bindE (keyword_or d ''completed_at'' as_float now) (\<lambda>t1.
     bindE (keyword_or d ''id'' as_str (''rcpt_'' @ uid)) (\<lambda>i.
     bindE (keyword_or d ''signature'' as_opt_str None) (\<lambda>sg.
     bindE (keyword_or d ''signed_by'' as_opt_str None) (\<lambda>sb.
       Inr \<lparr>rc_task_id = task, rc_device_did = dev, rc_agent_did = agent, rc_action = act,
            rc_status = st, rc_model_used = model, rc_tokens_used = tokens, rc_latency_ms = lat,
            rc_input_hash = ih, rc_output_hash = oh, rc_summary = summ, rc_continuation_id = cont,
            rc_previous_id = pid, rc_previous_hash = ph, rc_started_at = t0, rc_completed_at = t1,
            rc_id = i, rc_signature = sg, rc_signed_by = sb\<rparr>))))))))))))))))))))"

text \<open>\<open>ReceiptChain\<close>: the list of receipts, oldest first.\<close>

definition chain_add ::
    "('k, 'z) lib_scheme \<Rightarrow> receipt list \<Rightarrow> receipt \<Rightarrow> 'k option \<Rightarrow> did option \<Rightarrow> receipt list \<times> receipt" where
  "chain_add L chain r keypair signer =
     (let linked = (if chain \<noteq> [] then
            r\<lparr>rc_previous_id := Some (rc_id (last chain)),
              rc_previous_hash := Some (receipt_hash L (last chain))\<rparr>
          else r);
          signed = (case (keypair, signer) of
            (Some k, Some d) \<Rightarrow> receipt_sign L k d linked
          | _ \<Rightarrow> linked)
      in (chain @ [signed], signed))"

fun chain_loop :: "('k, 'z) lib_scheme \<Rightarrow> receipt option \<Rightarrow> receipt list \<Rightarrow> bool result" where
  "chain_loop L prev [] = Inr True"
| "chain_loop L prev (r # rs) =
     bindE (receipt_verify L r) (\<lambda>ok.
       if \<not> ok then Inr False
       else case prev of
           None \<Rightarrow> chain_loop L (Some r) rs
         | Some p \<Rightarrow>
             if rc_previous_id r \<noteq> Some (rc_id p) then Inr False
             else if rc_previous_hash r \<noteq> Some (receipt_hash L p) then Inr False
             else chain_loop L (Some r) rs)"

definition verify_chain :: "('k, 'z) lib_scheme \<Rightarrow> receipt list \<Rightarrow> bool result" where
  "verify_chain L chain = chain_loop L None chain"

subsection \<open>Receipts are signed documents\<close>

lemma receipt_content_sign [simp]: "receipt_content (receipt_sign L k d r) = receipt_content r"
  by (simp add: receipt_sign_def receipt_content_def receipt_to_dict_def Let_def)

lemma receipt_content_upd [simp]:
  "receipt_content (r\<lparr>rc_signed_by := d\<rparr>) = receipt_content r"
  "receipt_content (r\<lparr>rc_signature := s\<rparr>) = receipt_content r"
  by (simp_all add: receipt_content_def receipt_to_dict_def)

lemma receipt_sign_fields [simp]:
  "rc_id (receipt_sign L k d r) = rc_id r" "rc_previous_id (receipt_sign L k d r) = rc_previous_id r"
  "rc_previous_hash (receipt_sign L k d r) = rc_previous_hash r"
  "receipt_hash L (receipt_sign L k d r) = receipt_hash L r"
  by (simp_all add: receipt_sign_def Let_def receipt_hash_def)

interpretation rcpt: signed_doc L receipt_content rc_signature rc_signed_by "receipt_sign L" "receipt_verify L"
  for L :: "('k, 'z) lib_scheme"
  by unfold_locales
    (simp_all add: receipt_verify_def check_signature_def receipt_sign_def Let_def
      split: option.split)

lemma receipt_content_links:
  assumes "receipt_content r = receipt_content s"
  shows "rc_previous_hash r = rc_previous_hash s" "rc_previous_id r = rc_previous_id s" "rc_id r = rc_id s"
  using assms by (simp_all add: receipt_content_def receipt_to_dict_def)

subsection \<open>Chains\<close>

text \<open>The link the verification checks between neighbours.\<close>

definition linked :: "('k, 'z) lib_scheme \<Rightarrow> receipt \<Rightarrow> receipt \<Rightarrow> bool" where
  "linked L p r \<longleftrightarrow> rc_previous_id r = Some (rc_id p) \<and> rc_previous_hash r = Some (receipt_hash L p)"

lemma chain_loop_True_iff:
  "chain_loop L prev rs = Inr True \<longleftrightarrow>
     (\<forall>r \<in> set rs. receipt_verify L r = Inr True)
     \<and> successively (linked L) ((case prev of None \<Rightarrow> [] | Some p \<Rightarrow> [p]) @ rs)"
proof (induction rs arbitrary: prev)
  case (Cons r rs)
  show ?case
    by (cases prev) (auto simp: bindE_eq_Inr_iff Cons.IH linked_def)
qed (simp split: option.split)

lemma verify_chain_True_iff:
  "verify_chain L rs = Inr True \<longleftrightarrow>
     (\<forall>r \<in> set rs. receipt_verify L r = Inr True) \<and> successively (linked L) rs"
  by (simp add: verify_chain_def chain_loop_True_iff)

lemma verify_chain_segment:
  "verify_chain L (xs @ ys @ zs) = Inr True \<Longrightarrow> verify_chain L ys = Inr True"
  by (auto simp: verify_chain_True_iff successively_append_iff)

lemma linked_sign [simp]: "linked L (receipt_sign L k d p) r = linked L p r"
  "linked L p (receipt_sign L k d r) = linked L p r"
  by (simp_all add: linked_def)

lemma chain_add_verifies:
  assumes "verify_chain L chain = Inr True" and "owns L k d"
  shows "verify_chain L (fst (chain_add L chain r (Some k) (Some d))) = Inr True"
proof (cases "chain = []")
  case True
  with assms(2) show ?thesis
    by (simp add: chain_add_def Let_def verify_chain_True_iff rcpt.verify_sign)
next
  case False
  with assms show ?thesis
    by (simp add: chain_add_def Let_def verify_chain_True_iff rcpt.verify_sign successively_append_iff
        linked_def ball_Un)
qed

text \<open>The chain after a sequence of signed additions.\<close>

definition add_signed ::
    "('k, 'z) lib_scheme \<Rightarrow> receipt list \<Rightarrow> (receipt \<times> 'k \<times> did) list \<Rightarrow> receipt list" where
  "add_signed L chain adds = foldl (\<lambda>c (r, k, d). fst (chain_add L c r (Some k) (Some d))) chain adds"

lemma add_signed_verifies:
  "verify_chain L chain = Inr True \<Longrightarrow> (\<forall>(r, k, d) \<in> set adds. owns L k d) \<Longrightarrow>
     verify_chain L (add_signed L chain adds) = Inr True"
proof (induction adds arbitrary: chain)
  case (Cons a adds)
  obtain r k d where a: "a = (r, k, d)" by (cases a) auto
  with Cons.prems have "verify_chain L (fst (chain_add L chain r (Some k) (Some d))) = Inr True"
    by (auto intro: chain_add_verifies)
  from Cons.IH[OF this] Cons.prems(2) show ?case by (simp add: add_signed_def a)
qed (simp add: add_signed_def)

lemma length_add_signed: "length (add_signed L chain adds) = length chain + length adds"
  by (induction adds arbitrary: chain) (auto simp: add_signed_def chain_add_def Let_def)

text \<open>Going backwards from equal last hashes, the hashes force equal contents or collide.\<close>

definition collision :: "('k, 'z) lib_scheme \<Rightarrow> receipt list \<Rightarrow> receipt list \<Rightarrow> bool" where
  "collision L a b \<longleftrightarrow> (\<exists>r \<in> set a. \<exists>s \<in> set b.
     receipt_content r \<noteq> receipt_content s \<and> receipt_hash L r = receipt_hash L s)"

lemma collision_append: "collision L a b \<Longrightarrow> collision L (a @ c) (b @ d)"
  by (auto simp: collision_def)

lemma backwards_agree:
  assumes "successively (linked L) (a @ [x])" "successively (linked L) (b @ [y])"
    and "receipt_hash L x = receipt_hash L y" and "\<not> collision L (a @ [x]) (b @ [y])"
  shows "suffix (map receipt_content (a @ [x])) (map receipt_content (b @ [y]))
       \<or> suffix (map receipt_content (b @ [y])) (map receipt_content (a @ [x]))"
  using assms
proof (induction a arbitrary: x b y rule: rev_induct)
  case Nil
  then show ?case by (auto simp: collision_def suffix_def)
next
  case (snoc p a)
  have c: "receipt_content x = receipt_content y" using snoc.prems(3,4) by (auto simp: collision_def)
  show ?case
  proof (cases b rule: rev_exhaust)
    case Nil
    with c show ?thesis by (simp add: suffix_def)
  next
    case (snoc b' q)
    have l: "linked L p x" "linked L q y" "successively (linked L) (a @ [p])" "successively (linked L) (b' @ [q])"
      using snoc.prems(1,2) snoc by (simp_all add: successively_append_iff)
    then have "receipt_hash L p = receipt_hash L q"
      using receipt_content_links(1)[OF c] by (simp add: linked_def)
    moreover have "\<not> collision L (a @ [p]) (b' @ [q])"
      using snoc.prems(4) snoc collision_append by blast
    ultimately have "suffix (map receipt_content (a @ [p])) (map receipt_content (b' @ [q]))
       \<or> suffix (map receipt_content (b' @ [q])) (map receipt_content (a @ [p]))"
      using snoc.IH[OF l(3,4)] by blast
    with c snoc show ?thesis by (auto simp: suffix_def)
  qed
qed

text \<open>A receipt survives its dictionary.\<close>

lemma receipt_roundtrip: "receipt_from_dict now uid (receipt_to_dict r) = Inr r"
  by (simp add: receipt_from_dict_def receipt_to_dict_def keyword_def keyword_or_def
      receipt_fields_def as_int_def)

subsection \<open>Properties\<close>

definition demo_receipt :: "string \<Rightarrow> receipt" where
  "demo_receipt i =
     \<lparr>rc_task_id = ''t'', rc_device_did = ''d'', rc_agent_did = ''a'', rc_action = ''invoke'',
      rc_status = ''success'', rc_model_used = ''m'', rc_tokens_used = 3, rc_latency_ms = 1,
      rc_input_hash = ''i'', rc_output_hash = ''o'', rc_summary = ''s'', rc_continuation_id = None,
      rc_previous_id = None, rc_previous_hash = None, rc_started_at = 0, rc_completed_at = 1,
      rc_id = i, rc_signature = None, rc_signed_by = None\<rparr>"

definition demo_adds :: "(receipt \<times> bool \<times> did) list" where
  "demo_adds = [(demo_receipt ''1'', True, demo_did True), (demo_receipt ''2'', False, demo_did False),
     (demo_receipt ''3'', True, demo_did True)]"

lemma demo_adds_owned: "\<forall>(r, k, d) \<in> set demo_adds. owns (demo_lib vs) k d"
  by (simp add: demo_adds_def demo_owns)

text \<open>
  A chain grown by signed additions, with any receipts and any mix of signers who sign with
  the key of their DID, verifies, and holds one receipt an addition.
\<close>

theorem signed_chain_verifies:
  assumes "\<forall>(r, k, d) \<in> set adds. owns L k d"
  shows "verify_chain L (add_signed L [] adds) = Inr True \<and> length (add_signed L [] adds) = length adds"
  using add_signed_verifies[of L "[]" adds] assms length_add_signed[of L "[]" adds]
  by (simp add: verify_chain_def)

theorem signed_chain_verifies_witness:
  "verify_chain (demo_lib []) (add_signed (demo_lib []) [] demo_adds) = Inr True
   \<and> length (add_signed (demo_lib []) [] demo_adds) = length demo_adds"
  by (rule signed_chain_verifies) (rule demo_adds_owned)

text \<open>
  C38: the hash of its last receipt fixes a verified chain backwards: two verified chains whose
  last receipts have the same hash hold the same contents back to the start of the shorter one,
  unless two of their receipts are a collision of the hash. What it does not fix is the start:
  nothing ties the first receipt of a chain, so old receipts can be cut off unnoticed.
\<close>

theorem last_hash_fixes_chain:
  assumes "verify_chain L a = Inr True" and "verify_chain L b = Inr True" and "a \<noteq> []" and "b \<noteq> []"
    and "receipt_hash L (last a) = receipt_hash L (last b)"
  shows "suffix (map receipt_content a) (map receipt_content b)
       \<or> suffix (map receipt_content b) (map receipt_content a)
       \<or> (\<exists>r \<in> set a. \<exists>s \<in> set b. receipt_content r \<noteq> receipt_content s \<and> receipt_hash L r = receipt_hash L s)"
proof -
  obtain a' x b' y where ab: "a = a' @ [x]" "b = b' @ [y]"
    using assms(3,4) by (metis rev_exhaust)
  have "successively (linked L) a" "successively (linked L) b"
    using assms(1,2) by (simp_all add: verify_chain_True_iff)
  then show ?thesis
    using backwards_agree[of L a' x b' y] assms(5) unfolding ab collision_def[symmetric] by auto
qed

definition demo_chain3 :: "receipt list" where
  "demo_chain3 = add_signed (demo_lib []) [] demo_adds"

theorem last_hash_fixes_chain_witness:
  "suffix (map receipt_content (drop 1 demo_chain3)) (map receipt_content demo_chain3)
   \<or> suffix (map receipt_content demo_chain3) (map receipt_content (drop 1 demo_chain3))
   \<or> (\<exists>r \<in> set (drop 1 demo_chain3). \<exists>s \<in> set demo_chain3.
        receipt_content r \<noteq> receipt_content s \<and> receipt_hash (demo_lib []) r = receipt_hash (demo_lib []) s)"
proof -
  let ?L = "demo_lib []" and ?b = "add_signed (demo_lib []) [] demo_adds"
  have b: "verify_chain ?L ?b = Inr True"
    using add_signed_verifies[of ?L "[]" demo_adds] demo_adds_owned[of "[]"] by (simp add: verify_chain_def)
  have len: "length ?b = 3" by (simp add: length_add_signed demo_adds_def)
  then have a: "verify_chain ?L (drop 1 ?b) = Inr True"
    using verify_chain_segment[of ?L "take 1 ?b" "drop 1 ?b" "[]"] b by simp
  have ne: "drop 1 ?b \<noteq> []" "?b \<noteq> []" using len by auto
  then have "receipt_hash ?L (last (drop 1 ?b)) = receipt_hash ?L (last ?b)" by (simp add: last_drop)
  then show ?thesis
    unfolding demo_chain3_def by (rule last_hash_fixes_chain[OF a b ne])
qed

end
