(* ===== verification/Continuations.thy ===== *)
theory Continuations
  imports Receipts
begin

text \<open>
  \<^verbatim>\<open>continuation.py\<close> and the \<open>Message\<close> of \<^verbatim>\<open>adapters/base.py\<close>: the signed envelope that hands a
  task to another device. The lemmas show that an envelope survives its dictionary and its
  CBOR form with its signature, what the signature covers, and what verifying does not check.
\<close>

subsection \<open>Messages, resources and reasons\<close>

record chat_message =
  msg_role :: string
  msg_content :: string
  msg_name :: "string option"
  msg_timestamp :: real

definition message_to_dict :: "chat_message \<Rightarrow> dict" where
  "message_to_dict m =
     (let d = [(''role'', VStr (msg_role m)), (''content'', VStr (msg_content m)),
               (''timestamp'', VFloat (msg_timestamp m))]
      in case msg_name m of None \<Rightarrow> d | Some n \<Rightarrow> dset ''name'' (VStr n) d)"

definition message_from_dict :: "real \<Rightarrow> dict \<Rightarrow> chat_message result" where
  "message_from_dict now d =
     bindE (bindE (dict_item d ''role'') as_str) (\<lambda>role.
     bindE (bindE (dict_item d ''content'') as_str) (\<lambda>cnt.
     bindE (as_opt_str (dgetd d ''name'' VNone)) (\<lambda>nm.
     bindE (as_float (dgetd d ''timestamp'' (VFloat now))) (\<lambda>ts.
       Inr \<lparr>msg_role = role, msg_content = cnt, msg_name = nm, msg_timestamp = ts\<rparr>))))"

text \<open>
  \<open>from_dict\<close> of a resource fills every missing field with \<open>None\<close>, also those whose declared type
  or default says otherwise, so all five are optional here.
\<close>

record ct_resource =
  res_type :: "string option"
  res_uri :: "string option"
  res_content :: "string option"
  res_hash :: "string option"
  res_mime_type :: "string option"

definition resource_to_dict :: "ct_resource \<Rightarrow> dict" where
  "resource_to_dict r =
     [(''type'', opt_str (res_type r)), (''uri'', opt_str (res_uri r)),
      (''content'', opt_str (res_content r)), (''hash'', opt_str (res_hash r)),
      (''mime_type'', opt_str (res_mime_type r))]"

definition resource_from_dict :: "dict \<Rightarrow> ct_resource result" where
  "resource_from_dict d =
     bindE (as_opt_str (dgetd d ''type'' VNone)) (\<lambda>t.
     bindE (as_opt_str (dgetd d ''uri'' VNone)) (\<lambda>u.
     bindE (as_opt_str (dgetd d ''content'' VNone)) (\<lambda>c.
     bindE (as_opt_str (dgetd d ''hash'' VNone)) (\<lambda>h.
     bindE (as_opt_str (dgetd d ''mime_type'' VNone)) (\<lambda>m.
       Inr \<lparr>res_type = t, res_uri = u, res_content = c, res_hash = h, res_mime_type = m\<rparr>)))))"

record handoff_reason =
  reason_code :: string
  reason_description :: string
  user_initiated :: bool

definition reason_to_dict :: "handoff_reason \<Rightarrow> dict" where
  "reason_to_dict r =
     [(''code'', VStr (reason_code r)), (''description'', VStr (reason_description r)),
      (''user_initiated'', VBool (user_initiated r))]"

definition as_bool :: "pyval \<Rightarrow> bool result" where
  "as_bool v = (case v of VBool b \<Rightarrow> Inr b | _ \<Rightarrow> Inl (TypeError ''expected bool''))"

definition reason_from_dict :: "dict \<Rightarrow> handoff_reason result" where
  "reason_from_dict d =
     bindE (raise_if (\<not> list_all (\<lambda>k. k \<in> {''code'', ''description'', ''user_initiated''}) (dkeys d))
       (TypeError ''unexpected keyword argument'')) (\<lambda>_.
     bindE (keyword d ''code'' as_str) (\<lambda>c.
     bindE (keyword_or d ''description'' as_str '''') (\<lambda>ds.
     bindE (keyword_or d ''user_initiated'' as_bool False) (\<lambda>u.
       Inr \<lparr>reason_code = c, reason_description = ds, user_initiated = u\<rparr>))))"

subsection \<open>Continuations\<close>

record continuation =
  ct_id :: string
  ct_task_id :: string
  ct_thread_id :: "string option"
  ct_source_device_did :: did
  ct_source_agent_did :: did
  ct_target_device_did :: "did option"
  ct_target_agent_did :: "did option"
  ct_system_prompt :: "string option"
  ct_messages :: "chat_message list"
  ct_summary :: "string option"
  ct_resources :: "ct_resource list"
  ct_memory_keys :: "string list"
  ct_metadata :: dict
  ct_ucan_chain :: "string list"
  ct_required_capabilities :: "string list"
  ct_locality_preference :: string
  ct_max_cost_class :: string
  ct_reason :: "handoff_reason option"
  ct_created_at :: real
  ct_expires_at :: "real option"
  ct_signature :: "string option"
  ct_signed_by :: "did option"

definition opt_float :: "real option \<Rightarrow> pyval" where
  "opt_float x = (case x of None \<Rightarrow> VNone | Some r \<Rightarrow> VFloat r)"

definition as_opt_float :: "pyval \<Rightarrow> real option result" where
  "as_opt_float v = (case v of VNone \<Rightarrow> Inr None | _ \<Rightarrow> bindE (as_float v) (\<lambda>r. Inr (Some r)))"

definition continuation_to_dict :: "continuation \<Rightarrow> dict" where
  "continuation_to_dict c =
     [(''id'', VStr (ct_id c)), (''task_id'', VStr (ct_task_id c)),
      (''thread_id'', opt_str (ct_thread_id c)),
      (''source_device_did'', VStr (ct_source_device_did c)),
      (''source_agent_did'', VStr (ct_source_agent_did c)),
      (''target_device_did'', opt_str (ct_target_device_did c)),
      (''target_agent_did'', opt_str (ct_target_agent_did c)),
      (''system_prompt'', opt_str (ct_system_prompt c)),
      (''messages'', VList (map (\<lambda>m. VDict (message_to_dict m)) (ct_messages c))),
      (''summary'', opt_str (ct_summary c)),
      (''resources'', VList (map (\<lambda>r. VDict (resource_to_dict r)) (ct_resources c))),
      (''memory_keys'', VList (map VStr (ct_memory_keys c))),
      (''metadata'', VDict (ct_metadata c)),
      (''ucan_chain'', VList (map VStr (ct_ucan_chain c))),
      (''required_capabilities'', VList (map VStr (ct_required_capabilities c))),
      (''locality_preference'', VStr (ct_locality_preference c)),
      (''max_cost_class'', VStr (ct_max_cost_class c)),
      (''reason'', (case ct_reason c of None \<Rightarrow> VNone | Some r \<Rightarrow> VDict (reason_to_dict r))),
      (''created_at'', VFloat (ct_created_at c)), (''expires_at'', opt_float (ct_expires_at c)),
      (''signature'', opt_str (ct_signature c)), (''signed_by'', opt_str (ct_signed_by c))]"

text \<open>\<open>d.get("reason")\<close> is false when it is missing, \<open>None\<close> or an empty dictionary.\<close>

definition read_reason :: "dict \<Rightarrow> handoff_reason option result" where
  "read_reason d =
     (case dget d ''reason'' of
        None \<Rightarrow> Inr None
      | Some VNone \<Rightarrow> Inr None
      | Some v \<Rightarrow> bindE (as_dict v) (\<lambda>r. if r = [] then Inr None
                     else bindE (reason_from_dict r) (\<lambda>x. Inr (Some x))))"

definition continuation_from_dict :: "real \<Rightarrow> string \<Rightarrow> dict \<Rightarrow> continuation result" where
  "continuation_from_dict now uid d =
     bindE (as_str (dgetd d ''id'' (VStr (''cont_'' @ uid)))) (\<lambda>i.
     bindE (as_str (dgetd d ''task_id'' (VStr ''''))) (\<lambda>task.
     bindE (as_opt_str (dgetd d ''thread_id'' VNone)) (\<lambda>thread.
     bindE (as_str (dgetd d ''source_device_did'' (VStr ''''))) (\<lambda>sd.
     bindE (as_str (dgetd d ''source_agent_did'' (VStr ''''))) (\<lambda>sa.
     bindE (as_opt_str (dgetd d ''target_device_did'' VNone)) (\<lambda>td.
     bindE (as_opt_str (dgetd d ''target_agent_did'' VNone)) (\<lambda>ta.
     bindE (as_opt_str (dgetd d ''system_prompt'' VNone)) (\<lambda>sp.
     bindE (get_list d ''messages'' (\<lambda>v. bindE (as_dict v) (message_from_dict now))) (\<lambda>ms.
     bindE (as_opt_str (dgetd d ''summary'' VNone)) (\<lambda>summ.
     bindE (get_list d ''resources'' (\<lambda>v. bindE (as_dict v) resource_from_dict)) (\<lambda>rs.
     bindE (get_list d ''memory_keys'' as_str) (\<lambda>mks.
     bindE (as_dict (dgetd d ''metadata'' (VDict []))) (\<lambda>md.
     bindE (get_list d ''ucan_chain'' as_str) (\<lambda>uc.
     bindE (get_list d ''required_capabilities'' as_str) (\<lambda>rcs.
     bindE (as_str (dgetd d ''locality_preference'' (VStr ''any''))) (\<lambda>lp.
     bindE (as_str (dgetd d ''max_cost_class'' (VStr ''paid''))) (\<lambda>mc.
     bindE (read_reason d) (\<lambda>rsn.
     bindE (as_float (dgetd d ''created_at'' (VFloat now))) (\<lambda>t0.
     bindE (as_opt_float (dgetd d ''expires_at'' VNone)) (\<lambda>t1.
     bindE (as_opt_str (dgetd d ''signature'' VNone)) (\<lambda>sg.
     bindE (as_opt_str (dgetd d ''signed_by'' VNone)) (\<lambda>sb.
       Inr \<lparr>ct_id = i, ct_task_id = task, ct_thread_id = thread, ct_source_device_did = sd,
            ct_source_agent_did = sa, ct_target_device_did = td, ct_target_agent_did = ta,
            ct_system_prompt = sp, ct_messages = ms, ct_summary = summ, ct_resources = rs,
            ct_memory_keys = mks, ct_metadata = md, ct_ucan_chain = uc,
            ct_required_capabilities = rcs, ct_locality_preference = lp, ct_max_cost_class = mc,
            ct_reason = rsn, ct_created_at = t0, ct_expires_at = t1, ct_signature = sg,
            ct_signed_by = sb\<rparr>))))))))))))))))))))))"

definition continuation_content :: "continuation \<Rightarrow> pyval" where
  "continuation_content c = VDict (dpop ''signed_by'' (dpop ''signature'' (continuation_to_dict c)))"

definition continuation_sign :: "('k, 'z) lib_scheme \<Rightarrow> 'k \<Rightarrow> did \<Rightarrow> continuation \<Rightarrow> continuation" where
  "continuation_sign L key signer c =
     (let c1 = c\<lparr>ct_signed_by := Some signer\<rparr>
      in c1\<lparr>ct_signature := Some (bytes_hex (ed_sign L key (canonical_json L (continuation_content c1))))\<rparr>)"

definition continuation_verify :: "('k, 'z) lib_scheme \<Rightarrow> continuation \<Rightarrow> bool result" where
  "continuation_verify L c =
     (case (ct_signature c, ct_signed_by c) of
        (Some sig, Some signer) \<Rightarrow>
          if sig = [] \<or> signer = [] then Inr False
          else (case did_to_public_key signer of
              Inl _ \<Rightarrow> Inr False
            | Inr pub \<Rightarrow> bindE (bytes_fromhex sig) (\<lambda>s.
                Inr (ed_verify L pub (canonical_json L (continuation_content c)) s)))
      | _ \<Rightarrow> Inr False)"

definition continuation_to_cbor :: "('k, 'z) wire_lib_scheme \<Rightarrow> continuation \<Rightarrow> bytes" where
  "continuation_to_cbor L c = cbor_dumps L (VDict (continuation_to_dict c))"

definition continuation_from_cbor ::
    "('k, 'z) wire_lib_scheme \<Rightarrow> real \<Rightarrow> string \<Rightarrow> bytes \<Rightarrow> continuation result" where
  "continuation_from_cbor L now uid data =
     bindE (bindE (cbor_loads L data) as_dict) (continuation_from_dict now uid)"

text \<open>\<open>build_continuation\<close>; the optional list arguments are \<open>None\<close> or a list, \<open>or []\<close> in the code.\<close>

definition build_continuation ::
    "real \<Rightarrow> string \<Rightarrow> string \<Rightarrow> did \<Rightarrow> did \<Rightarrow> chat_message list \<Rightarrow> handoff_reason option \<Rightarrow> did option
     \<Rightarrow> string list option \<Rightarrow> string \<Rightarrow> string \<Rightarrow> string option \<Rightarrow> ct_resource list option
     \<Rightarrow> string list option \<Rightarrow> string list option \<Rightarrow> real \<Rightarrow> dict option \<Rightarrow> continuation" where
  "build_continuation now uid task sdev sagent ms rsn tdev caps loc cost prompt res keys chain ttl md =
     \<lparr>ct_id = ''cont_'' @ uid, ct_task_id = task, ct_thread_id = None, ct_source_device_did = sdev,
      ct_source_agent_did = sagent, ct_target_device_did = tdev, ct_target_agent_did = None,
      ct_system_prompt = prompt, ct_messages = ms, ct_summary = None,
      ct_resources = (case res of None \<Rightarrow> [] | Some r \<Rightarrow> r),
      ct_memory_keys = (case keys of None \<Rightarrow> [] | Some k \<Rightarrow> k),
      ct_metadata = (case md of None \<Rightarrow> [] | Some m \<Rightarrow> m),
      ct_ucan_chain = (case chain of None \<Rightarrow> [] | Some u \<Rightarrow> u),
      ct_required_capabilities = (case caps of None \<Rightarrow> [] | Some c \<Rightarrow> c),
      ct_locality_preference = loc, ct_max_cost_class = cost, ct_reason = rsn,
      ct_created_at = now, ct_expires_at = Some (now + ttl),
      ct_signature = None, ct_signed_by = None\<rparr>"

subsection \<open>Continuations are signed documents\<close>

lemma continuation_content_upd [simp]:
  "continuation_content (c\<lparr>ct_signed_by := d\<rparr>) = continuation_content c"
  "continuation_content (c\<lparr>ct_signature := s\<rparr>) = continuation_content c"
  by (simp_all add: continuation_content_def continuation_to_dict_def)

interpretation cont: signed_doc L continuation_content ct_signature ct_signed_by
    "continuation_sign L" "continuation_verify L"
  for L :: "('k, 'z) lib_scheme"
  by unfold_locales
    (simp_all add: continuation_verify_def check_signature_def continuation_sign_def Let_def
      split: option.split)

subsection \<open>Dictionaries\<close>

lemma message_roundtrip [simp]: "message_from_dict now (message_to_dict m) = Inr m"
  by (cases "msg_name m")
    (simp_all add: message_from_dict_def message_to_dict_def dict_item_def dgetd_def Let_def as_opt_str_def)

lemma resource_roundtrip [simp]: "resource_from_dict (resource_to_dict r) = Inr r"
  by (simp add: resource_from_dict_def resource_to_dict_def dgetd_def)

lemma reason_roundtrip [simp]: "reason_from_dict (reason_to_dict r) = Inr r"
  by (simp add: reason_from_dict_def reason_to_dict_def keyword_def keyword_or_def as_bool_def)

lemma as_opt_float_opt_float [simp]: "as_opt_float (opt_float x) = Inr x"
  by (cases x) (simp_all add: as_opt_float_def opt_float_def)

lemma get_list_read:
  "dget d k = Some (VList (map g xs)) \<Longrightarrow> (\<And>x. f (g x) = Inr x) \<Longrightarrow> get_list d k f = Inr xs"
  by (rule get_list_map)

lemma read_reason_dict:
  "dget d ''reason'' = Some (case r of None \<Rightarrow> VNone | Some x \<Rightarrow> VDict (reason_to_dict x)) \<Longrightarrow>
     read_reason d = Inr r"
  by (cases r) (simp_all add: read_reason_def reason_roundtrip[unfolded reason_to_dict_def] reason_to_dict_def)

lemma continuation_dict_lists:
  "get_list (continuation_to_dict c) ''messages'' (\<lambda>v. bindE (as_dict v) (message_from_dict now)) = Inr (ct_messages c)"
  "get_list (continuation_to_dict c) ''resources'' (\<lambda>v. bindE (as_dict v) resource_from_dict) = Inr (ct_resources c)"
  "get_list (continuation_to_dict c) ''memory_keys'' as_str = Inr (ct_memory_keys c)"
  "get_list (continuation_to_dict c) ''ucan_chain'' as_str = Inr (ct_ucan_chain c)"
  "get_list (continuation_to_dict c) ''required_capabilities'' as_str = Inr (ct_required_capabilities c)"
  "read_reason (continuation_to_dict c) = Inr (ct_reason c)"
  by (rule get_list_read[where g = "\<lambda>m. VDict (message_to_dict m)"]
      get_list_read[where g = "\<lambda>r. VDict (resource_to_dict r)"] get_list_read[where g = VStr]
      read_reason_dict; simp add: continuation_to_dict_def)+

lemma continuation_dict_fields:
  "dgetd (continuation_to_dict c) ''id'' x = VStr (ct_id c)"
  "dgetd (continuation_to_dict c) ''task_id'' x = VStr (ct_task_id c)"
  "dgetd (continuation_to_dict c) ''thread_id'' x = opt_str (ct_thread_id c)"
  "dgetd (continuation_to_dict c) ''source_device_did'' x = VStr (ct_source_device_did c)"
  "dgetd (continuation_to_dict c) ''source_agent_did'' x = VStr (ct_source_agent_did c)"
  "dgetd (continuation_to_dict c) ''target_device_did'' x = opt_str (ct_target_device_did c)"
  "dgetd (continuation_to_dict c) ''target_agent_did'' x = opt_str (ct_target_agent_did c)"
  "dgetd (continuation_to_dict c) ''system_prompt'' x = opt_str (ct_system_prompt c)"
  "dgetd (continuation_to_dict c) ''summary'' x = opt_str (ct_summary c)"
  "dgetd (continuation_to_dict c) ''metadata'' x = VDict (ct_metadata c)"
  "dgetd (continuation_to_dict c) ''locality_preference'' x = VStr (ct_locality_preference c)"
  "dgetd (continuation_to_dict c) ''max_cost_class'' x = VStr (ct_max_cost_class c)"
  "dgetd (continuation_to_dict c) ''created_at'' x = VFloat (ct_created_at c)"
  "dgetd (continuation_to_dict c) ''expires_at'' x = opt_float (ct_expires_at c)"
  "dgetd (continuation_to_dict c) ''signature'' x = opt_str (ct_signature c)"
  "dgetd (continuation_to_dict c) ''signed_by'' x = opt_str (ct_signed_by c)"
  by (simp_all add: dgetd_def continuation_to_dict_def)

lemma continuation_roundtrip: "continuation_from_dict now uid (continuation_to_dict c) = Inr c"
  by (simp add: continuation_from_dict_def continuation_dict_fields continuation_dict_lists)

lemma continuation_cbor_roundtrip:
  "cbor_ok L (VDict (continuation_to_dict c)) \<Longrightarrow>
     continuation_from_cbor L now uid (continuation_to_cbor L c) = Inr c"
  by (simp add: continuation_from_cbor_def continuation_to_cbor_def cbor_ok_def continuation_roundtrip)

subsection \<open>Properties\<close>

definition demo_continuation :: continuation where
  "demo_continuation = build_continuation 0 ''u'' ''t'' (demo_did True) '''' 
     [\<lparr>msg_role = ''user'', msg_content = ''hi'', msg_name = None, msg_timestamp = 0\<rparr>]
     (Some \<lparr>reason_code = ''user_request'', reason_description = '''', user_initiated = True\<rparr>)
     None (Some [''text.qa'']) ''any'' ''paid'' None None None None 300 None"

definition demo_envelope :: continuation where
  "demo_envelope = continuation_sign (demo_wire []) True (demo_did True) demo_continuation"

definition demo_reader :: "bool wire_lib" where
  "demo_reader = (demo_wire [])\<lparr>cbor_loads := \<lambda>_. Inr (VDict (continuation_to_dict demo_envelope))\<rparr>"

lemma demo_reader_ok:
  "continuation_sign demo_reader True (demo_did True) demo_continuation = demo_envelope"
  "owns demo_reader True (demo_did True)"
  "cbor_ok demo_reader (VDict (continuation_to_dict demo_envelope))"
  using demo_wire_owns[of "[]" True]
  by (simp_all add: demo_reader_def demo_envelope_def continuation_sign_def canonical_json_def
      owns_def ed25519_ok_def cbor_ok_def)

text \<open>
  C33: a signed envelope that travels as CBOR arrives with every field, and the receiver's check
  of its signature succeeds, when the sender signs with the key of its DID.
\<close>

theorem envelope_survives_transfer:
  assumes "owns L k d" and "cbor_ok L (VDict (continuation_to_dict (continuation_sign L k d c)))"
  shows "continuation_from_cbor L now uid (continuation_to_cbor L (continuation_sign L k d c))
           = Inr (continuation_sign L k d c)
       \<and> continuation_verify L (continuation_sign L k d c) = Inr True"
  using continuation_cbor_roundtrip[OF assms(2)] cont.verify_sign[OF assms(1)] by simp

theorem envelope_survives_transfer_witness:
  "continuation_from_cbor demo_reader 5 ''v'' (continuation_to_cbor demo_reader demo_envelope) = Inr demo_envelope
   \<and> continuation_verify demo_reader demo_envelope = Inr True"
  using envelope_survives_transfer[OF demo_reader_ok(2), of demo_continuation 5 "''v''"] demo_reader_ok(1,3)
  by simp

text \<open>
  The check of an envelope authenticates its signer, not the device it names as its source:
  whoever holds some key can sign an envelope that names any other device as its source and
  target, with any expiry, and it verifies under the signer's own DID.
\<close>

theorem envelope_source_is_unchecked:
  assumes "owns L k d"
  shows "continuation_verify L (continuation_sign L k d (c\<lparr>ct_source_device_did := victim, ct_expires_at := ex\<rparr>)) = Inr True
       \<and> ct_source_device_did (continuation_sign L k d (c\<lparr>ct_source_device_did := victim, ct_expires_at := ex\<rparr>)) = victim
       \<and> ct_signed_by (continuation_sign L k d (c\<lparr>ct_source_device_did := victim, ct_expires_at := ex\<rparr>)) = Some d"
  using cont.verify_sign[OF assms] by (simp add: continuation_sign_def Let_def)

theorem envelope_source_is_unchecked_witness:
  "continuation_verify (demo_lib []) (continuation_sign (demo_lib []) False (demo_did False)
     (demo_continuation\<lparr>ct_source_device_did := demo_did True, ct_expires_at := Some 0\<rparr>)) = Inr True"
  using envelope_source_is_unchecked[OF demo_owns[of "[]" False]] by blast

text \<open>
  Verifying an envelope raises, instead of answering \<open>False\<close>, exactly when it carries a
  signature that is not hexadecimal and a signer that is a DID: the one malformed signature the
  receiver does not answer with its rejection.
\<close>

theorem envelope_verify_raises:
  "(\<exists>e. continuation_verify L c = Inl e) \<longleftrightarrow>
     (\<exists>s d pk e. ct_signature c = Some s \<and> s \<noteq> [] \<and> ct_signed_by c = Some d
        \<and> did_to_public_key d = Inr pk \<and> bytes_fromhex s = Inl e)"
  by (rule cont.verify_raises_iff)

end
