(* ===== verification/Wire.thy ===== *)
theory Wire
  imports Continuations
begin

text \<open>
  \<^verbatim>\<open>transport/peer.py\<close>, first half: the message envelope, its CBOR form, the length-prefixed frames,
  and one connection with its sending and receiving side. The Noise library is a parameter: its
  handshake and cipher states are abstract types. The lemmas show that what is sent on a
  connection is received in order on the other end, encrypted or not.
\<close>

subsection \<open>Messages and frames\<close>

definition MAX_MESSAGE_SIZE :: nat where
  "MAX_MESSAGE_SIZE = 10 * 1024 * 1024"

record aries_message =
  am_type :: string
  am_id :: string
  am_sender :: did
  am_thread :: "string option"
  am_body :: dict
  am_timestamp :: real
  am_seq :: int

definition aries_payload :: "aries_message \<Rightarrow> dict" where
  "aries_payload m =
     [(''@type'', VStr (am_type m)), (''@id'', VStr (am_id m)), (''sender'', VStr (am_sender m)),
      (''body'', VDict (am_body m)), (''ts'', VFloat (am_timestamp m)), (''seq'', VInt (am_seq m))]
     @ (case am_thread m of None \<Rightarrow> [] | Some t \<Rightarrow> [(''@thread'', VStr t)])"

definition aries_to_cbor :: "('k, 'z) wire_lib_scheme \<Rightarrow> aries_message \<Rightarrow> bytes" where
  "aries_to_cbor L m = cbor_dumps L (VDict (aries_payload m))"

definition aries_from_cbor ::
    "('k, 'z) wire_lib_scheme \<Rightarrow> real \<Rightarrow> string \<Rightarrow> bytes \<Rightarrow> aries_message result" where
  "aries_from_cbor L now uid data =
     bindE (bindE (cbor_loads L data) as_dict) (\<lambda>d.
     bindE (bindE (dict_item d ''@type'') as_str) (\<lambda>t.
     bindE (as_str (dgetd d ''@id'' (VStr uid))) (\<lambda>i.
     bindE (as_str (dgetd d ''sender'' (VStr ''''))) (\<lambda>sd.
     bindE (as_opt_str (dgetd d ''@thread'' VNone)) (\<lambda>th.
     bindE (as_dict (dgetd d ''body'' (VDict []))) (\<lambda>b.
     bindE (as_float (dgetd d ''ts'' (VFloat now))) (\<lambda>ts.
     bindE (as_int (dgetd d ''seq'' (VInt 0))) (\<lambda>sq.
       Inr \<lparr>am_type = t, am_id = i, am_sender = sd, am_thread = th, am_body = b,
            am_timestamp = ts, am_seq = sq\<rparr>))))))))"

text \<open>\<open>struct.pack("!I", n)\<close> and \<open>struct.unpack\<close>\<close>

definition pack_u32 :: "nat \<Rightarrow> bytes result" where
  "pack_u32 n = (if n < 2 ^ 32 then Inr (to_bytes_be 4 n) else Inl (LibError ''struct.error''))"

definition unpack_u32 :: "bytes \<Rightarrow> nat" where
  "unpack_u32 header = int_from_bytes header"

definition aries_to_bytes :: "('k, 'z) wire_lib_scheme \<Rightarrow> aries_message \<Rightarrow> bytes result" where
  "aries_to_bytes L m =
     (let pl = aries_to_cbor L m in
      if length pl > MAX_MESSAGE_SIZE then Inl (ValueError ''Message size exceeds MAX_MESSAGE_SIZE'')
      else bindE (pack_u32 (length pl)) (\<lambda>h. Inr (h @ pl)))"

subsection \<open>The stream reader\<close>

text \<open>
  \<open>StreamReader.readexactly(n)\<close>: the bytes when they have arrived, an \<open>IncompleteReadError\<close> when the
  stream ended before, and otherwise the coroutine waits.
\<close>

datatype reading = Got bytes bytes | Waiting | Incomplete

definition readexactly :: "nat \<Rightarrow> bytes \<Rightarrow> bool \<Rightarrow> reading" where
  "readexactly n buf eof =
     (if n \<le> length buf then Got (take n buf) (drop n buf)
      else if eof then Incomplete else Waiting)"

subsection \<open>The Noise library\<close>

text \<open>
  \<open>NoiseConnection\<close> and the curve conversion of PyNaCl. \<open>'h\<close> is a handshake state (the static key
  of the device is in \<open>hs_start\<close>), \<open>'c\<close> the cipher state of one direction.
\<close>

record ('h, 'c) noise =
  hs_start :: "bool \<Rightarrow> 'h"
  hs_write :: "'h \<Rightarrow> (bytes \<times> 'h) result"
  hs_read :: "'h \<Rightarrow> bytes \<Rightarrow> 'h result"
  hs_rs :: "'h \<Rightarrow> bytes option"
  hs_split :: "'h \<Rightarrow> 'c \<times> 'c"
  c_encrypt :: "'c \<Rightarrow> bytes \<Rightarrow> (bytes \<times> 'c) result"
  c_decrypt :: "'c \<Rightarrow> bytes \<Rightarrow> (bytes \<times> 'c) result"
  to_x25519 :: "bytes \<Rightarrow> bytes result"

text \<open>
  What is relied on: the receiver's cipher state decrypts the sender's next ciphertext, both
  move on in step, and a ciphertext is its plaintext and a 16-byte tag.
\<close>

definition cipher_ok :: "('h, 'c, 'z) noise_scheme \<Rightarrow> ('c \<Rightarrow> 'c \<Rightarrow> bool) \<Rightarrow> bool" where
  "cipher_ok N in_step \<longleftrightarrow> (\<forall>s r p c s'. in_step s r \<longrightarrow> c_encrypt N s p = Inr (c, s') \<longrightarrow>
     (\<exists>r'. c_decrypt N r c = Inr (p, r') \<and> in_step s' r') \<and> length c = length p + 16)"

definition APP_BYTE :: "8 word" where
  "APP_BYTE = 0x01"

definition HANDSHAKE_BYTE :: "8 word" where
  "HANDSHAKE_BYTE = 0x00"

definition did_matches_static :: "('h, 'c, 'z) noise_scheme \<Rightarrow> did \<Rightarrow> bytes \<Rightarrow> bool" where
  "did_matches_static N did rs =
     (case bindE (did_to_public_key did) (to_x25519 N) of Inl _ \<Rightarrow> False | Inr expected \<Rightarrow> expected = rs)"

subsection \<open>Connections\<close>

text \<open>\<open>PeerInfo\<close>\<close>

record peer_info =
  pi_did :: did
  pi_name :: string
  pi_host :: string
  pi_port :: int
  pi_tag :: string
  pi_capabilities :: "string list"
  pi_last_seen :: real
  pi_latency :: "real option"

text \<open>
  \<open>PeerConnection\<close>. \<open>inbuf\<close> and \<open>ended\<close> are the reader (bytes that arrived and end of stream),
  \<open>outbuf\<close> all bytes written, \<open>link_ok\<close> whether \<open>drain\<close> succeeds. \<open>ciphers\<close> holds the sending and the
  receiving cipher state once the handshake is done (\<open>_noise\<close> and \<open>_encrypted\<close>).
\<close>

record 'c conn =
  peer :: peer_info
  inbuf :: bytes
  ended :: bool
  outbuf :: bytes
  link_ok :: bool
  conn_seq :: int
  is_open :: bool
  ciphers :: "('c \<times> 'c) option"
  remote_static :: "bytes option"

definition new_conn :: "peer_info \<Rightarrow> 'c conn" where
  "new_conn p = \<lparr>peer = p, inbuf = [], ended = False, outbuf = [], link_ok = True, conn_seq = 0,
     is_open = True, ciphers = None, remote_static = None\<rparr>"

definition verify_claimed_did :: "('h, 'c, 'z) noise_scheme \<Rightarrow> 'c conn \<Rightarrow> did \<Rightarrow> bool" where
  "verify_claimed_did N c did =
     (case remote_static c of None \<Rightarrow> True | Some rs \<Rightarrow> did_matches_static N did rs)"

definition write_frame :: "'c conn \<Rightarrow> bytes \<Rightarrow> 'c conn \<times> unit result" where
  "write_frame c frame =
     (c\<lparr>outbuf := outbuf c @ frame\<rparr>,
      if link_ok c then Inr () else Inl (ConnectionError ''Connection lost''))"

text \<open>\<open>send\<close> also stores the sequence number in the message it is given.\<close>

definition conn_send ::
    "('k, 'z) wire_lib_scheme \<Rightarrow> ('h, 'c, 'y) noise_scheme \<Rightarrow> 'c conn \<Rightarrow> aries_message
      \<Rightarrow> 'c conn \<times> aries_message \<times> unit result" where
  "conn_send L N c m =
     (if \<not> is_open c then (c, m, Inl (ConnectionError ''Peer connection closed''))
      else let c1 = c\<lparr>conn_seq := conn_seq c + 1\<rparr>;
               m1 = m\<lparr>am_seq := conn_seq c1\<rparr>
           in case ciphers c1 of
                Some (tx, rx) \<Rightarrow>
                  (case c_encrypt N tx (aries_to_cbor L m1) of
                     Inl e \<Rightarrow> (c1, m1, Inl e)
                   | Inr (ciphertext, tx') \<Rightarrow>
                       let c2 = c1\<lparr>ciphers := Some (tx', rx)\<rparr> in
                       (case pack_u32 (length ciphertext + 1) of
                          Inl e \<Rightarrow> (c2, m1, Inl e)
                        | Inr h \<Rightarrow> (let (c3, r) = write_frame c2 (h @ [APP_BYTE] @ ciphertext) in (c3, m1, r))))
              | None \<Rightarrow>
                  (case aries_to_bytes L m1 of
                     Inl e \<Rightarrow> (c1, m1, Inl e)
                   | Inr frame \<Rightarrow> (let (c3, r) = write_frame c1 frame in (c3, m1, r))))"

text \<open>
  \<open>recv\<close>: it waits, or it answers \<open>None\<close> (the stream ended), or a message, or it raises. A
  coroutine that waits for the body of a frame is modelled as one that has not started yet: the
  frame stays in the buffer.
\<close>

datatype received = RecvWaiting | RecvNone | RecvMessage aries_message | RecvRaises py_error

definition conn_recv ::
    "('k, 'z) wire_lib_scheme \<Rightarrow> ('h, 'c, 'y) noise_scheme \<Rightarrow> real \<Rightarrow> string \<Rightarrow> 'c conn \<Rightarrow> 'c conn \<times> received" where
  "conn_recv L N now uid c =
     (case readexactly 4 (inbuf c) (ended c) of
        Waiting \<Rightarrow> (c, RecvWaiting)
      | Incomplete \<Rightarrow> (c\<lparr>is_open := False\<rparr>, RecvNone)
      | Got header rest \<Rightarrow>
          if unpack_u32 header > MAX_MESSAGE_SIZE
          then (c\<lparr>inbuf := rest, is_open := False\<rparr>,
                RecvRaises (ValueError ''Message size exceeds MAX_MESSAGE_SIZE''))
          else (case readexactly (unpack_u32 header) rest (ended c) of
              Waiting \<Rightarrow> (c, RecvWaiting)
            | Incomplete \<Rightarrow> (c\<lparr>inbuf := rest, is_open := False\<rparr>, RecvNone)
            | Got pl rest' \<Rightarrow>
                let c1 = c\<lparr>inbuf := rest'\<rparr>;
                    parse = (\<lambda>c2 data. (c2, case aries_from_cbor L now uid data of
                               Inl e \<Rightarrow> RecvRaises e | Inr m \<Rightarrow> RecvMessage m))
                in case ciphers c1 of
                     Some (tx, rx) \<Rightarrow>
                       if pl \<noteq> [] \<and> hd pl = APP_BYTE
                       then (case c_decrypt N rx (tl pl) of
                           Inl e \<Rightarrow> (c1, RecvRaises e)
                         | Inr (plain, rx') \<Rightarrow> parse (c1\<lparr>ciphers := Some (tx, rx')\<rparr>) plain)
                       else parse c1 pl
                   | None \<Rightarrow> parse c1 pl))"

definition conn_close :: "'c conn \<Rightarrow> 'c conn" where
  "conn_close c = c\<lparr>is_open := False, ended := True\<rparr>"

subsection \<open>Messages and frames are read back\<close>

lemma aries_roundtrip:
  "cbor_ok L (VDict (aries_payload m)) \<Longrightarrow> aries_from_cbor L now uid (aries_to_cbor L m) = Inr m"
  by (cases "am_thread m")
    (simp_all add: aries_from_cbor_def aries_to_cbor_def cbor_ok_def aries_payload_def dict_item_def
      dgetd_def as_int_def as_opt_str_def)

lemma unpack_pack: "pack_u32 n = Inr h \<Longrightarrow> unpack_u32 h = n \<and> length h = 4"
  by (auto simp: pack_u32_def unpack_u32_def int_from_to_bytes_be split: if_splits)

lemma readexactly_append: "length a = n \<Longrightarrow> readexactly n (a @ b) eof = Got a b"
  by (simp add: readexactly_def)

lemma max_size_fits: "n \<le> MAX_MESSAGE_SIZE \<Longrightarrow> pack_u32 n = Inr (to_bytes_be 4 n)"
  by (simp add: pack_u32_def MAX_MESSAGE_SIZE_def)

text \<open>A whole frame at the head of the buffer.\<close>

lemma conn_recv_frame:
  assumes "inbuf c = h @ pl @ rest" and "pack_u32 (length pl) = Inr h" and "length pl \<le> MAX_MESSAGE_SIZE"
  shows "conn_recv L N now uid c =
    (let c1 = c\<lparr>inbuf := rest\<rparr>;
         parse = (\<lambda>c2 data. (c2, case aries_from_cbor L now uid data of
                    Inl e \<Rightarrow> RecvRaises e | Inr m \<Rightarrow> RecvMessage m))
     in case ciphers c1 of
          Some (tx, rx) \<Rightarrow>
            if pl \<noteq> [] \<and> hd pl = APP_BYTE
            then (case c_decrypt N rx (tl pl) of
                Inl e \<Rightarrow> (c1, RecvRaises e)
              | Inr (plain, rx') \<Rightarrow> parse (c1\<lparr>ciphers := Some (tx, rx')\<rparr>) plain)
            else parse c1 pl
        | None \<Rightarrow> parse c1 pl)"
  using assms unpack_pack[OF assms(2)]
  by (simp add: conn_recv_def readexactly_append)

subsection \<open>Order of delivery\<close>

text \<open>A number of sends, stopping at the first that raises, and a number of receives.\<close>

fun send_all ::
    "('k, 'z) wire_lib_scheme \<Rightarrow> ('h, 'c, 'y) noise_scheme \<Rightarrow> 'c conn \<Rightarrow> aries_message list
      \<Rightarrow> 'c conn \<times> unit result" where
  "send_all L N c [] = (c, Inr ())"
| "send_all L N c (m # ms) =
     (case conn_send L N c m of
        (c', m', Inl e) \<Rightarrow> (c', Inl e)
      | (c', m', Inr u) \<Rightarrow> send_all L N c' ms)"

fun recv_many ::
    "('k, 'z) wire_lib_scheme \<Rightarrow> ('h, 'c, 'y) noise_scheme \<Rightarrow> real \<Rightarrow> string \<Rightarrow> 'c conn \<Rightarrow> nat
      \<Rightarrow> 'c conn \<times> aries_message list" where
  "recv_many L N now uid c 0 = (c, [])"
| "recv_many L N now uid c (Suc n) =
     (case conn_recv L N now uid c of
        (c', RecvMessage m) \<Rightarrow> (let (c'', ms) = recv_many L N now uid c' n in (c'', m # ms))
      | (c', r) \<Rightarrow> (c', []))"

fun numbered :: "int \<Rightarrow> aries_message list \<Rightarrow> aries_message list" where
  "numbered k [] = []"
| "numbered k (m # ms) = m\<lparr>am_seq := k + 1\<rparr> # numbered (k + 1) ms"

text \<open>Both ends plaintext, or cipher states in step.\<close>

definition paired :: "('c \<Rightarrow> 'c \<Rightarrow> bool) \<Rightarrow> 'c conn \<Rightarrow> 'c conn \<Rightarrow> bool" where
  "paired in_step a b =
     (case (ciphers a, ciphers b) of
        (None, None) \<Rightarrow> True
      | (Some (tx, _), Some (_, rx)) \<Rightarrow> in_step tx rx
      | _ \<Rightarrow> False)"

definition message_ok :: "('k, 'z) wire_lib_scheme \<Rightarrow> aries_message \<Rightarrow> bool" where
  "message_ok L m \<longleftrightarrow> cbor_ok L (VDict (aries_payload m)) \<and> length (aries_to_cbor L m) + 17 \<le> MAX_MESSAGE_SIZE"

text \<open>One message over a connection without ciphers, and over one with a pair of them.\<close>

lemma send_recv_plain:
  fixes a b :: "'c conn"
  assumes p: "paired in_step a b"
    and s: "conn_send L N a m = (a', m', Inr u)"
    and ok: "message_ok L (m\<lparr>am_seq := conn_seq a + 1\<rparr>)"
    and plain: "ciphers a = None"
  shows "\<exists>frame. outbuf a' = outbuf a @ frame \<and> conn_seq a' = conn_seq a + 1
     \<and> (\<forall>rest. \<exists>b'. conn_recv L N now uid (b\<lparr>inbuf := frame @ rest\<rparr>)
             = (b', RecvMessage (m\<lparr>am_seq := conn_seq a + 1\<rparr>))
          \<and> inbuf b' = rest \<and> paired in_step a' b')"
proof -
  let ?m = "m\<lparr>am_seq := conn_seq a + 1\<rparr>"
  let ?pl = "aries_to_cbor L ?m"
  have rt: "aries_from_cbor L now uid ?pl = Inr ?m"
    using ok by (intro aries_roundtrip) (simp add: message_ok_def)
  have len: "length ?pl + 17 \<le> MAX_MESSAGE_SIZE" using ok by (simp add: message_ok_def)
  have open_a: "is_open a" using s by (auto simp: conn_send_def split: if_splits)
  from p plain have cb: "ciphers b = None" by (auto simp: paired_def split: option.splits)
  define h where "h = to_bytes_be 4 (length ?pl)"
  have h: "pack_u32 (length ?pl) = Inr h" using len by (simp add: h_def max_size_fits)
  have a': "a' = a\<lparr>conn_seq := conn_seq a + 1, outbuf := outbuf a @ h @ ?pl\<rparr>"
    using s plain open_a h len
    by (auto simp: conn_send_def Let_def aries_to_bytes_def write_frame_def split: if_splits)
  have r: "conn_recv L N now uid (b\<lparr>inbuf := (h @ ?pl) @ rest\<rparr>) = (b\<lparr>inbuf := rest\<rparr>, RecvMessage ?m)" for rest
    using conn_recv_frame[where c = "b\<lparr>inbuf := (h @ ?pl) @ rest\<rparr>" and h = h and pl = ?pl
        and rest = rest and L = L and N = N and now = now and uid = uid] h len cb rt
    by (simp add: Let_def)
  have "outbuf a' = outbuf a @ (h @ ?pl)" and "conn_seq a' = conn_seq a + 1"
    and "\<forall>rest. paired in_step a' (b\<lparr>inbuf := rest\<rparr>)"
    using a' plain cb by (simp_all add: paired_def)
  then show ?thesis using r by (intro exI[where x = "h @ ?pl"] conjI allI) auto
qed

lemma send_recv_sealed:
  fixes a b :: "'c conn"
  assumes N: "cipher_ok N in_step" and p: "paired in_step a b"
    and s: "conn_send L N a m = (a', m', Inr u)"
    and ok: "message_ok L (m\<lparr>am_seq := conn_seq a + 1\<rparr>)"
    and sealed: "ciphers a = Some cs"
  shows "\<exists>frame. outbuf a' = outbuf a @ frame \<and> conn_seq a' = conn_seq a + 1
     \<and> (\<forall>rest. \<exists>b'. conn_recv L N now uid (b\<lparr>inbuf := frame @ rest\<rparr>)
             = (b', RecvMessage (m\<lparr>am_seq := conn_seq a + 1\<rparr>))
          \<and> inbuf b' = rest \<and> paired in_step a' b')"
proof -
  let ?m = "m\<lparr>am_seq := conn_seq a + 1\<rparr>"
  let ?pl = "aries_to_cbor L ?m"
  have rt: "aries_from_cbor L now uid ?pl = Inr ?m"
    using ok by (intro aries_roundtrip) (simp add: message_ok_def)
  have len: "length ?pl + 17 \<le> MAX_MESSAGE_SIZE" using ok by (simp add: message_ok_def)
  have open_a: "is_open a" using s by (auto simp: conn_send_def split: if_splits)
  from sealed obtain tx rx0 where ca: "ciphers a = Some (tx, rx0)" by (cases cs) auto
  with p obtain tx0 rx where cb: "ciphers b = Some (tx0, rx)" and st: "in_step tx rx"
    by (auto simp: paired_def split: option.splits)
  obtain ct tx' where e: "c_encrypt N tx ?pl = Inr (ct, tx')"
    using s ca open_a by (cases "c_encrypt N tx ?pl") (auto simp: conn_send_def Let_def)
  from N st e obtain rx' where d: "c_decrypt N rx ct = Inr (?pl, rx')" "in_step tx' rx'"
    and lc: "length ct = length ?pl + 16"
    unfolding cipher_ok_def by blast
  define pl where "pl = APP_BYTE # ct"
  define h where "h = to_bytes_be 4 (length pl)"
  have lp: "length pl \<le> MAX_MESSAGE_SIZE" using len lc by (simp add: pl_def)
  have h: "pack_u32 (length pl) = Inr h" unfolding h_def by (rule max_size_fits[OF lp])
  then have h1: "pack_u32 (Suc (length ct)) = Inr h" by (simp add: pl_def)
  have a': "a' = a\<lparr>conn_seq := conn_seq a + 1, ciphers := Some (tx', rx0), outbuf := outbuf a @ h @ pl\<rparr>"
    using s ca open_a h1 e
    by (auto simp: conn_send_def Let_def write_frame_def pl_def split: if_splits)
  have r: "conn_recv L N now uid (b\<lparr>inbuf := (h @ pl) @ rest\<rparr>)
      = (b\<lparr>inbuf := rest, ciphers := Some (tx0, rx')\<rparr>, RecvMessage ?m)" for rest
    using conn_recv_frame[where c = "b\<lparr>inbuf := (h @ pl) @ rest\<rparr>" and h = h and pl = pl
        and rest = rest and L = L and N = N and now = now and uid = uid] h lp cb rt d(1)
    by (simp add: Let_def pl_def)
  have "outbuf a' = outbuf a @ (h @ pl)" and "conn_seq a' = conn_seq a + 1"
    and "\<forall>rest. paired in_step a' (b\<lparr>inbuf := rest, ciphers := Some (tx0, rx')\<rparr>)"
    using a' d(2) by (simp_all add: paired_def)
  then show ?thesis using r by (intro exI[where x = "h @ pl"] conjI allI) auto
qed

lemma send_recv_one:
  fixes a b :: "'c conn"
  assumes N: "cipher_ok N in_step" and p: "paired in_step a b"
    and s: "conn_send L N a m = (a', m', Inr u)"
    and ok: "message_ok L (m\<lparr>am_seq := conn_seq a + 1\<rparr>)"
  shows "\<exists>frame. outbuf a' = outbuf a @ frame \<and> conn_seq a' = conn_seq a + 1
     \<and> (\<forall>rest. \<exists>b'. conn_recv L N now uid (b\<lparr>inbuf := frame @ rest\<rparr>)
             = (b', RecvMessage (m\<lparr>am_seq := conn_seq a + 1\<rparr>))
          \<and> inbuf b' = rest \<and> paired in_step a' b')"
  using send_recv_plain[OF p s ok] send_recv_sealed[OF N p s ok] by (cases "ciphers a") blast+

lemma inbuf_same [simp]: "c\<lparr>inbuf := inbuf c\<rparr> = c"
  by simp

lemma send_recv_all:
  fixes a b :: "'c conn" and L :: "('k, 'z) wire_lib_scheme" and N :: "('h, 'c, 'y) noise_scheme"
  assumes N: "cipher_ok N in_step"
  shows "paired in_step a b \<Longrightarrow> send_all L N a ms = (a', Inr u) \<Longrightarrow>
     \<forall>m \<in> set (numbered (conn_seq a) ms). message_ok L m \<Longrightarrow>
     \<exists>frames. outbuf a' = outbuf a @ frames
       \<and> (\<forall>rest. \<exists>b'. recv_many L N now uid (b\<lparr>inbuf := frames @ rest\<rparr>) (length ms) = (b', numbered (conn_seq a) ms)
            \<and> inbuf b' = rest)"
proof (induction ms arbitrary: a b)
  case Nil
  then show ?case by (intro exI[where x = "[]"]) auto
next
  case (Cons m ms)
  obtain a1 m1 r where s: "conn_send L N a m = (a1, m1, r)" by (metis prod_cases3)
  with Cons.prems(2) obtain u1 where r: "r = Inr u1" by (cases r) auto
  from Cons.prems(2) s r have rest_sent: "send_all L N a1 ms = (a', Inr u)" by simp
  have ok: "message_ok L (m\<lparr>am_seq := conn_seq a + 1\<rparr>)" using Cons.prems(3) by simp
  from send_recv_one[OF N Cons.prems(1) s[unfolded r] ok, of now uid] obtain f where
    f: "outbuf a1 = outbuf a @ f" "conn_seq a1 = conn_seq a + 1"
    and one: "\<And>rest. \<exists>b'. conn_recv L N now uid (b\<lparr>inbuf := f @ rest\<rparr>)
             = (b', RecvMessage (m\<lparr>am_seq := conn_seq a + 1\<rparr>)) \<and> inbuf b' = rest \<and> paired in_step a1 b'"
    by blast
  have oks: "\<forall>m \<in> set (numbered (conn_seq a1) ms). message_ok L m" using Cons.prems(3) f(2) by simp
  from one[of "[]"] obtain b0 where "paired in_step a1 b0" by blast
  from Cons.IH[OF this rest_sent oks] obtain fs where fs: "outbuf a' = outbuf a1 @ fs" by blast
  show ?case
  proof (intro exI[where x = "f @ fs"] conjI allI)
    show "outbuf a' = outbuf a @ f @ fs" using f fs by simp
    fix rest
    from one[of "fs @ rest"] obtain b1 where b1: "conn_recv L N now uid (b\<lparr>inbuf := f @ fs @ rest\<rparr>)
        = (b1, RecvMessage (m\<lparr>am_seq := conn_seq a + 1\<rparr>))" "inbuf b1 = fs @ rest" "paired in_step a1 b1"
      by blast
    from Cons.IH[OF b1(3) rest_sent oks] fs obtain b2 where
      "recv_many L N now uid (b1\<lparr>inbuf := fs @ rest\<rparr>) (length ms) = (b2, numbered (conn_seq a1) ms)"
      "inbuf b2 = rest" by auto
    moreover have "b1\<lparr>inbuf := fs @ rest\<rparr> = b1" using b1(2) inbuf_same by metis
    ultimately show "\<exists>b'. recv_many L N now uid (b\<lparr>inbuf := (f @ fs) @ rest\<rparr>) (length (m # ms))
        = (b', numbered (conn_seq a) (m # ms)) \<and> inbuf b' = rest"
      using b1(1) f(2) by auto
  qed
qed

lemma plaintext_frame_received:
  assumes "inbuf c = h @ pl @ rest" and "pack_u32 (length pl) = Inr h" and "length pl \<le> MAX_MESSAGE_SIZE"
    and "pl = [] \<or> hd pl \<noteq> APP_BYTE" and "aries_from_cbor L now uid pl = Inr m"
  shows "conn_recv L N now uid c = (c\<lparr>inbuf := rest\<rparr>, RecvMessage m)"
  using conn_recv_frame[OF assms(1-3), of L N now uid] assms(4,5)
  by (auto simp: Let_def split: option.split)

subsection \<open>Properties\<close>

definition demo_message :: aries_message where
  "demo_message = \<lparr>am_type = ''t'', am_id = ''i'', am_sender = demo_did True, am_thread = None,
     am_body = [], am_timestamp = 0, am_seq = 1\<rparr>"

definition demo_net :: "bool wire_lib" where
  "demo_net = demo_wire [VDict (aries_payload demo_message)]"

text \<open>For witnesses: no encryption, and a tag of sixteen zero bytes.\<close>

definition demo_noise :: "(nat, unit) noise" where
  "demo_noise = \<lparr>hs_start = (\<lambda>_. 0), hs_write = (\<lambda>h. Inr ([], h + 1)), hs_read = (\<lambda>h _. Inr (h + 1)),
     hs_rs = (\<lambda>_. Some (replicate 32 1)), hs_split = (\<lambda>_. ((), ())),
     c_encrypt = (\<lambda>_ p. Inr (p @ replicate 16 0, ())), c_decrypt = (\<lambda>_ c. Inr (take (length c - 16) c, ())),
     to_x25519 = Inr\<rparr>"

lemma demo_cipher: "cipher_ok demo_noise (\<lambda>_ _. True)"
  by (simp add: cipher_ok_def demo_noise_def)

definition demo_peer :: peer_info where
  "demo_peer = \<lparr>pi_did = ''unknown'', pi_name = '''', pi_host = ''h'', pi_port = 1, pi_tag = '''',
     pi_capabilities = [], pi_last_seen = 0, pi_latency = None\<rparr>"

definition demo_conn :: "unit conn" where
  "demo_conn = (new_conn demo_peer)\<lparr>ciphers := Some ((), ())\<rparr>"

lemma demo_cbor: "aries_to_cbor demo_net m = [of_nat (position (VDict (aries_payload m)) [VDict (aries_payload demo_message)])]"
  by (simp add: aries_to_cbor_def demo_net_def demo_wire_def demo_lib_def lib.defs)

lemma demo_message_cbor: "aries_to_cbor demo_net demo_message = [0]"
  by (simp add: demo_cbor position_def)

lemma demo_net_ok: "cbor_ok demo_net (VDict (aries_payload demo_message))"
  unfolding demo_net_def by (rule demo_wire_cbor) simp_all

lemma demo_message_ok: "message_ok demo_net demo_message"
  using demo_net_ok by (simp add: message_ok_def demo_cbor MAX_MESSAGE_SIZE_def)

text \<open>
  C12: in-order delivery. When a number of sends succeed, the bytes they wrote, delivered to the
  other end in one piece and followed by anything, are received there as exactly these messages,
  in order, numbered one after the other from the sender's counter, and the bytes that follow
  stay in the buffer. It holds with encryption (for cipher states in step) and without.
\<close>

theorem messages_arrive_in_order:
  fixes a b :: "'c conn" and L :: "('k, 'z) wire_lib_scheme" and N :: "('h, 'c, 'y) noise_scheme"
  assumes "cipher_ok N in_step" and "paired in_step a b"
    and "send_all L N a ms = (a', Inr u)"
    and "\<forall>m \<in> set (numbered (conn_seq a) ms). message_ok L m"
  shows "\<exists>frames. outbuf a' = outbuf a @ frames
     \<and> (\<forall>rest. \<exists>b'. recv_many L N now uid (b\<lparr>inbuf := frames @ rest\<rparr>) (length ms)
              = (b', numbered (conn_seq a) ms) \<and> inbuf b' = rest)"
  by (rule send_recv_all[OF assms])

theorem messages_arrive_in_order_witness:
  "\<exists>frames. outbuf (fst (send_all demo_net demo_noise demo_conn [demo_message])) = frames
     \<and> (\<forall>rest. \<exists>b'. recv_many demo_net demo_noise 0 ''u'' (demo_conn\<lparr>inbuf := frames @ rest\<rparr>) 1
              = (b', [demo_message]) \<and> inbuf b' = rest)"
proof -
  let ?r = "send_all demo_net demo_noise demo_conn [demo_message]"
  have s: "?r = (fst ?r, Inr ())"
    by (simp add: conn_send_def demo_conn_def new_conn_def demo_noise_def Let_def pack_u32_def
        aries_to_cbor_def demo_net_def demo_wire_def demo_lib_def lib.defs write_frame_def)
  have m: "demo_message\<lparr>am_seq := 1\<rparr> = demo_message" by (simp add: demo_message_def)
  have z: "conn_seq demo_conn = 0" "outbuf demo_conn = []" by (simp_all add: demo_conn_def new_conn_def)
  have p: "paired (\<lambda>_ _. True) demo_conn demo_conn" by (simp add: paired_def demo_conn_def)
  show ?thesis
    using messages_arrive_in_order[OF demo_cipher p s, of 0 "''u''"] demo_message_ok
    by (simp add: z m)
qed

text \<open>
  An encrypted connection still takes messages in the clear. A frame whose payload is the CBOR
  of any message (a CBOR map never starts with the byte 1 that marks an encrypted payload) is
  received as that message, and neither cipher state is consulted: who can write to the TCP
  stream can speak as the authenticated peer.
\<close>

theorem plaintext_accepted_when_encrypted:
  assumes "ciphers c = Some cs" and "cbor_ok L (VDict (aries_payload m))"
    and "hd (aries_to_cbor L m) \<noteq> APP_BYTE" and "length (aries_to_cbor L m) \<le> MAX_MESSAGE_SIZE"
  shows "\<exists>h. pack_u32 (length (aries_to_cbor L m)) = Inr h
     \<and> conn_recv L N now uid (c\<lparr>inbuf := h @ aries_to_cbor L m @ rest\<rparr>) = (c\<lparr>inbuf := rest\<rparr>, RecvMessage m)
     \<and> ciphers (c\<lparr>inbuf := rest\<rparr>) = Some cs"
  using plaintext_frame_received[of "c\<lparr>inbuf := to_bytes_be 4 (length (aries_to_cbor L m)) @ aries_to_cbor L m @ rest\<rparr>"
      "to_bytes_be 4 (length (aries_to_cbor L m))" "aries_to_cbor L m" rest L now uid m N] assms
  by (simp add: max_size_fits aries_roundtrip)

theorem plaintext_accepted_when_encrypted_witness:
  "\<exists>h. pack_u32 (length (aries_to_cbor demo_net demo_message)) = Inr h
     \<and> conn_recv demo_net demo_noise 0 ''u'' (demo_conn\<lparr>inbuf := h @ aries_to_cbor demo_net demo_message @ []\<rparr>)
         = (demo_conn\<lparr>inbuf := []\<rparr>, RecvMessage demo_message)
     \<and> ciphers (demo_conn\<lparr>inbuf := []\<rparr>) = Some ((), ())"
  by (rule plaintext_accepted_when_encrypted)
    (simp_all add: demo_net_ok demo_message_cbor demo_conn_def APP_BYTE_def MAX_MESSAGE_SIZE_def)

end
