(* ===== verification/Transport.thy ===== *)
theory Transport
  imports Wire
begin

text \<open>
  \<^verbatim>\<open>transport/crypto.py\<close> and \<^verbatim>\<open>transport/peer.py\<close>, second half: the three-message Noise_XX handshake
  over framed streams, and the server with its connection table and receive loops. Connections
  are objects shared between the table and the loops, so the server keeps them in a list and the
  table holds positions. One event is one run of a coroutine between two points where it waits.
  The lemmas show which identities a dispatched message and a table entry can have.
\<close>

subsection \<open>The handshake\<close>

definition hs_frame :: "bytes \<Rightarrow> bytes result" where
  "hs_frame pl = bindE (pack_u32 (length pl + 1)) (\<lambda>h. Inr (h @ [HANDSHAKE_BYTE] @ pl))"

datatype hs_reading = HsGot bytes bytes | HsWaiting | HsBroken

text \<open>\<open>_recv_hs\<close>: an empty frame, a frame that is not a handshake frame and an ended stream fail.\<close>

definition recv_hs :: "bytes \<Rightarrow> bool \<Rightarrow> hs_reading" where
  "recv_hs buf eof =
     (case readexactly 4 buf eof of
        Waiting \<Rightarrow> HsWaiting
      | Incomplete \<Rightarrow> HsBroken
      | Got header rest \<Rightarrow>
          if unpack_u32 header = 0 then HsBroken
          else (case readexactly (unpack_u32 header) rest eof of
              Waiting \<Rightarrow> HsWaiting
            | Incomplete \<Rightarrow> HsBroken
            | Got envelope rest' \<Rightarrow>
                if take 1 envelope \<noteq> [HANDSHAKE_BYTE] then HsBroken else HsGot (drop 1 envelope) rest'))"

text \<open>
  \<open>handshake\<close> as a function of all bytes that have arrived so far: the bytes it has written, and
  whether it waits, has raised \<open>HandshakeError\<close>, or is done with the peer's static key, the two
  cipher states and the bytes that are left.
\<close>

datatype 'c hs_outcome = HsPending | HsFailed | HsDone bytes "'c \<times> 'c" bytes

definition hs_finish :: "('h, 'c, 'z) noise_scheme \<Rightarrow> bytes option \<Rightarrow> 'h \<Rightarrow> bytes \<Rightarrow> 'c hs_outcome" where
  "hs_finish N rs h rest = (case rs of None \<Rightarrow> HsFailed | Some r \<Rightarrow> HsDone r (hs_split N h) rest)"

definition hs_send :: "('h, 'c, 'z) noise_scheme \<Rightarrow> 'h \<Rightarrow> (bytes \<times> 'h) result" where
  "hs_send N h = bindE (hs_write N h) (\<lambda>(m, h'). bindE (hs_frame m) (\<lambda>f. Inr (f, h')))"

definition handshake_initiator ::
    "('h, 'c, 'z) noise_scheme \<Rightarrow> bytes \<Rightarrow> bool \<Rightarrow> bytes \<times> 'c hs_outcome" where
  "handshake_initiator N buf eof =
     (case hs_send N (hs_start N True) of
        Inl _ \<Rightarrow> ([], HsFailed)
      | Inr (f1, h1) \<Rightarrow>
          (case recv_hs buf eof of
             HsWaiting \<Rightarrow> (f1, HsPending)
           | HsBroken \<Rightarrow> (f1, HsFailed)
           | HsGot m2 rest \<Rightarrow>
               (case hs_read N h1 m2 of
                  Inl _ \<Rightarrow> (f1, HsFailed)
                | Inr h2 \<Rightarrow>
                    (case hs_send N h2 of
                       Inl _ \<Rightarrow> (f1, HsFailed)
                     | Inr (f3, h3) \<Rightarrow> (f1 @ f3, hs_finish N (hs_rs N h2) h3 rest)))))"

definition handshake_responder ::
    "('h, 'c, 'z) noise_scheme \<Rightarrow> bytes \<Rightarrow> bool \<Rightarrow> bytes \<times> 'c hs_outcome" where
  "handshake_responder N buf eof =
     (case recv_hs buf eof of
        HsWaiting \<Rightarrow> ([], HsPending)
      | HsBroken \<Rightarrow> ([], HsFailed)
      | HsGot m1 rest \<Rightarrow>
          (case hs_read N (hs_start N False) m1 of
             Inl _ \<Rightarrow> ([], HsFailed)
           | Inr h1 \<Rightarrow>
               (case hs_send N h1 of
                  Inl _ \<Rightarrow> ([], HsFailed)
                | Inr (f2, h2) \<Rightarrow>
                    (case recv_hs rest eof of
                       HsWaiting \<Rightarrow> (f2, HsPending)
                     | HsBroken \<Rightarrow> (f2, HsFailed)
                     | HsGot m3 rest' \<Rightarrow>
                         (case hs_read N h2 m3 of
                            Inl _ \<Rightarrow> (f2, HsFailed)
                          | Inr h3 \<Rightarrow> (f2, hs_finish N (hs_rs N h3) h3 rest'))))))"

definition handshake :: "('h, 'c, 'z) noise_scheme \<Rightarrow> bool \<Rightarrow> bytes \<Rightarrow> bool \<Rightarrow> bytes \<times> 'c hs_outcome" where
  "handshake N is_initiator buf eof =
     (if is_initiator then handshake_initiator N buf eof else handshake_responder N buf eof)"

subsection \<open>The server\<close>

text \<open>
  \<open>TransportServer\<close>. \<open>table\<close> is \<open>_connections\<close>, \<open>handled\<close> logs each message given to a handler with
  its connection, \<open>gone\<close> each DID the disconnect callbacks were called with. A connection is in its
  handshake (\<open>is_initiator\<close>), in its receive loop, or its loop has ended.
\<close>

datatype phase = Handshaking bool | Receiving | Finished

fun is_handshaking :: "phase \<Rightarrow> bool" where
  "is_handshaking (Handshaking b) = True"
| "is_handshaking Receiving = False"
| "is_handshaking Finished = False"

record 'c server =
  has_key :: bool
  conns :: "(phase \<times> 'c conn) list"
  table :: "(did \<times> nat) list"
  handler_types :: "string list"
  handled :: "(nat \<times> aries_message) list"
  gone :: "did list"

definition server_init :: "bool \<Rightarrow> 'c server" where
  "server_init key = \<lparr>has_key = key, conns = [], table = [], handler_types = [], handled = [], gone = []\<rparr>"

definition put_conn :: "nat \<Rightarrow> phase \<Rightarrow> 'c conn \<Rightarrow> 'c server \<Rightarrow> 'c server" where
  "put_conn i ph c s = s\<lparr>conns := (conns s)[i := (ph, c)]\<rparr>"

abbreviation conn_did :: "'c conn \<Rightarrow> did" where
  "conn_did c \<equiv> pi_did (peer c)"

definition set_did :: "did \<Rightarrow> 'c conn \<Rightarrow> 'c conn" where
  "set_did d c = c\<lparr>peer := (peer c)\<lparr>pi_did := d\<rparr>\<rparr>"

text \<open>The \<open>finally\<close> block of the receive loop.\<close>

definition finish_loop :: "nat \<Rightarrow> 'c conn \<Rightarrow> 'c server \<Rightarrow> 'c server" where
  "finish_loop i c s =
     (let s1 = put_conn i Finished (conn_close c) s;
          d = conn_did c
      in if d \<noteq> [] \<and> dget (table s1) d = Some i
         then s1\<lparr>table := dpop d (table s1), gone := gone s1 @ [d]\<rparr> else s1)"

definition dispatch :: "nat \<Rightarrow> aries_message \<Rightarrow> 'c server \<Rightarrow> 'c server" where
  "dispatch i m s = (if am_type m \<in> set (handler_types s) then s\<lparr>handled := handled s @ [(i, m)]\<rparr> else s)"

text \<open>One iteration of \<open>_receive_loop\<close> on a connection that is in its loop: with a message, and from its start.\<close>

definition take_message ::
    "('h, 'c, 'y) noise_scheme \<Rightarrow> nat \<Rightarrow> 'c conn \<Rightarrow> aries_message \<Rightarrow> 'c server \<Rightarrow> 'c server" where
  "take_message N i c m s =
     (if am_sender m = [] then dispatch i m (put_conn i Receiving c s)
      else if conn_did c \<in> {[], ''unknown''} then
        (if \<not> verify_claimed_did N c (am_sender m) then finish_loop i c s
         else let s1 = put_conn i Receiving (set_did (am_sender m) c) s
              in dispatch i m (s1\<lparr>table := dset (am_sender m) i (table s1)\<rparr>))
      else if am_sender m \<noteq> conn_did c then finish_loop i c s
      else dispatch i m (put_conn i Receiving c s))"

definition receive_step ::
    "('k, 'z) wire_lib_scheme \<Rightarrow> ('h, 'c, 'y) noise_scheme \<Rightarrow> real \<Rightarrow> string \<Rightarrow> nat \<Rightarrow> 'c conn
      \<Rightarrow> 'c server \<Rightarrow> 'c server" where
  "receive_step L N now uid i c s =
     (if \<not> is_open c then finish_loop i c s
      else case conn_recv L N now uid c of
          (c1, RecvWaiting) \<Rightarrow> s
        | (c1, RecvNone) \<Rightarrow> finish_loop i c1 s
        | (c1, RecvRaises e) \<Rightarrow> finish_loop i c1 s
        | (c1, RecvMessage m) \<Rightarrow> take_message N i c1 m s)"

text \<open>
  The coroutine of a connection that is in its handshake: \<open>connect_to_peer\<close> (initiator) and
  \<open>_handle_connection\<close> (responder) up to their receive loop.
\<close>

definition handshake_step :: "('h, 'c, 'y) noise_scheme \<Rightarrow> nat \<Rightarrow> bool \<Rightarrow> 'c conn \<Rightarrow> 'c server \<Rightarrow> 'c server" where
  "handshake_step N i is_initiator c s =
     (case handshake N is_initiator (inbuf c) (ended c) of
        (sent, HsPending) \<Rightarrow> put_conn i (Handshaking is_initiator) (c\<lparr>outbuf := sent\<rparr>) s
      | (sent, HsFailed) \<Rightarrow> put_conn i Finished (conn_close (c\<lparr>outbuf := sent\<rparr>)) s
      | (sent, HsDone rs cs rest) \<Rightarrow>
          let c1 = c\<lparr>outbuf := sent, inbuf := rest, remote_static := Some rs, ciphers := Some cs\<rparr>;
              d = conn_did c1
          in if is_initiator \<and> d \<noteq> [] \<and> d \<noteq> ''unknown'' \<and> \<not> verify_claimed_did N c1 d
             then put_conn i Finished (conn_close c1) s
             else let s1 = put_conn i Receiving c1 s
                  in if is_initiator \<and> d \<noteq> [] then s1\<lparr>table := dset d i (table s1)\<rparr> else s1)"

text \<open>A new TCP connection: \<open>connect_to_peer\<close> with the given peer, or an inbound one.\<close>

definition inbound_peer :: "string \<Rightarrow> int \<Rightarrow> real \<Rightarrow> peer_info" where
  "inbound_peer host port now =
     \<lparr>pi_did = ''unknown'', pi_name = '''', pi_host = host, pi_port = port, pi_tag = '''',
      pi_capabilities = [], pi_last_seen = now, pi_latency = None\<rparr>"

definition open_conn :: "bool \<Rightarrow> peer_info \<Rightarrow> 'c server \<Rightarrow> 'c server" where
  "open_conn outbound p s =
     (let i = length (conns s) in
      if has_key s then s\<lparr>conns := conns s @ [(Handshaking outbound, new_conn p)]\<rparr>
      else let s1 = s\<lparr>conns := conns s @ [(Receiving, new_conn p)]\<rparr>
           in if outbound \<and> pi_did p \<noteq> [] then s1\<lparr>table := dset (pi_did p) i (table s1)\<rparr> else s1)"

definition send_on ::
    "('k, 'z) wire_lib_scheme \<Rightarrow> ('h, 'c, 'y) noise_scheme \<Rightarrow> nat \<Rightarrow> aries_message \<Rightarrow> 'c server
      \<Rightarrow> 'c server \<times> aries_message \<times> unit result" where
  "send_on L N i m s =
     (let (ph, c) = conns s ! i; (c', m', r) = conn_send L N c m in (put_conn i ph c' s, m', r))"

text \<open>\<open>broadcast\<close>: a connection whose send raises leaves the table, without being closed.\<close>

fun broadcast_loop ::
    "('k, 'z) wire_lib_scheme \<Rightarrow> ('h, 'c, 'y) noise_scheme \<Rightarrow> (did \<times> nat) list \<Rightarrow> aries_message
      \<Rightarrow> 'c server \<Rightarrow> 'c server" where
  "broadcast_loop L N [] m s = s"
| "broadcast_loop L N ((d, i) # ds) m s =
     (case send_on L N i m s of
        (s1, m1, Inr _) \<Rightarrow> broadcast_loop L N ds m1 s1
      | (s1, m1, Inl _) \<Rightarrow> broadcast_loop L N ds m1 (s1\<lparr>table := dpop d (table s1)\<rparr>))"

definition broadcast ::
    "('k, 'z) wire_lib_scheme \<Rightarrow> ('h, 'c, 'y) noise_scheme \<Rightarrow> aries_message \<Rightarrow> 'c server \<Rightarrow> 'c server" where
  "broadcast L N m s = broadcast_loop L N (table s) m s"

definition connected_peers :: "'c server \<Rightarrow> nat list" where
  "connected_peers s = filter (\<lambda>i. is_open (snd (conns s ! i))) (map snd (table s))"

definition get_peer :: "did \<Rightarrow> 'c server \<Rightarrow> nat option" where
  "get_peer d s = dget (table s) d"

text \<open>\<open>stop\<close>: every connection of the table is closed and the table emptied; the loops are cancelled.\<close>

definition close_at :: "nat \<Rightarrow> 'c server \<Rightarrow> 'c server" where
  "close_at i s = (let (ph, c) = conns s ! i in put_conn i ph (conn_close c) s)"

definition server_stop :: "'c server \<Rightarrow> 'c server" where
  "server_stop s = (fold close_at (map snd (table s)) s)\<lparr>table := []\<rparr>"

subsection \<open>Events\<close>

text \<open>
  What the network does (bytes arrive, the stream ends, the link breaks) and what the program
  does; \<open>Progress\<close> lets the coroutine of one connection run.
\<close>

datatype net_event =
    Register string
  | Connect peer_info
  | Accept string int real
  | Deliver nat bytes
  | HangUp nat
  | LinkLost nat
  | Progress nat real string
  | Send nat aries_message
  | Broadcast aries_message
  | Stop

definition upd_conn :: "nat \<Rightarrow> ('c conn \<Rightarrow> 'c conn) \<Rightarrow> 'c server \<Rightarrow> 'c server" where
  "upd_conn i f s = (let (ph, c) = conns s ! i in put_conn i ph (f c) s)"

fun server_step ::
    "('k, 'z) wire_lib_scheme \<Rightarrow> ('h, 'c, 'y) noise_scheme \<Rightarrow> net_event \<Rightarrow> 'c server \<Rightarrow> 'c server" where
  "server_step L N (Register t) s = s\<lparr>handler_types := t # handler_types s\<rparr>"
| "server_step L N (Connect p) s = open_conn True p s"
| "server_step L N (Accept host port now) s = open_conn False (inbound_peer host port now) s"
| "server_step L N (Deliver i bs) s = upd_conn i (\<lambda>c. c\<lparr>inbuf := inbuf c @ bs\<rparr>) s"
| "server_step L N (HangUp i) s = upd_conn i (\<lambda>c. c\<lparr>ended := True\<rparr>) s"
| "server_step L N (LinkLost i) s = upd_conn i (\<lambda>c. c\<lparr>link_ok := False, ended := True\<rparr>) s"
| "server_step L N (Progress i now uid) s =
     (if i < length (conns s) then
        (case conns s ! i of
           (Handshaking init, c) \<Rightarrow> handshake_step N i init c s
         | (Receiving, c) \<Rightarrow> receive_step L N now uid i c s
         | (Finished, c) \<Rightarrow> s)
      else s)"
| "server_step L N (Send i m) s =
     (if i < length (conns s) \<and> \<not> is_handshaking (fst (conns s ! i)) then fst (send_on L N i m s) else s)"
| "server_step L N (Broadcast m) s = broadcast L N m s"
| "server_step L N Stop s = server_stop s"

inductive server_reach ::
    "('k, 'z) wire_lib_scheme \<Rightarrow> ('h, 'c, 'y) noise_scheme \<Rightarrow> bool \<Rightarrow> 'c server \<Rightarrow> bool"
  for L N key where
  start: "server_reach L N key (server_init key)"
| step: "server_reach L N key s \<Longrightarrow> server_reach L N key (server_step L N e s)"

subsection \<open>Identities\<close>

definition anonymous :: "did \<Rightarrow> bool" where
  "anonymous d = (d \<in> {[], ''unknown''})"

definition backed :: "('h, 'c, 'y) noise_scheme \<Rightarrow> 'c conn \<Rightarrow> did \<Rightarrow> bool" where
  "backed N c d = (case remote_static c of None \<Rightarrow> False | Some rs \<Rightarrow> did_matches_static N d rs)"

lemma unknown_not_backed: "\<not> backed N c ''unknown''" "\<not> backed N c []"
  by (simp_all add: backed_def did_matches_static_def did_to_public_key_def DID_PREFIX_def split: option.split)

lemma claim_backed: "remote_static c \<noteq> None \<Longrightarrow> verify_claimed_did N c d \<longleftrightarrow> backed N c d"
  by (auto simp: verify_claimed_did_def backed_def)

text \<open>What is claimed of connection \<open>i\<close> once something is attributed to \<open>d\<close> on it.\<close>

definition speaks :: "('h, 'c, 'y) noise_scheme \<Rightarrow> 'c server \<Rightarrow> nat \<Rightarrow> did \<Rightarrow> bool" where
  "speaks N s i d \<longleftrightarrow> i < length (conns s) \<and> \<not> is_handshaking (fst (conns s ! i))
     \<and> (\<not> anonymous d \<longrightarrow> conn_did (snd (conns s ! i)) = d \<and> backed N (snd (conns s ! i)) d)"

definition conn_inv :: "('h, 'c, 'y) noise_scheme \<Rightarrow> phase \<Rightarrow> 'c conn \<Rightarrow> bool" where
  "conn_inv N ph c \<longleftrightarrow> (ph = Receiving \<longrightarrow> remote_static c \<noteq> None
     \<and> (anonymous (conn_did c) \<or> backed N c (conn_did c)))
   \<and> (ph = Handshaking False \<longrightarrow> anonymous (conn_did c))"

definition server_inv :: "('h, 'c, 'y) noise_scheme \<Rightarrow> 'c server \<Rightarrow> bool" where
  "server_inv N s \<longleftrightarrow> has_key s \<and> (\<forall>(ph, c) \<in> set (conns s). conn_inv N ph c)
     \<and> (\<forall>(i, m) \<in> set (handled s). speaks N s i (am_sender m) \<and> am_sender m \<noteq> ''unknown'')
     \<and> (\<forall>(d, i) \<in> set (table s). speaks N s i d)"

text \<open>A change of a connection that keeps what was established about it.\<close>

definition stable :: "phase \<times> 'c conn \<Rightarrow> phase \<Rightarrow> 'c conn \<Rightarrow> bool" where
  "stable old ph c \<longleftrightarrow> is_handshaking (fst old) \<or>
     (\<not> is_handshaking ph \<and> remote_static c = remote_static (snd old)
      \<and> (anonymous (conn_did (snd old)) \<or> conn_did c = conn_did (snd old)))"

lemma speaks_put:
  assumes "speaks N s j d" and "stable (conns s ! i) ph c"
  shows "speaks N (put_conn i ph c s) j d"
proof (cases "j = i")
  case True
  with assms show ?thesis
    by (auto simp: speaks_def put_conn_def stable_def backed_def nth_list_update)
next
  case False
  with assms(1) show ?thesis by (simp add: speaks_def put_conn_def)
qed

lemma put_fields [simp]:
  "has_key (put_conn i ph c s) = has_key s" "table (put_conn i ph c s) = table s"
  "handled (put_conn i ph c s) = handled s" "length (conns (put_conn i ph c s)) = length (conns s)"
  "handler_types (put_conn i ph c s) = handler_types s" "gone (put_conn i ph c s) = gone s"
  by (simp_all add: put_conn_def)

lemma put_inv:
  assumes "server_inv N s" and "stable (conns s ! i) ph c" and "conn_inv N ph c"
  shows "server_inv N (put_conn i ph c s)"
proof -
  have "\<forall>(ph, c) \<in> set (conns (put_conn i ph c s)). conn_inv N ph c"
    using assms(1,3) set_update_subset_insert[of "conns s" i "(ph, c)"]
    by (auto simp: server_inv_def put_conn_def)
  then show ?thesis
    using assms(1) speaks_put[where N = N, OF _ assms(2)] unfolding server_inv_def
    by (simp only: put_fields) fastforce
qed

lemma inv_conn:
  "server_inv N s \<Longrightarrow> i < length (conns s) \<Longrightarrow> conns s ! i = (ph, c) \<Longrightarrow> conn_inv N ph c"
  by (metis (no_types, lifting) case_prodD nth_mem server_inv_def)

lemma inv_table_pop: "server_inv N s \<Longrightarrow> server_inv N (s\<lparr>table := dpop d (table s)\<rparr>)"
  using set_dpop_sub[of d "table s"] by (auto simp: server_inv_def speaks_def)

lemma inv_table_set: "server_inv N s \<Longrightarrow> speaks N s i d \<Longrightarrow> server_inv N (s\<lparr>table := dset d i (table s)\<rparr>)"
  using set_dset_sub[of d i "table s"] by (auto simp: server_inv_def speaks_def)

lemma inv_dispatch:
  "server_inv N s \<Longrightarrow> speaks N s i (am_sender m) \<Longrightarrow> am_sender m \<noteq> ''unknown'' \<Longrightarrow> server_inv N (dispatch i m s)"
  by (auto simp: server_inv_def speaks_def dispatch_def)

lemma inv_gone [simp]: "server_inv N (s\<lparr>gone := g\<rparr>) = server_inv N s"
  "server_inv N (s\<lparr>handler_types := h\<rparr>) = server_inv N s"
  by (simp_all add: server_inv_def speaks_def)


lemma finish_inv:
  assumes "server_inv N s" and "stable (conns s ! i) Finished c"
  shows "server_inv N (finish_loop i c s)"
proof -
  have "stable (conns s ! i) Finished (conn_close c)" using assms(2) by (simp add: stable_def conn_close_def)
  from put_inv[OF assms(1) this] have "server_inv N (put_conn i Finished (conn_close c) s)"
    by (simp add: conn_inv_def)
  then show ?thesis by (simp add: finish_loop_def Let_def inv_table_pop del: put_fields)
qed

lemma conn_recv_keeps:
  "remote_static (fst (conn_recv L N now uid c)) = remote_static c"
  "peer (fst (conn_recv L N now uid c)) = peer c"
  by (auto simp: conn_recv_def Let_def split: reading.split option.split sum.split)

lemma conn_send_keeps:
  "remote_static (fst (conn_send L N c m)) = remote_static c"
  "peer (fst (conn_send L N c m)) = peer c"
  by (auto simp: conn_send_def write_frame_def Let_def split: option.split sum.split)

subsection \<open>Every event keeps the invariant\<close>

subsection \<open>Every event keeps the invariant\<close>

lemma put_at [simp]: "i < length (conns s) \<Longrightarrow> conns (put_conn i ph c s) ! i = (ph, c)"
  by (simp add: put_conn_def)

lemma bind_inv:
  assumes inv: "server_inv N s" and i: "i < length (conns s)" "conns s ! i = (Receiving, c0)"
    and c: "remote_static c = remote_static c0" "conn_did c0 \<in> {[], ''unknown''}" "conn_inv N Receiving c"
    and claim: "verify_claimed_did N c (am_sender m)"
  shows "server_inv N (let s1 = put_conn i Receiving (set_did (am_sender m) c) s
           in dispatch i m (s1\<lparr>table := dset (am_sender m) i (table s1)\<rparr>))"
proof -
  let ?c2 = "set_did (am_sender m) c"
  let ?s1 = "put_conn i Receiving ?c2 s"
  let ?s2 = "?s1\<lparr>table := dset (am_sender m) i (table ?s1)\<rparr>"
  from claim c(3) have b: "backed N c (am_sender m)" by (simp add: claim_backed conn_inv_def)
  then have c2: "backed N ?c2 (am_sender m)" "conn_did ?c2 = am_sender m" "remote_static ?c2 = remote_static c"
    by (simp_all add: set_did_def backed_def)
  have "stable (conns s ! i) Receiving ?c2" using i(2) c c2 by (auto simp: stable_def anonymous_def)
  moreover have "conn_inv N Receiving ?c2" using c(3) c2 by (simp add: conn_inv_def)
  ultimately have s1: "server_inv N ?s1" by (rule put_inv[OF inv])
  have sp: "speaks N ?s1 i (am_sender m)" using i(1) c2 by (simp add: speaks_def)
  have "am_sender m \<noteq> ''unknown''" using b by (metis unknown_not_backed(1))
  then have "server_inv N (dispatch i m ?s2)"
    using inv_table_set[OF s1 sp] sp c2 by (intro inv_dispatch) (simp_all add: speaks_def)
  then show ?thesis by (simp add: Let_def)
qed

lemma take_message_inv:
  assumes inv: "server_inv N s" and i: "i < length (conns s)" "conns s ! i = (Receiving, c0)"
    and c: "remote_static c = remote_static c0" "peer c = peer c0"
  shows "server_inv N (take_message N i c m s)"
proof -
  have ci: "conn_inv N Receiving c" using inv_conn[OF inv i] c by (simp add: conn_inv_def backed_def)
  have fin: "server_inv N (finish_loop i c s)"
    by (rule finish_inv[OF inv]) (simp add: stable_def i(2) c)
  have put: "server_inv N (put_conn i Receiving c s)"
    by (rule put_inv[OF inv _ ci]) (simp add: stable_def i(2) c)
  have disp: "server_inv N (dispatch i m (put_conn i Receiving c s))"
    if "am_sender m = [] \<or> conn_did c \<notin> {[], ''unknown''} \<and> am_sender m = conn_did c"
    using that i(1) ci by (intro inv_dispatch[OF put]) (auto simp: speaks_def anonymous_def conn_inv_def)
  show ?thesis
    using fin disp bind_inv[OF inv i c(1) _ ci, of m] c(2) by (auto simp: take_message_def)
qed

lemma receive_inv:
  assumes inv: "server_inv N s" and i: "i < length (conns s)" "conns s ! i = (Receiving, c)"
  shows "server_inv N (receive_step L N now uid i c s)"
proof -
  obtain c1 r where r: "conn_recv L N now uid c = (c1, r)" by (cases "conn_recv L N now uid c") auto
  then have k: "remote_static c1 = remote_static c" "peer c1 = peer c"
    using conn_recv_keeps[of L N now uid c] by simp_all
  have fin: "server_inv N (finish_loop i x s)" if "remote_static x = remote_static c" "peer x = peer c" for x
    by (rule finish_inv[OF inv]) (simp add: stable_def i(2) that)
  show ?thesis
    using fin k take_message_inv[OF inv i k] inv r by (auto simp: receive_step_def split: received.split)
qed

lemma handshake_done_inv:
  assumes inv: "server_inv N s" and i: "i < length (conns s)" "conns s ! i = (Handshaking init, c0)"
    and c: "remote_static c \<noteq> None" "peer c = peer c0"
    and ok: "\<not> (init \<and> conn_did c \<noteq> [] \<and> conn_did c \<noteq> ''unknown'' \<and> \<not> verify_claimed_did N c (conn_did c))"
  shows "server_inv N (let s1 = put_conn i Receiving c s
           in if init \<and> conn_did c \<noteq> [] then s1\<lparr>table := dset (conn_did c) i (table s1)\<rparr> else s1)"
proof -
  have b: "anonymous (conn_did c) \<or> backed N c (conn_did c)"
    using ok c inv_conn[OF inv i] by (cases init) (auto simp: anonymous_def claim_backed conn_inv_def)
  have "stable (conns s ! i) Receiving c" by (simp add: stable_def i(2))
  moreover have "conn_inv N Receiving c" using b c(1) by (simp add: conn_inv_def)
  ultimately have s1: "server_inv N (put_conn i Receiving c s)" by (rule put_inv[OF inv])
  have "speaks N (put_conn i Receiving c s) i (conn_did c)" using i(1) b by (auto simp: speaks_def)
  from inv_table_set[OF s1 this] s1 show ?thesis by (simp add: Let_def del: put_fields)
qed

lemma handshake_inv:
  assumes inv: "server_inv N s" and i: "i < length (conns s)" "conns s ! i = (Handshaking init, c)"
  shows "server_inv N (handshake_step N i init c s)"
proof -
  have put: "server_inv N (put_conn i ph c' s)" if "conn_inv N ph c'" for ph c'
    by (rule put_inv[OF inv _ that]) (simp add: stable_def i(2))
  have fin: "server_inv N (put_conn i Finished (conn_close x) s)" for x
    by (rule put) (simp add: conn_inv_def)
  have pend: "server_inv N (put_conn i (Handshaking init) (c\<lparr>outbuf := sent\<rparr>) s)" for sent
    using inv_conn[OF inv i] by (intro put) (simp add: conn_inv_def)
  obtain sent out where h: "handshake N init (inbuf c) (ended c) = (sent, out)" by (metis surj_pair)
  show ?thesis
  proof (cases out)
    case (HsDone rs cs rest)
    define c1 where "c1 = c\<lparr>outbuf := sent, inbuf := rest, remote_static := Some rs, ciphers := Some cs\<rparr>"
    have "remote_static c1 \<noteq> None" "peer c1 = peer c" by (simp_all add: c1_def)
    note dn = handshake_done_inv[OF inv i this]
    have "handshake_step N i init c s =
       (if init \<and> conn_did c1 \<noteq> [] \<and> conn_did c1 \<noteq> ''unknown'' \<and> \<not> verify_claimed_did N c1 (conn_did c1)
        then put_conn i Finished (conn_close c1) s
        else let s1 = put_conn i Receiving c1 s
             in if init \<and> conn_did c1 \<noteq> [] then s1\<lparr>table := dset (conn_did c1) i (table s1)\<rparr> else s1)"
      using h HsDone by (simp add: handshake_step_def Let_def c1_def)
    then show ?thesis using fin[of c1] dn by (simp del: put_fields)
  qed (use h fin pend in \<open>simp_all add: handshake_step_def\<close>)
qed

text \<open>Changes of buffers and flags keep what was established.\<close>

lemma same_identity_inv:
  assumes "server_inv N s" and "i < length (conns s) \<Longrightarrow> conns s ! i = (ph, c0)"
    and "remote_static c = remote_static c0" "peer c = peer c0"
  shows "server_inv N (put_conn i ph c s)"
proof (cases "i < length (conns s)")
  case True
  with assms have at: "conns s ! i = (ph, c0)" by simp
  have "stable (conns s ! i) ph c" using assms(3,4) by (cases ph) (simp_all add: at stable_def)
  moreover have "conn_inv N ph c"
    using inv_conn[OF assms(1) True at] assms(3,4) by (simp add: conn_inv_def backed_def)
  ultimately show ?thesis by (rule put_inv[OF assms(1)])
next
  case False
  then have "put_conn i ph c s = s" by (simp add: put_conn_def list_update_beyond)
  with assms(1) show ?thesis by simp
qed

lemma upd_conn_inv:
  "server_inv N s \<Longrightarrow> (\<And>c. remote_static (f c) = remote_static c \<and> peer (f c) = peer c) \<Longrightarrow>
     server_inv N (upd_conn i f s)"
  by (cases "conns s ! i") (auto simp: upd_conn_def intro: same_identity_inv)

lemma send_on_inv: "server_inv N s \<Longrightarrow> server_inv N (fst (send_on L N i m s))"
  using conn_send_keeps[of L N "snd (conns s ! i)" m]
  by (cases "conns s ! i"; cases "conn_send L N (snd (conns s ! i)) m")
    (auto simp: send_on_def intro: same_identity_inv)

lemma broadcast_loop_inv: "server_inv N s \<Longrightarrow> server_inv N (broadcast_loop L N ds m s)"
proof (induction ds arbitrary: m s)
  case (Cons x ds)
  obtain d i where x: "x = (d, i)" by (cases x)
  obtain s1 m1 r where r: "send_on L N i m s = (s1, m1, r)" by (metis prod_cases3)
  with send_on_inv[OF Cons.prems, of L i m] have "server_inv N s1" by simp
  with Cons.IH r x show ?case by (cases r) (simp_all add: inv_table_pop)
qed simp

lemma close_inv: "server_inv N s \<Longrightarrow> server_inv N (close_at i s)"
  by (cases "conns s ! i") (auto simp: close_at_def conn_close_def intro: same_identity_inv)

lemma fold_close_inv: "server_inv N s \<Longrightarrow> server_inv N (fold close_at ks s)"
  by (induction ks arbitrary: s) (simp_all add: close_inv)

lemma stop_inv: "server_inv N s \<Longrightarrow> server_inv N (server_stop s)"
  using fold_close_inv[of N s "map snd (table s)"]
  by (auto simp: server_stop_def server_inv_def speaks_def)

lemma open_inv:
  assumes "server_inv N s" and "outbound \<or> anonymous (pi_did p)"
  shows "server_inv N (open_conn outbound p s)"
proof -
  have "speaks N (s\<lparr>conns := conns s @ [x]\<rparr>) i d" if "speaks N s i d" for i d x
    using that by (simp add: speaks_def nth_append)
  with assms show ?thesis
    by (fastforce simp: open_conn_def Let_def server_inv_def conn_inv_def new_conn_def)
qed

lemma server_step_inv: "server_inv N s \<Longrightarrow> server_inv N (server_step L N e s)"
proof (cases e)
  case (Progress i now uid)
  assume "server_inv N s"
  then show ?thesis
    using Progress receive_inv[of N s i] handshake_inv[of N s i]
    by (auto split: prod.split phase.split)
qed (auto simp: upd_conn_inv send_on_inv broadcast_def broadcast_loop_inv stop_inv
       intro!: open_inv simp: inbound_peer_def anonymous_def)

lemma server_reach_inv: "server_reach L N True s \<Longrightarrow> server_inv N s"
  by (induction rule: server_reach.induct)
    (simp_all add: server_step_inv, simp add: server_init_def server_inv_def)

lemma speaks_authenticated:
  assumes "speaks N s i d" and "\<not> anonymous d"
  shows "conn_did (snd (conns s ! i)) = d
     \<and> (\<exists>rs pk. remote_static (snd (conns s ! i)) = Some rs \<and> did_to_public_key d = Inr pk \<and> to_x25519 N pk = Inr rs)"
  using assms
  by (auto simp: speaks_def backed_def did_matches_static_def bindE_eq_Inr_iff split: option.splits sum.splits)

subsection \<open>Properties\<close>

text \<open>A run for the witnesses: an inbound peer shakes hands, then sends one encrypted message.\<close>

definition demo_events :: "net_event list" where
  "demo_events =
     [Register ''t'', Accept ''h'' 1 0, Deliver 0 ([0, 0, 0, 1, 0] @ [0, 0, 0, 1, 0]), Progress 0 0 ''u'',
      Deliver 0 ([0, 0, 0, 18, 1] @ replicate 17 0), Progress 0 0 ''u'']"

definition demo_server :: "unit server" where
  "demo_server = fold (server_step demo_net demo_noise) demo_events (server_init True)"

lemma fold_reach: "server_reach L N key s \<Longrightarrow> server_reach L N key (fold (server_step L N) es s)"
  by (induction es arbitrary: s) (simp_all add: server_reach.step)

lemma demo_server_reach: "server_reach demo_net demo_noise True demo_server"
  unfolding demo_server_def by (rule fold_reach[OF server_reach.start])

lemma to_bytes_be_numeral:
  "to_bytes_be (numeral k) n = to_bytes_be (pred_numeral k) (n div 256) @ [of_nat (n mod 256)]"
  by (simp only: numeral_eq_Suc[of k] to_bytes_be.simps)

lemma demo_numbers:
  "unpack_u32 [0, 0, 0, 1] = 1" "unpack_u32 [0, 0, 0, 18] = 18" "pack_u32 (Suc 0) = Inr [0, 0, 0, 1]"
proof -
  have "to_bytes_be 4 1 = [0, 0, 0, 1]" by (simp add: to_bytes_be_numeral)
  then show "pack_u32 (Suc 0) = Inr [0, 0, 0, 1]" by (simp add: pack_u32_def)
qed (simp_all add: unpack_u32_def int_from_bytes_def)

lemma demo_recv_hs:
  "recv_hs ([0, 0, 0, 1, 0] @ r) False = HsGot [] r" "recv_hs [] False = HsWaiting"
  by (simp_all add: recv_hs_def readexactly_def demo_numbers HANDSHAKE_BYTE_def)

lemma demo_handshake:
  "handshake demo_noise False ([0, 0, 0, 1, 0] @ [0, 0, 0, 1, 0]) False
     = ([0, 0, 0, 1, 0], HsDone (replicate 32 1) ((), ()) [])"
  using demo_recv_hs(1)[of "[]"]
  by (simp add: handshake_def handshake_responder_def demo_recv_hs(1)[simplified]
      HANDSHAKE_BYTE_def demo_noise_def hs_send_def hs_frame_def hs_finish_def demo_numbers)

definition demo_bound :: "unit conn" where
  "demo_bound = (new_conn (inbound_peer ''h'' 1 0))
     \<lparr>inbuf := [0, 0, 0, 18, 1] @ replicate 17 0, outbuf := [0, 0, 0, 1, 0],
      remote_static := Some (replicate 32 1), ciphers := Some ((), ())\<rparr>"

lemma demo_recv:
  "conn_recv demo_net demo_noise 0 ''u'' demo_bound = (demo_bound\<lparr>inbuf := []\<rparr>, RecvMessage demo_message)"
proof -
  have "aries_from_cbor demo_net 0 ''u'' [0] = Inr demo_message"
    using aries_roundtrip[OF demo_net_ok, of 0 "''u''"] by (simp add: demo_message_cbor)
  then show ?thesis
    by (simp add: conn_recv_def demo_bound_def new_conn_def readexactly_def demo_numbers
        MAX_MESSAGE_SIZE_def APP_BYTE_def demo_noise_def take_Cons' drop_Cons')
qed

lemma demo_claim:
  "remote_static c = Some (replicate 32 1) \<Longrightarrow> verify_claimed_did demo_noise c (demo_did True)"
  using did_of_key[of "replicate 32 1"]
  by (simp add: verify_claimed_did_def did_matches_static_def demo_did_def demo_noise_def)

lemma demo_server_eq:
  "handled demo_server = [(0, demo_message)] \<and> table demo_server = [(demo_did True, 0)]"
proof -
  let ?S = "server_step demo_net demo_noise"
  let ?c = "new_conn (inbound_peer ''h'' 1 0) :: unit conn"
  have 1: "fold ?S (take 3 demo_events) (server_init True) = (server_init True)
      \<lparr>handler_types := [''t''], conns := [(Handshaking False, ?c\<lparr>inbuf := [0, 0, 0, 1, 0] @ [0, 0, 0, 1, 0]\<rparr>)]\<rparr>"
    by (simp add: demo_events_def server_init_def open_conn_def upd_conn_def put_conn_def new_conn_def)
  have 2: "?S (Progress 0 0 ''u'') \<dots> = (server_init True)
      \<lparr>handler_types := [''t''], conns := [(Receiving, demo_bound\<lparr>inbuf := []\<rparr>)]\<rparr>"
    using demo_handshake
    by (simp add: handshake_step_def server_init_def put_conn_def new_conn_def demo_bound_def)
  have 3: "?S (Deliver 0 ([0, 0, 0, 18, 1] @ replicate 17 0)) \<dots> = (server_init True)
      \<lparr>handler_types := [''t''], conns := [(Receiving, demo_bound)]\<rparr>"
    by (simp add: server_init_def upd_conn_def put_conn_def demo_bound_def new_conn_def)
  have "am_sender demo_message \<noteq> []" "am_sender demo_message = demo_did True" "am_type demo_message = ''t''"
    by (simp_all add: demo_message_def demo_did_def DID_PREFIX_def)
  moreover have "verify_claimed_did demo_noise (demo_bound\<lparr>inbuf := []\<rparr>) (demo_did True)"
    by (rule demo_claim) (simp add: demo_bound_def)
  moreover have "is_open demo_bound" "conn_did (demo_bound\<lparr>inbuf := []\<rparr>) = ''unknown''"
    by (simp_all add: demo_bound_def new_conn_def inbound_peer_def)
  ultimately have "?S (Progress 0 0 ''u'') ((server_init True)
      \<lparr>handler_types := [''t''], conns := [(Receiving, demo_bound)]\<rparr>) = (server_init True)
      \<lparr>handler_types := [''t''], conns := [(Receiving, set_did (demo_did True) (demo_bound\<lparr>inbuf := []\<rparr>))],
       table := [(demo_did True, 0)], handled := [(0, demo_message)]\<rparr>"
    using demo_recv
    by (simp add: receive_step_def take_message_def put_conn_def server_init_def dispatch_def)
  moreover have "demo_server = ?S (Progress 0 0 ''u'') (?S (Deliver 0 ([0, 0, 0, 18, 1] @ replicate 17 0))
      (?S (Progress 0 0 ''u'') (fold ?S (take 3 demo_events) (server_init True))))"
    by (simp add: demo_server_def demo_events_def)
  ultimately have "demo_server = (server_init True)
      \<lparr>handler_types := [''t''], conns := [(Receiving, set_did (demo_did True) (demo_bound\<lparr>inbuf := []\<rparr>))],
       table := [(demo_did True, 0)], handled := [(0, demo_message)]\<rparr>"
    unfolding 1 2 3 by metis
  then show ?thesis by (metis (no_types, lifting) server.select_convs(3,5) server.surjective server.update_convs(3,5))
qed

text \<open>
  C5: a message handed to a handler of a server with a device key never names a sender the
  handshake did not prove: whatever the network delivers, in any interleaving of connections,
  sends, failures and restarts, the DID it names is the one DID of its connection, and the static
  key that connection authenticated is the curve form of that DID's key.
\<close>

theorem dispatched_sender_is_authenticated:
  assumes "server_reach L N True s" and "(i, m) \<in> set (handled s)" and "am_sender m \<noteq> []"
  shows "conn_did (snd (conns s ! i)) = am_sender m
     \<and> (\<exists>rs pk. remote_static (snd (conns s ! i)) = Some rs
          \<and> did_to_public_key (am_sender m) = Inr pk \<and> to_x25519 N pk = Inr rs)"
proof (rule speaks_authenticated)
  show "speaks N s i (am_sender m)" and "\<not> anonymous (am_sender m)"
    using server_reach_inv[OF assms(1)] assms(2,3) by (auto simp: server_inv_def anonymous_def)
qed

theorem dispatched_sender_is_authenticated_witness:
  "conn_did (snd (conns demo_server ! 0)) = demo_did True
   \<and> (\<exists>rs pk. remote_static (snd (conns demo_server ! 0)) = Some rs
        \<and> did_to_public_key (demo_did True) = Inr pk \<and> to_x25519 demo_noise pk = Inr rs)"
  using dispatched_sender_is_authenticated[OF demo_server_reach, of 0 demo_message] demo_server_eq
  by (simp add: demo_message_def demo_did_def DID_PREFIX_def)

text \<open>
  The connection that the table gives for a DID, over which hand-offs to that device are
  sent, is one whose handshake proved that DID.
\<close>

theorem peer_table_is_authenticated:
  assumes "server_reach L N True s" and "get_peer d s = Some i" and "\<not> anonymous d"
  shows "conn_did (snd (conns s ! i)) = d
     \<and> (\<exists>rs pk. remote_static (snd (conns s ! i)) = Some rs \<and> did_to_public_key d = Inr pk \<and> to_x25519 N pk = Inr rs)"
proof (rule speaks_authenticated)
  have "(d, i) \<in> set (table s)" using assms(2) by (simp add: get_peer_def dget_Some_mem)
  then show "speaks N s i d" using server_reach_inv[OF assms(1)] by (auto simp: server_inv_def)
qed (rule assms(3))

theorem peer_table_is_authenticated_witness:
  "conn_did (snd (conns demo_server ! 0)) = demo_did True"
  using peer_table_is_authenticated[OF demo_server_reach, of "demo_did True" 0] demo_server_eq
  by (simp add: get_peer_def anonymous_def demo_did_def DID_PREFIX_def)

text \<open>
  A peer that was connected by address (its DID not known yet, so it was entered as
  \<open>unknown\<close>) is in the table twice once its first message binds its DID: it receives every
  broadcast twice, and when its connection ends the entry \<open>unknown\<close> stays.
\<close>

theorem peer_by_address_is_listed_twice:
  assumes "get_peer ''unknown'' s = Some i" and "i < length (conns s)" and "conns s ! i = (Receiving, c)"
    and "conn_did c = ''unknown''" and "am_sender m \<notin> {[], ''unknown''}"
    and "verify_claimed_did N c (am_sender m)"
  shows "get_peer ''unknown'' (take_message N i c m s) = Some i
     \<and> get_peer (am_sender m) (take_message N i c m s) = Some i
     \<and> get_peer ''unknown'' (finish_loop i (set_did (am_sender m) c) (take_message N i c m s)) = Some i"
  using assms
  by (auto simp: take_message_def get_peer_def dispatch_def Let_def finish_loop_def set_did_def conn_close_def)

definition demo_manual :: "unit server" where
  "demo_manual = (server_init True)\<lparr>conns := [(Receiving, demo_bound)], table := [(''unknown'', 0)]\<rparr>"

theorem peer_by_address_is_listed_twice_witness:
  "get_peer ''unknown'' (take_message demo_noise 0 demo_bound demo_message demo_manual) = Some 0
   \<and> get_peer (demo_did True) (take_message demo_noise 0 demo_bound demo_message demo_manual) = Some 0"
  using peer_by_address_is_listed_twice[of demo_manual 0 demo_bound demo_message demo_noise]
    demo_claim[of demo_bound]
  by (simp add: demo_manual_def demo_message_def get_peer_def demo_bound_def new_conn_def inbound_peer_def
      demo_did_def DID_PREFIX_def)


text \<open>Messages the cipher refuses.\<close>

definition oversized :: "('k, 'z) wire_lib_scheme \<Rightarrow> ('h, 'c, 'y) noise_scheme \<Rightarrow> aries_message \<Rightarrow> bool" where
  "oversized L N m \<longleftrightarrow> (\<forall>q tx. \<exists>e. c_encrypt N tx (aries_to_cbor L (m\<lparr>am_seq := q\<rparr>)) = Inl e)"

lemma oversized_send:
  assumes "oversized L N m" and "ciphers c \<noteq> None"
  obtains c' m' e where "conn_send L N c m = (c', m', Inl e)" "oversized L N m'" "is_open c' = is_open c"
    "ciphers c' = ciphers c" "outbuf c' = outbuf c"
proof (cases "is_open c")
  case True
  obtain tx rx where cs: "ciphers c = Some (tx, rx)" using assms(2) by auto
  obtain e where "c_encrypt N tx (aries_to_cbor L (m\<lparr>am_seq := conn_seq c + 1\<rparr>)) = Inl e"
    using assms(1) unfolding oversized_def by blast
  with True cs have "conn_send L N c m = (c\<lparr>conn_seq := conn_seq c + 1\<rparr>, m\<lparr>am_seq := conn_seq c + 1\<rparr>, Inl e)"
    by (simp add: conn_send_def)
  moreover have "oversized L N (m\<lparr>am_seq := conn_seq c + 1\<rparr>)" using assms(1) by (simp add: oversized_def)
  ultimately show thesis by (rule that) simp_all
next
  case False
  then have "conn_send L N c m = (c, m, Inl (ConnectionError ''Peer connection closed''))" by (simp add: conn_send_def)
  then show thesis using assms(1) by (rule that) simp_all
qed

definition encrypted_table :: "'c server \<Rightarrow> (did \<times> nat) list \<Rightarrow> bool" where
  "encrypted_table s ds \<longleftrightarrow> (\<forall>(d, i) \<in> set ds. i < length (conns s) \<and> ciphers (snd (conns s ! i)) \<noteq> None)"

definition untouched :: "'c server \<Rightarrow> 'c server \<Rightarrow> bool" where
  "untouched s s' \<longleftrightarrow> length (conns s') = length (conns s)
     \<and> (\<forall>i < length (conns s). is_open (snd (conns s' ! i)) = is_open (snd (conns s ! i))
          \<and> outbuf (snd (conns s' ! i)) = outbuf (snd (conns s ! i))
          \<and> ciphers (snd (conns s' ! i)) = ciphers (snd (conns s ! i)))"

lemma broadcast_loop_oversized:
  assumes "oversized L N m" and "encrypted_table s ds"
  shows "table (broadcast_loop L N ds m s) = filter (\<lambda>p. fst p \<notin> fst ` set ds) (table s)
     \<and> untouched s (broadcast_loop L N ds m s)"
  using assms
proof (induction ds arbitrary: m s)
  case Nil
  show ?case by (simp add: untouched_def)
next
  case (Cons x ds)
  obtain d i where x: "x = (d, i)" by (cases x)
  obtain ph c where c: "conns s ! i = (ph, c)" by (cases "conns s ! i")
  have i: "i < length (conns s)" "ciphers c \<noteq> None" using Cons.prems(2) c by (auto simp: x encrypted_table_def)
  obtain c' m' e where send: "conn_send L N c m = (c', m', Inl e)" "oversized L N m'" "is_open c' = is_open c"
    "ciphers c' = ciphers c" "outbuf c' = outbuf c" using oversized_send[OF Cons.prems(1) i(2)] by blast
  let ?s1 = "(put_conn i ph c' s)\<lparr>table := dpop d (table s)\<rparr>"
  have u: "untouched s ?s1" using c send i(1) by (auto simp: untouched_def put_conn_def nth_list_update)
  have step: "broadcast_loop L N (x # ds) m s = broadcast_loop L N ds m' ?s1"
    using send(1) by (simp add: x send_on_def c)
  have "encrypted_table ?s1 ds" using Cons.prems(2) u by (auto simp: encrypted_table_def untouched_def x)
  from Cons.IH[OF send(2) this] u show ?case
    unfolding step by (auto simp: untouched_def x AList.delete_eq intro!: filter_cong)
qed

text \<open>
  One message that is too long for the cipher empties the peer table: when the encryption of
  the message raises, whatever its sequence number, a broadcast removes every peer, although
  each connection stays open and nothing was sent on it.
\<close>

theorem oversized_broadcast_drops_peers:
  assumes "\<forall>tx data. 65519 < length data \<longrightarrow> (\<exists>e. c_encrypt N tx data = Inl e)"
    and "\<forall>q. 65519 < length (aries_to_cbor L (m\<lparr>am_seq := q\<rparr>))"
    and "\<forall>(d, i) \<in> set (table s). i < length (conns s) \<and> ciphers (snd (conns s ! i)) \<noteq> None"
  shows "table (broadcast L N m s) = []
     \<and> (\<forall>i < length (conns s). is_open (snd (conns (broadcast L N m s) ! i)) = is_open (snd (conns s ! i))
          \<and> outbuf (snd (conns (broadcast L N m s) ! i)) = outbuf (snd (conns s ! i)))"
proof -
  have "oversized L N m" using assms(1,2) by (simp add: oversized_def)
  moreover have "encrypted_table s (table s)" using assms(3) by (simp add: encrypted_table_def)
  ultimately show ?thesis
    using broadcast_loop_oversized[of L N m s "table s"] by (auto simp: broadcast_def untouched_def filter_empty_conv)
qed

text \<open>For the witness: a cipher with the size limit of Noise, and messages of 70000 bytes.\<close>

definition demo_capped :: "(nat, unit) noise" where
  "demo_capped = demo_noise\<lparr>c_encrypt := \<lambda>c p. if 65519 < length p then Inl (LibError ''NoiseInvalidMessage'')
     else Inr (p @ replicate 16 0, ())\<rparr>"

definition demo_linked :: "unit server" where
  "demo_linked = (server_init True)\<lparr>conns := [(Receiving, demo_bound)], table := [(demo_did True, 0)]\<rparr>"

theorem oversized_broadcast_drops_peers_witness:
  "table demo_linked = [(demo_did True, 0)] \<and> is_open (snd (conns demo_linked ! 0))
     \<and> table (broadcast (demo_net\<lparr>cbor_dumps := \<lambda>v. replicate 70000 0\<rparr>) demo_capped demo_message demo_linked) = []"
proof -
  have "is_open demo_bound" "ciphers demo_bound = Some ((), ())" by (simp_all add: demo_bound_def new_conn_def)
  then show ?thesis
    using oversized_broadcast_drops_peers[of demo_capped "demo_net\<lparr>cbor_dumps := \<lambda>v. replicate 70000 0\<rparr>" demo_message demo_linked]
    by (simp add: demo_linked_def demo_capped_def aries_to_cbor_def)
qed

end
