(* ===== verification/Shamir.thy ===== *)
theory Shamir
  imports Prelude
begin

text \<open>
  The secret sharing of \<^verbatim>\<open>identity/keys.py\<close>: arithmetic of GF(256) by exponent and logarithm
  tables, splitting with random polynomials, and reconstruction by Lagrange interpolation. A
  byte is an int of 0..255, as in the code. The lemmas show that the tables compute a field
  (the type \<open>gf\<close> is made an instance of the library's class), that interpolation recovers
  the constant term over any field, and so that any k shares give back the secret.
\<close>

unbundle bit_operations_syntax

subsection \<open>Tables\<close>

text \<open>Multiplying by the generator 3: doubling, reduced by 0x11B, plus the value itself.\<close>

definition gf_step :: "int \<Rightarrow> int" where
  "gf_step x =
     (let b = push_bit 1 x;
          b' = (if b AND 0x100 \<noteq> 0 then b XOR 0x11B else b)
      in b' XOR x)"

fun init_loop :: "nat \<Rightarrow> nat \<Rightarrow> int \<Rightarrow> int list \<times> nat list \<Rightarrow> int list \<times> nat list" where
  "init_loop 0 i x t = t"
| "init_loop (Suc n) i x t = init_loop n (Suc i) (gf_step x) ((fst t)[i := x], (snd t)[nat x := i])"

fun extend_loop :: "nat \<Rightarrow> nat \<Rightarrow> int list \<Rightarrow> int list" where
  "extend_loop 0 i e = e"
| "extend_loop (Suc n) i e = extend_loop n (Suc i) (e[i := e ! (i - 255)])"

definition gf256_tables :: "int list \<times> nat list" where
  "gf256_tables =
     (let (e, l) = init_loop 255 0 1 (replicate 512 0, replicate 256 0)
      in (extend_loop (512 - 255) 255 e, l))"

definition GF256_EXP :: "int list" where "GF256_EXP = fst gf256_tables"
definition GF256_LOG :: "nat list" where "GF256_LOG = snd gf256_tables"

definition gf256_mul :: "int \<Rightarrow> int \<Rightarrow> int" where
  "gf256_mul a b = (if a = 0 \<or> b = 0 then 0 else GF256_EXP ! (GF256_LOG ! nat a + GF256_LOG ! nat b))"

definition gf256_inv :: "int \<Rightarrow> int result" where
  "gf256_inv a =
     (if a = 0 then Inl (ZeroDivisionError ''GF(256) inverse of 0 is undefined'')
      else Inr (GF256_EXP ! (255 - GF256_LOG ! nat a)))"

subsection \<open>Splitting and reconstructing\<close>

type_synonym share = "int list"

text \<open>\<open>for c in reversed(coeffs): y = mul(y, x) ^ c\<close>\<close>

definition eval_poly :: "int list \<Rightarrow> int \<Rightarrow> int" where
  "eval_poly coeffs x = foldl (\<lambda>y c. gf256_mul y x XOR c) 0 (rev coeffs)"

text \<open>
  \<open>rnd pos j\<close> is the random coefficient j (from 1) of the polynomial of byte \<open>pos\<close>. The loop
  over the bytes appends one value to every share.
\<close>

definition byte_coeffs :: "(nat \<Rightarrow> nat \<Rightarrow> int) \<Rightarrow> nat \<Rightarrow> nat \<Rightarrow> int \<Rightarrow> int list" where
  "byte_coeffs rnd k pos byte = byte # map (rnd pos) [1..<k]"

fun split_loop :: "(nat \<Rightarrow> nat \<Rightarrow> int) \<Rightarrow> nat \<Rightarrow> nat \<Rightarrow> int list \<Rightarrow> share list \<Rightarrow> share list" where
  "split_loop rnd k pos [] shares = shares"
| "split_loop rnd k pos (byte # bs) shares =
     split_loop rnd k (Suc pos) bs
       (map (\<lambda>(i, s). s @ [eval_poly (byte_coeffs rnd k pos byte) (int i + 1)]) (enumerate 0 shares))"

definition shamir_split :: "(nat \<Rightarrow> nat \<Rightarrow> int) \<Rightarrow> int list \<Rightarrow> nat \<Rightarrow> nat \<Rightarrow> share list result" where
  "shamir_split rnd secret n k =
     (if k < 2 \<or> n < k then Inl (ValueError ''Require 2 <= k <= n'')
      else if n > 255 then Inl (ValueError ''Maximum 255 shares'')
      else Inr (split_loop rnd k 0 secret (map (\<lambda>i. [int i + 1]) [0..<n])))"

text \<open>The basis value of share i: the product over the other x-coordinates.\<close>

fun basis_loop :: "int \<Rightarrow> nat \<Rightarrow> (nat \<times> int) list \<Rightarrow> int \<Rightarrow> int result" where
  "basis_loop xi i [] basis = Inr basis"
| "basis_loop xi i ((j, xj) # rest) basis =
     (if i = j then basis_loop xi i rest basis
      else bindE (gf256_inv (xi XOR xj)) (\<lambda>d. basis_loop xi i rest (gf256_mul basis (gf256_mul xj d))))"

fun byte_loop :: "int list \<Rightarrow> nat \<Rightarrow> (nat \<times> share) list \<Rightarrow> int \<Rightarrow> int result" where
  "byte_loop xs pos [] val = Inr val"
| "byte_loop xs pos ((i, s) # rest) val =
     bindE (basis_loop (xs ! i) i (enumerate 0 xs) 1) (\<lambda>basis.
       byte_loop xs pos rest (val XOR gf256_mul (s ! (pos + 1)) basis))"

text \<open>\<open>s[0]\<close> raises on an empty share.\<close>

definition shamir_reconstruct :: "share list \<Rightarrow> int list result" where
  "shamir_reconstruct shares =
     bindE (raise_if (length shares < 2) (ValueError ''Need at least 2 shares to reconstruct'')) (\<lambda>_.
     bindE (raise_if (list_ex (\<lambda>s. s = []) shares) (IndexError ''index out of range'')) (\<lambda>_.
     bindE (raise_if (card (set (map hd shares)) \<noteq> length shares)
              (ValueError ''Duplicate x-coordinates in shares'')) (\<lambda>_.
     let xs = map hd shares; secret_len = length (hd shares) - 1
     in bindE (raise_if (list_ex (\<lambda>s. length s - 1 \<noteq> secret_len) (tl shares))
                (ValueError ''Shares have inconsistent length'')) (\<lambda>_.
        mapE (\<lambda>pos. byte_loop xs pos (enumerate 0 shares) 0) [0..<secret_len]))))"

subsection \<open>The powers of the generator\<close>

definition gpow :: "nat \<Rightarrow> int" where
  "gpow i = (gf_step ^^ i) 1"

fun orbit :: "nat \<Rightarrow> int \<Rightarrow> int list" where
  "orbit 0 x = []"
| "orbit (Suc n) x = x # orbit n (gf_step x)"

lemma orbit_numeral: "orbit (numeral n) x = x # orbit (pred_numeral n) (gf_step x)"
  by (simp add: numeral_eq_Suc)

lemma gf_step_eq: "gf_step x = (let b = x * 2; b' = (if b AND 0x100 \<noteq> 0 then b XOR 0x11B else b) in b' XOR x)"
  by (simp add: gf_step_def push_bit_eq_mult)

lemma orbit_nth: "i < n \<Longrightarrow> orbit n x ! i = (gf_step ^^ i) x"
  by (induction n x arbitrary: i rule: orbit.induct) (auto simp: nth_Cons funpow_swap1 split: nat.split)

lemma length_orbit [simp]: "length (orbit n x) = n"
  by (induction n x rule: orbit.induct) simp_all

lemma orbit_256: "last (orbit 256 1) = 1"
  by (simp add: gf_step_eq orbit_numeral)

lemma orbit_distinct: "distinct (orbit 255 1)"
  by (simp add: gf_step_eq orbit_numeral)

lemma orbit_bytes: "list_all (\<lambda>x. 1 \<le> x \<and> x < 256) (orbit 255 1)"
  by (simp add: gf_step_eq orbit_numeral)

lemma gpow_255: "gpow 255 = 1"
proof -
  have "orbit 256 1 \<noteq> []" using length_orbit[of 256 1] by (metis length_0_conv zero_neq_numeral)
  then show ?thesis
    using orbit_256 orbit_nth[of 255 256 1] last_conv_nth[of "orbit 256 1"] by (simp add: gpow_def)
qed

lemma gpow_Suc: "gpow (Suc i) = gf_step (gpow i)"
  by (simp add: gpow_def)

lemma gpow_add: "(gf_step ^^ i) (gpow j) = gpow (i + j)"
  by (simp add: gpow_def funpow_add)

lemma gpow_period: "gpow (i + 255) = gpow i"
  using gpow_add[of i 255] gpow_255 by (simp add: gpow_def)

lemma gpow_mod: "gpow (i mod 255) = gpow i"
proof (induction i rule: less_induct)
  case (less i)
  show ?case
  proof (cases "i < 255")
    case False
    then have "gpow (i mod 255) = gpow (i - 255)" using less[of "i - 255"] by (simp add: le_mod_geq)
    also have "\<dots> = gpow i" using gpow_period[of "i - 255"] False by simp
    finally show ?thesis .
  qed simp
qed

lemma gpow_inj: "i < 255 \<Longrightarrow> j < 255 \<Longrightarrow> gpow i = gpow j \<Longrightarrow> i = j"
  using nth_eq_iff_index_eq[OF orbit_distinct, of i j] by (simp add: orbit_nth gpow_def)

lemma gpow_range: "1 \<le> gpow i \<and> gpow i < 256"
proof -
  have "orbit 255 1 ! (i mod 255) \<in> set (orbit 255 1)" by simp
  then show ?thesis
    using orbit_bytes orbit_nth[of "i mod 255" 255 1] gpow_mod[of i] by (auto simp: list_all_iff gpow_def)
qed

lemma gpow_surj:
  assumes "1 \<le> a" "a < 256"
  shows "\<exists>i < 255. gpow i = a"
proof -
  have "set (orbit 255 1) \<subseteq> {1..<256}" using orbit_bytes by (auto simp: list_all_iff)
  moreover have "card (set (orbit 255 1)) = card {1..<256::int}"
    using distinct_card[OF orbit_distinct] by simp
  ultimately have "set (orbit 255 1) = {1..<256}" by (intro card_subset_eq) auto
  then have "a \<in> set (orbit 255 1)" using assms by simp
  then show ?thesis by (auto simp: in_set_conv_nth orbit_nth gpow_def)
qed


subsection \<open>The tables hold the powers and their logarithms\<close>

lemma init_loop_exp:
  "i + n \<le> length (fst t) \<Longrightarrow>
   length (fst (init_loop n i x t)) = length (fst t) \<and>
   (\<forall>j. fst (init_loop n i x t) ! j = (if i \<le> j \<and> j < i + n then (gf_step ^^ (j - i)) x else fst t ! j))"
proof (induction n i x t rule: init_loop.induct)
  case (2 n i x t)
  then have len: "i < length (fst t)" by simp
  show ?case
  proof (intro conjI allI)
    fix j
    have "j - i = Suc (j - Suc i)" if "Suc i \<le> j" using that by simp
    then show "fst (init_loop (Suc n) i x t) ! j = (if i \<le> j \<and> j < i + Suc n then (gf_step ^^ (j - i)) x else fst t ! j)"
      using 2 len by (auto simp: nth_list_update funpow_swap1 not_le le_eq_less_or_eq simp del: funpow.simps(2))
        (auto simp: funpow_swap1)
  qed (use 2 in simp)
qed simp

lemma init_loop_log_keeps:
  "a < 256 \<Longrightarrow> 0 \<le> a \<Longrightarrow> a \<notin> set (orbit n x) \<Longrightarrow> list_all (\<lambda>y. 0 \<le> y) (orbit n x) \<Longrightarrow>
   snd (init_loop n i x t) ! nat a = snd t ! nat a"
  by (induction n i x t rule: init_loop.induct) (auto simp: nth_list_update)

lemma init_loop_log_length: "length (snd (init_loop n i x t)) = length (snd t)"
  by (induction n i x t rule: init_loop.induct) auto

lemma init_loop_log:
  "distinct (orbit n x) \<Longrightarrow> list_all (\<lambda>y. 0 \<le> y \<and> y < 256) (orbit n x) \<Longrightarrow> length (snd t) = 256 \<Longrightarrow> m < n \<Longrightarrow>
   snd (init_loop n i x t) ! nat (orbit n x ! m) = i + m"
proof (induction n i x t arbitrary: m rule: init_loop.induct)
  case (2 n i x t)
  let ?t = "((fst t)[i := x], (snd t)[nat x := i])"
  show ?case
  proof (cases m)
    case 0
    have "snd (init_loop n (Suc i) (gf_step x) ?t) ! nat x = snd ?t ! nat x"
      using 2(2,3) by (intro init_loop_log_keeps) (auto simp: list_all_iff)
    also have "\<dots> = i"
    proof -
      have "nat x < 256" using 2(3) by auto
      then show ?thesis using 2(4) by simp
    qed
    finally show ?thesis using 0 by simp
  next
    case (Suc k)
    with 2 show ?thesis by (simp add: list_all_iff)
  qed
qed simp

lemma extend_loop_nth:
  "i + n \<le> length e \<Longrightarrow> 255 \<le> i \<Longrightarrow> (\<forall>j < i. e ! j = gpow j) \<Longrightarrow> \<forall>j < i + n. extend_loop n i e ! j = gpow j"
proof (induction n i e rule: extend_loop.induct)
  case (2 n i e)
  have "e ! (i - 255) = gpow i" using 2(3,4) gpow_period[of "i - 255"] by simp
  then have "\<forall>j < Suc i. e[i := e ! (i - 255)] ! j = gpow j"
    using 2(2,4) by (auto simp: nth_list_update less_Suc_eq)
  with 2(1)[OF _ _ this] 2(2,3) show ?case by simp
qed simp

lemma exp_nth: "j < 512 \<Longrightarrow> GF256_EXP ! j = gpow j"
proof -
  assume j: "j < 512"
  let ?t = "init_loop 255 0 1 (replicate 512 0, replicate 256 0)"
  have t: "length (fst ?t) = 512" "\<forall>j < 255. fst ?t ! j = gpow j"
    using init_loop_exp[of 0 255 "(replicate 512 0, replicate 256 0)" 1] by (simp_all add: gpow_def)
  have "extend_loop 257 255 (fst ?t) ! j = gpow j"
    using extend_loop_nth[of 255 257 "fst ?t"] t j by simp
  then show ?thesis
    unfolding GF256_EXP_def gf256_tables_def by (simp add: case_prod_unfold Let_def)
qed

lemma log_nth: "i < 255 \<Longrightarrow> GF256_LOG ! nat (gpow i) = i"
proof -
  assume i: "i < 255"
  have "snd (init_loop 255 0 1 (replicate 512 0, replicate 256 0)) ! nat (orbit 255 1 ! i) = 0 + i"
    using orbit_distinct orbit_bytes i by (intro init_loop_log) (auto simp: list_all_iff)
  then show ?thesis
    using i by (simp add: GF256_LOG_def gf256_tables_def case_prod_unfold Let_def orbit_nth gpow_def)
qed

lemma log_gpow: "GF256_LOG ! nat (gpow i) = i mod 255"
  using log_nth[of "i mod 255"] by (simp add: gpow_mod)

lemma gpow_nonzero [simp]: "gpow i \<noteq> 0"
  using gpow_range[of i] by simp

lemma mul_gpow: "gf256_mul (gpow i) (gpow j) = gpow (i + j)"
proof -
  have "i mod 255 + j mod 255 < 255 + 255" by (intro add_strict_mono) simp_all
  then have "i mod 255 + j mod 255 < 512" by simp
  then show ?thesis
    using gpow_mod[of "i mod 255 + j mod 255"] gpow_mod[of "i + j"]
    by (simp add: gf256_mul_def log_gpow exp_nth mod_add_eq)
qed

lemma inv_gpow: "gf256_inv (gpow i) = Inr (gpow (255 - i mod 255))"
  by (simp add: gf256_inv_def log_gpow exp_nth)

subsection \<open>The generator step is linear\<close>

lemma gf_step_xor: "gf_step (x XOR y) = gf_step x XOR gf_step y"
proof -
  define r where "r b = (if bit b 8 then b XOR 0x11B else b)" for b :: int
  have and8: "b AND 0x100 \<noteq> 0 \<longleftrightarrow> bit b 8" for b :: int
    using and_exp_eq_0_iff_not_bit[of b 8] by simp
  have "r (a XOR b) = r a XOR r b" for a b
    by (cases "bit a 8"; cases "bit b 8") (simp_all add: r_def bit_simps ac_simps)
  moreover have "gf_step z = r (push_bit 1 z) XOR z" for z
    by (simp only: gf_step_def r_def Let_def and8)
  ultimately show ?thesis by (simp only: push_bit_xor) (simp only: ac_simps)
qed

lemma gf_step_0 [simp]: "gf_step 0 = 0"
  by (simp add: gf_step_def)

lemma funpow_step_0 [simp]: "(gf_step ^^ i) 0 = 0"
  by (induction i) simp_all

lemma funpow_step_xor: "(gf_step ^^ i) (x XOR y) = (gf_step ^^ i) x XOR (gf_step ^^ i) y"
  by (induction i) (simp_all add: gf_step_xor)

definition is_byte :: "int \<Rightarrow> bool" where
  "is_byte a \<longleftrightarrow> 0 \<le> a \<and> a < 256"

lemma byte_cases: "is_byte a \<Longrightarrow> (a = 0 \<Longrightarrow> P) \<Longrightarrow> (\<And>i. i < 255 \<Longrightarrow> a = gpow i \<Longrightarrow> P) \<Longrightarrow> P"
  using gpow_surj[of a] by (force simp: is_byte_def)

lemma mul_step: "is_byte a \<Longrightarrow> gf256_mul a (gpow j) = (gf_step ^^ j) a"
  by (erule byte_cases) (simp_all add: gf256_mul_def[of 0] mul_gpow gpow_add add.commute)

lemma byte_xor: "is_byte a \<Longrightarrow> is_byte b \<Longrightarrow> is_byte (a XOR b)"
  using XOR_upper[of a 8 b] by (auto simp: is_byte_def)

lemma byte_0 [simp]: "is_byte 0" and byte_1 [simp]: "is_byte 1" and byte_gpow [simp]: "is_byte (gpow i)"
  using gpow_range[of i] by (simp_all add: is_byte_def)

lemma mul_0 [simp]: "gf256_mul 0 a = 0" "gf256_mul a 0 = 0"
  by (simp_all add: gf256_mul_def)

lemma byte_mul: "is_byte a \<Longrightarrow> is_byte b \<Longrightarrow> is_byte (gf256_mul a b)"
  by (elim byte_cases) (simp_all add: mul_gpow)

lemma mul_comm: "is_byte a \<Longrightarrow> is_byte b \<Longrightarrow> gf256_mul a b = gf256_mul b a"
  by (elim byte_cases) (simp_all add: mul_gpow add.commute)

lemma mul_assoc: "is_byte a \<Longrightarrow> is_byte b \<Longrightarrow> is_byte c \<Longrightarrow> gf256_mul (gf256_mul a b) c = gf256_mul a (gf256_mul b c)"
  by (elim byte_cases) (simp_all add: mul_gpow add.assoc)

lemma mul_1: "is_byte a \<Longrightarrow> gf256_mul 1 a = a"
proof -
  have "gpow 0 = 1" by (simp add: gpow_def)
  then show "is_byte a \<Longrightarrow> gf256_mul 1 a = a"
    using mul_gpow[of 0] by (elim byte_cases) simp_all
qed

lemma mul_xor: "is_byte a \<Longrightarrow> is_byte b \<Longrightarrow> is_byte c \<Longrightarrow> gf256_mul (a XOR b) c = gf256_mul a c XOR gf256_mul b c"
  by (erule byte_cases[of c]) (simp_all add: mul_step byte_xor funpow_step_xor)

lemma inv_Inr: "is_byte a \<Longrightarrow> a \<noteq> 0 \<Longrightarrow> \<exists>b. gf256_inv a = Inr b \<and> is_byte b \<and> gf256_mul b a = 1"
proof (erule byte_cases)
  fix i assume i: "i < 255" "a = gpow i"
  have "gf256_mul (gpow (255 - i)) (gpow i) = 1" using i by (simp add: mul_gpow gpow_255)
  then show ?thesis using i by (simp add: inv_gpow)
qed simp


subsection \<open>GF(256) as an instance of the class of fields\<close>

typedef gf = "{a :: int. is_byte a}" morphisms gf_val GF
  by (rule exI[of _ 0]) simp

setup_lifting type_definition_gf

instantiation gf :: field
begin

lift_definition zero_gf :: gf is 0 by simp
lift_definition one_gf :: gf is 1 by simp
lift_definition plus_gf :: "gf \<Rightarrow> gf \<Rightarrow> gf" is "\<lambda>a b. a XOR b" by (rule byte_xor)
lift_definition minus_gf :: "gf \<Rightarrow> gf \<Rightarrow> gf" is "\<lambda>a b. a XOR b" by (rule byte_xor)
lift_definition uminus_gf :: "gf \<Rightarrow> gf" is "\<lambda>a. a" .
lift_definition times_gf :: "gf \<Rightarrow> gf \<Rightarrow> gf" is gf256_mul by (rule byte_mul)
lift_definition inverse_gf :: "gf \<Rightarrow> gf" is "\<lambda>a. case gf256_inv a of Inl _ \<Rightarrow> 0 | Inr b \<Rightarrow> b"
  using inv_Inr by (force simp: gf256_inv_def split: sum.split if_splits)
definition divide_gf :: "gf \<Rightarrow> gf \<Rightarrow> gf" where "divide_gf a b = a * inverse b"

instance
proof
  fix a b c :: gf
  show "a * b * c = a * (b * c)" by transfer (rule mul_assoc)
  show "a * b = b * a" by transfer (rule mul_comm)
  show "1 * a = a" by transfer (rule mul_1)
  show "a + b + c = a + (b + c)" by transfer (simp add: ac_simps)
  show "a + b = b + a" by transfer (simp add: ac_simps)
  show "0 + a = a" by transfer simp
  show "- a + a = 0" by transfer simp
  show "a - b = a + - b" by transfer simp
  show "(a + b) * c = a * c + b * c" by transfer (rule mul_xor)
  show "(0 :: gf) \<noteq> 1" by transfer simp
  show "inverse a * a = 1" if "a \<noteq> 0" using that by transfer (use inv_Inr in fastforce)
  show "a div b = a * inverse b" by (rule divide_gf_def)
  show "inverse (0 :: gf) = 0" by transfer (simp add: gf256_inv_def)
qed

end

subsection \<open>Interpolation over a field\<close>

definition horner :: "'a :: field list \<Rightarrow> 'a \<Rightarrow> 'a" where
  "horner cs x = foldr (\<lambda>c y. y * x + c) cs 0"

lemma horner_simps [simp]: "horner [] x = 0" "horner (c # cs) x = horner cs x * x + c"
  by (simp_all add: horner_def)

lemma horner_pad: "horner (cs @ replicate m 0) x = horner cs x"
proof (induction cs)
  case Nil
  show ?case by (induction m) simp_all
qed simp

lemma horner_divide: "length cs = Suc n \<Longrightarrow> \<exists>ds. length ds = n \<and> (\<forall>x. horner cs x = (x - a) * horner ds x + horner cs a)"
proof (induction n arbitrary: cs)
  case 0
  then obtain c where "cs = [c]" by (cases cs) auto
  then show ?case by simp
next
  case (Suc n)
  then obtain c es where cs: "cs = c # es" "length es = Suc n" by (cases cs) auto
  obtain ds where ds: "length ds = n" "\<forall>x. horner es x = (x - a) * horner ds x + horner es a"
    using Suc.IH[OF cs(2)] by blast
  have "horner cs x = (x - a) * horner (horner es a # ds) x + horner cs a" for x
  proof -
    have "((x - a) * h + e) * x + c = (x - a) * (h * x + e) + (e * a + c)" for h e
      by (simp add: algebra_simps)
    then show ?thesis by (simp only: cs(1) horner_simps ds(2)[rule_format, of x])
  qed
  moreover have "length (horner es a # ds) = Suc n" using ds(1) by simp
  ultimately show ?case by blast
qed

lemma horner_roots:
  "distinct xs \<Longrightarrow> length cs = length xs \<Longrightarrow> (\<forall>x \<in> set xs. horner cs x = 0) \<Longrightarrow> horner cs y = 0"
proof (induction xs arbitrary: cs y)
  case (Cons a xs)
  then obtain ds where ds: "length ds = length xs" "\<And>x. horner cs x = (x - a) * horner ds x + horner cs a"
    using horner_divide[of cs "length xs" a] by auto
  have root: "horner cs x = (x - a) * horner ds x" for x using ds(2)[of x] Cons.prems(3) by simp
  have "\<forall>x \<in> set xs. horner ds x = 0"
    using Cons.prems root by (metis distinct.simps(2) list.set_intros(2) mult_eq_0_iff right_minus_eq)
  then have "horner ds y = 0" using Cons.prems(1) ds(1) by (intro Cons.IH) auto
  then show ?case using root by simp
qed simp

definition polyf :: "nat \<Rightarrow> ('a :: field \<Rightarrow> 'a) \<Rightarrow> bool" where
  "polyf n f \<longleftrightarrow> (\<exists>cs. length cs = n \<and> f = horner cs)"

lemma polyf_horner: "length cs \<le> n \<Longrightarrow> polyf n (horner cs)"
  unfolding polyf_def by (intro exI[of _ "cs @ replicate (n - length cs) 0"]) (auto simp: horner_pad)

lemma polyf_scale: "polyf n f \<Longrightarrow> polyf n (\<lambda>x. k * f x)"
proof -
  have "horner (map ((*) k) cs) x = k * horner cs x" for cs x
    by (induction cs) (simp_all add: algebra_simps)
  then show "polyf n f \<Longrightarrow> ?thesis" unfolding polyf_def by (metis length_map ext)
qed

lemma polyf_add:
  fixes f g :: "'a :: field \<Rightarrow> 'a"
  shows "polyf n f \<Longrightarrow> polyf n g \<Longrightarrow> polyf n (\<lambda>x. f x + g x)"
proof -
  have "length cs = length ds \<Longrightarrow> horner (map2 (+) cs ds) x = horner cs x + horner ds x" for cs ds and x :: 'a
    by (induction cs ds rule: list_induct2) (simp_all add: algebra_simps)
  then have sum: "horner (map2 (+) cs ds) = (\<lambda>x. horner cs x + horner ds x)" if "length cs = length ds" for cs ds :: "'a list"
    using that by (intro ext) blast
  then show "polyf n f \<Longrightarrow> polyf n g \<Longrightarrow> ?thesis"
  proof -
    assume "polyf n f" "polyf n g"
    then obtain cs ds where "length cs = n" "f = horner cs" "length ds = n" "g = horner ds"
      unfolding polyf_def by blast
    with sum have "length (map2 (+) cs ds) = n" "(\<lambda>x. f x + g x) = horner (map2 (+) cs ds)" by simp_all
    then show ?thesis unfolding polyf_def by blast
  qed
qed

lemma polyf_shift: "polyf n f \<Longrightarrow> polyf (Suc n) (\<lambda>x. (x - a) * f x)"
proof -
  assume f: "polyf n f"
  then obtain cs where cs: "length cs = n" "f = horner cs" unfolding polyf_def by blast
  have "polyf (Suc n) (horner (0 # cs))" using cs(1) by (intro polyf_horner) simp
  moreover have "polyf (Suc n) (\<lambda>x. (- a) * horner cs x)" using cs(1) by (intro polyf_scale polyf_horner) simp
  ultimately have "polyf (Suc n) (\<lambda>x. horner (0 # cs) x + (- a) * horner cs x)" by (rule polyf_add)
  then show ?thesis by (simp add: cs(2) algebra_simps)
qed

lemma polyf_sum:
  fixes f :: "'i \<Rightarrow> 'a :: field \<Rightarrow> 'a"
  shows "finite A \<Longrightarrow> (\<And>i. i \<in> A \<Longrightarrow> polyf n (f i)) \<Longrightarrow> polyf n (\<lambda>x. \<Sum>i\<in>A. f i x)"
proof (induction A rule: finite_induct)
  case empty
  have "polyf n (horner ([] :: 'a list))" by (rule polyf_horner) simp
  moreover have "horner ([] :: 'a list) = (\<lambda>x. 0)" by (rule ext) simp
  ultimately show ?case by simp
qed (simp add: polyf_add)

lemma polyf_prod:
  fixes a :: "'i \<Rightarrow> 'a :: field"
  shows "finite A \<Longrightarrow> polyf (Suc (card A)) (\<lambda>x. \<Prod>j\<in>A. (x - a j) * b j)"
proof (induction A rule: finite_induct)
  case empty
  have "polyf 1 (horner [1 :: 'a])" by (rule polyf_horner) simp
  moreover have "horner [1 :: 'a] = (\<lambda>x. 1)" by (rule ext) simp
  ultimately show ?case by simp
next
  case (insert j A)
  then have "polyf (Suc (Suc (card A))) (\<lambda>x. b j * ((x - a j) * (\<Prod>j\<in>A. (x - a j) * b j)))"
    by (intro polyf_scale polyf_shift)
  with insert show ?case by (simp add: ac_simps)
qed

text \<open>Lagrange interpolation at zero gives the constant term back.\<close>

lemma lagrange_at_zero:
  fixes xs :: "'a :: field list"
  assumes "distinct xs" "length cs \<le> length xs"
  shows "(\<Sum>i<length xs. horner cs (xs ! i) * (\<Prod>j\<in>{..<length xs} - {i}. - (xs ! j) * inverse (xs ! i - xs ! j)))
    = horner cs 0"
proof -
  let ?m = "length xs"
  define L where "L i x = (\<Prod>j\<in>{..<?m} - {i}. (x - xs ! j) * inverse (xs ! i - xs ! j))" for i x
  define Q where "Q x = (\<Sum>i<?m. horner cs (xs ! i) * L i x) + (- 1) * horner cs x" for x
  have "polyf ?m (L i)" if "i < ?m" for i
  proof -
    have "Suc (card ({..<?m} - {i})) = ?m" using that by simp
    then show ?thesis
      using polyf_prod[of "{..<?m} - {i}" "(!) xs" "\<lambda>j. inverse (xs ! i - xs ! j)"]
      by (simp only: L_def[abs_def] finite_Diff finite_lessThan)
  qed
  then have "polyf ?m Q" unfolding Q_def[abs_def]
    using assms(2) by (intro polyf_add polyf_sum polyf_scale polyf_horner) auto
  then obtain qs where qs: "length qs = ?m" "Q = horner qs" unfolding polyf_def by blast
  have L: "L i (xs ! k) = (if i = k then 1 else 0)" if "i < ?m" "k < ?m" for i k
  proof (cases "i = k")
    case True
    have "xs ! i - xs ! j \<noteq> 0" if "j \<in> {..<?m} - {i}" for j
      using that \<open>i < ?m\<close> assms(1) by (auto simp: nth_eq_iff_index_eq)
    then have "L i (xs ! i) = (\<Prod>j\<in>{..<?m} - {i}. 1)" unfolding L_def by (intro prod.cong) auto
    with True show ?thesis by simp
  next
    case False
    have "(\<Prod>j\<in>{..<?m} - {i}. (xs ! k - xs ! j) * inverse (xs ! i - xs ! j)) = 0"
      by (rule prod_zero) (use that False in auto)
    then show ?thesis using False by (simp add: L_def)
  qed
  have "\<forall>x \<in> set xs. Q x = 0"
  proof
    fix x assume "x \<in> set xs"
    then obtain k where k: "k < ?m" "x = xs ! k" by (auto simp: in_set_conv_nth)
    have "(\<Sum>i<?m. horner cs (xs ! i) * L i (xs ! k)) = (\<Sum>i<?m. if i = k then horner cs (xs ! i) else 0)"
      using L k(1) by (intro sum.cong) auto
    then show "Q x = 0" using k by (simp add: Q_def)
  qed
  then have "Q 0 = 0" unfolding qs(2) using assms(1) qs(1) by (intro horner_roots) auto
  then show ?thesis by (simp add: Q_def L_def)
qed


subsection \<open>The code computes the interpolation\<close>

lemma gf_val_byte [simp]: "is_byte (gf_val a)"
  using gf_val by simp

lemma GF_val [simp]: "is_byte a \<Longrightarrow> gf_val (GF a) = a"
  by (simp add: GF_inverse)

lemma gf_simps:
  "is_byte a \<Longrightarrow> is_byte b \<Longrightarrow> GF (a XOR b) = GF a + GF b"
  "is_byte a \<Longrightarrow> is_byte b \<Longrightarrow> GF (a XOR b) = GF a - GF b"
  "is_byte a \<Longrightarrow> is_byte b \<Longrightarrow> GF (gf256_mul a b) = GF a * GF b"
  "GF 0 = 0" "GF 1 = 1"
  by (simp_all add: plus_gf.abs_eq minus_gf.abs_eq times_gf.abs_eq zero_gf_def one_gf_def eq_onp_def)

lemma GF_inj: "is_byte a \<Longrightarrow> is_byte b \<Longrightarrow> GF a = GF b \<longleftrightarrow> a = b"
  by (simp add: GF_inject)

lemma gf_inv_val: "is_byte a \<Longrightarrow> a \<noteq> 0 \<Longrightarrow> gf256_inv a = Inr (gf_val (inverse (GF a)))"
  using inv_Inr[of a] by (auto simp: inverse_gf.rep_eq)

lemma gf_uminus [simp]: "- a = (a :: gf)"
  by transfer simp

lemma eval_poly_horner:
  assumes "list_all is_byte cs" "is_byte x"
  shows "is_byte (eval_poly cs x) \<and> GF (eval_poly cs x) = horner (map GF cs) (GF x)"
  using assms(1)
proof (induction cs)
  case Nil
  then show ?case by (simp add: eval_poly_def gf_simps)
next
  case (Cons c cs)
  have "eval_poly (c # cs) x = gf256_mul (eval_poly cs x) x XOR c" by (simp add: eval_poly_def)
  with Cons assms(2) show ?case by (simp add: gf_simps byte_mul byte_xor)
qed

lemma basis_loop_gf:
  assumes "is_byte xi" "list_all (\<lambda>(j, xj). is_byte xj \<and> (i \<noteq> j \<longrightarrow> xj \<noteq> xi)) js"
  shows "basis_loop xi i js (gf_val b) =
    Inr (gf_val (b * prod_list (map (\<lambda>(j, xj). if i = j then 1 else GF xj * inverse (GF xi - GF xj)) js)))"
  using assms(2)
proof (induction js arbitrary: b)
  case (Cons p js)
  obtain j xj where p: "p = (j, xj)" by (cases p)
  show ?case
  proof (cases "i = j")
    case True
    with Cons p show ?thesis by simp
  next
    case False
    then have x: "is_byte xj" "xj \<noteq> xi" using Cons.prems p by auto
    have "xi XOR xj \<noteq> 0" using x(2) by (metis xor_self_eq xor.assoc xor.left_neutral xor.right_neutral)
    then have inv: "gf256_inv (xi XOR xj) = Inr (gf_val (inverse (GF xi - GF xj)))"
      using x(1) assms(1) by (simp add: gf_inv_val byte_xor gf_simps(2))
    have "gf256_mul (gf_val b) (gf256_mul xj (gf_val (inverse (GF xi - GF xj))))
        = gf_val (b * (GF xj * inverse (GF xi - GF xj)))"
      using x(1) by (simp add: times_gf.rep_eq)
    then show ?thesis using Cons p False inv by (simp add: mult.assoc)
  qed
qed simp

lemma byte_loop_gf:
  assumes "list_all (\<lambda>(i, s). is_byte (s ! (pos + 1))
      \<and> basis_loop (xs ! i) i (enumerate 0 xs) 1 = Inr (gf_val (B i))) is"
  shows "byte_loop xs pos is (gf_val v) = Inr (gf_val (v + sum_list (map (\<lambda>(i, s). GF (s ! (pos + 1)) * B i) is)))"
  using assms
proof (induction "is" arbitrary: v)
  case (Cons p ps)
  obtain i s where p: "p = (i, s)" by (cases p)
  have "gf_val v XOR gf256_mul (s ! (pos + 1)) (gf_val (B i)) = gf_val (v + GF (s ! (pos + 1)) * B i)"
    using Cons.prems p by (simp add: plus_gf.rep_eq times_gf.rep_eq)
  then show ?case using Cons p by (simp add: add.assoc)
qed simp

lemma sum_list_enumerate: "sum_list (map f (enumerate 0 xs)) = (\<Sum>i<length xs. f (i, xs ! i))"
  by (simp add: sum_list_sum_nth nth_enumerate_eq atLeast0LessThan)

lemma prod_list_enumerate:
  fixes f :: "nat \<times> 'b \<Rightarrow> 'a :: comm_monoid_mult"
  shows "prod_list (map f (enumerate 0 xs)) = (\<Prod>i<length xs. f (i, xs ! i))"
proof (induction xs rule: rev_induct)
  case (snoc x xs)
  have "(\<Prod>i<length xs. f (i, (xs @ [x]) ! i)) = (\<Prod>i<length xs. f (i, xs ! i))"
    by (rule prod.cong) (simp_all add: nth_append)
  then show ?case using snoc by (simp add: enumerate_append_eq lessThan_Suc mult.commute)
qed simp

lemma prod_if_remove:
  fixes g :: "nat \<Rightarrow> 'a :: comm_monoid_mult"
  assumes "i < m"
  shows "(\<Prod>j<m. if i = j then 1 else g j) = (\<Prod>j\<in>{..<m} - {i}. g j)"
proof -
  have "(\<Prod>j<m. if i = j then 1 else g j) = (\<Prod>j\<in>{..<m} - {i}. if i = j then 1 else g j)"
    using assms by (subst prod.remove[of _ i]) auto
  also have "\<dots> = (\<Prod>j\<in>{..<m} - {i}. g j)" by (rule prod.cong) auto
  finally show ?thesis .
qed

text \<open>One byte of the secret from shares whose values lie on one polynomial.\<close>

lemma byte_loop_reconstructs:
  assumes "distinct xs" "list_all is_byte xs" "list_all is_byte cs" "length cs \<le> length xs" "cs \<noteq> []"
    and "length shares = length xs" "\<And>i. i < length xs \<Longrightarrow> shares ! i ! (pos + 1) = eval_poly cs (xs ! i)"
  shows "byte_loop xs pos (enumerate 0 shares) 0 = Inr (hd cs)"
proof -
  let ?m = "length xs" and ?xs = "map GF xs"
  define B where "B i = (\<Prod>j\<in>{..<?m} - {i}. GF (xs ! j) * inverse (GF (xs ! i) - GF (xs ! j)))" for i
  have byte: "i < ?m \<Longrightarrow> is_byte (xs ! i)" for i using assms(2) by (simp add: list_all_length)
  have basis: "basis_loop (xs ! i) i (enumerate 0 xs) 1 = Inr (gf_val (B i))" if "i < ?m" for i
  proof -
    have "list_all (\<lambda>(j, xj). is_byte xj \<and> (i \<noteq> j \<longrightarrow> xj \<noteq> xs ! i)) (enumerate 0 xs)"
      using byte that assms(1) by (auto simp: list_all_length nth_enumerate_eq nth_eq_iff_index_eq)
    from basis_loop_gf[OF byte[OF that] this, of 1]
    show ?thesis
      by (simp add: prod_list_enumerate one_gf.rep_eq prod_if_remove[OF that] B_def)
  qed
  have "byte_loop xs pos (enumerate 0 shares) (gf_val 0) =
      Inr (gf_val (0 + sum_list (map (\<lambda>(i, s). GF (s ! (pos + 1)) * B i) (enumerate 0 shares))))"
    using assms(3,6,7) byte basis eval_poly_horner
    by (intro byte_loop_gf) (auto simp: list_all_length nth_enumerate_eq)
  also have "sum_list (map (\<lambda>(i, s). GF (s ! (pos + 1)) * B i) (enumerate 0 shares))
      = (\<Sum>i<?m. horner (map GF cs) (?xs ! i) * B i)"
    using assms(3,6,7) byte eval_poly_horner by (simp add: sum_list_enumerate)
  also have "\<dots> = horner (map GF cs) 0"
  proof -
    have "distinct ?xs"
      using assms(1,2) GF_inj by (auto simp: distinct_map inj_on_def list_all_iff)
    from lagrange_at_zero[OF this, of "map GF cs"] assms(4)
    have "(\<Sum>i<?m. horner (map GF cs) (?xs ! i) * (\<Prod>j\<in>{..<?m} - {i}. ?xs ! j * inverse (?xs ! i - ?xs ! j)))
      = horner (map GF cs) 0" by simp
    moreover have "B i = (\<Prod>j\<in>{..<?m} - {i}. ?xs ! j * inverse (?xs ! i - ?xs ! j))" if "i < ?m" for i
      unfolding B_def by (rule prod.cong) (use that in auto)
    ultimately show ?thesis by simp
  qed
  also have "\<dots> = GF (hd cs)" using assms(5) by (cases cs) simp_all
  finally show ?thesis
    using assms(3,5) by (cases cs) (simp_all add: zero_gf.rep_eq)
qed


subsection \<open>The shares of a split\<close>

lemma split_loop_shares:
  "split_loop rnd k pos secret shares =
     map (\<lambda>(i, s). s @ map (\<lambda>(q, b). eval_poly (byte_coeffs rnd k q b) (int i + 1)) (enumerate pos secret))
       (enumerate 0 shares)"
proof (induction rnd k pos secret shares rule: split_loop.induct)
  case (1 rnd k pos shares)
  show ?case by (intro nth_equalityI) (simp_all add: nth_enumerate_eq)
next
  case (2 rnd k pos b bs shares)
  then show ?case by (intro nth_equalityI) (simp_all add: nth_enumerate_eq)
qed

lemma nth_split_share:
  assumes "shamir_split rnd secret n k = Inr shares" "i < n"
  shows "shares ! i = (int i + 1) # map (\<lambda>(q, b). eval_poly (byte_coeffs rnd k q b) (int i + 1)) (enumerate 0 secret)"
  using assms by (auto simp: shamir_split_def split_loop_shares nth_enumerate_eq split: if_splits)

lemma length_split: "shamir_split rnd secret n k = Inr shares \<Longrightarrow> length shares = n \<and> 2 \<le> k \<and> k \<le> n \<and> n \<le> 255"
  by (auto simp: shamir_split_def split_loop_shares split: if_splits)

lemma split_share_of_mem:
  assumes "shamir_split rnd secret n k = Inr shares" "s \<in> set shares"
  shows "is_byte (hd s) \<and> s = hd s # map (\<lambda>(q, b). eval_poly (byte_coeffs rnd k q b) (hd s)) (enumerate 0 secret)"
proof -
  obtain i where i: "i < n" "s = shares ! i"
    using assms length_split by (auto simp: in_set_conv_nth)
  then show ?thesis using nth_split_share[OF assms(1) i(1)] length_split[OF assms(1)] by (simp add: is_byte_def)
qed

lemma distinct_heads:
  assumes "shamir_split rnd secret n k = Inr shares" "set picked \<subseteq> set shares" "distinct picked"
  shows "distinct (map hd picked)"
proof -
  have "s = t" if "s \<in> set picked" "t \<in> set picked" "hd s = hd t" for s t
    using split_share_of_mem[OF assms(1), of s] split_share_of_mem[OF assms(1), of t] assms(2) that
    by (metis subsetD)
  then show ?thesis using assms(3) by (auto simp: distinct_map inj_on_def)
qed

lemma mapE_Inr_nth: "(\<And>i. i \<in> set is \<Longrightarrow> f i = Inr (h i)) \<Longrightarrow> mapE f is = Inr (map h is)"
  by (induction "is") simp_all

lemma basis_loop_total:
  "(\<forall>(j, xj) \<in> set js. i \<noteq> j \<longrightarrow> xj \<noteq> xi) \<Longrightarrow> \<exists>b. basis_loop xi i js v = Inr b"
proof (induction xi i js v rule: basis_loop.induct)
  case (2 xi i j xj rest basis)
  have "xi XOR xj \<noteq> 0" if "xj \<noteq> xi"
    using that by (metis xor_self_eq xor.assoc xor.left_neutral xor.right_neutral)
  then show ?case using 2 by (auto simp: gf256_inv_def)
qed simp

lemma byte_loop_total:
  "(\<forall>(i, s) \<in> set is. \<forall>(j, xj) \<in> set (enumerate 0 xs). i \<noteq> j \<longrightarrow> xj \<noteq> xs ! i) \<Longrightarrow> \<exists>b. byte_loop xs pos is v = Inr b"
proof (induction xs pos "is" v rule: byte_loop.induct)
  case (2 xs pos i s rest v)
  obtain b where "basis_loop (xs ! i) i (enumerate 0 xs) 1 = Inr b"
    using basis_loop_total[of "enumerate 0 xs" i "xs ! i" 1] 2(2) by auto
  then show ?case using 2 by auto
qed simp

lemma mapE_total: "(\<And>x. \<exists>y. f x = Inr y) \<Longrightarrow> \<exists>ys. mapE f xs = Inr ys"
proof (induction xs)
  case (Cons x xs)
  then obtain y ys where "f x = Inr y" "mapE f xs = Inr ys" by blast
  then show ?case by simp
qed simp

lemma reconstruct_error_iff:
  "(\<exists>e. shamir_reconstruct shares = Inl e) \<longleftrightarrow>
    length shares < 2 \<or> [] \<in> set shares \<or> \<not> distinct (map hd shares)
      \<or> (\<exists>s \<in> set shares. length s \<noteq> length (hd shares))"
proof (cases "length shares < 2 \<or> [] \<in> set shares")
  case True
  then show ?thesis by (auto simp: shamir_reconstruct_def raise_if_def list_ex_iff)
next
  case False
  then have ne: "shares \<noteq> []" "\<And>s. s \<in> set shares \<Longrightarrow> s \<noteq> []" by auto
  have dup: "card (set (map hd shares)) \<noteq> length shares \<longleftrightarrow> \<not> distinct (map hd shares)"
    using card_distinct[of "map hd shares"] distinct_card[of "map hd shares"] by auto
  have len: "list_ex (\<lambda>s. length s - 1 \<noteq> length (hd shares) - 1) (tl shares)
      \<longleftrightarrow> (\<exists>s \<in> set shares. length s \<noteq> length (hd shares))"
  proof -
    have pos: "0 < length s" if "s \<in> set shares" for s using ne(2)[OF that] by simp
    have "hd shares \<in> set shares" using ne(1) by simp
    note p0 = pos[OF this]
    have "length s - 1 \<noteq> length (hd shares) - 1 \<longleftrightarrow> length s \<noteq> length (hd shares)" if "s \<in> set shares" for s
      using pos[OF that] p0 by linarith
    moreover have "set shares = insert (hd shares) (set (tl shares))" using ne(1) by (cases shares) simp_all
    ultimately show ?thesis by (auto simp: list_ex_iff)
  qed
  have "\<exists>b. byte_loop (map hd shares) pos (enumerate 0 shares) 0 = Inr b" if "distinct (map hd shares)" for pos
    using that nth_eq_iff_index_eq[OF that]
    by (intro byte_loop_total) (force simp: in_set_enumerate_eq)
  then have "\<exists>bs. mapE (\<lambda>pos. byte_loop (map hd shares) pos (enumerate 0 shares) 0) ps = Inr bs"
    if "distinct (map hd shares)" for ps
    using that by (intro mapE_total) blast
  then obtain bs where bs: "distinct (map hd shares) \<Longrightarrow>
      mapE (\<lambda>pos. byte_loop (map hd shares) pos (enumerate 0 shares) 0) [0..<length (hd shares) - 1] = Inr bs"
    by blast
  have "\<not> length shares < 2" "list_ex (\<lambda>s. s = []) shares = False"
    using False by (auto simp: list_ex_iff)
  then have r: "shamir_reconstruct shares =
      (if \<not> distinct (map hd shares) then Inl (ValueError ''Duplicate x-coordinates in shares'')
       else if \<exists>s \<in> set shares. length s \<noteq> length (hd shares) then Inl (ValueError ''Shares have inconsistent length'')
       else mapE (\<lambda>pos. byte_loop (map hd shares) pos (enumerate 0 shares) 0) [0..<length (hd shares) - 1])"
    unfolding shamir_reconstruct_def dup Let_def len by (simp only: raise_if_simps bindE_Inr raise_if_def bindE_Inl if_True if_False) simp
  show ?thesis
    by (cases "distinct (map hd shares)"; cases "\<exists>s \<in> set shares. length s \<noteq> length (hd shares)")
      (use False in \<open>simp_all only: r bs, simp_all\<close>)
qed

lemma shares_reconstruct:
  assumes "shamir_split rnd secret n k = Inr shares"
    and "set picked \<subseteq> set shares" "distinct picked" "k \<le> length picked"
    and "list_all is_byte secret" "\<And>q j. is_byte (rnd q j)"
  shows "shamir_reconstruct picked = Inr secret"
proof -
  let ?xs = "map hd picked"
  have k: "2 \<le> k" using length_split[OF assms(1)] by simp
  have mem: "is_byte (hd s)" "s = hd s # map (\<lambda>(q, b). eval_poly (byte_coeffs rnd k q b) (hd s)) (enumerate 0 secret)"
    if "s \<in> set picked" for s
    using split_share_of_mem[OF assms(1), of s] assms(2) that by auto
  have len: "s \<noteq> [] \<and> length s - 1 = length secret" if "s \<in> set picked" for s
    using arg_cong[OF mem(2)[OF that], of length] by auto
  have d: "distinct ?xs" by (rule distinct_heads[OF assms(1-3)])
  have ne: "picked \<noteq> []" using assms(4) k by auto
  have byte: "byte_loop ?xs pos (enumerate 0 picked) 0 = Inr (secret ! pos)" if "pos < length secret" for pos
  proof -
    let ?cs = "byte_coeffs rnd k pos (secret ! pos)"
    have "picked ! i ! (pos + 1) = eval_poly ?cs (?xs ! i)" if "i < length picked" for i
    proof -
      have "picked ! i \<in> set picked" using that by simp
      from arg_cong[OF mem(2)[OF this], of "\<lambda>z. z ! (pos + 1)"]
      show ?thesis using that \<open>pos < length secret\<close> by (simp add: nth_enumerate_eq)
    qed
    then have "byte_loop ?xs pos (enumerate 0 picked) 0 = Inr (hd ?cs)"
      using d mem(1) assms(4-6) k that
      by (intro byte_loop_reconstructs) (auto simp: byte_coeffs_def list_all_iff)
    then show ?thesis by (simp add: byte_coeffs_def)
  qed
  have "mapE (\<lambda>pos. byte_loop ?xs pos (enumerate 0 picked) 0) [0..<length secret] = Inr (map ((!) secret) [0..<length secret])"
    by (rule mapE_Inr_nth) (simp add: byte)
  moreover have "length (hd picked) - 1 = length secret" using len ne by simp
  moreover have "\<not> list_ex (\<lambda>s. s = []) picked" "\<not> list_ex (\<lambda>s. length s - 1 \<noteq> length secret) (tl picked)"
    using len by (cases picked; auto simp: list_ex_iff)+
  ultimately show ?thesis
    using assms(4) k distinct_card[OF d] by (simp add: shamir_reconstruct_def Let_def map_nth)
qed

subsection \<open>Properties\<close>

text \<open>
  The exponent and logarithm tables compute a field: every non-zero byte has the inverse
  the code returns for it, and zero raises.
\<close>

theorem gf256_inverse_correct:
  assumes "0 \<le> a" "a < 256"
  shows "case gf256_inv a of
      Inl _ \<Rightarrow> a = 0
    | Inr b \<Rightarrow> a \<noteq> 0 \<and> 0 \<le> b \<and> b < 256 \<and> gf256_mul a b = 1 \<and> gf256_mul b a = 1"
proof (cases "a = 0")
  case True
  then show ?thesis by (simp add: gf256_inv_def)
next
  case False
  then obtain b where "gf256_inv a = Inr b" "is_byte b" "gf256_mul b a = 1"
    using inv_Inr[of a] assms by (auto simp: is_byte_def)
  then show ?thesis using False assms mul_comm[of a b] by (simp add: is_byte_def)
qed

theorem gf256_inverse_correct_witness:
  "case gf256_inv 7 of
      Inl _ \<Rightarrow> (7::int) = 0
    | Inr b \<Rightarrow> (7::int) \<noteq> 0 \<and> 0 \<le> b \<and> b < 256 \<and> gf256_mul 7 b = 1 \<and> gf256_mul b 7 = 1"
  by (rule gf256_inverse_correct) simp_all

text \<open>
  C4: any k or more different shares of a split give back the secret, whatever the random
  coefficients were.
\<close>

theorem shamir_reconstructs:
  assumes "shamir_split rnd secret n k = Inr shares"
    and "set picked \<subseteq> set shares" "distinct picked" "k \<le> length picked"
    and "list_all is_byte secret" "\<And>q j. is_byte (rnd q j)"
  shows "shamir_reconstruct picked = Inr secret"
  by (rule shares_reconstruct[OF assms])

theorem shamir_reconstructs_witness:
  "case shamir_split (\<lambda>q j. 7) [65, 66] 3 2 of
     Inl _ \<Rightarrow> False | Inr shares \<Rightarrow> shamir_reconstruct [shares ! 2, shares ! 0] = Inr [65, 66]"
proof -
  obtain shares where s: "shamir_split (\<lambda>q j. 7) [65, 66] 3 2 = Inr shares" by (simp add: shamir_split_def)
  have "length shares = 3" using length_split[OF s] by simp
  then have m: "set [shares ! 2, shares ! 0] \<subseteq> set shares" by auto
  have "hd (shares ! 2) \<noteq> hd (shares ! 0)" using nth_split_share[OF s, of 2] nth_split_share[OF s, of 0] by simp
  then have d: "distinct [shares ! 2, shares ! 0]" by auto
  show ?thesis
    using shamir_reconstructs[OF s m d] s by (simp add: is_byte_def)
qed

text \<open>
  Reconstruction succeeds exactly on what it can interpolate: two or more shares, none
  empty, with different x-coordinates and the same length; on anything else it raises.
\<close>

theorem shamir_reconstruct_domain:
  "(\<exists>secret. shamir_reconstruct shares = Inr secret) \<longleftrightarrow>
    2 \<le> length shares \<and> [] \<notin> set shares \<and> distinct (map hd shares)
      \<and> list_all (\<lambda>s. length s = length (hd shares)) shares"
proof -
  have "(\<exists>secret. shamir_reconstruct shares = Inr secret) \<longleftrightarrow> \<not> (\<exists>e. shamir_reconstruct shares = Inl e)"
    by (cases "shamir_reconstruct shares") simp_all
  then show ?thesis unfolding reconstruct_error_iff by (auto simp: list_all_iff)
qed

end
