(* ===== verification/Keys.thy ===== *)
theory Keys
  imports Signed Shamir
begin

text \<open>
  \<^verbatim>\<open>identity/keys.py\<close> apart from the secret sharing, and \<^verbatim>\<open>identity/_wordlist.py\<close>: key files in
  plain and in sealed form, and the fingerprint of a public key. The lemmas show that a key file
  reads back the key with the same passphrase and what is refused, and which part of the digest
  a fingerprint shows.
\<close>

subsection \<open>Definitions\<close>

definition BIP39_256 :: "string list" where
  "BIP39_256 = [
    ''abandon'', ''ability'', ''able'', ''about'', ''above'', ''absent'', ''absorb'', ''abstract'',
    ''absurd'', ''abuse'', ''access'', ''accident'', ''account'', ''accuse'', ''achieve'',
    ''acid'', ''acoustic'', ''acquire'', ''across'', ''act'', ''action'', ''actor'', ''actress'',
    ''actual'', ''adapt'', ''add'', ''addict'', ''address'', ''adjust'', ''admit'', ''adult'',
    ''advance'', ''advice'', ''aerobic'', ''affair'', ''afford'', ''afraid'', ''again'', ''age'',
    ''agent'', ''agree'', ''ahead'', ''aim'', ''air'', ''airport'', ''aisle'', ''alarm'',
    ''album'', ''alcohol'', ''alert'', ''alien'', ''all'', ''alley'', ''allow'', ''almost'',
    ''alone'', ''alpha'', ''already'', ''also'', ''alter'', ''always'', ''amateur'', ''amazing'',
    ''among'', ''amount'', ''amused'', ''analyst'', ''anchor'', ''ancient'', ''anger'', ''angle'',
    ''angry'', ''animal'', ''ankle'', ''announce'', ''annual'', ''another'', ''answer'',
    ''antenna'', ''antique'', ''anxiety'', ''any'', ''apart'', ''apology'', ''appear'', ''apple'',
    ''approve'', ''april'', ''arch'', ''arctic'', ''area'', ''arena'', ''argue'', ''arm'',
    ''armed'', ''armor'', ''army'', ''around'', ''arrange'', ''arrest'', ''arrive'', ''arrow'',
    ''art'', ''artefact'', ''artist'', ''artwork'', ''ask'', ''aspect'', ''assault'', ''asset'',
    ''assist'', ''assume'', ''asthma'', ''athlete'', ''atom'', ''attack'', ''attend'',
    ''attitude'', ''attract'', ''auction'', ''audit'', ''august'', ''aunt'', ''author'', ''auto'',
    ''autumn'', ''average'', ''avocado'', ''avoid'', ''awake'', ''aware'', ''away'', ''awesome'',
    ''awful'', ''awkward'', ''axis'', ''baby'', ''bachelor'', ''bacon'', ''badge'', ''bag'',
    ''balance'', ''balcony'', ''ball'', ''bamboo'', ''banana'', ''banner'', ''bar'', ''barely'',
    ''bargain'', ''barrel'', ''base'', ''basic'', ''basket'', ''battle'', ''beach'', ''bean'',
    ''beauty'', ''because'', ''become'', ''beef'', ''before'', ''begin'', ''behave'', ''behind'',
    ''believe'', ''below'', ''belt'', ''bench'', ''benefit'', ''best'', ''betray'', ''better'',
    ''between'', ''beyond'', ''bicycle'', ''bid'', ''bike'', ''bind'', ''biology'', ''bird'',
    ''birth'', ''bitter'', ''black'', ''blade'', ''blame'', ''blanket'', ''blast'', ''bleak'',
    ''bless'', ''blind'', ''blood'', ''blossom'', ''blouse'', ''blue'', ''blur'', ''blush'',
    ''board'', ''boat'', ''body'', ''boil'', ''bomb'', ''bone'', ''bonus'', ''book'', ''boost'',
    ''border'', ''boring'', ''borrow'', ''boss'', ''bottom'', ''bounce'', ''box'', ''boy'',
    ''bracket'', ''brain'', ''brand'', ''brass'', ''brave'', ''bread'', ''breeze'', ''brick'',
    ''bridge'', ''brief'', ''bright'', ''bring'', ''brisk'', ''broccoli'', ''broken'', ''bronze'',
    ''broom'', ''brother'', ''brown'', ''brush'', ''bubble'', ''buddy'', ''budget'', ''buffalo'',
    ''build'', ''bulb'', ''bulk'', ''bullet'', ''bundle'', ''bunker'', ''burden'', ''burger'',
    ''burst'', ''bus'', ''business'', ''busy'', ''butter'', ''buyer'', ''buzz'', ''cabbage'',
    ''cabin'', ''cable'']"

text \<open>
  What the key files use of PyNaCl, joined to the other libraries: the 32 secret bytes of a
  signing key and back (which raises on another length), Argon2id with the moderate limits, and
  the authenticated encryption of \<open>SecretBox\<close>; and the raw SHA-256 digest.
\<close>

record 'k key_lib = "'k wire_lib" +
  secret_bytes :: "'k \<Rightarrow> bytes"
  key_from_bytes :: "bytes \<Rightarrow> 'k result"
  argon2id_kdf :: "bytes \<Rightarrow> bytes \<Rightarrow> bytes"
  box_encrypt :: "bytes \<Rightarrow> bytes \<Rightarrow> bytes \<Rightarrow> bytes"
  box_decrypt :: "bytes \<Rightarrow> bytes \<Rightarrow> bytes \<Rightarrow> bytes result"
  sha256_digest :: "bytes \<Rightarrow> bytes"

definition keys_ok :: "('k, 'z) key_lib_scheme \<Rightarrow> bool" where
  "keys_ok L \<longleftrightarrow> (\<forall>k. key_from_bytes L (secret_bytes L k) = Inr k)
     \<and> (\<forall>key n m. box_decrypt L key (box_encrypt L key n m) n = Inr m)"

definition key_from_seed :: "('k, 'z) key_lib_scheme \<Rightarrow> bytes \<Rightarrow> 'k result" where
  "key_from_seed L seed =
     (if length seed \<noteq> 32 then Inl (ValueError ''Ed25519 seed must be 32 bytes'') else key_from_bytes L seed)"

text \<open>
  The content of the JSON file that \<open>save_keypair\<close> writes; salt and nonce are random. An empty
  passphrase counts as none.
\<close>

definition save_keypair :: "('k, 'z) key_lib_scheme \<Rightarrow> bytes \<Rightarrow> bytes \<Rightarrow> 'k \<Rightarrow> string option \<Rightarrow> dict" where
  "save_keypair L salt nce key passphrase =
     (case passphrase of
        Some (c # p) \<Rightarrow>
          let derived = argon2id_kdf L (encode_str (c # p)) salt;
              ciphertext = box_encrypt L derived nce (secret_bytes L key)
          in [(''version'', VInt 2), (''algorithm'', VStr ''Ed25519''), (''kdf'', VStr ''argon2id''),
              (''kdf_params'', VDict [(''opslimit'', VStr ''moderate''), (''memlimit'', VStr ''moderate'')]),
              (''salt'', VStr (bytes_hex salt)), (''nonce'', VStr (bytes_hex nce)),
              (''ciphertext'', VStr (bytes_hex ciphertext))]
      | _ \<Rightarrow>
          [(''version'', VInt 1), (''algorithm'', VStr ''Ed25519''),
           (''secret_key_hex'', VStr (bytes_hex (secret_bytes L key))),
           (''_warning'', VStr ''plaintext; protect parent dir with OS ACLs (0600 on POSIX)'')])"

definition hex_item :: "dict \<Rightarrow> string \<Rightarrow> bytes result" where
  "hex_item d k = bindE (bindE (dict_item d k) as_str) bytes_fromhex"

definition load_keypair :: "('k, 'z) key_lib_scheme \<Rightarrow> dict \<Rightarrow> string option \<Rightarrow> 'k result" where
  "load_keypair L data passphrase =
     (if dget data ''algorithm'' \<noteq> Some (VStr ''Ed25519'') then Inl (ValueError ''Unsupported key algorithm'')
      else bindE (as_int (dgetd data ''version'' (VInt 1))) (\<lambda>version.
        if version = 1 then bindE (hex_item data ''secret_key_hex'') (key_from_bytes L)
        else if version = 2 then
          (case passphrase of
             Some (c # p) \<Rightarrow>
               bindE (hex_item data ''salt'') (\<lambda>salt.
               bindE (hex_item data ''nonce'') (\<lambda>nce.
               bindE (hex_item data ''ciphertext'') (\<lambda>ciphertext.
               bindE (box_decrypt L (argon2id_kdf L (encode_str (c # p)) salt) ciphertext nce)
                 (key_from_bytes L))))
           | _ \<Rightarrow> Inl (ValueError ''Encrypted key file (version 2) requires a passphrase''))
        else Inl (ValueError ''Unsupported key file version'')))"

text \<open>\<open>fingerprint\<close>: the words of the low bytes of the digest, lowest first.\<close>

fun pick_words :: "nat \<Rightarrow> nat \<Rightarrow> string list" where
  "pick_words 0 n = []"
| "pick_words (Suc w) n = BIP39_256 ! (n mod 256) # pick_words w (n div 256)"

fun join_words :: "string list \<Rightarrow> string" where
  "join_words [] = ''''"
| "join_words [w] = w"
| "join_words (w # v # ws) = w @ '' '' @ join_words (v # ws)"

definition fingerprint :: "('k, 'z) key_lib_scheme \<Rightarrow> bytes \<Rightarrow> nat \<Rightarrow> string" where
  "fingerprint L public_bytes n = join_words (pick_words n (int_from_bytes (sha256_digest L public_bytes)))"

subsection \<open>Key files\<close>

definition same_passphrase :: "string option \<Rightarrow> string option \<Rightarrow> bool" where
  "same_passphrase p q \<longleftrightarrow> p = q \<or> p \<in> {None, Some []} "

lemma hex_item_hex: "dget d k = Some (VStr (bytes_hex bs)) \<Longrightarrow> hex_item d k = Inr bs"
  by (simp add: hex_item_def dict_item_def bytes_fromhex_hex)

lemma load_plain:
  "keys_ok L \<Longrightarrow> p \<in> {None, Some []} \<Longrightarrow> load_keypair L (save_keypair L salt nce key p) q = Inr key"
  by (auto simp: save_keypair_def load_keypair_def dgetd_def as_int_def hex_item_hex keys_ok_def)

lemma load_sealed:
  "load_keypair L (save_keypair L salt nce key (Some (c # p))) q =
     (case q of
        Some (c' # p') \<Rightarrow>
          bindE (box_decrypt L (argon2id_kdf L (encode_str (c' # p')) salt)
              (box_encrypt L (argon2id_kdf L (encode_str (c # p)) salt) nce (secret_bytes L key)) nce)
            (key_from_bytes L)
      | _ \<Rightarrow> Inl (ValueError ''Encrypted key file (version 2) requires a passphrase''))"
  by (simp add: save_keypair_def load_keypair_def dgetd_def as_int_def hex_item_hex Let_def
      split: option.split list.split)

lemma keypair_file_roundtrip: "keys_ok L \<Longrightarrow> load_keypair L (save_keypair L salt nce key p) p = Inr key"
proof (cases p)
  case (Some s)
  assume "keys_ok L"
  with Some show ?thesis by (cases s) (simp_all add: load_plain load_sealed keys_ok_def)
qed (simp add: load_plain)

subsection \<open>Fingerprints\<close>

lemma length_BIP39: "length BIP39_256 = 256"
  by (simp add: BIP39_256_def)

text \<open>The list is in alphabetical order, so its words differ.\<close>

lemma sorted_BIP39: "successively (<) BIP39_256"
  by (simp add: BIP39_256_def less_char_def)

lemma distinct_BIP39: "distinct BIP39_256"
  using sorted_BIP39 by (simp add: successively_conv_sorted_wrt strict_sorted_iff)

lemma BIP39_nth_eq: "i < 256 \<Longrightarrow> j < 256 \<Longrightarrow> BIP39_256 ! i = BIP39_256 ! j \<longleftrightarrow> i = j"
  using nth_eq_iff_index_eq[OF distinct_BIP39] by (simp add: length_BIP39)

lemma base_256_eq_iff:
  fixes x y a c :: nat
  assumes "a < 256" and "c < 256"
  shows "256 * x + a = 256 * y + c \<longleftrightarrow> a = c \<and> x = y"
proof
  assume eq: "256 * x + a = 256 * y + c"
  from arg_cong[OF eq, of "\<lambda>n. n div 256"] assms have "x = y" by simp
  with eq show "a = c \<and> x = y" by simp
qed simp

lemma pick_words_eq_iff: "pick_words w m = pick_words w n \<longleftrightarrow> m mod 256 ^ w = n mod 256 ^ w"
proof (induction w arbitrary: m n)
  case (Suc w)
  have "pick_words (Suc w) m = pick_words (Suc w) n \<longleftrightarrow>
      m mod 256 = n mod 256 \<and> (m div 256) mod 256 ^ w = (n div 256) mod 256 ^ w"
    by (simp add: BIP39_nth_eq Suc.IH)
  also have "\<dots> \<longleftrightarrow> m mod (256 * 256 ^ w) = n mod (256 * 256 ^ w)"
    unfolding mod_mult2_eq by (rule base_256_eq_iff[symmetric]) simp_all
  finally show ?case by simp
qed simp

lemma pick_words_mod: "pick_words w n = pick_words w (n mod 256 ^ w)"
  by (simp add: pick_words_eq_iff)

lemma int_from_bytes_mod_low: "int_from_bytes (hi @ lo) mod 256 ^ length lo = int_from_bytes lo"
proof -
  have "int_from_bytes (hi @ lo) = int_from_bytes hi * 256 ^ length lo + int_from_bytes lo"
    using foldl_bytes_acc[of "foldl (\<lambda>n b. n * 256 + unat b) 0 hi" lo] by (simp add: int_from_bytes_def)
  then show ?thesis using int_from_bytes_less[of lo] by simp
qed

subsection \<open>Properties\<close>

definition demo_keylib :: "bool key_lib" where
  "demo_keylib = wire_lib.extend (demo_wire [])
     \<lparr>secret_bytes = (\<lambda>k. replicate 32 (if k then 1 else 0)),
      key_from_bytes = (\<lambda>b. if b = replicate 32 1 then Inr True else if b = replicate 32 0 then Inr False
                            else Inl (ValueError ''The seed must be exactly 32 bytes long'')),
      argon2id_kdf = (\<lambda>p s. p @ s), box_encrypt = (\<lambda>k n m. k @ m),
      box_decrypt = (\<lambda>k c n. if take (length k) c = k then Inr (drop (length k) c)
                             else Inl (LibError ''CryptoError'')),
      sha256_digest = (\<lambda>b. b)\<rparr>"

lemma demo_keys_ok: "keys_ok demo_keylib"
  by (simp add: keys_ok_def demo_keylib_def wire_lib.defs)

text \<open>
  A key file gives back the key it was written from to whoever loads it with the same
  passphrase, sealed or plain; a sealed file without a passphrase is refused; and a plain file
  (no passphrase, or an empty one) is readable with any.
\<close>

theorem key_file_roundtrip:
  assumes "keys_ok L"
  shows "load_keypair L (save_keypair L salt nce key p) p = Inr key
     \<and> (p \<in> {None, Some []} \<longrightarrow> load_keypair L (save_keypair L salt nce key p) q = Inr key)
     \<and> (p \<notin> {None, Some []} \<and> q \<in> {None, Some []} \<longrightarrow>
          load_keypair L (save_keypair L salt nce key p) q
            = Inl (ValueError ''Encrypted key file (version 2) requires a passphrase''))"
proof (intro conjI impI)
  show "load_keypair L (save_keypair L salt nce key p) p = Inr key"
    by (rule keypair_file_roundtrip[OF assms])
next
  assume "p \<in> {None, Some []}"
  then show "load_keypair L (save_keypair L salt nce key p) q = Inr key" by (rule load_plain[OF assms])
next
  assume pq: "p \<notin> {None, Some []} \<and> q \<in> {None, Some []}"
  then obtain c s where "p = Some (c # s)" by (metis insert_iff list.exhaust option.exhaust)
  with pq show "load_keypair L (save_keypair L salt nce key p) q
      = Inl (ValueError ''Encrypted key file (version 2) requires a passphrase'')"
    by (auto simp: load_sealed)
qed

theorem key_file_roundtrip_witness:
  "load_keypair demo_keylib (save_keypair demo_keylib [7] [8] True (Some ''pw'')) (Some ''pw'') = Inr True
   \<and> load_keypair demo_keylib (save_keypair demo_keylib [7] [8] True (Some ''pw'')) None
       = Inl (ValueError ''Encrypted key file (version 2) requires a passphrase'')"
  using key_file_roundtrip[OF demo_keys_ok, of "[7]" "[8]" True "Some ''pw''" None] by simp

text \<open>
  Two fingerprints show the same words exactly when the digests agree on their last bytes, one
  byte a word: the default of six words compares 48 bits.
\<close>

theorem fingerprint_shows_last_bytes:
  assumes "sha256_digest L p = hp @ lp" and "sha256_digest L q = hq @ lq"
    and "length lp = n" and "length lq = n"
  shows "pick_words n (int_from_bytes (sha256_digest L p)) = pick_words n (int_from_bytes (sha256_digest L q))
       \<longleftrightarrow> lp = lq"
proof -
  have "int_from_bytes lp = int_from_bytes lq \<longleftrightarrow> lp = lq"
    using to_bytes_be_int_from_bytes[of lp] to_bytes_be_int_from_bytes[of lq] assms(3,4) by metis
  then show ?thesis
    using int_from_bytes_mod_low[of hp lp] int_from_bytes_mod_low[of hq lq] assms
    by (simp add: pick_words_eq_iff)
qed

theorem fingerprint_shows_last_bytes_witness:
  "pick_words 2 (int_from_bytes (sha256_digest demo_keylib [5, 1, 2]))
     = pick_words 2 (int_from_bytes (sha256_digest demo_keylib [6, 1, 2])) \<longleftrightarrow> [1, 2] = ([1, 2] :: bytes)"
  by (rule fingerprint_shows_last_bytes[where hp = "[5]" and hq = "[6]"])
    (simp_all add: demo_keylib_def wire_lib.defs)

end
