(* ===== verification/Household.thy ===== *)
theory Household
  imports Keys
begin

text \<open>
  \<^verbatim>\<open>identity/household.py\<close>: the devices and agents of a household, its revocation list, the pairing
  of a new device, and the files that keep them. A random key, a pairing code and the time are
  arguments of the operation that draws them; the JSON text of the manifest is left transparent.
  The lemmas show the invariant of every reachable household, that a restart restores what the
  manifest holds, and who can pair.
\<close>

subsection \<open>Records\<close>

record device_record =
  dv_did :: did
  dv_name :: string
  dv_platform :: string
  dv_paired_at :: real
  dv_membership :: string
  dv_is_self :: bool

record agent_record =
  ag_did :: did
  ag_name :: string
  ag_vendor :: string
  ag_model :: "string option"
  ag_capabilities :: "string list"
  ag_context_window :: int
  ag_locality :: string
  ag_cost_class :: string
  ag_registered_at :: real
  ag_token :: "string option"
  ag_pid :: "int option"

record revocation_entry =
  rv_did :: did
  rv_at :: real
  rv_signed_by :: did
  rv_reason :: string

record pairing_offer =
  of_code :: string
  of_code_hash :: string
  of_created_at :: real
  of_expires_at :: real

text \<open>The content of \<^verbatim>\<open>household.json\<close>.\<close>

record manifest =
  mf_root_did :: "did option"
  mf_device_did :: "did option"
  mf_tag :: string
  mf_devices :: "(did \<times> device_record) list"
  mf_agents :: "(did \<times> agent_record) list"
  mf_revocations :: "revocation_entry list"

text \<open>\<open>Household\<close>, with the three kinds of files of its directory.\<close>

record 'k household =
  hh_devices :: "(did \<times> device_record) list"
  hh_agents :: "(did \<times> agent_record) list"
  hh_revocations :: "revocation_entry list"
  hh_tokens :: ucan_store
  hh_root_key :: "'k option"
  hh_device_key :: "'k option"
  hh_root_did :: "did option"
  hh_device_did :: "did option"
  hh_membership :: "string option"
  hh_membership_cid :: "string option"
  hh_offer :: "pairing_offer option"
  file_manifest :: "manifest option"
  file_device_key :: "dict option"
  file_shares :: "share list"

text \<open>\<open>Household(data_dir)\<close> on a directory with the given files.\<close>

definition open_household :: "manifest option \<Rightarrow> dict option \<Rightarrow> share list \<Rightarrow> 'k household" where
  "open_household mf kf sh =
     \<lparr>hh_devices = [], hh_agents = [], hh_revocations = [], hh_tokens = [], hh_root_key = None,
      hh_device_key = None, hh_root_did = None, hh_device_did = None, hh_membership = None,
      hh_membership_cid = None, hh_offer = None, file_manifest = mf, file_device_key = kf,
      file_shares = sh\<rparr>"

definition reopen :: "'k household \<Rightarrow> 'k household" where
  "reopen h = open_household (file_manifest h) (file_device_key h) (file_shares h)"

text \<open>\<open>None\<close> and the empty string are false.\<close>

definition truthy :: "string option \<Rightarrow> bool" where
  "truthy x = (x \<noteq> None \<and> x \<noteq> Some [])"

definition or_empty :: "string option \<Rightarrow> string" where
  "or_empty x = (case x of None \<Rightarrow> [] | Some s \<Rightarrow> s)"

definition household_tag :: "('k, 'z) lib_scheme \<Rightarrow> did \<Rightarrow> string" where
  "household_tag L root_did = take 16 (sha256_hex L (encode_str root_did))"

definition tag_field :: "('k, 'z) lib_scheme \<Rightarrow> did option \<Rightarrow> string" where
  "tag_field L root_did = (if truthy root_did then household_tag L (or_empty root_did) else [])"

definition manifest_of :: "('k, 'z) lib_scheme \<Rightarrow> 'k household \<Rightarrow> manifest" where
  "manifest_of L h =
     \<lparr>mf_root_did = hh_root_did h, mf_device_did = hh_device_did h,
      mf_tag = tag_field L (hh_root_did h),
      mf_devices = hh_devices h, mf_agents = hh_agents h, mf_revocations = hh_revocations h\<rparr>"

definition save_household :: "('k, 'z) lib_scheme \<Rightarrow> 'k household \<Rightarrow> 'k household" where
  "save_household L h = h\<lparr>file_manifest := Some (manifest_of L h)\<rparr>"

subsection \<open>Operations\<close>

type_synonym ('k, 'a) hh_result = "'k household \<times> 'a result"

text \<open>
  \<open>initialize\<close>: the root key, the device key and the coefficients of the shares are random. The
  files written before a later step raises stay.
\<close>

definition byte_ints :: "bytes \<Rightarrow> int list" where
  "byte_ints bs = map uint bs"

definition hh_initialize ::
    "('k, 'z) key_lib_scheme \<Rightarrow> real \<Rightarrow> string \<Rightarrow> (nat \<Rightarrow> nat \<Rightarrow> int) \<Rightarrow> 'k \<Rightarrow> 'k \<Rightarrow> 'k household
      \<Rightarrow> string \<Rightarrow> string \<Rightarrow> ('k, did \<times> did) hh_result" where
  "hh_initialize L now nnc rnd root_key dev_key h name platform =
     (if file_manifest h \<noteq> None then (h, Inl (RuntimeError ''Household already initialized''))
      else case (public_key_to_did (ed_public L root_key), public_key_to_did (ed_public L dev_key),
                 shamir_split rnd (byte_ints (secret_bytes L root_key)) 3 2) of
          (Inl e, _, _) \<Rightarrow> (h, Inl e)
        | (_, Inl e, _) \<Rightarrow> (h, Inl e)
        | (_, _, Inl e) \<Rightarrow> (h, Inl e)
        | (Inr root_did, Inr dev_did, Inr shares) \<Rightarrow>
            let h1 = h\<lparr>file_shares := shares, file_device_key := Some (save_keypair L [] [] dev_key None)\<rparr>;
                membership = build_household_membership L now nnc root_key root_did dev_did
            in (case store_token L now (hh_tokens h1) membership of
                  Inl e \<Rightarrow> (h1, Inl e)
                | Inr (st, c) \<Rightarrow>
                    let rec = \<lparr>dv_did = dev_did, dv_name = name, dv_platform = platform,
                          dv_paired_at = now, dv_membership = membership, dv_is_self = True\<rparr>;
                        h2 = h1\<lparr>hh_tokens := st, hh_root_key := Some root_key,
                          hh_device_key := Some dev_key, hh_root_did := Some root_did,
                          hh_device_did := Some dev_did, hh_membership := Some membership,
                          hh_membership_cid := Some c, hh_devices := dset dev_did rec (hh_devices h1)\<rparr>
                    in (save_household L h2, Inr (root_did, dev_did))))"

fun load_devices ::
    "('k, 'z) lib_scheme \<Rightarrow> real \<Rightarrow> device_record list \<Rightarrow> 'k household \<Rightarrow> ('k, unit) hh_result" where
  "load_devices L now [] h = (h, Inr ())"
| "load_devices L now (r # rs) h =
     (case store_token L now (hh_tokens h) (dv_membership r) of
        Inl e \<Rightarrow> (h, Inl e)
      | Inr (st, c) \<Rightarrow>
          load_devices L now rs
            (if dv_is_self r
             then h\<lparr>hh_tokens := st, hh_membership := Some (dv_membership r), hh_membership_cid := Some c\<rparr>
             else h\<lparr>hh_tokens := st\<rparr>))"

fun load_agents ::
    "('k, 'z) lib_scheme \<Rightarrow> real \<Rightarrow> agent_record list \<Rightarrow> 'k household \<Rightarrow> ('k, unit) hh_result" where
  "load_agents L now [] h = (h, Inr ())"
| "load_agents L now (r # rs) h =
     (if truthy (ag_token r) then
        (case store_token L now (hh_tokens h) (or_empty (ag_token r)) of
           Inl e \<Rightarrow> (h, Inl e)
         | Inr (st, c) \<Rightarrow> load_agents L now rs (h\<lparr>hh_tokens := st\<rparr>))
      else load_agents L now rs h)"

definition hh_load :: "('k, 'z) key_lib_scheme \<Rightarrow> real \<Rightarrow> 'k household \<Rightarrow> ('k, unit) hh_result" where
  "hh_load L now h =
     (case file_manifest h of
        None \<Rightarrow> (h, Inl (RuntimeError ''Household not initialized''))
      | Some m \<Rightarrow>
          let h1 = h\<lparr>hh_root_did := mf_root_did m, hh_device_did := mf_device_did m\<rparr>
          in (case bindE (from_option (LibError ''FileNotFoundError'') (file_device_key h1))
                     (\<lambda>kf. load_keypair L kf None) of
                Inl e \<Rightarrow> (h1, Inl e)
              | Inr dk \<Rightarrow>
                  let h2 = h1\<lparr>hh_device_key := Some dk, hh_devices := mf_devices m,
                             hh_agents := mf_agents m, hh_revocations := mf_revocations m\<rparr>
                  in (case load_devices L now (map snd (hh_devices h2)) h2 of
                        (h3, Inl e) \<Rightarrow> (h3, Inl e)
                      | (h3, Inr _) \<Rightarrow> load_agents L now (map snd (hh_agents h3)) h3)))"

definition agent_caps :: "capability list" where
  "agent_caps =
     [\<lparr>resource = ''*'', ability = ''aries/agent.invoke''\<rparr>,
      \<lparr>resource = ''aries:context://*'', ability = ''aries/context.read''\<rparr>,
      \<lparr>resource = ''aries:context://*'', ability = ''aries/context.write''\<rparr>]"

text \<open>\<open>register_agent\<close>; the arguments of the call are the fields of \<open>spec\<close> (DID, time and token unset).\<close>

definition hh_register_agent ::
    "('k, 'z) key_lib_scheme \<Rightarrow> real \<Rightarrow> string \<Rightarrow> 'k \<Rightarrow> 'k household \<Rightarrow> agent_record
      \<Rightarrow> ('k, agent_record) hh_result" where
  "hh_register_agent L now nnc agent_key h spec =
     (case (hh_device_key h, truthy (hh_device_did h)) of
        (Some dk, True) \<Rightarrow>
          if \<not> truthy (hh_membership_cid h)
          then (h, Inl (RuntimeError ''Membership UCAN missing; reload household''))
          else (case public_key_to_did (ed_public L agent_key) of
              Inl e \<Rightarrow> (h, Inl e)
            | Inr agent_did \<Rightarrow>
                let token = build_agent_token L now nnc dk (or_empty (hh_device_did h)) agent_did
                      agent_caps 86400 (hh_membership_cid h) []
                in (case store_token L now (hh_tokens h) token of
                      Inl e \<Rightarrow> (h, Inl e)
                    | Inr (st, c) \<Rightarrow>
                        let rec = spec\<lparr>ag_did := agent_did, ag_registered_at := now, ag_token := Some token\<rparr>;
                            h1 = h\<lparr>hh_tokens := st, hh_agents := dset agent_did rec (hh_agents h)\<rparr>
                        in (save_household L h1, Inr rec)))
      | _ \<Rightarrow> (h, Inl (RuntimeError ''Household not loaded; cannot register agent'')))"

definition hh_revoke :: "('k, 'z) lib_scheme \<Rightarrow> real \<Rightarrow> 'k household \<Rightarrow> did \<Rightarrow> string \<Rightarrow> ('k, unit) hh_result" where
  "hh_revoke L now h did reason =
     (if \<not> truthy (hh_root_did h) then (h, Inl (RuntimeError ''Household not loaded''))
      else let entry = \<lparr>rv_did = did, rv_at = now,
                 rv_signed_by = (if truthy (hh_device_did h) then or_empty (hh_device_did h) else or_empty (hh_root_did h)),
                 rv_reason = reason\<rparr>;
               h1 = h\<lparr>hh_revocations := hh_revocations h @ [entry], hh_agents := dpop did (hh_agents h),
                      hh_devices := dpop did (hh_devices h)\<rparr>
           in (save_household L h1, Inr ()))"

definition revoked_dids :: "'k household \<Rightarrow> did list" where
  "revoked_dids h = map rv_did (hh_revocations h)"

text \<open>\<open>start_pairing\<close>: six random words.\<close>

definition hh_start_pairing ::
    "('k, 'z) lib_scheme \<Rightarrow> real \<Rightarrow> nat list \<Rightarrow> int \<Rightarrow> 'k household \<Rightarrow> ('k, pairing_offer) hh_result" where
  "hh_start_pairing L now draws ttl h =
     (if \<not> truthy (hh_root_did h) \<or> hh_device_key h = None
      then (h, Inl (RuntimeError ''Household not loaded; cannot start pairing''))
      else let code = join_words (map (\<lambda>i. BIP39_256 ! i) draws);
               offer = \<lparr>of_code = code, of_code_hash = sha256_hex L (encode_str code),
                        of_created_at = now, of_expires_at = now + of_int ttl\<rparr>
           in (h\<lparr>hh_offer := Some offer\<rparr>, Inr offer))"

definition hh_accept_pairing ::
    "('k, 'z) lib_scheme \<Rightarrow> real \<Rightarrow> string \<Rightarrow> 'k household \<Rightarrow> did \<Rightarrow> string \<Rightarrow> string \<Rightarrow> string
      \<Rightarrow> ('k, string) hh_result" where
  "hh_accept_pairing L now nnc h cand name platform code =
     (case hh_offer h of
        None \<Rightarrow> (h, Inl (RuntimeError ''No pending pairing offer''))
      | Some offer \<Rightarrow>
          if now > of_expires_at offer then (h\<lparr>hh_offer := None\<rparr>, Inl (RuntimeError ''Pairing offer expired''))
          else if sha256_hex L (encode_str code) \<noteq> of_code_hash offer
          then (h, Inl (RuntimeError ''Pairing code mismatch''))
          else (case hh_root_key h of
              None \<Rightarrow> (h, Inl (RuntimeError ''Cannot issue membership: this device does not hold the root key''))
            | Some rk \<Rightarrow>
                let membership = build_household_membership L now nnc rk (or_empty (hh_root_did h)) cand
                in (case store_token L now (hh_tokens h) membership of
                      Inl e \<Rightarrow> (h, Inl e)
                    | Inr (st, c) \<Rightarrow>
                        let rec = \<lparr>dv_did = cand, dv_name = name, dv_platform = platform, dv_paired_at = now,
                              dv_membership = membership, dv_is_self = False\<rparr>;
                            h1 = h\<lparr>hh_tokens := st, hh_devices := dset cand rec (hh_devices h), hh_offer := None\<rparr>
                        in (save_household L h1, Inr membership))))"

definition hh_initialize_joiner ::
    "('k, 'z) key_lib_scheme \<Rightarrow> 'k \<Rightarrow> 'k household \<Rightarrow> ('k, did) hh_result" where
  "hh_initialize_joiner L dev_key h =
     (if file_manifest h \<noteq> None then (h, Inl (RuntimeError ''Household already initialized''))
      else let h1 = h\<lparr>hh_device_key := Some dev_key\<rparr>
           in (case public_key_to_did (ed_public L dev_key) of
                 Inl e \<Rightarrow> (h1, Inl e)
               | Inr d \<Rightarrow> (h1\<lparr>hh_device_did := Some d,
                              file_device_key := Some (save_keypair L [] [] dev_key None)\<rparr>, Inr d)))"

definition hh_complete_joining ::
    "('k, 'z) lib_scheme \<Rightarrow> real \<Rightarrow> 'k household \<Rightarrow> string \<Rightarrow> string \<Rightarrow> string
      \<Rightarrow> ('k, did \<times> did) hh_result" where
  "hh_complete_joining L now h jwt name platform =
     (case (hh_device_key h, hh_device_did h) of
        (Some dk, Some dd) \<Rightarrow>
          (case decode_token L now jwt of
             Inl e \<Rightarrow> (h, Inl e)
           | Inr t \<Rightarrow>
               if audience t \<noteq> dd then (h, Inl (RuntimeError ''Membership audience != this device''))
               else let h1 = h\<lparr>hh_root_did := Some (issuer t), hh_membership := Some jwt\<rparr>
                    in (case store_token L now (hh_tokens h1) jwt of
                          Inl e \<Rightarrow> (h1, Inl e)
                        | Inr (st, c) \<Rightarrow>
                            let rec = \<lparr>dv_did = dd, dv_name = name, dv_platform = platform, dv_paired_at = now,
                                  dv_membership = jwt, dv_is_self = True\<rparr>;
                                h2 = h1\<lparr>hh_tokens := st, hh_membership_cid := Some c,
                                       hh_devices := dset dd rec (hh_devices h1)\<rparr>
                            in if issuer t = [] then (save_household L h2, Inl (RuntimeError ''Household not initialized''))
                               else (save_household L h2, Inr (issuer t, dd))))
      | _ \<Rightarrow> (h, Inl (RuntimeError ''initialize_joiner must run first'')))"

subsection \<open>Reachable households\<close>

datatype 'k hh_op =
    Initialize real string "nat \<Rightarrow> nat \<Rightarrow> int" 'k 'k string string
  | Load real
  | RegisterAgent real string 'k agent_record
  | Revoke real did string
  | StartPairing real "nat list" int
  | AcceptPairing real string did string string string
  | InitializeJoiner 'k
  | CompleteJoining real string string string
  | Restart

fun hh_step :: "('k, 'z) key_lib_scheme \<Rightarrow> 'k hh_op \<Rightarrow> 'k household \<Rightarrow> 'k household" where
  "hh_step L (Initialize now nnc rnd rk dk name pl) h = fst (hh_initialize L now nnc rnd rk dk h name pl)"
| "hh_step L (Load now) h = fst (hh_load L now h)"
| "hh_step L (RegisterAgent now nnc ak spec) h = fst (hh_register_agent L now nnc ak h spec)"
| "hh_step L (Revoke now d reason) h = fst (hh_revoke L now h d reason)"
| "hh_step L (StartPairing now draws ttl) h = fst (hh_start_pairing L now draws ttl h)"
| "hh_step L (AcceptPairing now nnc cand name pl code) h = fst (hh_accept_pairing L now nnc h cand name pl code)"
| "hh_step L (InitializeJoiner dk) h = fst (hh_initialize_joiner L dk h)"
| "hh_step L (CompleteJoining now jwt name pl) h = fst (hh_complete_joining L now h jwt name pl)"
| "hh_step L Restart h = reopen h"

inductive hh_reach :: "('k, 'z) key_lib_scheme \<Rightarrow> 'k household \<Rightarrow> bool" for L where
  empty_directory: "hh_reach L (open_household None None [])"
| operation: "hh_reach L h \<Longrightarrow> hh_reach L (hh_step L op h)"

subsection \<open>Tokens that decode\<close>

definition decodable :: "('k, 'z) lib_scheme \<Rightarrow> string \<Rightarrow> bool" where
  "decodable L tok \<longleftrightarrow> (\<exists>t. decode_token L 0 tok = Inr t)"

lemma decode_claims_any_time:
  assumes "decode_claims now p = Inr t" shows "\<exists>t'. decode_claims now' p = Inr t'"
proof -
  have "as_float (dgetd p ''nbf'' (VFloat now)) = Inr x \<Longrightarrow> \<exists>y. as_float (dgetd p ''nbf'' (VFloat now')) = Inr y" for x
    by (auto simp: dgetd_def split: option.splits)
  then show ?thesis using assms unfolding decode_claims_def bindE_eq_Inr_iff by metis
qed

lemma decode_any_time:
  assumes "decode_token L now tok = Inr t"
  shows "\<exists>t'. decode_token L now' tok = Inr t'"
proof -
  obtain p0 p1 p2 where s: "split_on (CHR ''.'') tok = [p0, p1, p2]"
    using assms by (auto simp: decode_token_def split: list.splits)
  show ?thesis
    using assms decode_claims_any_time[where now = now and now' = now']
    by (fastforce simp: decode_token_def s bindE_eq_Inr_iff split: if_splits)
qed

lemma decodable_iff: "decodable L tok \<longleftrightarrow> (\<exists>t. decode_token L now tok = Inr t)"
  unfolding decodable_def using decode_any_time by metis

lemma decode_raw: "decode_token L now tok = Inr t \<Longrightarrow> raw_token t = Some tok \<and> tok \<noteq> []"
  by (auto simp: decode_token_def bindE_eq_Inr_iff split: list.splits if_splits)

lemma store_token_iff: "(\<exists>st' c. store_token L now st tok = Inr (st', c)) \<longleftrightarrow> decodable L tok"
proof -
  have "decode_token L now tok = Inr t \<Longrightarrow> \<exists>c. cid L t = Inr c" for t
    using decode_raw[of L now tok t] by (simp add: cid_def)
  then show ?thesis
    by (fastforce simp: store_token_def bindE_eq_Inr_iff decodable_iff[of L tok now])
qed

lemma store_token_decodable: "store_token L now st tok = Inr (st', c) \<Longrightarrow> decodable L tok"
  using store_token_iff by blast

lemma store_token_decoded:
  "decode_token L now tok = Inr t \<Longrightarrow> \<exists>st' c. store_token L now st tok = Inr (st', c)"
  using store_token_iff decodable_iff by blast

subsection \<open>The invariant\<close>

definition records_ok ::
    "('k, 'z) lib_scheme \<Rightarrow> (did \<times> device_record) list \<Rightarrow> (did \<times> agent_record) list \<Rightarrow> did option \<Rightarrow> bool" where
  "records_ok L devs ags self \<longleftrightarrow>
     distinct (dkeys devs) \<and> distinct (dkeys ags)
     \<and> (\<forall>(d, r) \<in> set devs. dv_did r = d \<and> decodable L (dv_membership r) \<and> (dv_is_self r \<longrightarrow> self = Some d))
     \<and> (\<forall>(d, r) \<in> set ags. ag_did r = d \<and> truthy (ag_token r) \<and> decodable L (or_empty (ag_token r)))"

lemma records_empty [simp]: "records_ok L [] [] self"
  by (simp add: records_ok_def)

lemma records_device:
  "records_ok L devs ags self \<Longrightarrow> dv_did r = d \<Longrightarrow> decodable L (dv_membership r) \<Longrightarrow>
     (dv_is_self r \<Longrightarrow> self = Some d) \<Longrightarrow> records_ok L (dset d r devs) ags self"
  using set_dset_sub[of d r devs] by (auto simp: records_ok_def)

lemma records_agent:
  "records_ok L devs ags self \<Longrightarrow> ag_did r = d \<Longrightarrow> truthy (ag_token r) \<Longrightarrow> decodable L (or_empty (ag_token r)) \<Longrightarrow>
     records_ok L devs (dset d r ags) self"
  using set_dset_sub[of d r ags] by (auto simp: records_ok_def)

lemma records_pop: "records_ok L devs ags self \<Longrightarrow> records_ok L (dpop d devs) (dpop d ags) self"
  using set_dpop_sub[of d devs] set_dpop_sub[of d ags] by (auto simp: records_ok_def)

text \<open>
  In memory and in the file, the records are well-formed; the key file holds the device key; and
  either nothing is loaded yet, or memory and manifest agree.
\<close>

definition unloaded :: "'k household \<Rightarrow> bool" where
  "unloaded h \<longleftrightarrow> hh_devices h = [] \<and> hh_agents h = [] \<and> hh_revocations h = [] \<and> hh_root_key h = None
     \<and> hh_device_key h = None \<and> hh_root_did h = None \<and> hh_device_did h = None \<and> hh_offer h = None
     \<and> hh_membership_cid h = None"

definition file_agrees :: "('k, 'z) lib_scheme \<Rightarrow> 'k household \<Rightarrow> bool" where
  "file_agrees L h = (case file_manifest h of
       None \<Rightarrow> hh_devices h = [] \<and> hh_agents h = [] \<and> hh_revocations h = []
     | Some m \<Rightarrow> m = manifest_of L h)"

definition hh_inv :: "('k, 'z) key_lib_scheme \<Rightarrow> 'k household \<Rightarrow> bool" where
  "hh_inv L h \<longleftrightarrow>
     records_ok L (hh_devices h) (hh_agents h) (hh_device_did h)
     \<and> (\<forall>m. file_manifest h = Some m \<longrightarrow> records_ok L (mf_devices m) (mf_agents m) (mf_device_did m)
           \<and> mf_tag m = tag_field L (mf_root_did m)
           \<and> (\<exists>kf dk. file_device_key h = Some kf \<and> load_keypair L kf None = Inr dk))
     \<and> (\<forall>dk. hh_device_key h = Some dk \<longrightarrow>
           (\<exists>kf. file_device_key h = Some kf \<and> load_keypair L kf None = Inr dk))
     \<and> (hh_root_did h \<noteq> None \<or> hh_root_key h \<noteq> None \<longrightarrow> hh_device_key h \<noteq> None)
     \<and> (unloaded h \<or> file_agrees L h)"

lemma inv_unloaded_file: "hh_inv L h \<Longrightarrow> unloaded h \<or> file_agrees L h"
  by (simp add: hh_inv_def)

lemma reopen_unloaded [simp]: "unloaded (reopen h)"
  by (simp add: reopen_def open_household_def unloaded_def)

lemma reopen_files [simp]:
  "file_manifest (reopen h) = file_manifest h" "file_device_key (reopen h) = file_device_key h"
  "hh_devices (reopen h) = []" "hh_agents (reopen h) = []" "hh_device_key (reopen h) = None"
  "hh_root_key (reopen h) = None" "hh_offer (reopen h) = None" "hh_root_did (reopen h) = None"
  by (simp_all add: reopen_def open_household_def)

lemma reopen_inv: "hh_inv L h \<Longrightarrow> hh_inv L (reopen h)"
  by (simp add: hh_inv_def)

text \<open>Saving makes file and memory agree.\<close>

lemma saved_inv:
  assumes "records_ok L (hh_devices h) (hh_agents h) (hh_device_did h)"
    and "hh_device_key h = Some dk" "file_device_key h = Some kf" "load_keypair L kf None = Inr dk"
  shows "hh_inv L (save_household L h)"
  using assms by (simp add: hh_inv_def save_household_def file_agrees_def manifest_of_def)

lemma load_devices_ok:
  "\<forall>r \<in> set rs. decodable L (dv_membership r) \<Longrightarrow>
     \<exists>st mem c. load_devices L now rs h
        = (h\<lparr>hh_tokens := st, hh_membership := mem, hh_membership_cid := c\<rparr>, Inr ())"
proof (induction rs arbitrary: h)
  case Nil
  have "h = h\<lparr>hh_tokens := hh_tokens h, hh_membership := hh_membership h, hh_membership_cid := hh_membership_cid h\<rparr>"
    by simp
  then show ?case by (metis load_devices.simps(1))
next
  case (Cons r rs)
  then obtain st c where s: "store_token L now (hh_tokens h) (dv_membership r) = Inr (st, c)"
    using store_token_iff[of L now "hh_tokens h" "dv_membership r"] by auto
  define h1 where "h1 = (if dv_is_self r
      then h\<lparr>hh_tokens := st, hh_membership := Some (dv_membership r), hh_membership_cid := Some c\<rparr>
      else h\<lparr>hh_tokens := st\<rparr>)"
  obtain st' mem c' where "load_devices L now rs h1
      = (h1\<lparr>hh_tokens := st', hh_membership := mem, hh_membership_cid := c'\<rparr>, Inr ())"
    using Cons.IH[of h1] Cons.prems by auto
  moreover have "h1\<lparr>hh_tokens := st', hh_membership := mem, hh_membership_cid := c'\<rparr>
      = h\<lparr>hh_tokens := st', hh_membership := mem, hh_membership_cid := c'\<rparr>"
    by (simp add: h1_def)
  ultimately show ?case using s by (auto simp: h1_def)
qed

lemma load_agents_ok:
  "\<forall>r \<in> set rs. truthy (ag_token r) \<longrightarrow> decodable L (or_empty (ag_token r)) \<Longrightarrow>
     \<exists>st. load_agents L now rs h = (h\<lparr>hh_tokens := st\<rparr>, Inr ())"
proof (induction rs arbitrary: h)
  case Nil
  have "h = h\<lparr>hh_tokens := hh_tokens h\<rparr>" by simp
  then show ?case by (metis load_agents.simps(1))
next
  case (Cons r rs)
  show ?case
  proof (cases "truthy (ag_token r)")
    case True
    then obtain st c where s: "store_token L now (hh_tokens h) (or_empty (ag_token r)) = Inr (st, c)"
      using Cons.prems store_token_iff[of L now "hh_tokens h" "or_empty (ag_token r)"] by auto
    from Cons.IH[of "h\<lparr>hh_tokens := st\<rparr>"] Cons.prems s True show ?thesis by auto
  next
    case False
    with Cons.IH[of h] Cons.prems show ?thesis by auto
  qed
qed

text \<open>Loading succeeds and brings back what the manifest holds.\<close>

lemma load_restores:
  assumes inv: "hh_inv L h" and m: "file_manifest h = Some m"
  shows "\<exists>dk st mem c. hh_load L now h = (h\<lparr>hh_root_did := mf_root_did m, hh_device_did := mf_device_did m,
      hh_device_key := Some dk, hh_devices := mf_devices m, hh_agents := mf_agents m,
      hh_revocations := mf_revocations m, hh_tokens := st, hh_membership := mem, hh_membership_cid := c\<rparr>, Inr ())
    \<and> (\<exists>kf. file_device_key h = Some kf \<and> load_keypair L kf None = Inr dk)"
proof -
  from inv m obtain kf dk where k: "file_device_key h = Some kf" "load_keypair L kf None = Inr dk"
    and r: "records_ok L (mf_devices m) (mf_agents m) (mf_device_did m)"
    by (auto simp: hh_inv_def)
  define h2 where "h2 = h\<lparr>hh_root_did := mf_root_did m, hh_device_did := mf_device_did m,
      hh_device_key := Some dk, hh_devices := mf_devices m, hh_agents := mf_agents m,
      hh_revocations := mf_revocations m\<rparr>"
  have "\<forall>r \<in> set (map snd (hh_devices h2)). decodable L (dv_membership r)"
    using r by (auto simp: h2_def records_ok_def)
  from load_devices_ok[OF this, of now h2] obtain st mem c where
    d: "load_devices L now (map snd (hh_devices h2)) h2
        = (h2\<lparr>hh_tokens := st, hh_membership := mem, hh_membership_cid := c\<rparr>, Inr ())" by blast
  define h3 where "h3 = h2\<lparr>hh_tokens := st, hh_membership := mem, hh_membership_cid := c\<rparr>"
  have "\<forall>r \<in> set (map snd (hh_agents h3)). truthy (ag_token r) \<longrightarrow> decodable L (or_empty (ag_token r))"
    using r by (auto simp: h3_def h2_def records_ok_def)
  from load_agents_ok[OF this, of now h3] obtain st' where
    a: "load_agents L now (map snd (hh_agents h3)) h3 = (h3\<lparr>hh_tokens := st'\<rparr>, Inr ())" by blast
  have "hh_load L now h = (h3\<lparr>hh_tokens := st'\<rparr>, Inr ())"
    using m k d a by (simp add: hh_load_def Let_def h2_def[symmetric] h3_def[symmetric])
  moreover have "h3\<lparr>hh_tokens := st'\<rparr> = h\<lparr>hh_root_did := mf_root_did m, hh_device_did := mf_device_did m,
      hh_device_key := Some dk, hh_devices := mf_devices m, hh_agents := mf_agents m,
      hh_revocations := mf_revocations m, hh_tokens := st', hh_membership := mem, hh_membership_cid := c\<rparr>"
    by (simp add: h3_def h2_def)
  ultimately show ?thesis using k by metis
qed

lemma load_inv:
  assumes "hh_inv L h"
  shows "hh_inv L (fst (hh_load L now h))"
proof (cases "file_manifest h")
  case None
  with assms show ?thesis by (simp add: hh_load_def)
next
  case (Some m)
  from load_restores[OF assms Some, of now] obtain dk st mem c where
    l: "hh_load L now h = (h\<lparr>hh_root_did := mf_root_did m, hh_device_did := mf_device_did m,
      hh_device_key := Some dk, hh_devices := mf_devices m, hh_agents := mf_agents m,
      hh_revocations := mf_revocations m, hh_tokens := st, hh_membership := mem, hh_membership_cid := c\<rparr>, Inr ())"
    and k: "\<exists>kf. file_device_key h = Some kf \<and> load_keypair L kf None = Inr dk" by blast
  have "records_ok L (mf_devices m) (mf_agents m) (mf_device_did m)" "mf_tag m = tag_field L (mf_root_did m)"
    using assms Some by (simp_all add: hh_inv_def)
  then show ?thesis using Some k by (auto simp: l hh_inv_def file_agrees_def manifest_of_def)
qed

lemma inv_records: "hh_inv L h \<Longrightarrow> records_ok L (hh_devices h) (hh_agents h) (hh_device_did h)"
  by (simp add: hh_inv_def)

lemma inv_key:
  "hh_inv L h \<Longrightarrow> hh_device_key h = Some dk \<Longrightarrow> \<exists>kf. file_device_key h = Some kf \<and> load_keypair L kf None = Inr dk"
  by (simp add: hh_inv_def)

lemma inv_empty: "hh_inv L h \<Longrightarrow> file_manifest h = None \<Longrightarrow> hh_devices h = [] \<and> hh_agents h = [] \<and> hh_revocations h = []"
  by (auto simp: hh_inv_def unloaded_def file_agrees_def)

lemma plain_key_file: "keys_ok L \<Longrightarrow> load_keypair L (save_keypair L s n k None) None = Inr k"
  by (rule load_plain) simp_all

text \<open>
  What is relied on besides the key functions: JSON reads the text it wrote, so that a membership
  token just built can be decoded.
\<close>

definition memberships_decode :: "('k, 'z) key_lib_scheme \<Rightarrow> bool" where
  "memberships_decode L \<longleftrightarrow> (\<forall>now nnc k rd dd. decodable L (build_household_membership L now nnc k rd dd))"

definition hh_lib_ok :: "('k, 'z) key_lib_scheme \<Rightarrow> bool" where
  "hh_lib_ok L \<longleftrightarrow> keys_ok L \<and> ed25519_ok L \<and> memberships_decode L"

lemma split_3_2: "\<exists>shares. shamir_split rnd secret 3 2 = Inr shares"
  by (simp add: shamir_split_def)

lemma key_has_did: "ed25519_ok L \<Longrightarrow> \<exists>d. public_key_to_did (ed_public L k) = Inr d"
  by (simp add: ed25519_ok_def public_key_to_did_def)

text \<open>What a successful \<open>initialize\<close> leaves behind.\<close>

definition founder_record :: "real \<Rightarrow> did \<Rightarrow> string \<Rightarrow> string \<Rightarrow> string \<Rightarrow> device_record" where
  "founder_record now dd name pl mem =
     \<lparr>dv_did = dd, dv_name = name, dv_platform = pl, dv_paired_at = now, dv_membership = mem, dv_is_self = True\<rparr>"

definition founded ::
    "('k, 'z) key_lib_scheme \<Rightarrow> 'k household \<Rightarrow> 'k \<Rightarrow> 'k \<Rightarrow> did \<Rightarrow> device_record \<Rightarrow> share list \<Rightarrow> ucan_store
      \<Rightarrow> string \<Rightarrow> 'k household" where
  "founded L h rk dk rd r sh st c = save_household L
     (h\<lparr>file_shares := sh, file_device_key := Some (save_keypair L [] [] dk None), hh_tokens := st,
        hh_root_key := Some rk, hh_device_key := Some dk, hh_root_did := Some rd,
        hh_device_did := Some (dv_did r), hh_membership := Some (dv_membership r),
        hh_membership_cid := Some c, hh_devices := dset (dv_did r) r (hh_devices h)\<rparr>)"

lemma initialize_result:
  assumes ok: "hh_lib_ok L" and m: "file_manifest h = None"
  obtains rd dd sh st c where
    "public_key_to_did (ed_public L rk) = Inr rd" "public_key_to_did (ed_public L dk) = Inr dd"
    "shamir_split rnd (byte_ints (secret_bytes L rk)) 3 2 = Inr sh"
    "store_token L now (hh_tokens h) (build_household_membership L now nnc rk rd dd) = Inr (st, c)"
    "hh_initialize L now nnc rnd rk dk h name pl
      = (founded L h rk dk rd (founder_record now dd name pl (build_household_membership L now nnc rk rd dd)) sh st c,
         Inr (rd, dd))"
proof -
  from ok have e: "ed25519_ok L" by (simp add: hh_lib_ok_def)
  from key_has_did[OF e, of rk] obtain rd where rd: "public_key_to_did (ed_public L rk) = Inr rd" ..
  from key_has_did[OF e, of dk] obtain dd where dd: "public_key_to_did (ed_public L dk) = Inr dd" ..
  obtain sh where sh: "shamir_split rnd (byte_ints (secret_bytes L rk)) 3 2 = Inr sh" using split_3_2 by blast
  define mem where "mem = build_household_membership L now nnc rk rd dd"
  have "decodable L mem" using ok by (simp add: hh_lib_ok_def memberships_decode_def mem_def)
  then obtain st c where st: "store_token L now (hh_tokens h) mem = Inr (st, c)"
    using store_token_iff by blast
  have "hh_initialize L now nnc rnd rk dk h name pl
      = (founded L h rk dk rd (founder_record now dd name pl mem) sh st c, Inr (rd, dd))"
    using m rd dd sh st
    by (simp add: hh_initialize_def Let_def mem_def[symmetric] founded_def founder_record_def)
  with rd dd sh st that show ?thesis unfolding mem_def by blast
qed

lemma founded_inv:
  assumes "keys_ok L" and "records_ok L (dset (dv_did r) r (hh_devices h)) (hh_agents h) (Some (dv_did r))"
  shows "hh_inv L (founded L h rk dk rd r sh st c)"
  unfolding founded_def
  by (rule saved_inv[where dk = dk and kf = "save_keypair L [] [] dk None"])
    (use assms in \<open>simp_all add: plain_key_file\<close>)

lemma initialize_inv:
  assumes inv: "hh_inv L h" and ok: "hh_lib_ok L"
  shows "hh_inv L (fst (hh_initialize L now nnc rnd rk dk h name pl))"
proof (cases "file_manifest h = None")
  case True
  from initialize_result[OF ok True, of rk dk rnd now nnc name pl] obtain rd dd sh st c where
    st: "store_token L now (hh_tokens h) (build_household_membership L now nnc rk rd dd) = Inr (st, c)"
    and i: "hh_initialize L now nnc rnd rk dk h name pl
      = (founded L h rk dk rd (founder_record now dd name pl (build_household_membership L now nnc rk rd dd)) sh st c,
         Inr (rd, dd))" by metis
  have "records_ok L (dset dd (founder_record now dd name pl (build_household_membership L now nnc rk rd dd)) (hh_devices h))
      (hh_agents h) (Some dd)"
    using inv_empty[OF inv True] store_token_decodable[OF st]
    by (intro records_device) (simp_all add: founder_record_def)
  then show ?thesis
    using ok unfolding i fst_conv by (intro founded_inv) (simp_all add: hh_lib_ok_def founder_record_def)
next
  case False
  with inv show ?thesis by (simp add: hh_initialize_def)
qed

lemma inv_file_agrees: "hh_inv L h \<Longrightarrow> hh_device_key h \<noteq> None \<Longrightarrow> file_agrees L h"
  by (auto simp: hh_inv_def unloaded_def)

lemma inv_has_key: "hh_inv L h \<Longrightarrow> hh_root_did h \<noteq> None \<or> hh_root_key h \<noteq> None \<Longrightarrow> \<exists>dk. hh_device_key h = Some dk"
  by (auto simp: hh_inv_def)

text \<open>An operation that changes the records of a loaded household and saves.\<close>

lemma resaved_inv:
  assumes "hh_inv L h" and "hh_device_key h = Some dk"
    and "hh_device_key h' = Some dk" "file_device_key h' = file_device_key h"
    and "records_ok L (hh_devices h') (hh_agents h') (hh_device_did h')"
  shows "hh_inv L (save_household L h')"
  using inv_key[OF assms(1,2)] assms(3-5) by (auto intro: saved_inv)

lemma truthy_simps [simp]: "truthy (Some s) = (s \<noteq> [])" "or_empty (Some s) = s" "\<not> truthy None" "or_empty None = []"
  by (simp_all add: truthy_def or_empty_def)

lemma store_nonempty: "store_token L now st tok = Inr (st', c) \<Longrightarrow> tok \<noteq> []"
  using decode_raw by (fastforce simp: store_token_def bindE_eq_Inr_iff)

lemma register_inv:
  assumes inv: "hh_inv L h"
  shows "hh_inv L (fst (hh_register_agent L now nnc ak h spec))"
proof (cases "hh_device_key h")
  case (Some dk)
  have upd: "hh_inv L (save_household L (h\<lparr>hh_tokens := st, hh_agents := dset d r (hh_agents h)\<rparr>))"
    if "ag_did r = d" "ag_token r = Some tok" "store_token L now (hh_tokens h) tok = Inr (st, c)" for st d r tok c
    using that inv_records[OF inv] store_token_decodable[OF that(3)] store_nonempty[OF that(3)]
    by (intro resaved_inv[OF inv Some]) (simp_all add: Some records_agent)
  show ?thesis
    using inv upd Some by (auto simp: hh_register_agent_def Let_def split: sum.split bool.split)
qed (use inv in \<open>simp add: hh_register_agent_def\<close>)

lemma revoke_inv:
  assumes inv: "hh_inv L h"
  shows "hh_inv L (fst (hh_revoke L now h d reason))"
proof (cases "truthy (hh_root_did h)")
  case True
  then have "hh_root_did h \<noteq> None" by (metis truthy_simps(3))
  then obtain dk where k: "hh_device_key h = Some dk" using inv_has_key[OF inv] by blast
  have "hh_inv L (save_household L (h\<lparr>hh_revocations := rv, hh_agents := dpop d (hh_agents h),
      hh_devices := dpop d (hh_devices h)\<rparr>))" for rv
    using inv_records[OF inv] by (intro resaved_inv[OF inv k]) (simp_all add: k records_pop)
  with True show ?thesis by (simp add: hh_revoke_def Let_def)
qed (use inv in \<open>simp add: hh_revoke_def\<close>)

lemma offer_inv:
  "hh_inv L h \<Longrightarrow> hh_device_key h \<noteq> None \<or> x = None \<Longrightarrow> hh_inv L (h\<lparr>hh_offer := x\<rparr>)"
  by (auto simp: hh_inv_def unloaded_def file_agrees_def manifest_of_def split: option.split)

lemma start_pairing_inv: "hh_inv L h \<Longrightarrow> hh_inv L (fst (hh_start_pairing L now draws ttl h))"
  by (auto simp: hh_start_pairing_def Let_def intro!: offer_inv)

lemma accept_inv:
  assumes inv: "hh_inv L h"
  shows "hh_inv L (fst (hh_accept_pairing L now nnc h cand name pl code))"
proof -
  have upd: "hh_inv L (save_household L (h\<lparr>hh_tokens := st, hh_devices := dset cand r (hh_devices h), hh_offer := None\<rparr>))"
    if "hh_root_key h = Some rk" "dv_did r = cand" "dv_membership r = tok" "\<not> dv_is_self r"
      "store_token L now (hh_tokens h) tok = Inr (st, c)" for rk r tok st c
  proof -
    have "hh_root_key h \<noteq> None" using that(1) by simp
    then obtain dk where k: "hh_device_key h = Some dk" using inv_has_key[OF inv] by blast
    have "records_ok L (dset cand r (hh_devices h)) (hh_agents h) (hh_device_did h)"
      by (rule records_device[OF inv_records[OF inv]]) (use that store_token_decodable[OF that(5)] in simp_all)
    then show ?thesis by (intro resaved_inv[OF inv k]) (simp_all add: k)
  qed
  show ?thesis
    using inv upd by (auto simp: hh_accept_pairing_def Let_def intro: offer_inv split: option.split sum.split)
qed

lemma joiner_inv:
  assumes inv: "hh_inv L h" and ok: "hh_lib_ok L"
  shows "hh_inv L (fst (hh_initialize_joiner L dk h))"
proof (cases "file_manifest h = None")
  case True
  obtain d where d: "public_key_to_did (ed_public L dk) = Inr d"
    using key_has_did[of L dk] ok unfolding hh_lib_ok_def by blast
  have e: "hh_devices h = [] \<and> hh_agents h = [] \<and> hh_revocations h = []" by (rule inv_empty[OF inv True])
  have "load_keypair L (save_keypair L [] [] dk None) None = Inr dk"
    using ok by (simp add: hh_lib_ok_def plain_key_file)
  then show ?thesis
    using True d e by (simp add: hh_initialize_joiner_def hh_inv_def file_agrees_def)
qed (use inv in \<open>simp add: hh_initialize_joiner_def\<close>)

lemma complete_inv:
  assumes inv: "hh_inv L h"
  shows "hh_inv L (fst (hh_complete_joining L now h jwt name pl))"
proof (cases "hh_device_key h")
  case (Some dk)
  have upd: "hh_inv L (save_household L (h\<lparr>hh_root_did := Some rd, hh_membership := Some jwt, hh_tokens := st,
      hh_membership_cid := Some c, hh_devices := dset dd r (hh_devices h)\<rparr>))"
    if "hh_device_did h = Some dd" "dv_did r = dd" "dv_membership r = jwt"
      "store_token L now (hh_tokens h) jwt = Inr (st, c)" for dd r st c rd
    using that inv_records[OF inv] store_token_decodable[OF that(4)]
    by (intro resaved_inv[OF inv Some]) (simp_all add: Some records_device)
  have "\<exists>st c. store_token L now (hh_tokens h) jwt = Inr (st, c)" if "decode_token L now jwt = Inr t" for t
    using that store_token_decoded by blast
  then show ?thesis
    using inv upd Some
    by (fastforce simp: hh_complete_joining_def Let_def split: option.split sum.split)
qed (use inv in \<open>simp add: hh_complete_joining_def\<close>)

lemma hh_step_inv: "hh_inv L h \<Longrightarrow> hh_lib_ok L \<Longrightarrow> hh_inv L (hh_step L op h)"
  by (cases op) (simp_all add: initialize_inv load_inv register_inv revoke_inv start_pairing_inv accept_inv
      joiner_inv complete_inv reopen_inv)

lemma open_household_inv: "hh_inv L (open_household None None [])"
  by (simp add: hh_inv_def open_household_def unloaded_def)

lemma hh_reach_inv: "hh_reach L h \<Longrightarrow> hh_lib_ok L \<Longrightarrow> hh_inv L h"
  by (induction rule: hh_reach.induct) (simp_all add: hh_step_inv open_household_inv)

subsection \<open>Pairing\<close>

text \<open>A device that holds no root key and has a manifest never gets one.\<close>

definition keyless :: "'k household \<Rightarrow> bool" where
  "keyless h \<longleftrightarrow> hh_root_key h = None \<and> file_manifest h \<noteq> None"

lemma load_devices_keyless: "keyless (fst (load_devices L now rs h)) = keyless h"
proof (induction rs arbitrary: h)
  case (Cons r rs)
  then show ?case by (auto simp: keyless_def split: sum.split)
qed simp

lemma load_agents_keyless: "keyless (fst (load_agents L now rs h)) = keyless h"
  by (induction rs arbitrary: h) (auto simp: keyless_def split: sum.split)

lemma load_keyless:
  assumes "keyless h"
  shows "keyless (fst (hh_load L now h))"
proof -
  have upd: "keyless (h\<lparr>hh_root_did := a, hh_device_did := b\<rparr>)"
    "keyless (h\<lparr>hh_root_did := a, hh_device_did := b, hh_device_key := c, hh_devices := d, hh_agents := e,
        hh_revocations := f\<rparr>)" for a b c d e f
    using assms by (simp_all add: keyless_def)
  show ?thesis
    using assms upd load_devices_keyless[of L now] load_agents_keyless[of L now]
    by (fastforce simp: hh_load_def Let_def split: option.split sum.split prod.split dest: arg_cong[of _ _ fst])
qed

lemma keyless_step: "keyless h \<Longrightarrow> keyless (hh_step L op h)"
proof (cases op)
  case (Load now)
  then show "keyless h \<Longrightarrow> ?thesis" by (simp add: load_keyless)
qed (auto simp: keyless_def hh_initialize_def hh_register_agent_def hh_revoke_def hh_start_pairing_def
      hh_accept_pairing_def hh_initialize_joiner_def hh_complete_joining_def save_household_def Let_def
      split: option.split sum.split bool.split)

lemma keyless_steps: "keyless h \<Longrightarrow> keyless (fold (hh_step L) ops h)"
  by (induction ops arbitrary: h) (simp_all add: keyless_step)

lemma keyless_refuses: "keyless h \<Longrightarrow> snd (hh_accept_pairing L now nnc h cand name pl code) \<noteq> Inr jwt"
  by (auto simp: keyless_def hh_accept_pairing_def split: option.split)

text \<open>When a request is accepted, and what it changes.\<close>

lemma accept_iff:
  assumes "memberships_decode L"
  shows "(\<exists>jwt. snd (hh_accept_pairing L now nnc h cand name pl code) = Inr jwt) \<longleftrightarrow>
     (\<exists>offer rk. hh_offer h = Some offer \<and> now \<le> of_expires_at offer
        \<and> sha256_hex L (encode_str code) = of_code_hash offer \<and> hh_root_key h = Some rk)"
proof -
  have "\<exists>st c. store_token L now (hh_tokens h) (build_household_membership L now nnc rk rd cand) = Inr (st, c)" for rk rd
    using assms store_token_iff unfolding memberships_decode_def by blast
  note s = this
  show ?thesis
  proof (cases "hh_root_key h")
    case (Some rk)
    from s[of rk "or_empty (hh_root_did h)"] obtain st c where
      "store_token L now (hh_tokens h) (build_household_membership L now nnc rk (or_empty (hh_root_did h)) cand) = Inr (st, c)"
      by blast
    with Some show ?thesis by (cases "hh_offer h") (auto simp: hh_accept_pairing_def Let_def)
  qed (cases "hh_offer h"; simp add: hh_accept_pairing_def)
qed

lemma accept_effect:
  "hh_accept_pairing L now nnc h cand name pl code = (h', Inr jwt) \<Longrightarrow>
     hh_offer h' = None \<and> (\<exists>r. dget (hh_devices h') cand = Some r \<and> dv_membership r = jwt \<and> \<not> dv_is_self r)
     \<and> (\<forall>d. d \<noteq> cand \<longrightarrow> dget (hh_devices h') d = dget (hh_devices h) d)"
  by (auto simp: hh_accept_pairing_def Let_def save_household_def split: option.splits sum.splits if_splits)

lemma accept_failure:
  "hh_accept_pairing L now nnc h cand name pl code = (h', Inl e) \<Longrightarrow>
     h' = h \<or> (h' = h\<lparr>hh_offer := None\<rparr> \<and> (\<exists>offer. hh_offer h = Some offer \<and> of_expires_at offer < now))"
  by (auto simp: hh_accept_pairing_def Let_def split: option.splits sum.splits if_splits)

subsection \<open>The token of a registered agent\<close>

lemma store_signed:
  assumes "json_ok L jwt_header" and "json_ok L (payload t)"
  shows "store_token L now st (snd (sign_token L k t))
      = bindE (cid L (fst (sign_token L k t))) (\<lambda>c. Inr (dset c (snd (sign_token L k t)) st, c))"
  by (simp add: store_token_def decode_signed[OF assms])

lemma cid_signed: "cid L (fst (sign_token L k t)) = Inr (''ucan:'' @ take 32 (sha256_hex L (encode_str (snd (sign_token L k t)))))"
  using sign_token_raw[of L k t] by (simp add: cid_def)

lemma agent_caps_abilities: "\<forall>c \<in> set agent_caps. ability c \<in> set household_abilities"
  by (simp add: agent_caps_def household_abilities_def)

lemma register_result:
  assumes "hh_register_agent L now nnc ak h spec = (h2, Inr rec)" and "hh_device_key h = Some dk"
    and "hh_device_did h = Some dd" and "hh_membership_cid h = Some mc"
  obtains ad st c where "public_key_to_did (ed_public L ak) = Inr ad"
    "store_token L now (hh_tokens h) (build_agent_token L now nnc dk dd ad agent_caps 86400 (Some mc) []) = Inr (st, c)"
    "ag_did rec = ad" "ag_token rec = Some (build_agent_token L now nnc dk dd ad agent_caps 86400 (Some mc) [])"
    "hh_tokens h2 = st" "dget (hh_agents h2) ad = Some rec"
  using assms
  by (auto simp: hh_register_agent_def Let_def save_household_def split: sum.splits bool.splits if_splits)

lemma founded_fields:
  "hh_device_key (founded L h rk dk rd r sh st c) = Some dk" "hh_device_did (founded L h rk dk rd r sh st c) = Some (dv_did r)"
  "hh_membership_cid (founded L h rk dk rd r sh st c) = Some c" "hh_tokens (founded L h rk dk rd r sh st c) = st"
  "file_shares (founded L h rk dk rd r sh st c) = sh" "hh_root_key (founded L h rk dk rd r sh st c) = Some rk"
  "hh_root_did (founded L h rk dk rd r sh st c) = Some rd" "file_manifest (founded L h rk dk rd r sh st c) \<noteq> None"
  by (simp_all add: founded_def save_household_def)

lemma initialize_Inr:
  assumes "hh_initialize L now nnc rnd rk dk h name pl = (h1, Inr (rd, dd))"
  obtains sh st c where
    "public_key_to_did (ed_public L rk) = Inr rd" "public_key_to_did (ed_public L dk) = Inr dd"
    "shamir_split rnd (byte_ints (secret_bytes L rk)) 3 2 = Inr sh"
    "store_token L now (hh_tokens h) (build_household_membership L now nnc rk rd dd) = Inr (st, c)"
    "h1 = founded L h rk dk rd (founder_record now dd name pl (build_household_membership L now nnc rk rd dd)) sh st c"
  using assms
  by (auto simp: hh_initialize_def Let_def founded_def founder_record_def split: sum.splits if_splits)

lemma registered_token_valid:
  assumes L: "ed25519_ok L" "json_ok L jwt_header" "json_ok L (payload (membership_token t0 n0 rd dd))"
      "json_ok L (payload (agent_token t1 n1 dd (ag_did rec) agent_caps 86400 (hh_membership_cid h1) []))"
    and init: "hh_initialize L t0 n0 rnd rk dk h name pl = (h1, Inr (rd, dd))"
    and reg: "hh_register_agent L t1 n1 ak h1 spec = (h2, Inr rec)"
    and diff: "hh_membership_cid h1 \<noteq> Some (''ucan:'' @ take 32 (sha256_hex L (encode_str (or_empty (ag_token rec)))))"
    and time: "t0 \<le> now" "t1 \<le> now" "now \<le> t1 + 86400"
    and live: "rd \<notin> set revoked" "dd \<notin> set revoked" "ag_did rec \<notin> set revoked"
    and req: "list_ex (is_attenuated_by c) agent_caps"
  shows "validate_chain L now (hh_tokens h2) (or_empty (ag_token rec)) rd (Some c) revoked = Inr ()"
proof -
  from init obtain sh st mc where i: "public_key_to_did (ed_public L rk) = Inr rd"
    "public_key_to_did (ed_public L dk) = Inr dd"
    "store_token L t0 (hh_tokens h) (build_household_membership L t0 n0 rk rd dd) = Inr (st, mc)"
    "h1 = founded L h rk dk rd (founder_record t0 dd name pl (build_household_membership L t0 n0 rk rd dd)) sh st mc"
    by (rule initialize_Inr)
  have f: "hh_device_key h1 = Some dk" "hh_device_did h1 = Some dd" "hh_membership_cid h1 = Some mc" "hh_tokens h1 = st"
    by (simp_all add: i(4) founded_fields founder_record_def)
  define m where "m = membership_token t0 n0 rd dd"
  define a where "a = agent_token t1 n1 dd (ag_did rec) agent_caps 86400 (Some mc) []"
  from reg f(1-3) obtain ad st2 c2 where r: "store_token L t1 st (build_agent_token L t1 n1 dk dd ad agent_caps 86400 (Some mc) []) = Inr (st2, c2)"
    "ag_did rec = ad" "ag_token rec = Some (build_agent_token L t1 n1 dk dd ad agent_caps 86400 (Some mc) [])"
    "hh_tokens h2 = st2"
    by (rule register_result) (auto simp: f)
  have at: "or_empty (ag_token rec) = snd (sign_token L dk a)" using r by (simp add: build_agent_token_def a_def)
  have ja: "json_ok L (payload a)" and jm: "json_ok L (payload m)" using L f(3) by (simp_all add: a_def m_def)
  have "mc = ''ucan:'' @ take 32 (sha256_hex L (encode_str (snd (sign_token L rk m))))"
    and st: "dget st mc = Some (snd (sign_token L rk m))"
    using i(3) store_signed[OF L(2) jm, of t0 "hh_tokens h" rk]
    by (auto simp: build_household_membership_def m_def[symmetric] cid_signed)
  then have "mc \<noteq> []" by simp
  moreover have "dget st2 mc = Some (snd (sign_token L rk m))"
    using r(1,2) store_signed[OF L(2) ja, of t1 st dk] st diff f(3) at
    by (auto simp: build_agent_token_def a_def[symmetric] cid_signed)
  ultimately show ?thesis
    unfolding at r(4)
    by (intro agent_chain_valid[OF L(1,2) jm ja m_def a_def i(1,2)]) (use agent_caps_abilities time live req in simp_all)
qed

lemma initialize_runs:
  assumes "file_manifest h = None" and "public_key_to_did (ed_public L rk) = Inr rd"
    and "public_key_to_did (ed_public L dk) = Inr dd"
    and "store_token L now (hh_tokens h) (build_household_membership L now nnc rk rd dd) = Inr (st, c)"
  shows "\<exists>sh. hh_initialize L now nnc rnd rk dk h name pl
    = (founded L h rk dk rd (founder_record now dd name pl (build_household_membership L now nnc rk rd dd)) sh st c,
       Inr (rd, dd))"
  using split_3_2[of rnd "byte_ints (secret_bytes L rk)"] assms
  by (auto simp: hh_initialize_def Let_def founded_def founder_record_def)

lemma register_runs:
  assumes "hh_device_key h = Some dk" "hh_device_did h = Some dd" "dd \<noteq> []"
    and "hh_membership_cid h = Some mc" "mc \<noteq> []" "public_key_to_did (ed_public L ak) = Inr ad"
    and "store_token L now (hh_tokens h) (build_agent_token L now nnc dk dd ad agent_caps 86400 (Some mc) []) = Inr (st, c)"
  shows "\<exists>h2 rec. hh_register_agent L now nnc ak h spec = (h2, Inr rec) \<and> ag_did rec = ad
    \<and> ag_token rec = Some (build_agent_token L now nnc dk dd ad agent_caps 86400 (Some mc) [])"
  using assms by (simp add: hh_register_agent_def Let_def)

lemma restart_loads:
  assumes "hh_reach L h" and "hh_lib_ok L" and "hh_device_key h = Some dk" and "file_manifest h \<noteq> None"
  shows "\<exists>h'. hh_load L now (reopen h) = (h', Inr ()) \<and> hh_devices h' = hh_devices h \<and> hh_agents h' = hh_agents h
     \<and> hh_revocations h' = hh_revocations h \<and> hh_root_did h' = hh_root_did h
     \<and> hh_device_did h' = hh_device_did h \<and> hh_device_key h' = Some dk"
proof -
  have inv: "hh_inv L h" by (rule hh_reach_inv[OF assms(1,2)])
  obtain m where m: "file_manifest h = Some m" using assms(4) by blast
  then have mf: "m = manifest_of L h" using inv_file_agrees[OF inv] assms(3) by (simp add: file_agrees_def)
  have "file_manifest (reopen h) = Some m" using m by simp
  from load_restores[OF reopen_inv[OF inv] this, of now] inv_key[OF inv assms(3)] show ?thesis
    by (auto simp: mf manifest_of_def)
qed

subsection \<open>Concrete households\<close>

text \<open>A JSON reader that always finds the claims of a token, and a household founded with it.\<close>

definition demo_claims :: pyval where
  "demo_claims = VDict [(''ucv'', VStr ''1.0''), (''iss'', VStr (demo_did True)), (''aud'', VStr (demo_did False))]"

definition demo_hh_lib :: "bool key_lib" where
  "demo_hh_lib = demo_keylib\<lparr>json_loads := \<lambda>_. Inr demo_claims\<rparr>"

lemma demo_signed_decodable: "decodable demo_hh_lib (snd (sign_token demo_hh_lib k t))"
proof -
  obtain d where d: "demo_claims = VDict d" "dget d ''ucv'' = Some (VStr ''1.0'')"
    "dget d ''iss'' = Some (VStr (demo_did True))" "dget d ''aud'' = Some (VStr (demo_did False))"
    "dget d ''cap'' = None" "dget d ''cav'' = None" "dget d ''prf'' = None" "dget d ''fct'' = None"
    "dget d ''nbf'' = None" "dget d ''exp'' = None" "dget d ''nnc'' = None"
    by (simp add: demo_claims_def)
  have l: "json_loads demo_hh_lib x = Inr demo_claims" for x by (simp add: demo_hh_lib_def)
  have "\<exists>t. decode_claims 0 d = Inr t"
    using d by (simp add: decode_claims_def dict_item_def get_list_missing dgetd_def)
  then show ?thesis
    using d(2) by (auto simp: decodable_def decode_token_def sign_token_def Let_def signing_input_def
        split_jwt[simplified] b64url_decode_b64url l d(1))
qed

lemma demo_hh_lib_ok: "hh_lib_ok demo_hh_lib"
proof -
  have "memberships_decode demo_hh_lib"
    by (simp add: memberships_decode_def build_household_membership_def demo_signed_decodable)
  moreover have "keys_ok demo_hh_lib" using demo_keys_ok by (simp add: keys_ok_def demo_hh_lib_def)
  moreover have "ed25519_ok demo_hh_lib"
    by (simp add: ed25519_ok_def demo_hh_lib_def demo_keylib_def wire_lib.defs demo_wire_def lib.defs demo_lib_def)
  ultimately show ?thesis by (simp add: hh_lib_ok_def)
qed

definition demo_household :: "bool household" where
  "demo_household = hh_step demo_hh_lib (Initialize 0 ''n'' (\<lambda>q j. 7) True False ''pc'' ''linux'') (open_household None None [])"

lemma demo_household_reach: "hh_reach demo_hh_lib demo_household"
  unfolding demo_household_def by (intro hh_reach.intros)

lemma demo_founded: "\<exists>r sh st c. demo_household = founded demo_hh_lib (open_household None None []) True False (demo_did True) r sh st c
    \<and> dv_did r = demo_did False \<and> dv_is_self r \<and> dv_membership r = build_household_membership demo_hh_lib 0 ''n'' True (demo_did True) (demo_did False)"
proof -
  have k: "public_key_to_did (ed_public demo_hh_lib k) = Inr (demo_did k)" for k
    using demo_did_key[of "[]" k] by (simp add: demo_hh_lib_def demo_keylib_def wire_lib.defs demo_wire_def lib.defs demo_lib_def)
  have "file_manifest (open_household None None [] :: bool household) = None" by (simp add: open_household_def)
  then obtain rd dd sh st c where r: "public_key_to_did (ed_public demo_hh_lib True) = Inr rd"
    "public_key_to_did (ed_public demo_hh_lib False) = Inr dd"
    "hh_initialize demo_hh_lib 0 ''n'' (\<lambda>q j. 7) True False (open_household None None []) ''pc'' ''linux''
      = (founded demo_hh_lib (open_household None None []) True False rd
           (founder_record 0 dd ''pc'' ''linux'' (build_household_membership demo_hh_lib 0 ''n'' True rd dd)) sh st c,
         Inr (rd, dd))"
    by (rule initialize_result[OF demo_hh_lib_ok])
  have "rd = demo_did True" "dd = demo_did False" using r(1,2) k by simp_all
  then show ?thesis
    by (intro exI[where x = "founder_record 0 dd ''pc'' ''linux'' (build_household_membership demo_hh_lib 0 ''n'' True rd dd)"]
        exI[where x = sh] exI[where x = st] exI[where x = c])
      (simp add: demo_household_def r(3) founder_record_def)
qed

lemma demo_household_facts:
  "hh_device_key demo_household = Some False" "hh_root_key demo_household = Some True"
  "file_manifest demo_household \<noteq> None"
proof -
  obtain r sh st c where d: "demo_household = founded demo_hh_lib (open_household None None []) True False (demo_did True) r sh st c"
    using demo_founded by blast
  show "hh_device_key demo_household = Some False" "hh_root_key demo_household = Some True"
    "file_manifest demo_household \<noteq> None" unfolding d by (rule founded_fields)+
qed

lemma demo_initialize:
  "hh_initialize demo_hh_lib 0 ''n'' (\<lambda>q j. 7) True False (open_household None None []) ''pc'' ''linux''
     = (demo_household, Inr (demo_did True, demo_did False))"
proof -
  have k: "public_key_to_did (ed_public demo_hh_lib k) = Inr (demo_did k)" for k
    using demo_did_key[of "[]" k] by (simp add: demo_hh_lib_def demo_keylib_def wire_lib.defs demo_wire_def lib.defs demo_lib_def)
  have "file_manifest (open_household None None [] :: bool household) = None" by (simp add: open_household_def)
  then show ?thesis
  proof (rule initialize_result[OF demo_hh_lib_ok])
    fix rd dd sh st c
    assume "public_key_to_did (ed_public demo_hh_lib True) = Inr rd" "public_key_to_did (ed_public demo_hh_lib False) = Inr dd"
      and i: "hh_initialize demo_hh_lib 0 ''n'' (\<lambda>q j. 7) True False (open_household None None []) ''pc'' ''linux''
        = (founded demo_hh_lib (open_household None None []) True False rd
             (founder_record 0 dd ''pc'' ''linux'' (build_household_membership demo_hh_lib 0 ''n'' True rd dd)) sh st c,
           Inr (rd, dd))"
    then show ?thesis using k by (simp add: demo_household_def)
  qed
qed

text \<open>A library whose JSON reads back the two tokens of a founder and its first agent.\<close>

definition demo_first_cid :: string where
  "demo_first_cid = ''ucan:'' @ take 32 (''AA.AQ.'' @ b64url (replicate 32 1 @ encode_str ''AA.AQ''))"

definition demo_two_tokens :: "pyval list" where
  "demo_two_tokens = [jwt_header, payload (membership_token 0 ''n'' (demo_did True) (demo_did False)),
     payload (agent_token 1 ''n'' (demo_did False) (demo_did True) agent_caps 86400 (Some demo_first_cid) [])]"

definition demo_agent_lib :: "bool key_lib" where
  "demo_agent_lib = demo_keylib\<lparr>json_dumps := json_dumps (demo_lib demo_two_tokens),
     json_loads := json_loads (demo_lib demo_two_tokens)\<rparr>"

lemma demo_agent_lib_fields:
  "json_dumps demo_agent_lib = json_dumps (demo_lib demo_two_tokens)"
  "json_loads demo_agent_lib = json_loads (demo_lib demo_two_tokens)"
  "ed_sign demo_agent_lib k m = replicate 32 (if k then 1 else 0) @ m"
  "sha256_hex demo_agent_lib b = map (\<lambda>w. char_of (unat w)) b"
  "ed25519_ok demo_agent_lib" "public_key_to_did (ed_public demo_agent_lib k) = Inr (demo_did k)"
  using demo_did_key[of "[]" k]
  by (simp_all add: demo_agent_lib_def demo_keylib_def wire_lib.defs demo_wire_def lib.defs demo_lib_def ed25519_ok_def)

lemma demo_two_tokens_json: "v \<in> set demo_two_tokens \<Longrightarrow> json_ok demo_agent_lib v"
  using demo_lib_json[of v demo_two_tokens] by (simp add: json_ok_def demo_agent_lib_fields demo_two_tokens_def)

lemma demo_dids_differ: "demo_did True \<noteq> demo_did False"
  using did_of_key[of "replicate 32 1"] did_of_key[of "replicate 32 0"]
  by (auto simp: demo_did_def)

lemma demo_two_tokens_text:
  "json_dumps demo_agent_lib jwt_header = [0]"
  "json_dumps demo_agent_lib (payload (membership_token 0 ''n'' (demo_did True) (demo_did False))) = [1]"
  "json_dumps demo_agent_lib (payload (agent_token 1 ''n'' (demo_did False) (demo_did True) agent_caps 86400
     (Some demo_first_cid) [])) = [2]"
  using demo_dids_differ
  by (simp_all add: demo_agent_lib_fields demo_lib_def demo_two_tokens_def position_def jwt_header_def payload_def
      membership_token_def agent_token_def demo_first_cid_def)

lemma demo_b64: "b64url [0] = ''AA''" "b64url [1] = ''AQ''" "b64url [2] = ''Ag''"
  by (simp_all add: b64url_eq B64_ALPHABET_def)

lemma sha_text: "map (\<lambda>w. char_of (unat w)) (encode_str s) = s"
proof (induction s)
  case (Cons c s)
  have "unat (of_nat (of_char c) :: 8 word) = of_char c" by (simp add: unat_of_nat)
  with Cons show ?case by (simp add: encode_str_def)
qed (simp add: encode_str_def)

definition demo_root_token :: ucan_token where
  "demo_root_token = membership_token 0 ''n'' (demo_did True) (demo_did False)"

definition demo_first_agent :: ucan_token where
  "demo_first_agent = agent_token 1 ''n'' (demo_did False) (demo_did True) agent_caps 86400 (Some demo_first_cid) []"

lemma demo_tokens_json:
  "json_ok demo_agent_lib jwt_header" "json_ok demo_agent_lib (payload demo_root_token)"
  "json_ok demo_agent_lib (payload demo_first_agent)"
  by (simp_all add: demo_two_tokens_json demo_two_tokens_def demo_root_token_def demo_first_agent_def)

lemma demo_token_texts:
  "snd (sign_token demo_agent_lib True demo_root_token) = ''AA.AQ.'' @ b64url (replicate 32 1 @ encode_str ''AA.AQ'')"
  "\<exists>s. snd (sign_token demo_agent_lib False demo_first_agent) = ''AA.Ag.'' @ s"
  by (simp_all add: sign_token_def Let_def signing_input_def demo_two_tokens_text demo_root_token_def
      demo_first_agent_def demo_b64 demo_agent_lib_fields(3))

lemma demo_first_cid_eq:
  "''ucan:'' @ take 32 (sha256_hex demo_agent_lib (encode_str (snd (sign_token demo_agent_lib True demo_root_token)))) = demo_first_cid"
  unfolding demo_token_texts(1) demo_agent_lib_fields(4) sha_text demo_first_cid_def by simp

lemma demo_second_cid:
  "''ucan:'' @ take 32 (sha256_hex demo_agent_lib (encode_str (snd (sign_token demo_agent_lib False demo_first_agent)))) \<noteq> demo_first_cid"
proof -
  from demo_token_texts(2) obtain s where s: "snd (sign_token demo_agent_lib False demo_first_agent) = ''AA.Ag.'' @ s" by blast
  show ?thesis unfolding s demo_agent_lib_fields(4) sha_text demo_first_cid_def by simp
qed

definition demo_spec :: agent_record where
  "demo_spec = \<lparr>ag_did = [], ag_name = ''a'', ag_vendor = ''mock'', ag_model = None, ag_capabilities = [''text.qa''],
     ag_context_window = 8192, ag_locality = ''local'', ag_cost_class = ''free'', ag_registered_at = 0,
     ag_token = None, ag_pid = None\<rparr>"

lemma demo_first_registration:
  "\<exists>h1 h2 rec. hh_initialize demo_agent_lib 0 ''n'' (\<lambda>q j. 7) True False (open_household None None []) ''pc'' ''linux''
      = (h1, Inr (demo_did True, demo_did False)) \<and> hh_membership_cid h1 = Some demo_first_cid
    \<and> hh_register_agent demo_agent_lib 1 ''n'' True h1 spec = (h2, Inr rec) \<and> ag_did rec = demo_did True
    \<and> ag_token rec = Some (snd (sign_token demo_agent_lib False demo_first_agent))"
proof -
  let ?L = demo_agent_lib and ?h = "open_household None None [] :: bool household"
  have st: "store_token ?L 0 (hh_tokens ?h) (build_household_membership ?L 0 ''n'' True (demo_did True) (demo_did False))
      = Inr (dset demo_first_cid (snd (sign_token ?L True demo_root_token)) (hh_tokens ?h), demo_first_cid)"
    using store_signed[OF demo_tokens_json(1,2), of 0 "hh_tokens ?h" True] demo_first_cid_eq
    by (simp add: build_household_membership_def demo_root_token_def cid_signed)
  have "file_manifest ?h = None" by (simp add: open_household_def)
  from initialize_runs[OF this demo_agent_lib_fields(6) demo_agent_lib_fields(6) st] obtain sh where
    i: "hh_initialize ?L 0 ''n'' (\<lambda>q j. 7) True False ?h ''pc'' ''linux''
      = (founded ?L ?h True False (demo_did True) (founder_record 0 (demo_did False) ''pc'' ''linux''
           (build_household_membership ?L 0 ''n'' True (demo_did True) (demo_did False))) sh
           (dset demo_first_cid (snd (sign_token ?L True demo_root_token)) (hh_tokens ?h)) demo_first_cid,
         Inr (demo_did True, demo_did False))" by blast
  define h1 where "h1 = fst (hh_initialize ?L 0 ''n'' (\<lambda>q j. 7) True False ?h ''pc'' ''linux'')"
  have f: "hh_device_key h1 = Some False" "hh_device_did h1 = Some (demo_did False)"
    "hh_membership_cid h1 = Some demo_first_cid"
    by (simp_all add: h1_def i founded_fields founder_record_def)
  have ne: "demo_did False \<noteq> []" "demo_first_cid \<noteq> []" by (simp_all add: demo_did_def DID_PREFIX_def demo_first_cid_def)
  have "\<exists>st c. store_token ?L 1 (hh_tokens h1) (build_agent_token ?L 1 ''n'' False (demo_did False) (demo_did True)
      agent_caps 86400 (Some demo_first_cid) []) = Inr (st, c)"
    using store_signed[OF demo_tokens_json(1,3), of 1 "hh_tokens h1" False]
    by (simp add: build_agent_token_def demo_first_agent_def cid_signed)
  then obtain st2 c2 where "store_token ?L 1 (hh_tokens h1) (build_agent_token ?L 1 ''n'' False (demo_did False)
      (demo_did True) agent_caps 86400 (Some demo_first_cid) []) = Inr (st2, c2)" by blast
  from register_runs[OF f(1,2) ne(1) f(3) ne(2) demo_agent_lib_fields(6) this, of spec] obtain h2 rec where
    "hh_register_agent ?L 1 ''n'' True h1 spec = (h2, Inr rec)" "ag_did rec = demo_did True"
    "ag_token rec = Some (snd (sign_token ?L False demo_first_agent))"
    by (auto simp: build_agent_token_def demo_first_agent_def)
  then show ?thesis using i f(3) by (auto simp: h1_def)
qed

subsection \<open>Properties\<close>

text \<open>
  C9: the records of a household keep their type invariant through founding, loading, registering,
  revoking, pairing and joining, in any order and with any arguments: no DID is listed twice, every
  record is filed under its own DID, only this device's record is marked as its own, and every
  stored token decodes, at any time.
\<close>

theorem household_records_wellformed:
  assumes "hh_reach L h" and "hh_lib_ok L"
  shows "distinct (dkeys (hh_devices h)) \<and> distinct (dkeys (hh_agents h))
     \<and> (\<forall>(d, r) \<in> set (hh_devices h). dv_did r = d \<and> (dv_is_self r \<longrightarrow> hh_device_did h = Some d)
          \<and> (\<exists>t. decode_token L now (dv_membership r) = Inr t))
     \<and> (\<forall>(d, r) \<in> set (hh_agents h). ag_did r = d
          \<and> (\<exists>tok t. ag_token r = Some tok \<and> decode_token L now tok = Inr t))"
proof -
  have "truthy x \<Longrightarrow> \<exists>s. x = Some s \<and> or_empty x = s" for x by (cases x) simp_all
  then show ?thesis
    using inv_records[OF hh_reach_inv[OF assms]]
    unfolding records_ok_def decodable_iff[where now = now] by (auto split: prod.splits) fastforce+
qed

theorem household_records_wellformed_witness:
  "distinct (dkeys (hh_devices demo_household)) \<and> distinct (dkeys (hh_agents demo_household))"
  using household_records_wellformed[OF demo_household_reach demo_hh_lib_ok] by blast

text \<open>
  C17: a restart loses no record: loading a fresh household object from the directory of one in use
  succeeds and gives back its devices, agents, revocations, DIDs and device key.
\<close>

theorem restart_restores_household:
  assumes "hh_reach L h" and "hh_lib_ok L" and "hh_device_key h = Some dk" and "file_manifest h \<noteq> None"
  shows "\<exists>h'. hh_load L now (reopen h) = (h', Inr ()) \<and> hh_devices h' = hh_devices h \<and> hh_agents h' = hh_agents h
     \<and> hh_revocations h' = hh_revocations h \<and> hh_root_did h' = hh_root_did h
     \<and> hh_device_did h' = hh_device_did h \<and> hh_device_key h' = Some dk"
  by (rule restart_loads[OF assms])

theorem restart_restores_household_witness:
  "\<exists>h'. hh_load demo_hh_lib 9 (reopen demo_household) = (h', Inr ()) \<and> hh_devices h' = hh_devices demo_household
     \<and> hh_device_key h' = Some False"
  using restart_restores_household[OF demo_household_reach demo_hh_lib_ok demo_household_facts(1,3)] by metis

text \<open>
  What a restart does lose is the power to pair: once the household object of an initialized
  directory has been opened anew, as every command and the daemon do, no sequence of operations
  makes it accept a pairing request, not even with the right code, because the root key is only
  in the memory of the process that founded the household.
\<close>

theorem restarted_device_cannot_pair:
  assumes "file_manifest h \<noteq> None"
  shows "snd (hh_accept_pairing L now nnc (fold (hh_step L) ops (reopen h)) cand name platform code) \<noteq> Inr jwt"
proof (rule keyless_refuses, rule keyless_steps)
  show "keyless (reopen h)" using assms by (simp add: keyless_def)
qed

theorem restarted_device_cannot_pair_witness:
  "snd (hh_accept_pairing demo_hh_lib 3 ''n'' (fold (hh_step demo_hh_lib) [Load 1, StartPairing 2 [0, 1, 2, 3, 4, 5] 300]
      (reopen demo_household)) (demo_did True) ''phone'' ''android'' ''abandon ability able about above absent'') \<noteq> Inr jwt"
  by (rule restarted_device_cannot_pair) (rule demo_household_facts)

text \<open>
  C35: a device that holds the root key accepts a pairing request exactly when an offer is pending,
  not expired, and the hash of the presented code is the offered one; it then lists the candidate
  with the membership it returns, changes no other device, and the offer is used up. A refusal
  changes nothing, except that an expired offer is dropped.
\<close>

theorem pairing_offer_is_single_use:
  assumes "hh_lib_ok L" and "hh_root_key h = Some rk"
    and "hh_accept_pairing L now nnc h cand name platform code = (h', res)"
  shows "((\<exists>jwt. res = Inr jwt) \<longleftrightarrow> (\<exists>offer. hh_offer h = Some offer \<and> now \<le> of_expires_at offer
            \<and> sha256_hex L (encode_str code) = of_code_hash offer))
     \<and> (case res of
          Inr jwt \<Rightarrow> hh_offer h' = None
            \<and> (\<exists>r. dget (hh_devices h') cand = Some r \<and> dv_membership r = jwt)
            \<and> (\<forall>d. d \<noteq> cand \<longrightarrow> dget (hh_devices h') d = dget (hh_devices h) d)
        | Inl e \<Rightarrow> h' = h \<or> (h' = h\<lparr>hh_offer := None\<rparr> \<and> (\<exists>offer. hh_offer h = Some offer \<and> of_expires_at offer < now)))"
proof (cases res)
  case (Inl e)
  with assms(3) have "hh_accept_pairing L now nnc h cand name platform code = (h', Inl e)" by simp
  from accept_failure[OF this] show ?thesis
    using accept_iff[of L now nnc h cand name platform code] assms Inl by (auto simp: hh_lib_ok_def)
next
  case (Inr jwt)
  with assms(3) have "hh_accept_pairing L now nnc h cand name platform code = (h', Inr jwt)" by simp
  from accept_effect[OF this] show ?thesis
    using accept_iff[of L now nnc h cand name platform code] assms Inr by (auto simp: hh_lib_ok_def)
qed

theorem pairing_offer_is_single_use_witness:
  "\<exists>jwt. snd (hh_accept_pairing demo_hh_lib 3 ''n'' (demo_household\<lparr>hh_offer := Some
      \<lparr>of_code = ''w'', of_code_hash = sha256_hex demo_hh_lib (encode_str ''w''), of_created_at = 0, of_expires_at = 300\<rparr>\<rparr>)
      (demo_did True) ''phone'' ''android'' ''w'') = Inr jwt"
proof -
  let ?h = "demo_household\<lparr>hh_offer := Some
      \<lparr>of_code = ''w'', of_code_hash = sha256_hex demo_hh_lib (encode_str ''w''), of_created_at = 0, of_expires_at = 300\<rparr>\<rparr>"
  have k: "hh_root_key ?h = Some True" using demo_household_facts(2) by simp
  obtain h' res where a: "hh_accept_pairing demo_hh_lib 3 ''n'' ?h (demo_did True) ''phone'' ''android'' ''w'' = (h', res)"
    by (metis surj_pair)
  from pairing_offer_is_single_use[OF demo_hh_lib_ok k a] a show ?thesis by simp
qed

text \<open>
  The root key survives the founding process in its three share files: any two of them give
  back the secret bytes of the root key, whatever the random coefficients were.
\<close>

theorem root_key_recoverable:
  assumes "hh_initialize L now nnc rnd rk dk h name platform = (h1, Inr (rd, dd))"
    and "set picked \<subseteq> set (file_shares h1)" and "distinct picked" and "2 \<le> length picked"
    and "\<And>q j. is_byte (rnd q j)"
  shows "shamir_reconstruct picked = Inr (byte_ints (secret_bytes L rk))"
proof -
  from assms(1) obtain r sh st c where s: "shamir_split rnd (byte_ints (secret_bytes L rk)) 3 2 = Inr sh"
    and h1: "h1 = founded L h rk dk rd r sh st c"
    by (rule initialize_Inr) blast
  have "list_all is_byte (byte_ints bs)" for bs
    using uint_lt2p[where 'a = 8] by (auto simp: list_all_iff byte_ints_def is_byte_def)
  then show ?thesis
    using shares_reconstruct[OF s _ assms(3,4)] assms(2,5) by (simp add: h1 founded_fields)
qed

theorem root_key_recoverable_witness:
  "shamir_reconstruct [file_shares demo_household ! 2, file_shares demo_household ! 0]
     = Inr (byte_ints (secret_bytes demo_hh_lib True))"
proof -
  from demo_initialize obtain r sh st c where
    s: "shamir_split (\<lambda>q j. 7) (byte_ints (secret_bytes demo_hh_lib True)) 3 2 = Inr sh"
    and h: "demo_household = founded demo_hh_lib (open_household None None []) True False (demo_did True) r sh st c"
    by (rule initialize_Inr) blast
  have sh: "file_shares demo_household = sh" unfolding h by (rule founded_fields)
  have "length sh = 3" using length_split[OF s] by simp
  then have m: "set [sh ! 2, sh ! 0] \<subseteq> set (file_shares demo_household)" by (auto simp: sh)
  have "hd (sh ! 2) \<noteq> hd (sh ! 0)" using nth_split_share[OF s, of 2] nth_split_share[OF s, of 0] by simp
  then have "distinct [sh ! 2, sh ! 0]" by auto
  from root_key_recoverable[OF demo_initialize m this] show ?thesis by (simp add: sh is_byte_def)
qed

text \<open>
  Revoking a DID takes it out of the device and agent lists, and the chain validator, when it
  is given the household's revocation list, rejects every token that the DID issued or holds.
\<close>

theorem revoked_did_is_rejected:
  assumes "hh_revoke L now h d reason = (h', Inr ())"
    and "decode_token L now' token = Inr u" and "issuer u = d \<or> audience u = d"
  shows "d \<notin> set (dkeys (hh_devices h')) \<and> d \<notin> set (dkeys (hh_agents h')) \<and> d \<in> set (revoked_dids h')
     \<and> validate_chain L now' st token root_did req (revoked_dids h') \<noteq> Inr ()"
proof -
  have r: "d \<in> set (revoked_dids h')"
    and "d \<notin> set (dkeys (hh_devices h'))" "d \<notin> set (dkeys (hh_agents h'))"
    using assms(1)
    by (auto simp: hh_revoke_def Let_def revoked_dids_def save_household_def AList.delete_eq split: if_splits)
  moreover have "check_token L now' (revoked_dids h') req token \<noteq> Inr u'" for u'
  proof
    assume c: "check_token L now' (revoked_dids h') req token = Inr u'"
    with check_decodes[OF c] assms(2) have "u' = u" by simp
    with c r assms(3) show False by (auto simp: check_token_def err_simps)
  qed
  ultimately show ?thesis by (simp add: validate_chain_def max_depth_def bindE_eq_Inr_iff eval_nat_numeral)
qed

theorem revoked_did_is_rejected_witness:
  "\<exists>d h'. hh_revoke demo_hh_lib 5 demo_household d ''lost'' = (h', Inr ()) \<and> d \<in> set (revoked_dids h')
     \<and> validate_chain demo_hh_lib 6 [] (snd (sign_token demo_hh_lib True demo_membership)) (demo_did True) None
          (revoked_dids h') \<noteq> Inr ()"
proof -
  obtain u where u: "decode_token demo_hh_lib 6 (snd (sign_token demo_hh_lib True demo_membership)) = Inr u"
    using demo_signed_decodable decodable_iff by blast
  have "hh_root_did demo_household = Some (demo_did True)" using demo_founded founded_fields(7) by metis
  then have "snd (hh_revoke demo_hh_lib 5 demo_household (issuer u) ''lost'') = Inr ()"
    by (simp add: hh_revoke_def Let_def demo_did_def DID_PREFIX_def)
  then obtain h' where r: "hh_revoke demo_hh_lib 5 demo_household (issuer u) ''lost'' = (h', Inr ())"
    by (metis prod.collapse)
  have "issuer u = issuer u \<or> audience u = issuer u" by simp
  note revoked_did_is_rejected[OF r u this, of "[]" "demo_did True" None]
  then show ?thesis using r by (intro exI[where x = "issuer u"] exI[where x = h']) simp
qed



end
