(* ===== verification/Router.thy ===== *)
theory Router
  imports Household
begin

text \<open>
  \<^verbatim>\<open>scheduler/router.py\<close>: mandates, the filter, the weighted score and the selection of an agent.
  The lemmas show that the selected agent is allowed and best, how mandates change a task and
  the scheduler, the range of scores, and when a time window is open.
\<close>

subsection \<open>Definitions\<close>

datatype locality = LOCAL_ONLY | HOUSEHOLD | ANY

record task_constraints =
  tc_capability :: string
  tc_locality :: locality
  tc_vendor_preference :: "string list"
  tc_vendor_exclude :: "string list"
  tc_min_context_window :: int
  tc_max_cost_class :: string
  tc_max_latency_ms :: "int option"
  tc_tags :: "string list"

record device_health =
  dh_device_did :: did
  dh_cpu_percent :: real
  dh_ram_available_gb :: real
  dh_ram_total_gb :: real
  dh_gpu_utilization :: real
  dh_vram_available_gb :: real
  dh_battery_pct :: "real option"
  dh_charging :: bool
  dh_thermal :: string
  dh_network_type :: string
  dh_bandwidth_mbps :: real
  dh_last_updated :: real

definition health_score :: "device_health \<Rightarrow> real" where
  "health_score h =
     (let s1 = (if dh_cpu_percent h > 80 then 1 * 0.5 else if dh_cpu_percent h > 50 then 1 * 0.8 else 1);
          s2 = (case dh_battery_pct h of None \<Rightarrow> s1
                | Some b \<Rightarrow> if b < 10 \<and> \<not> dh_charging h then s1 * 0.1
                           else if b < 30 then s1 * 0.5
                           else if b < 50 then s1 * 0.8 else s1)
      in if dh_thermal h = ''throttled'' then s2 * 0.3
         else if dh_thermal h = ''warm'' then s2 * 0.7 else s2)"

record scoring_weights =
  w_privacy :: real
  w_capability :: real
  w_latency :: real
  w_cost :: real
  w_health :: real

definition default_weights :: scoring_weights where
  "default_weights = \<lparr>w_privacy = 3, w_capability = 2, w_latency = 1.5, w_cost = 1, w_health = 1\<rparr>"

definition COST_RANK :: "(string \<times> real) list" where
  "COST_RANK = [(''free'', 1), (''metered'', 0.5), (''paid'', 0.2)]"

definition LOCALITY_RANK :: "(string \<times> real) list" where
  "LOCALITY_RANK = [(''local'', 1), (''cloud-routed'', 0.2)]"

definition COST_ORDER :: "string list" where
  "COST_ORDER = [''free'', ''metered'', ''paid'']"

record mandate =
  md_name :: string
  md_when_tags :: "string list"
  md_when_time :: "string option"
  md_is_default :: bool
  md_enforce_locality :: "string option"
  md_enforce_cost_class :: "string option"
  md_enforce_max_tokens :: "int option"
  md_scoring_overrides :: "scoring_weights option"

text \<open>\<open>Scheduler\<close>: the weights change while it runs.\<close>

record scheduler =
  sc_weights :: scoring_weights
  sc_mandates :: "mandate list"
  sc_health :: "(did \<times> device_health) list"

definition new_scheduler :: "scoring_weights option \<Rightarrow> mandate list \<Rightarrow> scheduler" where
  "new_scheduler w ms =
     \<lparr>sc_weights = (case w of None \<Rightarrow> default_weights | Some x \<Rightarrow> x), sc_mandates = ms, sc_health = []\<rparr>"

definition update_device_health :: "device_health \<Rightarrow> scheduler \<Rightarrow> scheduler" where
  "update_device_health h s = s\<lparr>sc_health := dset (dh_device_did h) h (sc_health s)\<rparr>"

text \<open>\<open>list.index\<close>, which raises when the element is missing.\<close>

fun list_index :: "string list \<Rightarrow> string \<Rightarrow> nat option" where
  "list_index [] x = None"
| "list_index (y # ys) x = (if y = x then Some 0 else map_option Suc (list_index ys x))"

definition cost_index :: "string \<Rightarrow> nat result" where
  "cost_index c = from_option (ValueError ''is not in list'') (list_index COST_ORDER c)"

text \<open>The body of the filter loop: whether one agent stays.\<close>

definition agent_passes :: "task_constraints \<Rightarrow> nat \<Rightarrow> agent_record \<Rightarrow> bool" where
  "agent_passes tc max_cost_idx a =
     (if tc_capability tc \<notin> set (ag_capabilities a) then False
      else if tc_locality tc = LOCAL_ONLY \<and> ag_locality a \<noteq> ''local'' then False
      else if tc_vendor_preference tc \<noteq> [] \<and> ag_vendor a \<notin> set (tc_vendor_preference tc) then False
      else if ag_vendor a \<in> set (tc_vendor_exclude tc) then False
      else if ag_context_window a < tc_min_context_window tc then False
      else (case list_index COST_ORDER (ag_cost_class a) of
          None \<Rightarrow> False
        | Some i \<Rightarrow> \<not> i > max_cost_idx))"

definition filter_agents :: "agent_record list \<Rightarrow> task_constraints \<Rightarrow> agent_record list result" where
  "filter_agents agents tc =
     bindE (cost_index (tc_max_cost_class tc)) (\<lambda>idx. Inr (filter (agent_passes tc idx) agents))"

definition agent_score :: "scoring_weights \<Rightarrow> agent_record \<Rightarrow> task_constraints \<Rightarrow> device_health option \<Rightarrow> real" where
  "agent_score w a tc health =
     (let privacy = dgetd LOCALITY_RANK (ag_locality a) 0.5;
          cap0 = (if ag_context_window a \<noteq> 0 then min (of_int (ag_context_window a) / 200000) 1 else 0.3);
          cost = dgetd COST_RANK (ag_cost_class a) 0.2;
          hs = (case health of None \<Rightarrow> 0.7 | Some h \<Rightarrow> health_score h);
          latency = (if ag_locality a = ''local'' then 1 else 0.5);
          cap = (if tc_vendor_preference tc \<noteq> [] \<and> ag_vendor a \<in> set (tc_vendor_preference tc)
                 then min (cap0 + 0.1) 1 else cap0);
          total = w_privacy w * privacy + w_capability w * cap + w_latency w * latency + w_cost w * cost
                + w_health w * hs;
          denom = w_privacy w + w_capability w + w_latency w + w_cost w + w_health w
      in if denom \<noteq> 0 then total / denom else 0)"

text \<open>
  \<open>int(x)\<close> on text: white space around, a sign, digits with single underscores between them.
\<close>

definition digit_value :: "char \<Rightarrow> int option" where
  "digit_value c = map_option int (find_char c ''0123456789'')"

fun int_digits :: "bool \<Rightarrow> int \<Rightarrow> string \<Rightarrow> int option" where
  "int_digits prev acc [] = (if prev then Some acc else None)"
| "int_digits prev acc (c # s) =
     (case digit_value c of
        Some d \<Rightarrow> int_digits True (10 * acc + d) s
      | None \<Rightarrow> if c = CHR ''_'' \<and> prev then int_digits False acc s else None)"

definition strip_space :: "string \<Rightarrow> string" where
  "strip_space s = rev (dropWhile ascii_space (rev (dropWhile ascii_space s)))"

definition py_int :: "string \<Rightarrow> int option" where
  "py_int s = (case strip_space s of
       [] \<Rightarrow> None
     | c # r \<Rightarrow> if c = CHR ''-'' then map_option uminus (int_digits False 0 r)
                else if c = CHR ''+'' then int_digits False 0 r
                else int_digits False 0 (c # r))"

definition parse_clock :: "string \<Rightarrow> int option" where
  "parse_clock s = (case split_on (CHR '':'') s of
       [h, m] \<Rightarrow> (case (py_int h, py_int m) of (Some x, Some y) \<Rightarrow> Some (x * 60 + y) | _ \<Rightarrow> None)
     | _ \<Rightarrow> None)"

text \<open>The time of day is a number of minutes.\<close>

definition is_within_time_window :: "string \<Rightarrow> int \<Rightarrow> bool" where
  "is_within_time_window window cur =
     (case split_on (CHR ''-'') window of
        [a, b] \<Rightarrow>
          (case (parse_clock a, parse_clock b) of
             (Some start, Some end_) \<Rightarrow>
               if start \<le> end_ then start \<le> cur \<and> cur \<le> end_ else cur \<ge> start \<or> cur \<le> end_
           | _ \<Rightarrow> False)
      | _ \<Rightarrow> False)"

definition mandate_applies :: "int \<Rightarrow> mandate \<Rightarrow> task_constraints \<Rightarrow> bool" where
  "mandate_applies now m tc =
     (if md_is_default m then True
      else if md_when_tags m \<noteq> [] \<and> list_ex (\<lambda>t. t \<in> set (tc_tags tc)) (md_when_tags m) then True
      else if truthy (md_when_time m) then is_within_time_window (or_empty (md_when_time m)) now
      else False)"

definition enforce :: "mandate \<Rightarrow> task_constraints \<Rightarrow> task_constraints" where
  "enforce m tc =
     (let tc1 = (case md_enforce_locality m of
            Some l \<Rightarrow> if l = ''local'' then tc\<lparr>tc_locality := LOCAL_ONLY\<rparr>
                     else if l = ''household'' then tc\<lparr>tc_locality := HOUSEHOLD\<rparr>
                     else if l = ''any'' then tc\<lparr>tc_locality := ANY\<rparr> else tc
          | None \<Rightarrow> tc)
      in if truthy (md_enforce_cost_class m)
         then tc1\<lparr>tc_max_cost_class := or_empty (md_enforce_cost_class m)\<rparr> else tc1)"

text \<open>The mandates are tested against the task as it came, and change the effective copy.\<close>

fun mandates_loop ::
    "int \<Rightarrow> task_constraints \<Rightarrow> mandate list \<Rightarrow> task_constraints \<Rightarrow> scoring_weights
      \<Rightarrow> task_constraints \<times> scoring_weights" where
  "mandates_loop now tc [] eff w = (eff, w)"
| "mandates_loop now tc (m # ms) eff w =
     (if \<not> mandate_applies now m tc then mandates_loop now tc ms eff w
      else mandates_loop now tc ms (enforce m eff)
             (case md_scoring_overrides m of None \<Rightarrow> w | Some x \<Rightarrow> x))"

definition apply_mandates :: "int \<Rightarrow> scheduler \<Rightarrow> task_constraints \<Rightarrow> scheduler \<times> task_constraints" where
  "apply_mandates now s tc =
     (let (eff, w) = mandates_loop now tc (sc_mandates s) tc (sc_weights s) in (s\<lparr>sc_weights := w\<rparr>, eff))"

text \<open>A stable sort by score, best first, and its head.\<close>

definition best_first :: "('a \<times> real) list \<Rightarrow> ('a \<times> real) list" where
  "best_first scored = sort_key (\<lambda>t. - snd t) scored"

definition agent_health :: "scheduler \<Rightarrow> (did \<times> did) list \<Rightarrow> agent_record \<Rightarrow> device_health option" where
  "agent_health s device_map a =
     (case dget device_map (ag_did a) of
        None \<Rightarrow> None
      | Some d \<Rightarrow> if d = [] then None else dget (sc_health s) d)"

definition select_agent ::
    "int \<Rightarrow> scheduler \<Rightarrow> agent_record list \<Rightarrow> task_constraints \<Rightarrow> (did \<times> did) list
      \<Rightarrow> scheduler \<times> (agent_record \<times> real) option result" where
  "select_agent now s agents tc device_map =
     (let (s1, eff) = apply_mandates now s tc
      in (s1, bindE (filter_agents agents eff) (\<lambda>candidates.
            if candidates = [] then Inr None
            else Inr (Some (hd (best_first
              (map (\<lambda>a. (a, agent_score (sc_weights s1) a eff (agent_health s1 device_map a))) candidates)))))))"

subsection \<open>Choosing the best of a list\<close>

text \<open>
  The contract of a choice by score: the first of the elements with the highest score. It
  determines the choice, so that any two implementations agree.
\<close>

locale first_best =
  fixes score :: "'a \<Rightarrow> real"
    and pick :: "'a list \<Rightarrow> 'a option"
  assumes pick_None: "pick xs = None \<longleftrightarrow> xs = []"
    and pick_Some: "pick xs = Some x \<Longrightarrow>
      \<exists>ys zs. xs = ys @ x # zs \<and> (\<forall>y \<in> set ys. score y < score x) \<and> (\<forall>z \<in> set zs. score z \<le> score x)"
begin

lemma pick_mem: "pick xs = Some x \<Longrightarrow> x \<in> set xs"
  using pick_Some by fastforce

lemma pick_max: "pick xs = Some x \<Longrightarrow> y \<in> set xs \<Longrightarrow> score y \<le> score x"
  using pick_Some by fastforce

lemma pick_nonempty: "xs \<noteq> [] \<Longrightarrow> \<exists>x. pick xs = Some x"
  using pick_None by blast

lemma pick_hd_filter:
  assumes "pick xs = Some x"
  shows "x = hd (filter (\<lambda>y. score y = Max (score ` set xs)) xs)"
proof -
  obtain ys zs where s: "xs = ys @ x # zs" "\<forall>y \<in> set ys. score y < score x" using pick_Some[OF assms] by blast
  have "Max (score ` set xs) = score x"
    using pick_max[OF assms] pick_mem[OF assms] by (intro Max_eqI) auto
  moreover have "filter (\<lambda>y. score y = score x) ys = []" using s(2) by (auto simp: filter_empty_conv)
  ultimately show ?thesis using s(1) by simp
qed

lemma pick_eq: "pick xs = (if xs = [] then None else Some (hd (filter (\<lambda>y. score y = Max (score ` set xs)) xs)))"
  using pick_None[of xs] pick_hd_filter[of xs] by (cases "pick xs") auto

end

lemma first_best_unique: "first_best score p \<Longrightarrow> first_best score q \<Longrightarrow> p = q"
  by (rule ext) (simp add: first_best.pick_eq)

text \<open>Sorting in descending order, stably, and taking the head is such a choice.\<close>

definition sorted_pick :: "('a \<Rightarrow> real) \<Rightarrow> 'a list \<Rightarrow> 'a option" where
  "sorted_pick score xs = (if xs = [] then None else Some (hd (sort_key (\<lambda>x. - score x) xs)))"

lemma hd_sort_key:
  assumes "xs \<noteq> []"
  shows "hd (sort_key f xs) = hd (filter (\<lambda>y. f y = Min (f ` set xs)) xs)"
proof -
  obtain y ys where s: "sort_key f xs = y # ys" using assms by (metis length_greater_0_conv length_sort list.exhaust)
  have m: "\<forall>z \<in> set xs. f y \<le> f z" "y \<in> set xs"
    using sorted_sort_key[of f xs] s set_sort[of f xs] by (auto simp flip: set_sort[of f xs])
  then have "Min (f ` set xs) = f y" by (intro Min_eqI) auto
  moreover have "filter (\<lambda>z. f z = f y) xs = y # filter (\<lambda>z. f z = f y) ys"
    using sort_key_stable[of f "f y" xs] by (simp add: s)
  ultimately show ?thesis by (simp add: s)
qed

lemma hd_filter_split:
  assumes "\<exists>x \<in> set xs. P x"
  shows "\<exists>ys zs. xs = ys @ hd (filter P xs) # zs \<and> (\<forall>y \<in> set ys. \<not> P y) \<and> P (hd (filter P xs))"
proof -
  obtain ys x zs where s: "xs = ys @ x # zs" "P x" "\<forall>y \<in> set ys. \<not> P y"
    using split_list_first_prop[OF assms] by blast
  then have "filter P ys = []" by (simp add: filter_empty_conv)
  then have h: "hd (filter P xs) = x" using s(1,2) by simp
  show ?thesis unfolding h using s by blast
qed

interpretation sorted_choice: first_best score "sorted_pick score" for score :: "'a \<Rightarrow> real"
proof unfold_locales
  fix xs :: "'a list" and x
  show "sorted_pick score xs = None \<longleftrightarrow> xs = []" by (simp add: sorted_pick_def)
  assume p: "sorted_pick score xs = Some x"
  then have ne: "xs \<noteq> []" by (auto simp: sorted_pick_def split: if_splits)
  let ?m = "Min ((\<lambda>x. - score x) ` set xs)"
  have x: "x = hd (filter (\<lambda>y. - score y = ?m) xs)"
    using p ne hd_sort_key[OF ne, of "\<lambda>x. - score x"] by (simp add: sorted_pick_def)
  have "?m \<in> (\<lambda>x. - score x) ` set xs" using ne by (intro Min_in) auto
  then have "\<exists>y \<in> set xs. - score y = ?m" by auto
  from hd_filter_split[OF this] obtain ys zs where
    s: "xs = ys @ x # zs" "\<forall>y \<in> set ys. - score y \<noteq> ?m" "- score x = ?m"
    unfolding x by blast
  have le: "score y \<le> score x" if "y \<in> set xs" for y
  proof -
    have "?m \<le> - score y" using that by (intro Min_le) auto
    then show ?thesis using s(3) by linarith
  qed
  then show "\<exists>ys zs. xs = ys @ x # zs \<and> (\<forall>y \<in> set ys. score y < score x) \<and> (\<forall>z \<in> set zs. score z \<le> score x)"
  proof (intro exI conjI ballI)
    show "xs = ys @ x # zs" by (rule s(1))
    fix y assume y: "y \<in> set ys"
    then have "y \<in> set xs" using s(1) by simp
    with le[of y] s(2,3) y show "score y < score x" by fastforce
  next
    fix z assume "z \<in> set zs"
    then have "z \<in> set xs" using s(1) by simp
    then show "score z \<le> score x" by (rule le)
  qed
qed

lemma insort_scored:
  "insort_key (\<lambda>t. - snd t) (x, f x) (map (\<lambda>a. (a, f a)) xs) = map (\<lambda>a. (a, f a)) (insort_key (\<lambda>a. - f a) x xs)"
  by (induction xs) auto

lemma sort_scored:
  "sort_key (\<lambda>t. - snd t) (map (\<lambda>a. (a, f a)) xs) = map (\<lambda>a. (a, f a)) (sort_key (\<lambda>a. - f a) xs)"
  by (induction xs) (simp_all add: insort_scored)

lemma best_first_head:
  assumes "xs \<noteq> []"
  shows "\<exists>x. sorted_pick f xs = Some x \<and> hd (best_first (map (\<lambda>a. (a, f a)) xs)) = (x, f x)"
proof -
  have "sort_key (\<lambda>a. - f a) xs \<noteq> []" using assms by (metis length_0_conv length_sort)
  then show ?thesis
    using assms by (simp add: best_first_def sorted_pick_def sort_scored list.map_sel)
qed

subsection \<open>Mandates and the filter\<close>

lemma agent_passes_iff:
  "agent_passes tc idx a \<longleftrightarrow> tc_capability tc \<in> set (ag_capabilities a)
     \<and> (tc_locality tc = LOCAL_ONLY \<longrightarrow> ag_locality a = ''local'')
     \<and> (tc_vendor_preference tc = [] \<or> ag_vendor a \<in> set (tc_vendor_preference tc))
     \<and> ag_vendor a \<notin> set (tc_vendor_exclude tc) \<and> tc_min_context_window tc \<le> ag_context_window a
     \<and> (\<exists>i. list_index COST_ORDER (ag_cost_class a) = Some i \<and> i \<le> idx)"
  by (auto simp: agent_passes_def split: option.split)

lemma list_index_None: "list_index xs x = None \<longleftrightarrow> x \<notin> set xs"
  by (induction xs) auto

lemma cost_index_cases: "cost_index c = (case list_index COST_ORDER c of None \<Rightarrow> Inl (ValueError ''is not in list'') | Some i \<Rightarrow> Inr i)"
  by (simp add: cost_index_def split: option.split)

text \<open>The order of the cost classes, as the filter compares them.\<close>

definition cost_le :: "string \<Rightarrow> string \<Rightarrow> bool" where
  "cost_le c d = (case (list_index COST_ORDER c, list_index COST_ORDER d) of
     (Some i, Some j) \<Rightarrow> i \<le> j | _ \<Rightarrow> False)"

definition allowed :: "task_constraints \<Rightarrow> agent_record \<Rightarrow> bool" where
  "allowed tc a \<longleftrightarrow> tc_capability tc \<in> set (ag_capabilities a)
     \<and> (tc_locality tc = LOCAL_ONLY \<longrightarrow> ag_locality a = ''local'')
     \<and> (tc_vendor_preference tc = [] \<or> ag_vendor a \<in> set (tc_vendor_preference tc))
     \<and> ag_vendor a \<notin> set (tc_vendor_exclude tc) \<and> tc_min_context_window tc \<le> ag_context_window a
     \<and> cost_le (ag_cost_class a) (tc_max_cost_class tc)"

lemma filter_agents_eq:
  "filter_agents agents tc = (if tc_max_cost_class tc \<in> set COST_ORDER then Inr (filter (allowed tc) agents)
     else Inl (ValueError ''is not in list''))"
proof (cases "list_index COST_ORDER (tc_max_cost_class tc)")
  case None
  moreover from None have "tc_max_cost_class tc \<notin> set COST_ORDER" by (simp add: list_index_None)
  ultimately show ?thesis by (simp add: filter_agents_def cost_index_cases)
next
  case (Some i)
  then have "tc_max_cost_class tc \<in> set COST_ORDER" by (metis list_index_None option.distinct(1))
  moreover have "agent_passes tc i = allowed tc"
    by (rule ext) (auto simp: agent_passes_iff allowed_def cost_le_def Some split: option.split)
  ultimately show ?thesis using Some by (simp add: filter_agents_def cost_index_cases)
qed

lemma mandates_loop_append:
  "mandates_loop now tc (xs @ ys) eff w = (let (e, v) = mandates_loop now tc xs eff w in mandates_loop now tc ys e v)"
  by (induction xs arbitrary: eff w) (auto split: prod.split)

lemma enforce_keeps:
  "tc_capability (enforce m tc) = tc_capability tc" "tc_vendor_preference (enforce m tc) = tc_vendor_preference tc"
  "tc_vendor_exclude (enforce m tc) = tc_vendor_exclude tc"
  "tc_min_context_window (enforce m tc) = tc_min_context_window tc"
  by (simp_all add: enforce_def Let_def split: option.split)

lemma enforce_locality:
  "tc_locality (enforce m tc) = (case md_enforce_locality m of
       Some l \<Rightarrow> if l = ''local'' then LOCAL_ONLY else if l = ''household'' then HOUSEHOLD
                else if l = ''any'' then ANY else tc_locality tc
     | None \<Rightarrow> tc_locality tc)"
  by (simp add: enforce_def Let_def split: option.split)

lemma loop_keeps_local:
  "tc_locality eff = LOCAL_ONLY \<Longrightarrow>
     \<forall>m \<in> set ms. mandate_applies now m tc \<longrightarrow> md_enforce_locality m \<notin> {Some ''household'', Some ''any''} \<Longrightarrow>
     tc_locality (fst (mandates_loop now tc ms eff w)) = LOCAL_ONLY"
  by (induction ms arbitrary: eff w) (auto simp: enforce_locality split: option.split)

lemma loop_keeps_weights:
  "\<forall>m \<in> set ms. mandate_applies now m tc \<longrightarrow> md_scoring_overrides m = None \<Longrightarrow>
     snd (mandates_loop now tc ms eff w) = w"
  by (induction ms arbitrary: eff w) auto

lemma apply_mandates_fields:
  "sc_mandates (fst (apply_mandates now s tc)) = sc_mandates s"
  "sc_weights (fst (apply_mandates now s tc)) = snd (mandates_loop now tc (sc_mandates s) tc (sc_weights s))"
  "snd (apply_mandates now s tc) = fst (mandates_loop now tc (sc_mandates s) tc (sc_weights s))"
  by (simp_all add: apply_mandates_def split: prod.split)

text \<open>The selection, in terms of the contract.\<close>

definition effective :: "int \<Rightarrow> scheduler \<Rightarrow> task_constraints \<Rightarrow> task_constraints" where
  "effective now s tc = snd (apply_mandates now s tc)"

definition score_in :: "int \<Rightarrow> scheduler \<Rightarrow> task_constraints \<Rightarrow> (did \<times> did) list \<Rightarrow> agent_record \<Rightarrow> real" where
  "score_in now s tc dm a = (let s1 = fst (apply_mandates now s tc) in
     agent_score (sc_weights s1) a (effective now s tc) (agent_health s1 dm a))"

lemma select_agent_eq:
  "select_agent now s agents tc dm = (fst (apply_mandates now s tc),
     if tc_max_cost_class (effective now s tc) \<notin> set COST_ORDER then Inl (ValueError ''is not in list'')
     else Inr (map_option (\<lambda>a. (a, score_in now s tc dm a))
            (sorted_pick (score_in now s tc dm) (filter (allowed (effective now s tc)) agents))))"
proof -
  let ?c = "filter (allowed (effective now s tc)) agents"
  have "?c \<noteq> [] \<Longrightarrow> hd (best_first (map (\<lambda>a. (a, score_in now s tc dm a)) ?c))
      = (the (sorted_pick (score_in now s tc dm) ?c), score_in now s tc dm (the (sorted_pick (score_in now s tc dm) ?c)))"
    using best_first_head[of ?c "score_in now s tc dm"] by auto
  moreover have "?c = [] \<Longrightarrow> sorted_pick (score_in now s tc dm) ?c = None" by (simp add: sorted_pick_def)
  moreover have "?c \<noteq> [] \<Longrightarrow> \<exists>x. sorted_pick (score_in now s tc dm) ?c = Some x" by (rule sorted_choice.pick_nonempty)
  moreover have "score_in now s tc dm = (\<lambda>a. agent_score (sc_weights (fst (apply_mandates now s tc))) a (effective now s tc)
      (agent_health (fst (apply_mandates now s tc)) dm a))"
    by (rule ext) (simp add: score_in_def Let_def)
  ultimately show ?thesis
    by (auto simp: select_agent_def filter_agents_eq effective_def split: prod.split)
qed

subsection \<open>Ranges\<close>

lemma health_score_range: "0 \<le> health_score h \<and> health_score h \<le> 1"
  by (simp add: health_score_def Let_def split: option.split)

lemma weighted_range:
  fixes p c l k h :: real
  assumes "0 \<le> w_privacy w" "0 \<le> w_capability w" "0 \<le> w_latency w" "0 \<le> w_cost w" "0 \<le> w_health w"
    and "0 \<le> p" "p \<le> 1" "0 \<le> c" "c \<le> 1" "0 \<le> l" "l \<le> 1" "0 \<le> k" "k \<le> 1" "0 \<le> h" "h \<le> 1"
    and "w_privacy w + w_capability w + w_latency w + w_cost w + w_health w \<noteq> 0"
  shows "0 \<le> (w_privacy w * p + w_capability w * c + w_latency w * l + w_cost w * k + w_health w * h)
           / (w_privacy w + w_capability w + w_latency w + w_cost w + w_health w)
       \<and> (w_privacy w * p + w_capability w * c + w_latency w * l + w_cost w * k + w_health w * h)
           / (w_privacy w + w_capability w + w_latency w + w_cost w + w_health w) \<le> 1"
proof -
  have pos: "0 < w_privacy w + w_capability w + w_latency w + w_cost w + w_health w" using assms(1-5,16) by linarith
  have "w_privacy w * p \<le> w_privacy w" "w_capability w * c \<le> w_capability w" "w_latency w * l \<le> w_latency w"
    "w_cost w * k \<le> w_cost w" "w_health w * h \<le> w_health w"
    using assms(1-15) by (simp_all add: mult_left_le)
  moreover have "0 \<le> w_privacy w * p + w_capability w * c + w_latency w * l + w_cost w * k + w_health w * h"
    using assms(1-15) by simp
  ultimately show ?thesis using pos by simp
qed

lemma rank_range:
  "0 \<le> dgetd LOCALITY_RANK l (1/2) \<and> dgetd LOCALITY_RANK l (1/2) \<le> 1"
  "0 \<le> dgetd COST_RANK c (1/5) \<and> dgetd COST_RANK c (1/5) \<le> 1"
  by (simp_all add: dgetd_def LOCALITY_RANK_def COST_RANK_def)

subsection \<open>Time windows\<close>

definition DIGITS :: string where
  "DIGITS = ''0123456789''"

text \<open>\<open>HH:MM\<close>\<close>

definition clock_text :: "nat \<Rightarrow> string" where
  "clock_text m = [DIGITS ! (m div 60 div 10), DIGITS ! (m div 60 mod 10), CHR '':'',
     DIGITS ! (m mod 60 div 10), DIGITS ! (m mod 60 mod 10)]"

lemma digit_chars:
  "length DIGITS = 10" "distinct DIGITS"
  "list_all (\<lambda>c. \<not> ascii_space c \<and> c \<notin> {CHR ''-'', CHR ''+'', CHR '':'', CHR ''_''}) DIGITS"
  by (simp_all add: DIGITS_def ascii_space_def)

lemma digit_nth:
  assumes "i < 10"
  shows "digit_value (DIGITS ! i) = Some (int i)" "\<not> ascii_space (DIGITS ! i)"
    "DIGITS ! i \<notin> {CHR ''-'', CHR ''+'', CHR '':'', CHR ''_''}"
  using assms digit_chars find_char_nth[of DIGITS i]
  by (simp_all add: digit_value_def DIGITS_def[symmetric] list_all_length)

lemma py_int_two: "i < 10 \<Longrightarrow> j < 10 \<Longrightarrow> py_int [DIGITS ! i, DIGITS ! j] = Some (int (10 * i + j))"
  using digit_nth[of i] digit_nth[of j] by (simp add: py_int_def strip_space_def)

lemma clock_parts:
  fixes m :: nat
  assumes "m < 1440"
  shows "m div 60 div 10 < 10" "m div 60 mod 10 < 10" "m mod 60 div 10 < 10" "m mod 60 mod 10 < 10"
    "10 * (m div 60 div 10) + m div 60 mod 10 = m div 60" "10 * (m mod 60 div 10) + m mod 60 mod 10 = m mod 60"
  using assms by (simp_all add: less_mult_imp_div_less)

lemma parse_clock_text:
  assumes "m < 1440"
  shows "parse_clock (clock_text m) = Some (int m)"
proof -
  note p = clock_parts[OF assms]
  have s: "split_on (CHR '':'') (clock_text m)
      = [[DIGITS ! (m div 60 div 10), DIGITS ! (m div 60 mod 10)], [DIGITS ! (m mod 60 div 10), DIGITS ! (m mod 60 mod 10)]]"
    using digit_nth(3)[OF p(1)] digit_nth(3)[OF p(2)] digit_nth(3)[OF p(3)] digit_nth(3)[OF p(4)]
    by (simp add: clock_text_def)
  have "int (m div 60) * 60 + int (m mod 60) = int m" by presburger
  then show ?thesis
    unfolding parse_clock_def s list.case py_int_two[OF p(1,2)] py_int_two[OF p(3,4)] p(5,6) by simp
qed

lemma dash_notin_clock:
  assumes "m < 1440"
  shows "CHR ''-'' \<notin> set (clock_text m)"
  using digit_nth(3)[OF clock_parts(1)[OF assms]] digit_nth(3)[OF clock_parts(2)[OF assms]]
    digit_nth(3)[OF clock_parts(3)[OF assms]] digit_nth(3)[OF clock_parts(4)[OF assms]]
  by (auto simp: clock_text_def)

lemma window_text:
  assumes "a < 1440" "b < 1440"
  shows "is_within_time_window (clock_text a @ ''-'' @ clock_text b) cur =
     (if a \<le> b then int a \<le> cur \<and> cur \<le> int b else cur \<ge> int a \<or> cur \<le> int b)"
proof -
  have "split_on (CHR ''-'') (clock_text a @ ''-'' @ clock_text b) = [clock_text a, clock_text b]"
    using dash_notin_clock[OF assms(1)] dash_notin_clock[OF assms(2)]
    by (simp add: split_on_append split_on_no_sep)
  then show ?thesis using parse_clock_text[OF assms(1)] parse_clock_text[OF assms(2)]
    by (simp add: is_within_time_window_def)
qed

subsection \<open>Properties\<close>

text \<open>For witnesses: two agents and a mandate of the night.\<close>

definition demo_cloud :: agent_record where
  "demo_cloud = demo_spec\<lparr>ag_did := ''c'', ag_locality := ''cloud-routed'', ag_cost_class := ''paid'', ag_context_window := 200000\<rparr>"

definition demo_local :: agent_record where
  "demo_local = demo_spec\<lparr>ag_did := ''l''\<rparr>"

definition demo_task :: task_constraints where
  "demo_task = \<lparr>tc_capability = ''text.qa'', tc_locality = HOUSEHOLD, tc_vendor_preference = [], tc_vendor_exclude = [],
     tc_min_context_window = 0, tc_max_cost_class = ''paid'', tc_max_latency_ms = None, tc_tags = [''private'']\<rparr>"

definition night_weights :: scoring_weights where
  "night_weights = \<lparr>w_privacy = 1, w_capability = 0, w_latency = 0, w_cost = 0, w_health = 0\<rparr>"

definition demo_mandate :: mandate where
  "demo_mandate = \<lparr>md_name = ''m'', md_when_tags = [''private''], md_when_time = None, md_is_default = False,
     md_enforce_locality = Some ''local'', md_enforce_cost_class = None, md_enforce_max_tokens = None,
     md_scoring_overrides = Some night_weights\<rparr>"



text \<open>
  A mandate that enforces \<open>local\<close> keeps a task on the device: when it applies, and no later
  mandate that applies says otherwise, whatever the task allowed, the selected agent is local.
\<close>

theorem local_mandate_keeps_task_local:
  assumes "sc_mandates s = pre @ m # post" and "mandate_applies now m tc"
    and "md_enforce_locality m = Some ''local''"
    and "\<forall>m' \<in> set post. mandate_applies now m' tc \<longrightarrow> md_enforce_locality m' \<notin> {Some ''household'', Some ''any''}"
    and "select_agent now s agents tc dm = (s1, Inr (Some (a, v)))"
  shows "ag_locality a = ''local''"
proof -
  have "tc_locality (effective now s tc) = LOCAL_ONLY"
    unfolding effective_def apply_mandates_fields(3) assms(1) mandates_loop_append
    using assms(2-4) by (auto split: prod.split simp: enforce_locality intro!: loop_keeps_local)
  moreover have "allowed (effective now s tc) a"
    using assms(5) sorted_choice.pick_mem by (fastforce simp: select_agent_eq split: if_splits)
  ultimately show ?thesis by (simp add: allowed_def)
qed

theorem local_mandate_keeps_task_local_witness:
  "tc_locality demo_task = HOUSEHOLD \<and>
   (\<exists>a v. snd (select_agent 0 (new_scheduler None [demo_mandate]) [demo_cloud, demo_local] demo_task []) = Inr (Some (a, v))
      \<and> ag_locality a = ''local'')"
proof -
  let ?s = "new_scheduler None [demo_mandate]"
  have e: "effective 0 ?s demo_task = demo_task\<lparr>tc_locality := LOCAL_ONLY\<rparr>"
    by (simp add: effective_def apply_mandates_def new_scheduler_def mandate_applies_def demo_mandate_def demo_task_def
        enforce_def truthy_def)
  have f: "filter (allowed (effective 0 ?s demo_task)) [demo_cloud, demo_local] = [demo_local]"
    unfolding e by (simp add: allowed_def demo_task_def demo_local_def demo_cloud_def demo_spec_def cost_le_def COST_ORDER_def)
  obtain s1 v where sel: "select_agent 0 ?s [demo_cloud, demo_local] demo_task [] = (s1, Inr (Some (demo_local, v)))"
    unfolding select_agent_eq f unfolding e by (simp add: demo_task_def COST_ORDER_def sorted_pick_def)
  have "ag_locality demo_local = ''local''"
    by (rule local_mandate_keeps_task_local[where pre = "[]" and m = demo_mandate and post = "[]", OF _ _ _ _ sel])
      (simp_all add: new_scheduler_def mandate_applies_def demo_mandate_def demo_task_def)
  with sel show ?thesis by (simp add: demo_task_def)
qed

text \<open>
  The weights a mandate sets outlive the task it was meant for: once a mandate with scoring
  overrides has applied to one task, every later task is scored with them, also one that no
  mandate applies to, and the configured weights are lost.
\<close>

theorem mandate_weights_stick:
  assumes "sc_mandates s = pre @ m # post" and "mandate_applies now m tc" and "md_scoring_overrides m = Some w"
    and "\<forall>m' \<in> set post. mandate_applies now m' tc \<longrightarrow> md_scoring_overrides m' = None"
    and "\<forall>m' \<in> set (sc_mandates s). \<not> mandate_applies now' m' tc'"
  shows "score_in now' (fst (select_agent now s agents tc dm)) tc' dm' a
       = agent_score w a tc' (agent_health (fst (select_agent now s agents tc dm)) dm' a)"
proof -
  define s1 where "s1 = fst (apply_mandates now s tc)"
  have "sc_weights s1 = w"
    unfolding s1_def apply_mandates_fields(2) assms(1) mandates_loop_append
    using assms(2-4) by (auto split: prod.split intro!: loop_keeps_weights)
  moreover have m: "sc_mandates s1 = sc_mandates s" by (simp add: s1_def apply_mandates_fields)
  moreover have "mandates_loop now' tc' ms eff v = (eff, v)" if "\<forall>m' \<in> set ms. \<not> mandate_applies now' m' tc'" for ms eff v
    using that by (induction ms) auto
  ultimately have "apply_mandates now' s1 tc' = (s1, tc')"
    using assms(5) by (simp add: apply_mandates_def)
  moreover have "fst (select_agent now s agents tc dm) = s1" by (simp add: select_agent_eq s1_def)
  ultimately show ?thesis
    using \<open>sc_weights s1 = w\<close> by (simp add: score_in_def effective_def)
qed

theorem mandate_weights_stick_witness:
  "score_in 0 (fst (select_agent 0 (new_scheduler None [demo_mandate]) [] demo_task [])) (demo_task\<lparr>tc_tags := []\<rparr>) [] demo_local
     = agent_score night_weights demo_local (demo_task\<lparr>tc_tags := []\<rparr>) None
   \<and> agent_score night_weights demo_local (demo_task\<lparr>tc_tags := []\<rparr>) None
     \<noteq> agent_score default_weights demo_local (demo_task\<lparr>tc_tags := []\<rparr>) None"
proof
  let ?s = "new_scheduler None [demo_mandate]"
  have h: "agent_health s [] a = None" for s a by (simp add: agent_health_def)
  show "score_in 0 (fst (select_agent 0 ?s [] demo_task [])) (demo_task\<lparr>tc_tags := []\<rparr>) [] demo_local
     = agent_score night_weights demo_local (demo_task\<lparr>tc_tags := []\<rparr>) None"
    using mandate_weights_stick[where s = ?s and pre = "[]" and m = demo_mandate and post = "[]" and w = night_weights
        and now = 0 and tc = demo_task and now' = 0 and tc' = "demo_task\<lparr>tc_tags := []\<rparr>" and agents = "[]"
        and dm = "[]" and dm' = "[]" and a = demo_local]
    by (simp add: h new_scheduler_def mandate_applies_def demo_mandate_def demo_task_def truthy_def)
  show "agent_score night_weights demo_local (demo_task\<lparr>tc_tags := []\<rparr>) None
     \<noteq> agent_score default_weights demo_local (demo_task\<lparr>tc_tags := []\<rparr>) None"
    by (simp add: agent_score_def night_weights_def default_weights_def demo_local_def demo_spec_def demo_task_def
        dgetd_def LOCALITY_RANK_def COST_RANK_def)
qed

text \<open>
  A score is a weighted mean: with weights that are not negative it lies between 0 and 1, for
  every agent, task and device health.
\<close>

theorem agent_score_in_unit_interval:
  assumes "0 \<le> w_privacy w" "0 \<le> w_capability w" "0 \<le> w_latency w" "0 \<le> w_cost w" "0 \<le> w_health w"
    and "0 \<le> ag_context_window a"
  shows "0 \<le> agent_score w a tc health \<and> agent_score w a tc health \<le> 1"
proof -
  have h: "0 \<le> (case health of None \<Rightarrow> 7/10 | Some h \<Rightarrow> health_score h) \<and> (case health of None \<Rightarrow> 7/10 | Some h \<Rightarrow> health_score h) \<le> 1"
    using health_score_range by (simp split: option.split)
  define cap :: real where "cap = (let cap0 = (if ag_context_window a \<noteq> 0 then min (of_int (ag_context_window a) / 200000) 1 else 3/10 :: real)
    in if tc_vendor_preference tc \<noteq> [] \<and> ag_vendor a \<in> set (tc_vendor_preference tc) then min (cap0 + 1/10) 1 else cap0)"
  have c: "0 \<le> cap \<and> cap \<le> 1" using assms(6) by (simp add: cap_def Let_def)
  define lat :: real where "lat = (if ag_locality a = ''local'' then 1 else 1/2)"
  have l: "0 \<le> lat \<and> lat \<le> 1" by (simp add: lat_def)
  have s: "agent_score w a tc health =
      (if w_privacy w + w_capability w + w_latency w + w_cost w + w_health w \<noteq> 0
       then (w_privacy w * dgetd LOCALITY_RANK (ag_locality a) (1/2) + w_capability w * cap + w_latency w * lat
             + w_cost w * dgetd COST_RANK (ag_cost_class a) (1/5)
             + w_health w * (case health of None \<Rightarrow> 7/10 | Some h \<Rightarrow> health_score h))
          / (w_privacy w + w_capability w + w_latency w + w_cost w + w_health w) else 0)"
    by (simp only: agent_score_def Let_def cap_def lat_def) simp
  show ?thesis
    unfolding s using weighted_range[OF assms(1-5)] rank_range[of "ag_locality a"] rank_range(2)[of "ag_cost_class a"] h c l
    by simp
qed

theorem agent_score_in_unit_interval_witness:
  "0 \<le> agent_score default_weights demo_cloud demo_task None \<and> agent_score default_weights demo_cloud demo_task None \<le> 1"
  by (rule agent_score_in_unit_interval) (simp_all add: default_weights_def demo_cloud_def demo_spec_def)

text \<open>
  A time window written \<open>HH:MM-HH:MM\<close> is open exactly from its start round the clock to its
  end, both included, also when it spans midnight.
\<close>

theorem window_is_open_round_the_clock:
  assumes "a < 1440" and "b < 1440" and "cur < 1440"
  shows "is_within_time_window (clock_text a @ ''-'' @ clock_text b) (int cur)
     \<longleftrightarrow> (int cur - int a) mod 1440 \<le> (int b - int a) mod 1440"
proof -
  have m: "(int x - int a) mod 1440 = (if a \<le> x then int x - int a else int x - int a + 1440)" if "x < 1440" for x
  proof (cases "a \<le> x")
    case True
    with that show ?thesis by (simp add: mod_pos_pos_trivial)
  next
    case False
    with that assms(1) have "(int x - int a + 1440) mod 1440 = int x - int a + 1440"
      by (intro mod_pos_pos_trivial) auto
    with False show ?thesis by simp
  qed
  show ?thesis unfolding window_text[OF assms(1,2)] m[OF assms(2)] m[OF assms(3)] using assms by auto
qed

theorem window_is_open_round_the_clock_witness:
  "clock_text 1320 @ ''-'' @ clock_text 360 = ''22:00-06:00''
     \<and> is_within_time_window (clock_text 1320 @ ''-'' @ clock_text 360) 90
     \<and> \<not> is_within_time_window (clock_text 1320 @ ''-'' @ clock_text 360) 720"
proof -
  have "clock_text 1320 @ ''-'' @ clock_text 360 = ''22:00-06:00''"
    by (simp add: clock_text_def DIGITS_def)
  then show ?thesis
    using window_is_open_round_the_clock[of 1320 360 90] window_is_open_round_the_clock[of 1320 360 720] by simp
qed

end
