(* ===== verification/Registry.thy ===== *)
theory Registry
  imports Router Continuations
begin

text \<open>
  \<^verbatim>\<open>inference/registry.py\<close>: the catalog of devices and models, the configurations computed from it,
  and the choice of one. The lemmas show that the configurations are exactly the feasible ones,
  that a departed device leaves no trace, that the choice follows the rule of the scheduler, and
  that a report survives its dictionary form.
\<close>

subsection \<open>Definitions\<close>

record device_role =
  dr_did :: did
  dr_role :: string
  dr_memory_gb :: real
  dr_has_gpu :: bool
  dr_vram_gb :: real
  dr_backend :: string

record model_info =
  mi_name :: string
  mi_filename :: string
  mi_size_gb :: real
  mi_path :: string
  mi_did :: did
  mi_layer_count :: int
  mi_context_window :: int

record device_capability =
  dc_did :: did
  dc_ram_total :: real
  dc_ram_available :: real
  dc_has_gpu :: bool
  dc_gpu_name :: string
  dc_vram_total :: real
  dc_vram_available :: real
  dc_backend :: string
  dc_disk_read_mbps :: real
  dc_llama_cpp_available :: bool
  dc_llama_cpp_path :: "string option"
  dc_rpc_server_path :: "string option"
  dc_models :: "model_info list"
  dc_latency_ms :: "(did \<times> real) list"
  dc_bandwidth_mbps :: "(did \<times> real) list"

record inference_config =
  ic_id :: string
  ic_model_name :: string
  ic_model_size :: real
  ic_type :: string
  ic_devices :: "device_role list"
  ic_tok_s :: real
  ic_ttft_s :: real
  ic_privacy :: real
  ic_capability :: real
  ic_latency :: real
  ic_cost :: real
  ic_health :: real
  ic_trusted_did :: did
  ic_rpc_endpoints :: "string list"
  ic_tensor_split :: "real list option"

record registry =
  rg_models :: "(string \<times> model_info list) list"
  rg_caps :: "(did \<times> device_capability) list"
  rg_configs :: "inference_config list"
  rg_weights :: scoring_weights

definition new_registry :: "scoring_weights option \<Rightarrow> registry" where
  "new_registry w = \<lparr>rg_models = [], rg_caps = [], rg_configs = [],
     rg_weights = (case w of None \<Rightarrow> default_weights | Some x \<Rightarrow> x)\<rparr>"

text \<open>The estimates.\<close>

definition usable_memory :: "device_capability \<Rightarrow> real" where
  "usable_memory cap = (if dc_has_gpu cap \<and> dc_vram_available cap > 0 then dc_vram_available cap else dc_ram_available cap)"

definition estimate_local_tok_s :: "device_capability \<Rightarrow> model_info \<Rightarrow> real" where
  "estimate_local_tok_s cap model =
     (let headroom = usable_memory cap / max (mi_size_gb model) 1
      in if dc_has_gpu cap \<and> dc_vram_available cap > 0 then min (20 * headroom) 60 else min (5 * headroom) 20)"

definition estimate_ttft :: "device_capability \<Rightarrow> model_info \<Rightarrow> real" where
  "estimate_ttft cap model =
     (let mbps = max (dc_disk_read_mbps cap) 50; gb_per_s = mbps / 1000 in mi_size_gb model / max gb_per_s 0.1)"

definition capability_score :: "model_info \<Rightarrow> real" where
  "capability_score model =
     (let size_score = min (mi_size_gb model / 35) 1;
          ctx_score = (if mi_context_window model \<noteq> 0 then min (of_int (mi_context_window model) / 128000) 1 else 0.3)
      in 0.7 * size_score + 0.3 * ctx_score)"

definition min_health :: real where
  "min_health = 0.8"

definition role_of :: "device_capability \<Rightarrow> string \<Rightarrow> real \<Rightarrow> device_role" where
  "role_of cap role mem =
     \<lparr>dr_did = dc_did cap, dr_role = role, dr_memory_gb = mem, dr_has_gpu = dc_has_gpu cap,
      dr_vram_gb = dc_vram_total cap, dr_backend = dc_backend cap\<rparr>"

definition build_local_config :: "device_capability \<Rightarrow> model_info \<Rightarrow> inference_config" where
  "build_local_config host model =
     (let tok_s = estimate_local_tok_s host model in
      \<lparr>ic_id = ''local-'' @ mi_name model @ ''-'' @ take 8 (dc_did host), ic_model_name = mi_name model,
       ic_model_size = mi_size_gb model, ic_type = ''local'',
       ic_devices = [role_of host ''host'' (mi_size_gb model)], ic_tok_s = tok_s,
       ic_ttft_s = estimate_ttft host model, ic_privacy = 1, ic_capability = capability_score model,
       ic_latency = min (tok_s / 30) 1, ic_cost = 1, ic_health = 0.8, ic_trusted_did = dc_did host,
       ic_rpc_endpoints = [], ic_tensor_split = None\<rparr>)"

text \<open>A division, which raises by zero.\<close>

definition py_div :: "real \<Rightarrow> real \<Rightarrow> real result" where
  "py_div x y = (if y = 0 then Inl (ZeroDivisionError ''float division by zero'') else Inr (x / y))"

definition distributed_tok_s :: "device_capability \<Rightarrow> device_capability \<Rightarrow> model_info \<Rightarrow> real result" where
  "distributed_tok_s host worker model =
     (let latency_ms = dgetd (dc_latency_ms host) (dc_did worker) 50;
          bandwidth_mbps = dgetd (dc_bandwidth_mbps host) (dc_did worker) 100;
          per_token_overhead_s = (latency_ms / 1000) * 2 + (1 / max bandwidth_mbps 1);
          base_tok_s = estimate_local_tok_s host model
      in py_div 1 (1 / max base_tok_s 1 + per_token_overhead_s))"

definition build_distributed_config ::
    "device_capability \<Rightarrow> device_capability \<Rightarrow> model_info \<Rightarrow> real \<Rightarrow> real \<Rightarrow> inference_config result" where
  "build_distributed_config host worker model host_mem worker_mem =
     bindE (py_div host_mem (host_mem + worker_mem)) (\<lambda>s0.
     bindE (py_div worker_mem (host_mem + worker_mem)) (\<lambda>s1.
     bindE (distributed_tok_s host worker model) (\<lambda>tok_s.
       Inr \<lparr>ic_id = ''dist-'' @ mi_name model @ ''-'' @ take 8 (dc_did host) @ ''-'' @ take 8 (dc_did worker),
            ic_model_name = mi_name model, ic_model_size = mi_size_gb model, ic_type = ''distributed'',
            ic_devices = [role_of host ''host'' (mi_size_gb model * s0), role_of worker ''worker'' (mi_size_gb model * s1)],
            ic_tok_s = tok_s, ic_ttft_s = estimate_ttft host model, ic_privacy = 0.9,
            ic_capability = capability_score model, ic_latency = min (tok_s / 30) 1, ic_cost = 1,
            ic_health = min 0.8 min_health, ic_trusted_did = dc_did host,
            ic_rpc_endpoints = [dc_did worker @ '':50052''], ic_tensor_split = Some [s0, s1]\<rparr>)))"

text \<open>\<open>_compute_configs\<close>: its two inner loops for one model record, then over the catalog.\<close>

fun worker_configs ::
    "(did \<times> device_capability) list \<Rightarrow> device_capability \<Rightarrow> model_info \<Rightarrow> inference_config list result" where
  "worker_configs [] host model = Inr []"
| "worker_configs ((worker_did, worker) # ws) host model =
     (if worker_did = mi_did model then worker_configs ws host model
      else if usable_memory host + usable_memory worker < mi_size_gb model then worker_configs ws host model
      else bindE (build_distributed_config host worker model (usable_memory host) (usable_memory worker)) (\<lambda>c.
           bindE (worker_configs ws host model) (\<lambda>cs. Inr (c # cs))))"

definition model_configs :: "(did \<times> device_capability) list \<Rightarrow> model_info \<Rightarrow> inference_config list result" where
  "model_configs caps model =
     (case dget caps (mi_did model) of
        None \<Rightarrow> Inr []
      | Some host \<Rightarrow>
          bindE (worker_configs caps host model) (\<lambda>cs.
            Inr ((if usable_memory host \<ge> mi_size_gb model then [build_local_config host model] else []) @ cs)))"

definition all_models :: "registry \<Rightarrow> model_info list" where
  "all_models r = concat (map snd (rg_models r))"

definition compute_configs :: "registry \<Rightarrow> registry \<times> unit result" where
  "compute_configs r =
     (case mapE (model_configs (rg_caps r)) (all_models r) of
        Inl e \<Rightarrow> (r, Inl e)
      | Inr css \<Rightarrow> (r\<lparr>rg_configs := concat css\<rparr>, Inr ()))"

definition drop_device :: "did \<Rightarrow> model_info list \<Rightarrow> model_info list" where
  "drop_device d ms = filter (\<lambda>m. mi_did m \<noteq> d) ms"

definition register_no_recompute :: "model_info \<Rightarrow> registry \<Rightarrow> registry" where
  "register_no_recompute m r =
     r\<lparr>rg_models := dset (mi_name m) (drop_device (mi_did m) (dgetd (rg_models r) (mi_name m) []) @ [m]) (rg_models r)\<rparr>"

definition register_model :: "model_info \<Rightarrow> registry \<Rightarrow> registry \<times> unit result" where
  "register_model m r = compute_configs (register_no_recompute m r)"

definition update_device :: "did \<Rightarrow> device_capability \<Rightarrow> registry \<Rightarrow> registry \<times> unit result" where
  "update_device d cap r =
     compute_configs (fold register_no_recompute (dc_models cap) (r\<lparr>rg_caps := dset d cap (rg_caps r)\<rparr>))"

definition remove_device :: "did \<Rightarrow> registry \<Rightarrow> registry \<times> unit result" where
  "remove_device d r =
     compute_configs (r\<lparr>rg_caps := dpop d (rg_caps r),
       rg_models := filter (\<lambda>(n, l). l \<noteq> []) (map (\<lambda>(n, l). (n, drop_device d l)) (rg_models r))\<rparr>)"

text \<open>The choice: the filter, the score with live health, and \<open>max\<close>, which keeps the first of equals.\<close>

definition filter_by_constraints :: "registry \<Rightarrow> task_constraints \<Rightarrow> inference_config list" where
  "filter_by_constraints r tc =
     filter (\<lambda>c. \<not> (tc_locality tc = LOCAL_ONLY \<and> ic_type c = ''cloud'')) (rg_configs r)"

definition weighted :: "scoring_weights \<Rightarrow> inference_config \<Rightarrow> real \<Rightarrow> real" where
  "weighted w c health =
     (let total = w_privacy w * ic_privacy c + w_capability w * ic_capability c + w_latency w * ic_latency c
                + w_cost w * ic_cost c + w_health w * health;
          denom = w_privacy w + w_capability w + w_latency w + w_cost w + w_health w
      in if denom \<noteq> 0 then total / denom else 0)"

definition weighted_score :: "inference_config \<Rightarrow> scoring_weights option \<Rightarrow> real" where
  "weighted_score c w = weighted (case w of None \<Rightarrow> default_weights | Some x \<Rightarrow> x) c (ic_health c)"

definition live_score :: "registry \<Rightarrow> (did \<times> device_health) list \<Rightarrow> inference_config \<Rightarrow> real" where
  "live_score r healths c =
     weighted (rg_weights r) c
       (fold (\<lambda>role health. case dget healths (dr_did role) of
           None \<Rightarrow> health | Some live \<Rightarrow> min health (health_score live)) (ic_devices c) (ic_health c))"

fun py_max :: "('a \<Rightarrow> real) \<Rightarrow> 'a \<Rightarrow> 'a list \<Rightarrow> 'a" where
  "py_max key best [] = best"
| "py_max key best (x # xs) = py_max key (if key x > key best then x else best) xs"

definition max_of :: "('a \<Rightarrow> real) \<Rightarrow> 'a list \<Rightarrow> 'a option" where
  "max_of key xs = (case xs of [] \<Rightarrow> None | x # r \<Rightarrow> Some (py_max key x r))"

definition get_best_config ::
    "registry \<Rightarrow> task_constraints \<Rightarrow> (did \<times> device_health) list \<Rightarrow> inference_config option" where
  "get_best_config r tc healths = max_of (live_score r healths) (filter_by_constraints r tc)"


text \<open>
  The dictionary form of a report. \<open>float\<close> and \<open>str\<close> of other values than numbers and texts are
  arguments; the two link tables are read as tables of numbers.
\<close>

record conversions =
  float_of_text :: "string \<Rightarrow> real result"
  text_of :: "pyval \<Rightarrow> string"

definition to_float :: "conversions \<Rightarrow> pyval \<Rightarrow> real result" where
  "to_float C v = (case v of VFloat x \<Rightarrow> Inr x | VInt i \<Rightarrow> Inr (of_int i) | VBool b \<Rightarrow> Inr (if b then 1 else 0)
     | VStr s \<Rightarrow> float_of_text C s | _ \<Rightarrow> Inl (TypeError ''float() argument must be a string or a real number''))"

definition to_text :: "conversions \<Rightarrow> pyval \<Rightarrow> string" where
  "to_text C v = (case v of VStr s \<Rightarrow> s | _ \<Rightarrow> text_of C v)"

definition py_bool :: "pyval \<Rightarrow> bool" where
  "py_bool v = (case v of VNone \<Rightarrow> False | VBool b \<Rightarrow> b | VInt i \<Rightarrow> i \<noteq> 0 | VFloat x \<Rightarrow> x \<noteq> 0
     | VStr s \<Rightarrow> s \<noteq> [] | VList l \<Rightarrow> l \<noteq> [] | VDict d \<Rightarrow> d \<noteq> [])"

definition model_to_dict :: "model_info \<Rightarrow> dict" where
  "model_to_dict m =
     [(''name'', VStr (mi_name m)), (''filename'', VStr (mi_filename m)), (''size_gb'', VFloat (mi_size_gb m)),
      (''path'', VStr (mi_path m)), (''device_did'', VStr (mi_did m)), (''layer_count'', VInt (mi_layer_count m)),
      (''context_window'', VInt (mi_context_window m))]"

definition model_from_dict :: "dict \<Rightarrow> model_info result" where
  "model_from_dict d =
     bindE (raise_if (\<not> list_all (\<lambda>k. k \<in> {''name'', ''filename'', ''size_gb'', ''path'', ''device_did'', ''layer_count'',
         ''context_window''}) (dkeys d)) (TypeError ''unexpected keyword argument'')) (\<lambda>_.
     bindE (keyword d ''name'' as_str) (\<lambda>n.
     bindE (keyword d ''filename'' as_str) (\<lambda>f.
     bindE (keyword d ''size_gb'' as_float) (\<lambda>sz.
     bindE (keyword d ''path'' as_str) (\<lambda>p.
     bindE (keyword d ''device_did'' as_str) (\<lambda>dev.
     bindE (keyword_or d ''layer_count'' as_int 0) (\<lambda>lc.
     bindE (keyword_or d ''context_window'' as_int 0) (\<lambda>cw.
       Inr \<lparr>mi_name = n, mi_filename = f, mi_size_gb = sz, mi_path = p, mi_did = dev,
            mi_layer_count = lc, mi_context_window = cw\<rparr>))))))))"

definition link_table :: "(did \<times> real) list \<Rightarrow> pyval" where
  "link_table t = VDict (map (\<lambda>(d, x). (d, VFloat x)) t)"

definition read_link_table :: "pyval \<Rightarrow> (did \<times> real) list result" where
  "read_link_table v = bindE (as_dict v) (mapE (\<lambda>(d, x). bindE (as_float x) (\<lambda>r. Inr (d, r))))"

definition capability_report :: "device_capability \<Rightarrow> dict" where
  "capability_report c =
     [(''device_did'', VStr (dc_did c)), (''ram_total_gb'', VFloat (dc_ram_total c)),
      (''ram_available_gb'', VFloat (dc_ram_available c)), (''has_gpu'', VBool (dc_has_gpu c)),
      (''gpu_name'', VStr (dc_gpu_name c)), (''vram_total_gb'', VFloat (dc_vram_total c)),
      (''vram_available_gb'', VFloat (dc_vram_available c)), (''backend'', VStr (dc_backend c)),
      (''disk_read_speed_mbps'', VFloat (dc_disk_read_mbps c)),
      (''llama_cpp_available'', VBool (dc_llama_cpp_available c)), (''llama_cpp_path'', opt_str (dc_llama_cpp_path c)),
      (''rpc_server_path'', opt_str (dc_rpc_server_path c)),
      (''available_models'', VList (map (\<lambda>m. VDict (model_to_dict m)) (dc_models c))),
      (''peer_latency_ms'', link_table (dc_latency_ms c)), (''peer_bandwidth_mbps'', link_table (dc_bandwidth_mbps c))]"

definition capability_of_report :: "conversions \<Rightarrow> dict \<Rightarrow> device_capability result" where
  "capability_of_report C d =
     bindE (get_list d ''available_models'' (\<lambda>v. bindE (as_dict v) model_from_dict)) (\<lambda>ms.
     bindE (bindE (dict_item d ''device_did'') as_str) (\<lambda>dev.
     bindE (to_float C (dgetd d ''ram_total_gb'' (VFloat 0))) (\<lambda>rt.
     bindE (to_float C (dgetd d ''ram_available_gb'' (VFloat 0))) (\<lambda>ra.
     bindE (to_float C (dgetd d ''vram_total_gb'' (VFloat 0))) (\<lambda>vt.
     bindE (to_float C (dgetd d ''vram_available_gb'' (VFloat 0))) (\<lambda>va.
     bindE (to_float C (dgetd d ''disk_read_speed_mbps'' (VFloat 0))) (\<lambda>dr.
     bindE (as_opt_str (dgetd d ''llama_cpp_path'' VNone)) (\<lambda>lp.
     bindE (as_opt_str (dgetd d ''rpc_server_path'' VNone)) (\<lambda>rp.
     bindE (read_link_table (dgetd d ''peer_latency_ms'' (VDict []))) (\<lambda>lat.
     bindE (read_link_table (dgetd d ''peer_bandwidth_mbps'' (VDict []))) (\<lambda>bw.
       Inr \<lparr>dc_did = dev, dc_ram_total = rt, dc_ram_available = ra,
            dc_has_gpu = py_bool (dgetd d ''has_gpu'' (VBool False)),
            dc_gpu_name = to_text C (dgetd d ''gpu_name'' (VStr ''none'')), dc_vram_total = vt, dc_vram_available = va,
            dc_backend = to_text C (dgetd d ''backend'' (VStr ''cpu'')), dc_disk_read_mbps = dr,
            dc_llama_cpp_available = py_bool (dgetd d ''llama_cpp_available'' (VBool False)),
            dc_llama_cpp_path = lp, dc_rpc_server_path = rp, dc_models = ms, dc_latency_ms = lat,
            dc_bandwidth_mbps = bw\<rparr>)))))))))))"

subsection \<open>Reports\<close>

lemma model_dict_roundtrip [simp]: "model_from_dict (model_to_dict m) = Inr m"
  by (simp add: model_from_dict_def model_to_dict_def keyword_def keyword_or_def as_int_def)

lemma read_link_table [simp]: "read_link_table (link_table t) = Inr t"
proof -
  have "mapE (\<lambda>(d, x). bindE (as_float x) (\<lambda>r. Inr (d, r))) (map (\<lambda>(d, x). (d, VFloat x)) t) = Inr t"
    by (induction t) auto
  then show ?thesis by (simp add: read_link_table_def link_table_def)
qed

lemma report_roundtrip: "capability_of_report C (capability_report c) = Inr c"
proof -
  have m: "get_list (capability_report c) ''available_models'' (\<lambda>v. bindE (as_dict v) model_from_dict) = Inr (dc_models c)"
    by (rule get_list_read[where g = "\<lambda>m. VDict (model_to_dict m)"]) (simp_all add: capability_report_def)
  have "dgetd (capability_report c) ''peer_latency_ms'' v = link_table (dc_latency_ms c)"
    "dgetd (capability_report c) ''peer_bandwidth_mbps'' v = link_table (dc_bandwidth_mbps c)" for v
    by (simp_all add: capability_report_def dgetd_def)
  then show ?thesis
    by (simp add: capability_of_report_def m) (simp add: capability_report_def dgetd_def dict_item_def to_float_def to_text_def py_bool_def)
qed

subsection \<open>The choice\<close>

lemma py_max_split:
  "\<exists>ys zs. best # xs = ys @ py_max key best xs # zs
     \<and> (\<forall>y \<in> set ys. key y < key (py_max key best xs)) \<and> (\<forall>z \<in> set zs. key z \<le> key (py_max key best xs))"
proof (induction xs arbitrary: best)
  case Nil
  show ?case by (rule exI[of _ "[]"], rule exI[of _ "[]"]) simp
next
  case (Cons x xs)
  show ?case
  proof (cases "key x > key best")
    case True
    obtain ys zs where s: "x # xs = ys @ py_max key x xs # zs" "\<forall>y \<in> set ys. key y < key (py_max key x xs)"
      "\<forall>z \<in> set zs. key z \<le> key (py_max key x xs)" using Cons.IH[of x] by blast
    have "key x \<le> key (py_max key x xs)" using s by (cases ys) auto
    moreover have "py_max key best (x # xs) = py_max key x xs" using True by simp
    ultimately show ?thesis
      using True s by (intro exI[of _ "best # ys"] exI[of _ zs]) (simp only: append_Cons list.set ball_simps simp_thms, auto)
  next
    case False
    then have e: "py_max key best (x # xs) = py_max key best xs" by simp
    obtain ys zs where s: "best # xs = ys @ py_max key best xs # zs" "\<forall>y \<in> set ys. key y < key (py_max key best xs)"
      "\<forall>z \<in> set zs. key z \<le> key (py_max key best xs)" using Cons.IH[of best] by blast
    show ?thesis
    proof (cases ys)
      case Nil
      with s False show ?thesis unfolding e by (intro exI[of _ "[]"] exI[of _ "x # zs"]) auto
    next
      case (Cons b ys')
      with s False show ?thesis unfolding e by (intro exI[of _ "best # x # ys'"] exI[of _ zs]) auto
    qed
  qed
qed

interpretation max_choice: first_best key "max_of key" for key :: "'a \<Rightarrow> real"
proof unfold_locales
  fix xs :: "'a list" and x
  show "max_of key xs = None \<longleftrightarrow> xs = []" by (simp add: max_of_def split: list.split)
  assume "max_of key xs = Some x"
  then show "\<exists>ys zs. xs = ys @ x # zs \<and> (\<forall>y \<in> set ys. key y < key x) \<and> (\<forall>z \<in> set zs. key z \<le> key x)"
    using py_max_split[of _ _ key] by (auto simp: max_of_def split: list.splits)
qed

lemma max_of_sorted_pick: "max_of key = sorted_pick key"
  by (rule first_best_unique[of key]) (rule max_choice.first_best_axioms sorted_choice.first_best_axioms)+

subsection \<open>Feasible configurations\<close>

text \<open>A report as the handlers of the node pass it on: about one device, with sizes and latencies that make sense.\<close>

definition report_ok :: "did \<Rightarrow> device_capability \<Rightarrow> bool" where
  "report_ok d cap \<longleftrightarrow> dc_did cap = d \<and> (\<forall>m \<in> set (dc_models cap). mi_did m = d \<and> 0 < mi_size_gb m)
     \<and> (\<forall>(p, l) \<in> set (dc_latency_ms cap). 0 \<le> l)"

inductive registry_reach :: "registry \<Rightarrow> bool" where
  empty: "registry_reach (new_registry w)"
| report: "registry_reach r \<Longrightarrow> report_ok d cap \<Longrightarrow> registry_reach (fst (update_device d cap r))"
| departure: "registry_reach r \<Longrightarrow> registry_reach (fst (remove_device d r))"
| model: "registry_reach r \<Longrightarrow> 0 < mi_size_gb m \<Longrightarrow> registry_reach (fst (register_model m r))"

definition feasible :: "(did \<times> device_capability) list \<Rightarrow> model_info \<Rightarrow> inference_config \<Rightarrow> bool" where
  "feasible caps m c \<longleftrightarrow> (\<exists>host. dget caps (mi_did m) = Some host \<and>
     (usable_memory host \<ge> mi_size_gb m \<and> c = build_local_config host m
      \<or> (\<exists>(d, worker) \<in> set caps. d \<noteq> mi_did m \<and> usable_memory host + usable_memory worker \<ge> mi_size_gb m
           \<and> build_distributed_config host worker m (usable_memory host) (usable_memory worker) = Inr c)))"

definition latencies_ok :: "device_capability \<Rightarrow> bool" where
  "latencies_ok cap \<longleftrightarrow> (\<forall>(p, l) \<in> set (dc_latency_ms cap). 0 \<le> l)"

lemma distributed_builds:
  assumes "latencies_ok host" and "0 < sz" and "sz \<le> host_mem + worker_mem"
  shows "\<exists>c. build_distributed_config host worker m host_mem worker_mem = Inr c"
proof -
  have "0 \<le> dgetd (dc_latency_ms host) (dc_did worker) 50"
    using assms(1) by (auto simp: latencies_ok_def dgetd_def split: option.split dest!: dget_Some_mem)
  then have "0 < 1 / max (estimate_local_tok_s host m) 1 + (dgetd (dc_latency_ms host) (dc_did worker) 50 / 1000 * 2
      + 1 / max (dgetd (dc_bandwidth_mbps host) (dc_did worker) 100) 1)"
    by (intro add_pos_nonneg) auto
  then have "\<exists>t. distributed_tok_s host worker m = Inr t"
    by (simp add: distributed_tok_s_def py_div_def Let_def)
  moreover have "host_mem + worker_mem \<noteq> 0" using assms(2,3) by linarith
  ultimately show ?thesis by (auto simp: build_distributed_config_def py_div_def)
qed

lemma worker_configs_Inr:
  assumes "latencies_ok host" and "0 < mi_size_gb m"
  shows "\<exists>cs. worker_configs ws host m = Inr cs \<and> set cs = {c. \<exists>(d, worker) \<in> set ws. d \<noteq> mi_did m
     \<and> usable_memory host + usable_memory worker \<ge> mi_size_gb m
     \<and> build_distributed_config host worker m (usable_memory host) (usable_memory worker) = Inr c}"
proof (induction ws)
  case (Cons w ws)
  obtain d worker where w: "w = (d, worker)" by (cases w)
  obtain cs where cs: "worker_configs ws host m = Inr cs" "set cs = {c. \<exists>(d, worker) \<in> set ws. d \<noteq> mi_did m
     \<and> usable_memory host + usable_memory worker \<ge> mi_size_gb m
     \<and> build_distributed_config host worker m (usable_memory host) (usable_memory worker) = Inr c}"
    using Cons.IH by blast
  show ?case
  proof (cases "d = mi_did m \<or> usable_memory host + usable_memory worker < mi_size_gb m")
    case True
    with cs show ?thesis by (intro exI[of _ cs]) (auto simp: w)
  next
    case False
    then obtain c where c: "build_distributed_config host worker m (usable_memory host) (usable_memory worker) = Inr c"
      using distributed_builds[OF assms, of "usable_memory host" "usable_memory worker"] by fastforce
    with False cs show ?thesis by (intro exI[of _ "c # cs"]) (auto simp: w)
  qed
qed simp

lemma model_configs_Inr:
  assumes "\<forall>(d, cap) \<in> set caps. latencies_ok cap" and "0 < mi_size_gb m"
  shows "\<exists>cs. model_configs caps m = Inr cs \<and> set cs = {c. feasible caps m c}"
proof (cases "dget caps (mi_did m)")
  case None
  then show ?thesis by (simp add: model_configs_def feasible_def)
next
  case (Some host)
  then have "latencies_ok host" using assms(1) dget_Some_mem by fastforce
  from worker_configs_Inr[OF this assms(2), of caps] Some show ?thesis
    by (auto simp: model_configs_def feasible_def)
qed

lemma mapE_all:
  "\<forall>x \<in> set xs. \<exists>y. f x = Inr y \<and> P x y \<Longrightarrow> \<exists>ys. mapE f xs = Inr ys \<and> list_all2 P xs ys"
  by (induction xs) auto

lemma concat_list_all2:
  "list_all2 (\<lambda>x cs. set cs = {c. P x c}) xs css \<Longrightarrow> set (concat css) = {c. \<exists>x \<in> set xs. P x c}"
  by (induction rule: list_all2_induct) auto

text \<open>What holds of the catalog before the configurations are computed, and after.\<close>

definition catalog_ok :: "registry \<Rightarrow> bool" where
  "catalog_ok r \<longleftrightarrow> distinct (dkeys (rg_models r))
     \<and> (\<forall>(d, cap) \<in> set (rg_caps r). latencies_ok cap \<and> dc_did cap = d) \<and> distinct (dkeys (rg_caps r))
     \<and> (\<forall>m \<in> set (all_models r). 0 < mi_size_gb m)"

definition in_sync :: "registry \<Rightarrow> bool" where
  "in_sync r \<longleftrightarrow> catalog_ok r \<and> set (rg_configs r) = {c. \<exists>m \<in> set (all_models r). feasible (rg_caps r) m c}"

lemma compute_configs_in_sync:
  assumes "catalog_ok r"
  shows "in_sync (fst (compute_configs r)) \<and> snd (compute_configs r) = Inr ()
    \<and> rg_models (fst (compute_configs r)) = rg_models r \<and> rg_caps (fst (compute_configs r)) = rg_caps r"
proof -
  have "\<forall>m \<in> set (all_models r). \<exists>cs. model_configs (rg_caps r) m = Inr cs \<and> set cs = {c. feasible (rg_caps r) m c}"
    using assms by (intro ballI model_configs_Inr) (auto simp: catalog_ok_def)
  then obtain css where css: "mapE (model_configs (rg_caps r)) (all_models r) = Inr css"
    "list_all2 (\<lambda>m cs. set cs = {c. feasible (rg_caps r) m c}) (all_models r) css"
    using mapE_all[of "all_models r" "model_configs (rg_caps r)" "\<lambda>m cs. set cs = {c. feasible (rg_caps r) m c}"] by blast
  have "set (concat css) = {c. \<exists>m \<in> set (all_models r). feasible (rg_caps r) m c}"
    using concat_list_all2[OF css(2)] .
  then show ?thesis
    using css(1) assms by (simp add: compute_configs_def in_sync_def catalog_ok_def all_models_def)
qed

lemma all_models_mem: "m \<in> set (all_models r) \<longleftrightarrow> (\<exists>n l. (n, l) \<in> set (rg_models r) \<and> m \<in> set l)"
  by (force simp: all_models_def)

lemma register_mem:
  "x \<in> set (all_models (register_no_recompute m r)) \<Longrightarrow> x = m \<or> x \<in> set (all_models r)"
proof -
  let ?old = "dgetd (rg_models r) (mi_name m) []"
  assume "x \<in> set (all_models (register_no_recompute m r))"
  then obtain n l where l: "(n, l) \<in> set (dset (mi_name m) (drop_device (mi_did m) ?old @ [m]) (rg_models r))" "x \<in> set l"
    by (auto simp: all_models_mem register_no_recompute_def)
  then have "(n, l) \<in> set (rg_models r) \<or> l = drop_device (mi_did m) ?old @ [m]" using set_dset_sub by fastforce
  moreover have "y \<in> set ?old \<Longrightarrow> y \<in> set (all_models r)" for y
    using dget_Some_mem[of "rg_models r" "mi_name m"]
    by (cases "dget (rg_models r) (mi_name m)") (auto simp: dgetd_def all_models_mem)
  ultimately show ?thesis using l(2) by (fastforce simp: all_models_mem drop_device_def)
qed

lemma register_catalog:
  "catalog_ok r \<Longrightarrow> 0 < mi_size_gb m \<Longrightarrow> catalog_ok (register_no_recompute m r)"
  using register_mem[of _ m r] by (auto simp: catalog_ok_def register_no_recompute_def)

lemma fold_register_catalog:
  "catalog_ok r \<Longrightarrow> \<forall>m \<in> set ms. 0 < mi_size_gb m \<Longrightarrow> catalog_ok (fold register_no_recompute ms r)"
  by (induction ms arbitrary: r) (auto intro: register_catalog)

lemma fold_register_caps [simp]: "rg_caps (fold register_no_recompute ms r) = rg_caps r"
  by (induction ms arbitrary: r) (auto simp: register_no_recompute_def)

lemma update_catalog:
  assumes "catalog_ok r" and "report_ok d cap"
  shows "catalog_ok (fold register_no_recompute (dc_models cap) (r\<lparr>rg_caps := dset d cap (rg_caps r)\<rparr>))"
proof (rule fold_register_catalog)
  have r: "latencies_ok cap" "dc_did cap = d" using assms(2) by (auto simp: report_ok_def latencies_ok_def)
  show "catalog_ok (r\<lparr>rg_caps := dset d cap (rg_caps r)\<rparr>)"
    using assms(1) r set_dset_sub[of d cap "rg_caps r"] by (auto simp: catalog_ok_def all_models_def)
  show "\<forall>m \<in> set (dc_models cap). 0 < mi_size_gb m" using assms(2) by (auto simp: report_ok_def)
qed

lemma remove_catalog:
  assumes "catalog_ok r"
  shows "catalog_ok (r\<lparr>rg_caps := dpop d (rg_caps r),
       rg_models := filter (\<lambda>(n, l). l \<noteq> []) (map (\<lambda>(n, l). (n, drop_device d l)) (rg_models r))\<rparr>)"
proof -
  have k: "map fst (map (\<lambda>(n, l). (n, drop_device d l)) (rg_models r)) = dkeys (rg_models r)" by auto
  have "distinct (dkeys (filter (\<lambda>(n, l). l \<noteq> []) (map (\<lambda>(n, l). (n, drop_device d l)) (rg_models r))))"
    using assms by (intro distinct_map_filter) (simp only: k catalog_ok_def)
  moreover have "\<forall>m \<in> set (all_models (r\<lparr>rg_caps := dpop d (rg_caps r),
       rg_models := filter (\<lambda>(n, l). l \<noteq> []) (map (\<lambda>(n, l). (n, drop_device d l)) (rg_models r))\<rparr>)). m \<in> set (all_models r)"
    by (auto simp: all_models_mem drop_device_def; blast)
  ultimately show ?thesis
    using assms set_dpop_sub[of d "rg_caps r"] by (auto simp: catalog_ok_def)
qed

lemma registry_in_sync: "registry_reach r \<Longrightarrow> in_sync r"
proof (induction rule: registry_reach.induct)
  case (empty w)
  show ?case by (simp add: in_sync_def catalog_ok_def new_registry_def all_models_def)
next
  case (report r d cap)
  then show ?case
    using compute_configs_in_sync[OF update_catalog[of r d cap]] by (simp add: update_device_def in_sync_def)
next
  case (departure r d)
  then show ?case
    using compute_configs_in_sync[OF remove_catalog[of r d]] by (simp add: remove_device_def in_sync_def)
next
  case (model r m)
  then show ?case
    using compute_configs_in_sync[OF register_catalog[of r m]] by (simp add: register_model_def in_sync_def)
qed


lemma removed_models:
  "m \<in> set (all_models (fst (remove_device d r))) \<Longrightarrow> catalog_ok r \<Longrightarrow> mi_did m \<noteq> d"
  using compute_configs_in_sync[OF remove_catalog[of r d]]
  by (auto simp: remove_device_def all_models_def drop_device_def)

lemma removed_caps: "catalog_ok r \<Longrightarrow> rg_caps (fst (remove_device d r)) = dpop d (rg_caps r)"
  using compute_configs_in_sync[OF remove_catalog[of r d]] by (simp add: remove_device_def)

text \<open>The memory a configuration gives to each device.\<close>

lemma distributed_shares:
  assumes "build_distributed_config host worker m hm wm = Inr c"
  shows "hm + wm \<noteq> 0" "map dr_memory_gb (ic_devices c) = [mi_size_gb m * (hm / (hm + wm)), mi_size_gb m * (wm / (hm + wm))]"
    "ic_model_size c = mi_size_gb m" "ic_type c = ''distributed''" "map dr_did (ic_devices c) = [dc_did host, dc_did worker]"
  using assms by (auto simp: build_distributed_config_def bindE_eq_Inr_iff py_div_def role_of_def split: if_splits)

lemma share_le:
  fixes s a b :: real
  assumes "0 < s" "s \<le> a + b" "0 \<le> a"
  shows "s * (a / (a + b)) \<le> a"
proof -
  have "s * a \<le> (a + b) * a" using assms by (intro mult_right_mono) auto
  then show ?thesis using assms by (simp add: divide_le_eq mult.commute)
qed

lemma local_type: "ic_type (build_local_config host m) = ''local''"
  by (simp add: build_local_config_def Let_def)

lemma feasible_devices:
  assumes "feasible caps m c" and "\<forall>(d, cap) \<in> set caps. dc_did cap = d" and "role \<in> set (ic_devices c)"
  shows "\<exists>cap. (dr_did role, cap) \<in> set caps"
proof -
  obtain host where h: "dget caps (mi_did m) = Some host" "c = build_local_config host m
      \<or> (\<exists>d worker. (d, worker) \<in> set caps
           \<and> build_distributed_config host worker m (usable_memory host) (usable_memory worker) = Inr c)"
    using assms(1) by (auto simp: feasible_def)
  then have "(dc_did host, host) \<in> set caps" using assms(2) dget_Some_mem by fastforce
  moreover have "(dc_did worker, worker) \<in> set caps" if "(d, worker) \<in> set caps" for d worker
    using that assms(2) by fastforce
  moreover have "dr_did role \<in> set (map dr_did (ic_devices c))" using assms(3) by simp
  moreover have "map dr_did (ic_devices (build_local_config host m)) = [dc_did host]"
    by (simp add: build_local_config_def role_of_def Let_def)
  ultimately show ?thesis using h(2) distributed_shares(5) by fastforce
qed

subsection \<open>Properties\<close>

definition demo_model :: model_info where
  "demo_model = \<lparr>mi_name = ''llama'', mi_filename = ''llama.gguf'', mi_size_gb = 12, mi_path = ''/m/llama.gguf'',
     mi_did = ''did:key:a'', mi_layer_count = 32, mi_context_window = 8192\<rparr>"

definition demo_report :: "did \<Rightarrow> real \<Rightarrow> model_info list \<Rightarrow> device_capability" where
  "demo_report d ram ms = \<lparr>dc_did = d, dc_ram_total = 16, dc_ram_available = ram, dc_has_gpu = False, dc_gpu_name = ''none'',
     dc_vram_total = 0, dc_vram_available = 0, dc_backend = ''cpu'', dc_disk_read_mbps = 500,
     dc_llama_cpp_available = True, dc_llama_cpp_path = None, dc_rpc_server_path = None, dc_models = ms,
     dc_latency_ms = [], dc_bandwidth_mbps = []\<rparr>"

definition demo_registry :: registry where
  "demo_registry = fst (update_device ''did:key:b'' (demo_report ''did:key:b'' 8 [])
     (fst (update_device ''did:key:a'' (demo_report ''did:key:a'' 8 [demo_model]) (new_registry None))))"

lemma demo_registry_reach: "registry_reach demo_registry"
  unfolding demo_registry_def
  by (intro registry_reach.intros) (simp_all add: report_ok_def demo_report_def demo_model_def)

lemma demo_memory [simp]:
  "usable_memory (demo_report d ram ms) = ram" "dc_did (demo_report d ram ms) = d" "dc_models (demo_report d ram ms) = ms"
  "latencies_ok (demo_report d ram ms)" "mi_size_gb demo_model = 12" "mi_did demo_model = ''did:key:a''"
  "mi_name demo_model = ''llama''"
  by (simp_all add: usable_memory_def demo_report_def latencies_ok_def demo_model_def)

lemma demo_registry_fields:
  "rg_models demo_registry = [(''llama'', [demo_model])]"
  "rg_caps demo_registry = [(''did:key:a'', demo_report ''did:key:a'' 8 [demo_model]), (''did:key:b'', demo_report ''did:key:b'' 8 [])]"
proof -
  let ?A = "demo_report ''did:key:a'' 8 [demo_model]" and ?B = "demo_report ''did:key:b'' 8 []"
  have i1: "catalog_ok (new_registry None)" by (simp add: catalog_ok_def new_registry_def all_models_def)
  have r1: "report_ok ''did:key:a'' ?A" and r2: "report_ok ''did:key:b'' ?B"
    by (simp_all add: report_ok_def demo_report_def demo_model_def)
  have s1: "rg_models (fst (update_device ''did:key:a'' ?A (new_registry None))) = [(''llama'', [demo_model])]"
    "rg_caps (fst (update_device ''did:key:a'' ?A (new_registry None))) = [(''did:key:a'', ?A)]"
    using compute_configs_in_sync[OF update_catalog[OF i1 r1]]
    by (simp_all add: update_device_def register_no_recompute_def new_registry_def dgetd_def drop_device_def)
  have i2: "catalog_ok (fst (update_device ''did:key:a'' ?A (new_registry None)))"
    using compute_configs_in_sync[OF update_catalog[OF i1 r1]] by (simp add: update_device_def in_sync_def)
  show "rg_models demo_registry = [(''llama'', [demo_model])]"
    "rg_caps demo_registry = [(''did:key:a'', ?A), (''did:key:b'', ?B)]"
    using compute_configs_in_sync[OF update_catalog[OF i2 r2]] s1
    by (simp_all add: demo_registry_def update_device_def)
qed

lemma demo_registry_models: "all_models demo_registry = [demo_model]"
  by (simp add: all_models_def demo_registry_fields)

lemma demo_registry_builds:
  "\<exists>c. build_distributed_config (demo_report ''did:key:a'' 8 [demo_model]) (demo_report ''did:key:b'' 8 []) demo_model 8 8 = Inr c"
  using distributed_builds[of "demo_report ''did:key:a'' 8 [demo_model]" 12 8 8] by simp

lemma demo_registry_offers: "rg_configs demo_registry \<noteq> []"
  using registry_in_sync[OF demo_registry_reach] demo_registry_builds
  by (auto simp: in_sync_def feasible_def demo_registry_models demo_registry_fields)



text \<open>
  The choice among the configurations is the rule of the scheduler: \<open>max\<close> with a key and the
  head of a stable descending sort pick the same element, the first of those with the highest
  score.
\<close>

theorem best_config_is_sorted_head:
  "get_best_config r tc healths =
     (if filter_by_constraints r tc = [] then None
      else Some (hd (sort_key (\<lambda>c. - live_score r healths c) (filter_by_constraints r tc))))"
  by (simp add: get_best_config_def max_of_sorted_pick sorted_pick_def)

text \<open>
  No constraint of a task restricts the configurations: the best configuration of a reachable
  catalog is the same for every task, also for one that must stay on this device.
\<close>

theorem constraints_never_exclude_config:
  assumes "registry_reach r"
  shows "get_best_config r tc healths = get_best_config r tc' healths"
proof -
  have "ic_type c \<noteq> ''cloud''" if "c \<in> set (rg_configs r)" for c
    using that registry_in_sync[OF assms] distributed_shares(4)
    by (force simp: in_sync_def feasible_def local_type)
  then have "filter_by_constraints r t = rg_configs r" for t
    by (simp add: filter_by_constraints_def filter_id_conv)
  then show ?thesis by (simp add: get_best_config_def)
qed

theorem constraints_never_exclude_config_witness:
  "get_best_config demo_registry (demo_task\<lparr>tc_locality := LOCAL_ONLY\<rparr>) []
     = get_best_config demo_registry (demo_task\<lparr>tc_locality := ANY\<rparr>) []"
  by (rule constraints_never_exclude_config) (rule demo_registry_reach)

text \<open>
  A device that left is in no configuration: after \<open>remove_device\<close> no configuration has it as host
  or worker, and none of its models is listed.
\<close>

theorem departed_device_forgotten:
  assumes "registry_reach r"
  shows "(\<forall>c \<in> set (rg_configs (fst (remove_device d r))). \<forall>role \<in> set (ic_devices c). dr_did role \<noteq> d)
     \<and> (\<forall>m \<in> set (all_models (fst (remove_device d r))). mi_did m \<noteq> d)"
proof (intro conjI ballI)
  have i: "catalog_ok r" using registry_in_sync[OF assms] by (simp add: in_sync_def)
  have s: "in_sync (fst (remove_device d r))" by (intro registry_in_sync registry_reach.intros assms)
  fix c role
  assume c: "c \<in> set (rg_configs (fst (remove_device d r)))" "role \<in> set (ic_devices c)"
  from s have k: "\<forall>(e, cap) \<in> set (rg_caps (fst (remove_device d r))). dc_did cap = e"
    by (auto simp: in_sync_def catalog_ok_def)
  from s c(1) obtain m where "feasible (rg_caps (fst (remove_device d r))) m c" by (auto simp: in_sync_def)
  from feasible_devices[OF this k c(2)] obtain cap where "(dr_did role, cap) \<in> set (dpop d (rg_caps r))"
    using removed_caps[OF i] by auto
  then show "dr_did role \<noteq> d" by (auto simp: AList.delete_eq)
next
  fix m assume "m \<in> set (all_models (fst (remove_device d r)))"
  then show "mi_did m \<noteq> d" using removed_models registry_in_sync[OF assms] by (simp add: in_sync_def)
qed

theorem departed_device_forgotten_witness:
  "rg_configs demo_registry \<noteq> []
     \<and> (\<forall>c \<in> set (rg_configs (fst (remove_device ''did:key:b'' demo_registry))). \<forall>role \<in> set (ic_devices c). dr_did role \<noteq> ''did:key:b'')"
  using departed_device_forgotten[OF demo_registry_reach, of "''did:key:b''"] demo_registry_offers by auto

text \<open>
  A configuration splits its model exactly, and no device is given more than its usable memory:
  the shares are not negative, fit the devices they are given to, and add up to the model.
\<close>

theorem allocation_fits_devices:
  assumes "registry_reach r" and "\<forall>(d, cap) \<in> set (rg_caps r). 0 \<le> usable_memory cap"
    and "c \<in> set (rg_configs r)"
  shows "sum_list (map dr_memory_gb (ic_devices c)) = ic_model_size c
     \<and> (\<forall>role \<in> set (ic_devices c). \<exists>cap. dget (rg_caps r) (dr_did role) = Some cap
          \<and> 0 \<le> dr_memory_gb role \<and> dr_memory_gb role \<le> usable_memory cap)"
proof -
  have i: "catalog_ok r" using registry_in_sync[OF assms(1)] by (simp add: in_sync_def)
  obtain m where m: "m \<in> set (all_models r)" "feasible (rg_caps r) m c"
    using registry_in_sync[OF assms(1)] assms(3) by (auto simp: in_sync_def)
  have size: "0 < mi_size_gb m" using i m(1) by (auto simp: catalog_ok_def)
  have known: "dget (rg_caps r) (dc_did cap) = Some cap \<and> 0 \<le> usable_memory cap" if "(d, cap) \<in> set (rg_caps r)" for d cap
    using that i assms(2) by (fastforce simp: catalog_ok_def)
  obtain host where h: "dget (rg_caps r) (mi_did m) = Some host" using m(2) by (auto simp: feasible_def)
  then have kh: "dget (rg_caps r) (dc_did host) = Some host \<and> 0 \<le> usable_memory host"
    using known dget_Some_mem by fast
  consider (lc) "mi_size_gb m \<le> usable_memory host" "c = build_local_config host m"
    | (dist) d worker where "(d, worker) \<in> set (rg_caps r)" "mi_size_gb m \<le> usable_memory host + usable_memory worker"
        "build_distributed_config host worker m (usable_memory host) (usable_memory worker) = Inr c"
    using m(2) h by (auto simp: feasible_def)
  then show ?thesis
  proof cases
    case lc
    then show ?thesis using kh size by (simp add: build_local_config_def role_of_def Let_def)
  next
    case (dist d worker)
    note sh = distributed_shares[OF dist(3)] and kw = known[OF dist(1)]
    obtain r1 r2 where ds: "ic_devices c = [r1, r2]"
      using sh(5) by (cases "ic_devices c" rule: list.exhaust; cases "tl (ic_devices c)") auto
    have "usable_memory host + usable_memory worker = usable_memory worker + usable_memory host" by simp
    then show ?thesis
      using sh kh kw size dist(2) share_le[OF size, of "usable_memory host" "usable_memory worker"]
        share_le[OF size, of "usable_memory worker" "usable_memory host"]
      by (simp add: ds distrib_left[symmetric] add_divide_distrib[symmetric] add.commute)
  qed
qed

theorem allocation_fits_devices_witness:
  "\<exists>c \<in> set (rg_configs demo_registry). sum_list (map dr_memory_gb (ic_devices c)) = ic_model_size c"
proof -
  obtain c where "c \<in> set (rg_configs demo_registry)" using demo_registry_offers by (cases "rg_configs demo_registry") auto
  then show ?thesis
    using allocation_fits_devices[OF demo_registry_reach, of c] by (auto simp: demo_registry_fields)
qed

text \<open>
  A model that a later report no longer names stays in the catalog: a device that reports
  without models is still offered as the host of a model it reported before.
\<close>

theorem vanished_model_stays_listed:
  assumes "registry_reach r" and "m \<in> set (all_models r)"
    and "report_ok (mi_did m) cap" and "dc_models cap = []" and "mi_size_gb m \<le> usable_memory cap"
  shows "build_local_config cap m \<in> set (rg_configs (fst (update_device (mi_did m) cap r)))"
proof -
  have i: "catalog_ok r" using registry_in_sync[OF assms(1)] by (simp add: in_sync_def)
  have "in_sync (fst (update_device (mi_did m) cap r))"
    by (intro registry_in_sync registry_reach.intros assms(1,3))
  moreover have "rg_models (fst (update_device (mi_did m) cap r)) = rg_models r"
    "rg_caps (fst (update_device (mi_did m) cap r)) = dset (mi_did m) cap (rg_caps r)"
    using compute_configs_in_sync[OF update_catalog[OF i assms(3)]] assms(4) by (simp_all add: update_device_def)
  ultimately show ?thesis
    using assms(2,5) by (auto simp: in_sync_def feasible_def all_models_def)
qed

theorem vanished_model_stays_listed_witness:
  "build_local_config (demo_report ''did:key:a'' 16 []) demo_model
     \<in> set (rg_configs (fst (update_device ''did:key:a'' (demo_report ''did:key:a'' 16 []) demo_registry)))"
  using vanished_model_stays_listed[OF demo_registry_reach, of demo_model "demo_report ''did:key:a'' 16 []"]
  by (simp add: demo_registry_models) (simp add: report_ok_def demo_report_def)

text \<open>
  The identifier of a configuration does not tell its devices apart: it holds the first eight
  characters of a DID, which are the same for every device, so two sessions for the same model
  between any devices carry the same identifier.
\<close>

theorem config_id_forgets_devices:
  assumes "build_distributed_config host worker m hm wm = Inr c" and "build_distributed_config host' worker' m' hm' wm' = Inr c'"
    and "mi_name m = mi_name m'"
    and "\<forall>d \<in> {dc_did host, dc_did worker, dc_did host', dc_did worker'}. \<exists>k. public_key_to_did k = Inr d"
  shows "ic_id c = ic_id c'"
proof -
  have t: "take 8 d = ''did:key:''" if "public_key_to_did k = Inr d" for k d
    using that by (auto simp: public_key_to_did_def DID_PREFIX_def split: if_splits)
  have "ic_id c = ''dist-'' @ mi_name m @ ''-'' @ take 8 (dc_did host) @ ''-'' @ take 8 (dc_did worker)"
    "ic_id c' = ''dist-'' @ mi_name m' @ ''-'' @ take 8 (dc_did host') @ ''-'' @ take 8 (dc_did worker')"
    using assms(1,2) by (auto simp: build_distributed_config_def bindE_eq_Inr_iff)
  moreover have "\<forall>d \<in> {dc_did host, dc_did worker, dc_did host', dc_did worker'}. take 8 d = ''did:key:''"
    using assms(4) t by blast
  ultimately show ?thesis using assms(3) by simp
qed

theorem config_id_forgets_devices_witness:
  "\<exists>c c'. build_distributed_config (demo_report (demo_did True) 8 []) (demo_report (demo_did False) 8 []) demo_model 8 8 = Inr c
     \<and> build_distributed_config (demo_report (demo_did False) 8 []) (demo_report (demo_did True) 8 []) demo_model 8 8 = Inr c'
     \<and> ic_id c = ic_id c' \<and> ic_trusted_did c \<noteq> ic_trusted_did c'"
proof -
  obtain c where c: "build_distributed_config (demo_report (demo_did True) 8 []) (demo_report (demo_did False) 8 []) demo_model 8 8 = Inr c"
    using distributed_builds[of "demo_report (demo_did True) 8 []" 12 8 8] by auto
  obtain c' where c': "build_distributed_config (demo_report (demo_did False) 8 []) (demo_report (demo_did True) 8 []) demo_model 8 8 = Inr c'"
    using distributed_builds[of "demo_report (demo_did False) 8 []" 12 8 8] by auto
  have k: "\<exists>p. public_key_to_did p = Inr (demo_did b)" for b
    using demo_owns[of "[]" b] by (auto simp: owns_def)
  have "ic_trusted_did c = demo_did True" "ic_trusted_did c' = demo_did False"
    using c c' by (auto simp: build_distributed_config_def bindE_eq_Inr_iff)
  moreover have "demo_did True \<noteq> demo_did False"
    using owns_key[OF demo_owns[of "[]" True]] owns_key[OF demo_owns[of "[]" False]] by (auto simp: demo_lib_def)
  ultimately show ?thesis using config_id_forgets_devices[OF c c'] c c' k by auto
qed

end
