(* ===== verification/Discovery.thy ===== *)
theory Discovery
  imports Registry Wire
begin

text \<open>
  \<^verbatim>\<open>transport/discovery.py\<close>: the service a device advertises and the table of the peers it finds, over
  the events of the mDNS library; and the joiner's side of pairing, \<open>pair_with_invitation\<close> of
  \<^verbatim>\<open>node.py\<close>, over the peers it can contact and their answers. The library resolves a name to the
  properties, addresses and port of a service, or to nothing. The lemmas show what a found peer
  holds, that a service that disappears stays in the table, and whose household a joiner enters.
\<close>

subsection \<open>Services\<close>

record discovery =
  ds_did :: did
  ds_name :: string
  ds_tag :: string
  ds_port :: int
  ds_caps :: "string list"
  ds_peers :: "(did \<times> peer_info) list"

definition new_discovery :: "did \<Rightarrow> string \<Rightarrow> string \<Rightarrow> int \<Rightarrow> string list option \<Rightarrow> discovery" where
  "new_discovery d name tag port caps =
     \<lparr>ds_did = d, ds_name = name, ds_tag = tag, ds_port = port, ds_caps = (case caps of None \<Rightarrow> [] | Some c \<Rightarrow> c), ds_peers = []\<rparr>"

definition service_name :: "discovery \<Rightarrow> string" where
  "service_name a = ''aries-'' @ ds_name a @ ''._aries._tcp.local.''"

fun join_comma :: "string list \<Rightarrow> string" where
  "join_comma [] = []"
| "join_comma [x] = x"
| "join_comma (x # y # xs) = x @ '','' @ join_comma (y # xs)"

definition service_properties :: "discovery \<Rightarrow> (string \<times> string) list" where
  "service_properties a =
     [(''did'', ds_did a), (''household'', ds_tag a), (''proto'', ''v0.1''), (''cap'', join_comma (ds_caps a)), (''name'', ds_name a)]"

text \<open>A resolved service; the addresses are those with scope, or else those without.\<close>

record service_info =
  si_props :: "(string \<times> string) list"
  si_addresses :: "string list"
  si_port :: "int option"

definition port_or_zero :: "int option \<Rightarrow> int" where
  "port_or_zero p = (case p of None \<Rightarrow> 0 | Some n \<Rightarrow> n)"

definition service_peer :: "real \<Rightarrow> string \<Rightarrow> service_info \<Rightarrow> peer_info" where
  "service_peer now name info =
     \<lparr>pi_did = or_empty (dget (si_props info) ''did''), pi_name = dgetd (si_props info) ''name'' name,
      pi_host = hd (si_addresses info), pi_port = port_or_zero (si_port info), pi_tag = or_empty (dget (si_props info) ''household''),
      pi_capabilities = filter (\<lambda>c. c \<noteq> []) (split_on (CHR '','') (or_empty (dget (si_props info) ''cap''))),
      pi_last_seen = now, pi_latency = None\<rparr>"

definition resolve_service :: "real \<Rightarrow> string \<Rightarrow> service_info option \<Rightarrow> discovery \<Rightarrow> discovery \<times> peer_info list" where
  "resolve_service now name found d =
     (case found of
        None \<Rightarrow> (d, [])
      | Some info \<Rightarrow>
          let peer_did = dget (si_props info) ''did''; peer_household = dget (si_props info) ''household'' in
          if \<not> truthy peer_did \<or> \<not> truthy peer_household then (d, [])
          else if or_empty peer_household \<noteq> ds_tag d then (d, [])
          else if or_empty peer_did = ds_did d then (d, [])
          else if si_addresses info = [] then (d, [])
          else if port_or_zero (si_port info) = 0 then (d, [])
          else let peer = service_peer now name info
               in (d\<lparr>ds_peers := dset (or_empty peer_did) peer (ds_peers d)\<rparr>, [peer]))"

text \<open>A removal: the peers that left the table, for the callback, in the order of the table.\<close>

definition handle_removal :: "string \<Rightarrow> discovery \<Rightarrow> discovery \<times> peer_info list" where
  "handle_removal name d =
     (let lost = filter (\<lambda>(did, peer). pi_name peer = name) (ds_peers d)
      in (d\<lparr>ds_peers := filter (\<lambda>(did, peer). pi_name peer \<noteq> name) (ds_peers d)\<rparr>, map snd lost))"

datatype service_event = Added string real "service_info option" | Removed string

definition on_service_event :: "service_event \<Rightarrow> discovery \<Rightarrow> discovery" where
  "on_service_event ev d =
     (case ev of Added name now found \<Rightarrow> fst (resolve_service now name found d) | Removed name \<Rightarrow> fst (handle_removal name d))"

subsection \<open>Joining with an invitation\<close>

text \<open>
  The peers the joiner finds before its deadline, in the order it takes them: whether the
  connection and the request succeed, and the first answer that arrives while it waits, if any.
  \<open>asyncio.wait_for\<close> cancels the future it waits for when the time is over; a cancelled future
  raises when it is awaited again.
\<close>

record contact =
  ct_connects :: bool
  ct_sends :: bool
  ct_answer :: "dict option"

datatype accept_future = Pending | Answered dict | Cancelled

text \<open>
  The membership in an answer. Without one the loop goes on; an empty one ends it with nothing.
\<close>

definition membership_of :: "dict \<Rightarrow> pyval" where
  "membership_of body = dgetd body ''membership_ucan'' VNone"

definition after_answer :: "dict \<Rightarrow> pyval option result \<Rightarrow> pyval option result" where
  "after_answer body go_on =
     (let v = membership_of body in if v = VNone then go_on else if py_bool v then Inr (Some v) else Inr None)"

fun await_membership :: "accept_future \<Rightarrow> contact list \<Rightarrow> pyval option result" where
  "await_membership fut [] = Inr None"
| "await_membership fut (c # cs) =
     (if \<not> ct_connects c \<or> \<not> ct_sends c then await_membership fut cs
      else case (fut, ct_answer c) of
          (Cancelled, _) \<Rightarrow> Inl (LibError ''CancelledError'')
        | (Pending, None) \<Rightarrow> await_membership Cancelled cs
        | (Pending, Some body) \<Rightarrow> after_answer body (await_membership (Answered body) cs)
        | (Answered body, _) \<Rightarrow> after_answer body (await_membership (Answered body) cs))"

definition pair_with_invitation ::
    "('k, 'z) key_lib_scheme \<Rightarrow> real \<Rightarrow> 'k \<Rightarrow> contact list \<Rightarrow> string \<Rightarrow> string \<Rightarrow> 'k household \<Rightarrow> ('k, did \<times> did) hh_result" where
  "pair_with_invitation L now dev_key contacts name platform h =
     (case hh_initialize_joiner L dev_key h of
        (h1, Inl e) \<Rightarrow> (h1, Inl e)
      | (h1, Inr d) \<Rightarrow>
          (case await_membership Pending contacts of
             Inl e \<Rightarrow> (h1, Inl e)
           | Inr None \<Rightarrow> (h1, Inl (RuntimeError ''No inviter responded with a membership UCAN''))
           | Inr (Some v) \<Rightarrow>
               (case as_str v of
                  Inl e \<Rightarrow> (h1, Inl e)
                | Inr jwt \<Rightarrow> hh_complete_joining L now h1 jwt name platform)))"


subsection \<open>Finding peers\<close>

lemma join_comma_split:
  "list_all (\<lambda>c. CHR '','' \<notin> set c) (c # cs) \<Longrightarrow> split_on (CHR '','') (join_comma (c # cs)) = c # cs"
proof (induction cs arbitrary: c)
  case Nil
  have "split_on x s = [s]" if "x \<notin> set s" for x s using that by (induction s) auto
  with Nil show ?case by simp
next
  case (Cons d cs)
  have "split_on x (s @ x # t) = s # split_on x t" if "x \<notin> set s" for x s t
    using that by (induction s) auto
  with Cons show ?case by simp
qed

lemma advertised_capabilities:
  assumes "list_all (\<lambda>c. c \<noteq> [] \<and> CHR '','' \<notin> set c) cs"
  shows "filter (\<lambda>c. c \<noteq> []) (split_on (CHR '','') (join_comma cs)) = cs"
proof (cases cs)
  case (Cons c ds)
  with assms have "list_all (\<lambda>c. CHR '','' \<notin> set c) (c # ds)" by (auto simp: list_all_iff)
  then show ?thesis using assms unfolding Cons by (simp only: join_comma_split) (auto simp: list_all_iff intro!: filter_True)
qed simp

text \<open>No name in the table starts like the name of a service.\<close>

definition plain_names :: "discovery \<Rightarrow> bool" where
  "plain_names d \<longleftrightarrow> (\<forall>(k, p) \<in> set (ds_peers d). \<not> startswith (pi_name p) ''aries-'')"

lemma removal_keeps_table:
  "plain_names d \<Longrightarrow> startswith name ''aries-'' \<Longrightarrow> handle_removal name d = (d, [])"
proof -
  assume p: "plain_names d" and n: "startswith name ''aries-''"
  have "\<forall>(k, p) \<in> set (ds_peers d). pi_name p \<noteq> name" using p n by (auto simp: plain_names_def)
  then have "filter (\<lambda>(k, p). pi_name p \<noteq> name) (ds_peers d) = ds_peers d" "filter (\<lambda>(k, p). pi_name p = name) (ds_peers d) = []"
    by (auto intro!: filter_True filter_False)
  then show ?thesis by (simp add: handle_removal_def Let_def)
qed

lemma resolve_plain_names:
  assumes "plain_names d" and "\<And>info. found = Some info \<Longrightarrow> \<not> startswith (dgetd (si_props info) ''name'' name) ''aries-''"
  shows "plain_names (fst (resolve_service now name found d))"
proof -
  have "plain_names (d\<lparr>ds_peers := dset k p (ds_peers d)\<rparr>)" if "\<not> startswith (pi_name p) ''aries-''" for k p
    using assms(1) that set_dset_sub[of k p "ds_peers d"] by (auto simp: plain_names_def)
  then show ?thesis
    using assms by (auto simp: resolve_service_def service_peer_def Let_def split: option.split)
qed

definition removal :: "service_event \<Rightarrow> bool" where
  "removal ev \<longleftrightarrow> (case ev of Added _ _ _ \<Rightarrow> False | Removed _ \<Rightarrow> True)"

text \<open>An event that services of this program cause: their properties, or their name.\<close>

definition of_this_program :: "service_event \<Rightarrow> bool" where
  "of_this_program ev \<longleftrightarrow>
     (case ev of
        Added name now None \<Rightarrow> True
      | Added name now (Some info) \<Rightarrow> (\<exists>a. si_props info = service_properties a \<and> \<not> startswith (ds_name a) ''aries-'')
      | Removed name \<Rightarrow> (\<exists>a. name = service_name a))"

lemma program_event_names:
  assumes "of_this_program ev" and "plain_names d" shows "plain_names (on_service_event ev d)"
proof (cases ev)
  case (Added name now found)
  have "plain_names (fst (resolve_service now name found d))"
  proof (rule resolve_plain_names[OF assms(2)])
    fix info assume "found = Some info"
    with assms(1) show "\<not> startswith (dgetd (si_props info) ''name'' name) ''aries-''"
      by (auto simp: Added of_this_program_def service_properties_def dgetd_def)
  qed
  then show ?thesis by (simp add: Added on_service_event_def)
next
  case (Removed name)
  with assms show ?thesis
    by (auto simp: on_service_event_def of_this_program_def service_name_def removal_keeps_table)
qed

text \<open>
  What a device advertises is what the other devices of its household find: the DID, name, host,
  port and capabilities arrive in their tables, under the DID, and nothing else changes.
\<close>

theorem advertised_peer_is_found:
  assumes "ds_tag a = ds_tag d" and "ds_tag a \<noteq> []" and "ds_did a \<noteq> []" and "ds_did a \<noteq> ds_did d" and "ds_port a \<noteq> 0"
    and "list_all (\<lambda>c. c \<noteq> [] \<and> CHR '','' \<notin> set c) (ds_caps a)"
  shows "resolve_service now (service_name a)
           (Some \<lparr>si_props = service_properties a, si_addresses = host # others, si_port = Some (ds_port a)\<rparr>) d
     = (let p = \<lparr>pi_did = ds_did a, pi_name = ds_name a, pi_host = host, pi_port = ds_port a, pi_tag = ds_tag a,
              pi_capabilities = ds_caps a, pi_last_seen = now, pi_latency = None\<rparr>
        in (d\<lparr>ds_peers := dset (ds_did a) p (ds_peers d)\<rparr>, [p]))"
  using assms advertised_capabilities[OF assms(6)]
  by (simp add: resolve_service_def service_peer_def service_properties_def dgetd_def port_or_zero_def Let_def)

theorem advertised_peer_is_found_witness:
  "resolve_service 5 ''aries-pc._aries._tcp.local.''
     (Some \<lparr>si_props = service_properties (new_discovery ''did:a'' ''pc'' ''home'' 7400 (Some [''text.qa'', ''summarize''])),
        si_addresses = [''10.0.0.2''], si_port = Some 7400\<rparr>) (new_discovery ''did:b'' ''nas'' ''home'' 7400 None)
   = (let p = \<lparr>pi_did = ''did:a'', pi_name = ''pc'', pi_host = ''10.0.0.2'', pi_port = 7400, pi_tag = ''home'',
            pi_capabilities = [''text.qa'', ''summarize''], pi_last_seen = 5, pi_latency = None\<rparr>
      in ((new_discovery ''did:b'' ''nas'' ''home'' 7400 None)\<lparr>ds_peers := [(''did:a'', p)]\<rparr>, [p]))"
  using advertised_peer_is_found[of "new_discovery ''did:a'' ''pc'' ''home'' 7400 (Some [''text.qa'', ''summarize''])"
      "new_discovery ''did:b'' ''nas'' ''home'' 7400 None" 5 "''10.0.0.2''" "[]"]
  by (simp add: new_discovery_def service_name_def)

text \<open>
  A device that leaves the network stays in the table of peers: the mDNS library reports the
  service name, the table holds the device name, so among services of this program no removal
  removes anything and no \<open>on_peer_lost\<close> callback is called.
\<close>

theorem removed_service_stays_listed:
  assumes "ds_peers d = []" and "list_all of_this_program evs"
  shows "fold on_service_event evs d = fold on_service_event (filter (\<lambda>ev. \<not> removal ev) evs) d
     \<and> snd (handle_removal (service_name a) (fold on_service_event evs d)) = []"
proof -
  have "plain_names d' \<Longrightarrow> list_all of_this_program evs' \<Longrightarrow>
     fold on_service_event evs' d' = fold on_service_event (filter (\<lambda>ev. \<not> removal ev) evs') d'
     \<and> plain_names (fold on_service_event evs' d')" for evs' d'
  proof (induction evs' arbitrary: d')
    case (Cons ev evs')
    then have n: "plain_names (on_service_event ev d')" by (simp add: program_event_names)
    show ?case
    proof (cases "removal ev")
      case True
      with Cons.prems obtain a where "ev = Removed (service_name a)"
        by (auto simp: removal_def of_this_program_def split: service_event.splits)
      with Cons.prems have "on_service_event ev d' = d'"
        by (simp add: on_service_event_def removal_keeps_table service_name_def)
      with True Cons.IH[OF n] Cons.prems show ?thesis by auto
    next
      case False
      with Cons.IH[OF n] Cons.prems show ?thesis by auto
    qed
  qed simp
  from this[of d evs] assms have f: "fold on_service_event evs d = fold on_service_event (filter (\<lambda>ev. \<not> removal ev) evs) d"
    "plain_names (fold on_service_event evs d)" by (simp_all add: plain_names_def)
  from removal_keeps_table[OF f(2), of "service_name a"] f(1) show ?thesis by (simp add: service_name_def)
qed

definition demo_service :: discovery where
  "demo_service = new_discovery ''did:a'' ''pc'' ''home'' 7400 None"

theorem removed_service_stays_listed_witness:
  "fold on_service_event [Added (service_name demo_service) 5 (Some \<lparr>si_props = service_properties demo_service,
        si_addresses = [''10.0.0.2''], si_port = Some 7400\<rparr>), Removed (service_name demo_service)]
     (new_discovery ''did:b'' ''nas'' ''home'' 7400 None)
   = fst (resolve_service 5 (service_name demo_service) (Some \<lparr>si_props = service_properties demo_service,
        si_addresses = [''10.0.0.2''], si_port = Some 7400\<rparr>) (new_discovery ''did:b'' ''nas'' ''home'' 7400 None))"
proof -
  let ?info = "\<lparr>si_props = service_properties demo_service, si_addresses = [''10.0.0.2''], si_port = Some 7400\<rparr>"
  have "\<not> startswith (ds_name demo_service) ''aries-''" by (simp add: demo_service_def new_discovery_def)
  then have "list_all of_this_program [Added (service_name demo_service) 5 (Some ?info), Removed (service_name demo_service)]"
    by (auto simp: of_this_program_def)
  from removed_service_stays_listed[OF _ this, of "new_discovery ''did:b'' ''nas'' ''home'' 7400 None" demo_service] show ?thesis
    by (simp add: removal_def on_service_event_def new_discovery_def)
qed


subsection \<open>Entering a household\<close>

definition reachable :: "contact \<Rightarrow> bool" where
  "reachable c \<longleftrightarrow> ct_connects c \<and> ct_sends c"

lemma await_skips: "list_all (\<lambda>c. \<not> reachable c) us \<Longrightarrow> await_membership fut (us @ cs) = await_membership fut cs"
  by (induction us) (auto simp: reachable_def)

text \<open>A fresh device that is given a membership for its own DID enters the household of its issuer.\<close>

lemma joining_outcome:
  assumes "file_manifest h = None" and "public_key_to_did (ed_public L k) = Inr d"
    and "await_membership Pending contacts = Inr (Some (VStr jwt))"
    and "decode_token L now jwt = Inr t" and "audience t = d" and "issuer t \<noteq> []"
  obtains h' where "pair_with_invitation L now k contacts name platform h = (h', Inr (issuer t, d))"
    "hh_root_did h' = Some (issuer t)" "hh_membership h' = Some jwt" "hh_device_did h' = Some d" "hh_device_key h' = Some k"
proof -
  obtain st c where "store_token L now (hh_tokens h) jwt = Inr (st, c)" using store_token_decoded[OF assms(4)] by blast
  with assms show thesis
    by (intro that) (auto simp: pair_with_invitation_def hh_initialize_joiner_def hh_complete_joining_def Let_def save_household_def)
qed

text \<open>
  C15: pairing works end to end: when the inviter accepts the code of a fresh device and its answer is
  the first to arrive, the device enters the household of the inviter's root, holds the membership
  the inviter recorded for it, and the inviter lists it under the same DID.
\<close>

theorem invited_device_joins:
  assumes "file_manifest hj = None" and "public_key_to_did (ed_public L k) = Inr d"
    and "hh_accept_pairing L now nnc hi d name platform code = (hi', Inr jwt)" and "hh_root_did hi = Some r" and "r \<noteq> []"
    and "json_ok L jwt_header" and "json_ok L (payload (membership_token now nnc r d))"
    and "list_all (\<lambda>c. \<not> reachable c) unreachable" and "reachable c"
    and "ct_answer c = Some [(''membership_ucan'', VStr jwt)]"
  shows "\<exists>hj' rec. pair_with_invitation L later k (unreachable @ c # rest) name platform hj = (hj', Inr (r, d))
     \<and> hh_root_did hj' = hh_root_did hi' \<and> hh_membership hj' = Some jwt
     \<and> dget (hh_devices hi') d = Some rec \<and> dv_membership rec = jwt"
proof -
  from accept_effect[OF assms(3)] obtain rec where
    rec: "dget (hh_devices hi') d = Some rec" "dv_membership rec = jwt" by blast
  have root: "hh_root_did hi' = hh_root_did hi"
    using assms(3) by (auto simp: hh_accept_pairing_def Let_def save_household_def split: option.splits if_splits sum.splits)
  obtain rk where jwt: "jwt = snd (sign_token L rk (membership_token now nnc r d))"
    using assms(3,4) by (auto simp: hh_accept_pairing_def Let_def build_household_membership_def or_empty_def
        split: option.splits if_splits sum.splits)
  define t where "t = fst (sign_token L rk (membership_token now nnc r d))"
  have dec: "decode_token L later jwt = Inr t"
    unfolding jwt t_def by (rule decode_signed[OF assms(6,7)])
  have t: "audience t = d" "issuer t = r" "jwt \<noteq> []"
    using decode_raw[OF dec] by (simp_all add: t_def sign_token_def Let_def membership_token_def)
  have aw: "await_membership Pending (unreachable @ c # rest) = Inr (Some (VStr jwt))"
    using assms(8-10) t(3) by (simp add: await_skips reachable_def after_answer_def membership_of_def dgetd_def py_bool_def)
  have ne: "issuer t \<noteq> []" using t(2) assms(5) by simp
  obtain hj' where
    "pair_with_invitation L later k (unreachable @ c # rest) name platform hj = (hj', Inr (issuer t, d))"
    "hh_root_did hj' = Some (issuer t)" "hh_membership hj' = Some jwt"
    by (rule joining_outcome[OF assms(1,2) aw dec t(1) ne])
  with rec root t(2) assms(4) show ?thesis by auto
qed

definition demo_inviter :: "bool household" where
  "demo_inviter = (open_household None None [])\<lparr>hh_root_key := Some True, hh_root_did := Some (demo_did True),
     hh_offer := Some \<lparr>of_code = ''w'', of_code_hash = sha256_hex demo_agent_lib (encode_str ''w''), of_created_at = 0, of_expires_at = 300\<rparr>\<rparr>"

definition demo_contact :: "dict option \<Rightarrow> contact" where
  "demo_contact answer = \<lparr>ct_connects = True, ct_sends = True, ct_answer = answer\<rparr>"

theorem invited_device_joins_witness:
  "\<exists>hj' (hi' :: bool household) jwt. hh_accept_pairing demo_agent_lib 0 ''n'' demo_inviter (demo_did False) ''phone'' ''android'' ''w'' = (hi', Inr jwt)
     \<and> pair_with_invitation demo_agent_lib 9 False [demo_contact (Some [(''membership_ucan'', VStr jwt)])] ''phone'' ''android''
          (open_household None None []) = (hj', Inr (demo_did True, demo_did False))"
proof -
  let ?L = demo_agent_lib and ?t = "membership_token 0 ''n'' (demo_did True) (demo_did False)"
  have j: "json_ok ?L jwt_header" "json_ok ?L (payload ?t)" using demo_tokens_json by (simp_all add: demo_root_token_def)
  have "\<exists>hi' jwt. hh_accept_pairing ?L 0 ''n'' demo_inviter (demo_did False) ''phone'' ''android'' ''w'' = (hi', Inr jwt)"
    using store_signed[OF j, of 0 "hh_tokens demo_inviter" True]
    by (simp add: hh_accept_pairing_def demo_inviter_def build_household_membership_def cid_signed Let_def or_empty_def)
  then obtain hi' jwt where a: "hh_accept_pairing ?L 0 ''n'' demo_inviter (demo_did False) ''phone'' ''android'' ''w'' = (hi', Inr jwt)"
    by blast
  have "\<exists>hj' rec. pair_with_invitation ?L 9 False ([] @ demo_contact (Some [(''membership_ucan'', VStr jwt)]) # []) ''phone'' ''android''
          (open_household None None []) = (hj', Inr (demo_did True, demo_did False))
     \<and> hh_root_did hj' = hh_root_did hi' \<and> hh_membership hj' = Some jwt
     \<and> dget (hh_devices hi') (demo_did False) = Some rec \<and> dv_membership rec = jwt"
    by (rule invited_device_joins[OF _ _ a _ _ j])
      (simp_all add: open_household_def demo_agent_lib_fields(6) demo_inviter_def demo_did_def DID_PREFIX_def reachable_def demo_contact_def)
  with a show ?thesis by auto
qed

text \<open>
  Whoever answers first decides the household: any peer that is contacted receives the pairing
  code, and a membership text that names this device as its audience is accepted whatever key
  signed it, or none; the device then takes its issuer for the root of its household.
\<close>

theorem joiner_trusts_first_answer:
  assumes "file_manifest h = None" and "public_key_to_did (ed_public L k) = Inr d"
    and "list_all (\<lambda>c. \<not> reachable c) unreachable" and "reachable c"
    and "ct_answer c = Some [(''membership_ucan'', VStr jwt)]"
    and "decode_token L now jwt = Inr t" and "audience t = d" and "issuer t \<noteq> []"
  shows "\<exists>h'. pair_with_invitation L now k (unreachable @ c # rest) name platform h = (h', Inr (issuer t, d))
     \<and> hh_root_did h' = Some (issuer t)"
proof -
  have "jwt \<noteq> []" using decode_raw[OF assms(6)] by simp
  then have "await_membership Pending (unreachable @ c # rest) = Inr (Some (VStr jwt))"
    using assms(3-5) by (simp add: await_skips reachable_def after_answer_def membership_of_def dgetd_def py_bool_def)
  from joining_outcome[OF assms(1,2) this assms(6-8)] show ?thesis by metis
qed

text \<open>In the example the membership is signed by the joiner's own key, not by its issuer's.\<close>

theorem joiner_trusts_first_answer_witness:
  "\<exists>h'. pair_with_invitation demo_agent_lib 9 False
       [demo_contact (Some [(''membership_ucan'', VStr (snd (sign_token demo_agent_lib False demo_root_token)))])]
       ''phone'' ''android'' (open_household None None []) = (h', Inr (demo_did True, demo_did False))"
proof -
  define t where "t = fst (sign_token demo_agent_lib False demo_root_token)"
  have d: "decode_token demo_agent_lib 9 (snd (sign_token demo_agent_lib False demo_root_token)) = Inr t"
    unfolding t_def by (rule decode_signed[OF demo_tokens_json(1,2)])
  have t: "issuer t = demo_did True" "audience t = demo_did False"
    by (simp_all add: t_def sign_token_def Let_def demo_root_token_def membership_token_def)
  from joiner_trusts_first_answer[OF _ _ _ _ _ d, of "open_household None None []" False "demo_did False" "[]"
      "demo_contact (Some [(''membership_ucan'', VStr (snd (sign_token demo_agent_lib False demo_root_token)))])"
      "[]" "''phone''" "''android''"] t show ?thesis
    by (auto simp: open_household_def demo_agent_lib_fields(6) reachable_def demo_contact_def demo_did_def DID_PREFIX_def)
qed

text \<open>
  A peer that does not answer ends the pairing: the wait cancels the future the answer would
  resolve, so at the next peer that is contacted the process is cancelled, whatever that peer
  answers.
\<close>

theorem silent_peer_ends_pairing:
  assumes "file_manifest h = None" and "public_key_to_did (ed_public L k) = Inr d"
    and "list_all (\<lambda>c. \<not> reachable c) (u1 @ u2)" and "reachable silent" and "ct_answer silent = None" and "reachable inviter"
  shows "snd (pair_with_invitation L now k (u1 @ silent # u2 @ inviter # rest) name platform h) = Inl (LibError ''CancelledError'')
     \<and> hh_membership (fst (pair_with_invitation L now k (u1 @ silent # u2 @ inviter # rest) name platform h)) = hh_membership h"
proof -
  have "await_membership Pending (u1 @ silent # u2 @ inviter # rest) = Inl (LibError ''CancelledError'')"
    using assms(3-6) by (simp add: await_skips reachable_def)
  with assms(1,2) show ?thesis by (simp add: pair_with_invitation_def hh_initialize_joiner_def Let_def)
qed

theorem silent_peer_ends_pairing_witness:
  "snd (pair_with_invitation demo_agent_lib 9 False [demo_contact None, demo_contact (Some [(''membership_ucan'', VStr ''t'')])]
     ''phone'' ''android'' (open_household None None [])) = Inl (LibError ''CancelledError'')"
  using silent_peer_ends_pairing[of "open_household None None []" demo_agent_lib False "demo_did False" "[]" "[]"
      "demo_contact None" "demo_contact (Some [(''membership_ucan'', VStr ''t'')])" 9 "[]" "''phone''" "''android''"]
  by (simp add: open_household_def demo_agent_lib_fields(6) reachable_def demo_contact_def)

end
