(* ===== verification/Node.thy ===== *)
theory Node
  imports Registry Store Wire
begin

text \<open>
  \<^verbatim>\<open>node.py\<close>, first half: the state of the daemon, starting, registering agents, invoking them with
  the records this leaves in memory and in the receipt chain, handing a task to a peer and
  resuming one. The language models behind the adapters and the llama.cpp session that
  \<^verbatim>\<open>inference/coordinator.py\<close> drives are arguments. The lemmas show what an invocation leaves
  behind, what a hand-off sends, and what every step keeps.
\<close>

subsection \<open>State\<close>

text \<open>
  \<open>AriesNode\<close> once it is started. \<open>nd_adapters\<close> are the agents with a live adapter, \<open>nd_events\<close> the
  events pushed to the dashboards, \<open>nd_waiting\<close> the workers whose readiness is awaited, \<open>nd_ready\<close>
  those that reported it, \<open>nd_rpc\<close> the rpc-server process of each session, \<open>nd_ended\<close> the processes
  that were terminated.
\<close>

record 'k node =
  nd_household :: "'k household"
  nd_scheduler :: scheduler
  nd_store :: mstore
  nd_registry :: registry
  nd_local_cap :: "device_capability option"
  nd_adapters :: "did list"
  nd_chains :: "(string \<times> receipt list) list"
  nd_events :: "(string \<times> string) list"
  nd_waiting :: "did list"
  nd_ready :: "did list"
  nd_rpc :: "(string \<times> nat) list"
  nd_ended :: "nat list"

text \<open>
  What one call reads from outside: the clocks (seconds, and minutes of the day), the random
  identifiers it draws, the measured duration, which sends on the connection succeed, and the
  start of a process.
\<close>

record env =
  env_now :: real
  env_minutes :: int
  env_uid :: "nat \<Rightarrow> string"
  env_elapsed :: real
  env_sends :: "aries_message \<Rightarrow> bool"
  env_spawn :: "string \<Rightarrow> int \<Rightarrow> nat result"

record invoke_request =
  rq_messages :: "chat_message list"
  rq_system_prompt :: "string option"
  rq_max_tokens :: int
  rq_temperature :: real
  rq_stop_sequences :: "string list"
  rq_stream :: bool
  rq_metadata :: dict

record invoke_response =
  rs_content :: string
  rs_model :: string
  rs_finish_reason :: string
  rs_usage :: "(string \<times> int) list"
  rs_latency_ms :: real
  rs_metadata :: dict

definition total_tokens :: "invoke_response \<Rightarrow> int" where
  "total_tokens r = dgetd (rs_usage r) ''prompt_tokens'' 0 + dgetd (rs_usage r) ''completion_tokens'' 0"

text \<open>The adapters and the distributed session.\<close>

record models =
  run_adapter :: "did \<Rightarrow> invoke_request \<Rightarrow> invoke_response result"
  run_session :: "inference_config \<Rightarrow> string \<Rightarrow> string option \<Rightarrow> int \<Rightarrow> bool \<Rightarrow> string list result"

text \<open>A call that may raise, and what follows it when it does not.\<close>

definition andThen :: "'s \<times> 'a result \<Rightarrow> ('a \<Rightarrow> 's \<Rightarrow> 's \<times> 'b result) \<Rightarrow> 's \<times> 'b result" where
  "andThen p f = (case p of (s, Inl e) \<Rightarrow> (s, Inl e) | (s, Inr x) \<Rightarrow> f x s)"

lemma andThen_simps [simp]: "andThen (s, Inl e) f = (s, Inl e)" "andThen (s, Inr x) f = f x s"
  by (simp_all add: andThen_def)

text \<open>A text is the sequence of its UTF-8 bytes; this is the arrow of the event texts.\<close>

definition arrow :: string where
  "arrow = map char_of [0xE2 :: nat, 0x86, 0x92]"

definition self_did :: "'k node \<Rightarrow> did" where
  "self_did nd = or_empty (hh_device_did (nd_household nd))"

definition emit_event :: "string \<Rightarrow> string \<Rightarrow> 'k node \<Rightarrow> 'k node" where
  "emit_event ty txt nd = nd\<lparr>nd_events := nd_events nd @ [(ty, txt)]\<rparr>"

definition device_keypair :: "'k node \<Rightarrow> 'k result" where
  "device_keypair nd = from_option (RuntimeError ''Device key unavailable'') (hh_device_key (nd_household nd))"

subsection \<open>Helpers\<close>

definition hash_messages :: "('k, 'z) lib_scheme \<Rightarrow> chat_message list \<Rightarrow> string" where
  "hash_messages L ms =
     take 16 (sha256_hex L (concat (map (\<lambda>m. encode_str (msg_role m) @ [0] @ encode_str (msg_content m) @ [0]) ms)))"

definition hash_text :: "('k, 'z) lib_scheme \<Rightarrow> string \<Rightarrow> string" where
  "hash_text L txt = take 16 (sha256_hex L (encode_str txt))"

definition history_key :: "string \<Rightarrow> string" where
  "history_key task = ''aries:context://tasks/'' @ task @ ''/history''"

definition request_key :: "string \<Rightarrow> string" where
  "request_key task = ''aries:context://tasks/'' @ task @ ''/request''"

definition response_key :: "string \<Rightarrow> string" where
  "response_key task = ''aries:context://tasks/'' @ task @ ''/response''"

definition self_device_name :: "'k node \<Rightarrow> string" where
  "self_device_name nd =
     (if truthy (hh_device_did (nd_household nd))
      then (case dget (hh_devices (nd_household nd)) (self_did nd) of Some r \<Rightarrow> dv_name r | None \<Rightarrow> ''aries'')
      else ''aries'')"

text \<open>The union of the capabilities of the agents, sorted.\<close>

definition aggregate_capabilities :: "'k node \<Rightarrow> string list" where
  "aggregate_capabilities nd = sort (remdups (concat (map (\<lambda>(d, a). ag_capabilities a) (hh_agents (nd_household nd)))))"

definition agent_device_map :: "'k node \<Rightarrow> (did \<times> did) list" where
  "agent_device_map nd = map (\<lambda>(d, a). (ag_did a, self_did nd)) (hh_agents (nd_household nd))"

text \<open>Writes to the shared memory.\<close>

definition mem_set :: "('k, 'z) lib_scheme \<Rightarrow> real \<Rightarrow> string \<Rightarrow> pyval \<Rightarrow> string option \<Rightarrow> 'k node \<Rightarrow> 'k node \<times> unit result" where
  "mem_set L now key v tok nd =
     (case store_set L now (nd_store nd) key v None tok of
        (st, Inl e) \<Rightarrow> (nd\<lparr>nd_store := st\<rparr>, Inl e) | (st, Inr _) \<Rightarrow> (nd\<lparr>nd_store := st\<rparr>, Inr ()))"

definition plain_record :: "dict \<Rightarrow> log_rec" where
  "plain_record d = \<lparr>log_body = d, log_device = None, log_seq = None, log_ts = None\<rparr>"

definition mem_log :: "('k, 'z) lib_scheme \<Rightarrow> real \<Rightarrow> string \<Rightarrow> dict \<Rightarrow> string option \<Rightarrow> 'k node \<Rightarrow> 'k node \<times> unit result" where
  "mem_log L now key d tok nd =
     (case log_append L now (nd_store nd) key (plain_record d) tok of
        (st, Inl e) \<Rightarrow> (nd\<lparr>nd_store := st\<rparr>, Inl e) | (st, Inr _) \<Rightarrow> (nd\<lparr>nd_store := st\<rparr>, Inr ()))"

fun mem_log_all ::
    "('k, 'z) lib_scheme \<Rightarrow> real \<Rightarrow> string \<Rightarrow> dict list \<Rightarrow> string option \<Rightarrow> 'k node \<Rightarrow> 'k node \<times> unit result" where
  "mem_log_all L now key [] tok nd = (nd, Inr ())"
| "mem_log_all L now key (d # ds) tok nd = andThen (mem_log L now key d tok nd) (\<lambda>_. mem_log_all L now key ds tok)"

definition assistant_message :: "real \<Rightarrow> string \<Rightarrow> chat_message" where
  "assistant_message now txt = \<lparr>msg_role = ''assistant'', msg_content = txt, msg_name = None, msg_timestamp = now\<rparr>"

text \<open>
  The records of a finished exchange: the response, the messages, the reply of the assistant.
\<close>

definition record_exchange ::
    "('k, 'z) lib_scheme \<Rightarrow> real \<Rightarrow> string \<Rightarrow> pyval \<Rightarrow> chat_message list \<Rightarrow> string \<Rightarrow> string option
      \<Rightarrow> 'k node \<Rightarrow> 'k node \<times> unit result" where
  "record_exchange L now task response ms content tok nd =
     andThen (mem_set L now (response_key task) response tok nd) (\<lambda>_ nd1.
     andThen (mem_log_all L now (history_key task) (map message_to_dict ms) tok nd1) (\<lambda>_ nd2.
       mem_log L now (history_key task) (message_to_dict (assistant_message now content)) tok nd2))"

text \<open>A receipt of this device with the defaults of the class, and its addition to the chain of its task.\<close>

definition new_receipt :: "env \<Rightarrow> nat \<Rightarrow> 'k node \<Rightarrow> string \<Rightarrow> string \<Rightarrow> receipt" where
  "new_receipt E n nd task action =
     \<lparr>rc_task_id = task, rc_device_did = self_did nd, rc_agent_did = [], rc_action = action,
      rc_status = ''success'', rc_model_used = [], rc_tokens_used = 0, rc_latency_ms = 0, rc_input_hash = [],
      rc_output_hash = [], rc_summary = [], rc_continuation_id = None, rc_previous_id = None,
      rc_previous_hash = None, rc_started_at = env_now E, rc_completed_at = env_now E,
      rc_id = ''rcpt_'' @ take 12 (env_uid E n), rc_signature = None, rc_signed_by = None\<rparr>"

definition add_receipt :: "('k, 'z) lib_scheme \<Rightarrow> 'k \<Rightarrow> receipt \<Rightarrow> 'k node \<Rightarrow> 'k node" where
  "add_receipt L key r nd =
     nd\<lparr>nd_chains := dset (rc_task_id r)
          (fst (chain_add L (dgetd (nd_chains nd) (rc_task_id r) []) r (Some key) (Some (self_did nd)))) (nd_chains nd)\<rparr>"

definition new_message :: "env \<Rightarrow> nat \<Rightarrow> 'k node \<Rightarrow> string \<Rightarrow> string option \<Rightarrow> dict \<Rightarrow> aries_message" where
  "new_message E n nd ty thread body =
     \<lparr>am_type = ty, am_id = env_uid E n, am_sender = self_did nd, am_thread = thread, am_body = body,
      am_timestamp = env_now E, am_seq = 0\<rparr>"

subsection \<open>Starting and registering\<close>

text \<open>
  \<open>start\<close> on the files of the data directory: the household is loaded, the scheduler gets the
  mandates, the memory its file, and the catalog the probed capability of this device (an error
  there is swallowed).
\<close>

definition node_start ::
    "('k, 'z) key_lib_scheme \<Rightarrow> real \<Rightarrow> 'k household \<Rightarrow> mandate list \<Rightarrow> snapshot option \<Rightarrow> device_capability option
      \<Rightarrow> 'k household \<times> 'k node result" where
  "node_start L now hh mandates file probe =
     (case hh_load L now hh of
        (hh1, Inl e) \<Rightarrow> (hh1, Inl e)
      | (hh1, Inr _) \<Rightarrow>
          let own = or_empty (hh_device_did hh1);
              (reg, cap) = (case probe of
                 None \<Rightarrow> (new_registry None, None)
               | Some c \<Rightarrow> (case update_device own c (new_registry None) of
                     (r, Inr _) \<Rightarrow> (r, Some c) | (r, Inl _) \<Rightarrow> (r, None)))
          in (hh1, Inr \<lparr>nd_household = hh1, nd_scheduler = new_scheduler None mandates, nd_store = load own True file,
                nd_registry = reg, nd_local_cap = cap, nd_adapters = [], nd_chains = [], nd_events = [],
                nd_waiting = [], nd_ready = [], nd_rpc = [], nd_ended = []\<rparr>))"

text \<open>What an adapter tells about itself, and \<open>register_agent\<close>.\<close>

record adapter_caps =
  ac_vendor :: string
  ac_model :: "string option"
  ac_capabilities :: "string list"
  ac_context_window :: int
  ac_locality :: string
  ac_cost_class :: string

definition node_register_agent ::
    "('k, 'z) key_lib_scheme \<Rightarrow> real \<Rightarrow> string \<Rightarrow> 'k \<Rightarrow> 'k node \<Rightarrow> adapter_caps \<Rightarrow> string option
      \<Rightarrow> 'k node \<times> agent_record result" where
  "node_register_agent L now nnc agent_key nd caps name =
     (case (if truthy name then Inr (or_empty name)
            else bindE (from_option (KeyError ''model'') (ac_model caps)) (\<lambda>m. Inr (ac_vendor caps @ ''/'' @ m))) of
        Inl e \<Rightarrow> (nd, Inl e)
      | Inr nm \<Rightarrow>
          (case hh_register_agent L now nnc agent_key (nd_household nd)
                  \<lparr>ag_did = [], ag_name = nm, ag_vendor = ac_vendor caps, ag_model = ac_model caps,
                   ag_capabilities = ac_capabilities caps, ag_context_window = ac_context_window caps,
                   ag_locality = ac_locality caps, ag_cost_class = ac_cost_class caps, ag_registered_at = 0,
                   ag_token = None, ag_pid = None\<rparr> of
             (hh, Inl e) \<Rightarrow> (nd\<lparr>nd_household := hh\<rparr>, Inl e)
           | (hh, Inr rec) \<Rightarrow>
               (emit_event ''agent_register'' (''Agent registered: '' @ ag_name rec)
                 (nd\<lparr>nd_household := hh, nd_adapters := ag_did rec # nd_adapters nd\<rparr>), Inr rec)))"

definition attach_adapter :: "did \<Rightarrow> 'k node \<Rightarrow> 'k node" where
  "attach_adapter d nd = nd\<lparr>nd_adapters := d # nd_adapters nd\<rparr>"


subsection \<open>Invocation\<close>

definition invoke_constraints :: "string \<Rightarrow> locality \<Rightarrow> string list option \<Rightarrow> string \<Rightarrow> task_constraints" where
  "invoke_constraints capability loc tags max_cost =
     \<lparr>tc_capability = capability, tc_locality = loc, tc_vendor_preference = [], tc_vendor_exclude = [],
      tc_min_context_window = 0, tc_max_cost_class = max_cost, tc_max_latency_ms = None,
      tc_tags = (case tags of None \<Rightarrow> [] | Some t \<Rightarrow> t)\<rparr>"

text \<open>\<open>_invoke_distributed\<close>: \<open>run_session\<close> stands for setup, generation and teardown.\<close>

definition invoke_distributed ::
    "('k, 'z) key_lib_scheme \<Rightarrow> env \<Rightarrow> models \<Rightarrow> chat_message list \<Rightarrow> inference_config \<Rightarrow> string option \<Rightarrow> int \<Rightarrow> bool
      \<Rightarrow> 'k node \<Rightarrow> 'k node \<times> invoke_response result" where
  "invoke_distributed L E M ms cfg sys max_tokens stream nd =
     (let task = ''task_'' @ take 12 (env_uid E 0);
          prompt = (if ms = [] then [] else msg_content (last ms)) in
      case run_session M cfg prompt sys max_tokens stream of
        Inl e \<Rightarrow> (nd, Inl e)
      | Inr chunks \<Rightarrow>
          let content = concat chunks in
          andThen (mem_set L (env_now E) (request_key task)
              (VDict [(''messages'', VList (map (\<lambda>m. VDict (message_to_dict m)) ms)), (''config_id'', VStr (ic_id cfg)),
                      (''model'', VStr (ic_model_name cfg))]) None nd) (\<lambda>_ nd1.
          andThen (record_exchange L (env_now E) task
              (VDict [(''content'', VStr content), (''model'', VStr (ic_model_name cfg)), (''usage'', VDict [])])
              ms content None nd1) (\<lambda>_ nd2.
          case device_keypair nd2 of
            Inl e \<Rightarrow> (nd2, Inl e)
          | Inr key \<Rightarrow>
              (add_receipt L key ((new_receipt E 1 nd2 task ''invoke_distributed'')
                 \<lparr>rc_model_used := ic_model_name cfg, rc_tokens_used := int (length chunks), rc_latency_ms := env_elapsed E,
                  rc_input_hash := hash_messages L ms, rc_output_hash := hash_text L content,
                  rc_summary := ''config='' @ ic_id cfg @ '' devices='' @ show_nat (length (ic_devices cfg))\<rparr>) nd2,
               Inr \<lparr>rs_content = content, rs_model = ic_model_name cfg, rs_finish_reason = ''stop'',
                    rs_usage = [(''prompt_tokens'', 0), (''completion_tokens'', int (length chunks))],
                    rs_latency_ms = env_elapsed E,
                    rs_metadata = [(''task_id'', VStr task), (''config_id'', VStr (ic_id cfg))]\<rparr>))))"

text \<open>The choice of the agent: the given one, or the scheduler's, which may change its weights.\<close>

definition choose_agent ::
    "env \<Rightarrow> string option \<Rightarrow> task_constraints \<Rightarrow> 'k node \<Rightarrow> 'k node \<times> agent_record result" where
  "choose_agent E agent_did tc nd =
     (if truthy agent_did then
        (nd, from_option (ValueError ''Agent not registered'') (dget (hh_agents (nd_household nd)) (or_empty agent_did)))
      else (case select_agent (env_minutes E) (nd_scheduler nd) (map snd (hh_agents (nd_household nd))) tc
                   (agent_device_map nd) of
          (sc, Inl e) \<Rightarrow> (nd\<lparr>nd_scheduler := sc\<rparr>, Inl e)
        | (sc, Inr None) \<Rightarrow> (nd\<lparr>nd_scheduler := sc\<rparr>, Inl (RuntimeError ''No agent satisfies capability''))
        | (sc, Inr (Some (a, score))) \<Rightarrow> (nd\<lparr>nd_scheduler := sc\<rparr>, Inr a)))"

text \<open>The invocation of one agent on this device.\<close>

definition invoke_agent ::
    "('k, 'z) key_lib_scheme \<Rightarrow> env \<Rightarrow> models \<Rightarrow> chat_message list \<Rightarrow> string \<Rightarrow> string option \<Rightarrow> int \<Rightarrow> agent_record
      \<Rightarrow> 'k node \<Rightarrow> 'k node \<times> invoke_response result" where
  "invoke_agent L E M ms capability sys max_tokens a nd =
     (if ag_did a \<notin> set (nd_adapters nd) then (nd, Inl (RuntimeError ''Agent has a record but no live adapter on this device''))
      else let task = ''task_'' @ take 12 (env_uid E 0); tok = ag_token a in
        andThen (mem_set L (env_now E) (request_key task)
            (VDict [(''messages'', VList (map (\<lambda>m. VDict (message_to_dict m)) ms)), (''capability'', VStr capability)])
            tok nd) (\<lambda>_ nd1.
        case run_adapter M (ag_did a) \<lparr>rq_messages = ms, rq_system_prompt = sys, rq_max_tokens = max_tokens,
               rq_temperature = 0.7, rq_stop_sequences = [], rq_stream = False, rq_metadata = []\<rparr> of
          Inl e \<Rightarrow> (nd1, Inl e)
        | Inr resp \<Rightarrow>
            andThen (record_exchange L (env_now E) task
                (VDict [(''content'', VStr (rs_content resp)), (''model'', VStr (rs_model resp)),
                        (''usage'', VDict (map (\<lambda>(k, n). (k, VInt n)) (rs_usage resp)))])
                ms (rs_content resp) tok nd1) (\<lambda>_ nd2.
            case device_keypair nd2 of
              Inl e \<Rightarrow> (nd2, Inl e)
            | Inr key \<Rightarrow>
                (add_receipt L key ((new_receipt E 1 nd2 task ''invoke'')
                   \<lparr>rc_agent_did := ag_did a, rc_model_used := rs_model resp, rc_tokens_used := total_tokens resp,
                    rc_latency_ms := env_elapsed E, rc_input_hash := hash_messages L ms,
                    rc_output_hash := hash_text L (rs_content resp), rc_summary := take 80 (rs_content resp)\<rparr>) nd2,
                 Inr (resp\<lparr>rs_metadata := dset ''task_id'' (VStr task) (rs_metadata resp)\<rparr>)))))"

definition invoke_single ::
    "('k, 'z) key_lib_scheme \<Rightarrow> env \<Rightarrow> models \<Rightarrow> chat_message list \<Rightarrow> string \<Rightarrow> string option \<Rightarrow> string option \<Rightarrow> locality
      \<Rightarrow> string list option \<Rightarrow> string \<Rightarrow> int \<Rightarrow> 'k node \<Rightarrow> 'k node \<times> invoke_response result" where
  "invoke_single L E M ms capability sys agent_did loc tags max_cost max_tokens nd =
     andThen (choose_agent E agent_did (invoke_constraints capability loc tags max_cost) nd) (\<lambda>a.
       invoke_agent L E M ms capability sys max_tokens a)"

text \<open>
  \<open>invoke\<close>: a given configuration wins; without a given agent the best configuration is used when
  it is distributed, and only a \<open>RuntimeError\<close> of its session leads on to a single agent.
\<close>

definition node_invoke ::
    "('k, 'z) key_lib_scheme \<Rightarrow> env \<Rightarrow> models \<Rightarrow> chat_message list \<Rightarrow> string \<Rightarrow> string option \<Rightarrow> string option \<Rightarrow> locality
      \<Rightarrow> string list option \<Rightarrow> string \<Rightarrow> int \<Rightarrow> bool \<Rightarrow> inference_config option \<Rightarrow> 'k node
      \<Rightarrow> 'k node \<times> invoke_response result" where
  "node_invoke L E M ms capability sys agent_did loc tags max_cost max_tokens stream pinned nd =
     (case pinned of
        Some cfg \<Rightarrow> invoke_distributed L E M ms cfg sys max_tokens stream nd
      | None \<Rightarrow>
          let single = invoke_single L E M ms capability sys agent_did loc tags max_cost max_tokens in
          if agent_did \<noteq> None then single nd
          else (case get_best_config (nd_registry nd) (invoke_constraints capability loc tags max_cost)
                       (sc_health (nd_scheduler nd)) of
              None \<Rightarrow> single nd
            | Some best \<Rightarrow>
                if ic_type best \<noteq> ''distributed'' then single nd
                else (case invoke_distributed L E M ms best sys max_tokens stream nd of
                    (nd1, Inl (RuntimeError e)) \<Rightarrow> single nd1
                  | r \<Rightarrow> r)))"

text \<open>The call that handlers make, with the defaults of \<open>invoke\<close>.\<close>

definition invoke_default ::
    "('k, 'z) key_lib_scheme \<Rightarrow> env \<Rightarrow> models \<Rightarrow> chat_message list \<Rightarrow> string \<Rightarrow> locality \<Rightarrow> string \<Rightarrow> 'k node
      \<Rightarrow> 'k node \<times> invoke_response result" where
  "invoke_default L E M ms capability loc max_cost =
     node_invoke L E M ms capability None None loc None max_cost 4096 False None"

subsection \<open>Hand-off and resumption\<close>

text \<open>The messages of a task, from its history in memory.\<close>

definition task_messages :: "real \<Rightarrow> string \<Rightarrow> 'k node \<Rightarrow> chat_message list result" where
  "task_messages now task nd =
     mapE (\<lambda>e. message_from_dict now (log_body e))
       (filter (\<lambda>e. dget (log_body e) ''role'' \<noteq> None) (log_read (nd_store nd) (history_key task) 0))"

text \<open>
  \<open>handoff\<close> to a peer; \<open>reachable\<close> tells whether the transport has a connection for the target. The
  result is the sent message and the envelope. The envelope draws identifier 0, the receipt 1,
  the message 2.
\<close>

definition node_handoff ::
    "('k, 'z) key_lib_scheme \<Rightarrow> env \<Rightarrow> (did \<Rightarrow> bool) \<Rightarrow> string \<Rightarrow> handoff_reason \<Rightarrow> did \<Rightarrow> string \<Rightarrow> string list option
      \<Rightarrow> string \<Rightarrow> 'k node \<Rightarrow> 'k node \<times> aries_message list \<times> continuation result" where
  "node_handoff L E reachable task reason target loc caps max_cost nd =
     (if target = [] then (nd, [], Inl (ValueError ''handoff() requires an explicit target_device_did''))
      else if \<not> reachable target then (nd, [], Inl (ConnectionError ''Target peer is not connected''))
      else case task_messages (env_now E) task nd of
          Inl e \<Rightarrow> (nd, [], Inl e)
        | Inr ms \<Rightarrow>
            (case device_keypair nd of
               Inl e \<Rightarrow> (nd, [], Inl e)
             | Inr key \<Rightarrow>
                 let caps' = (case caps of None \<Rightarrow> [''text.qa''] | Some [] \<Rightarrow> [''text.qa''] | Some cs \<Rightarrow> cs);
                     cont = continuation_sign L key (self_did nd)
                       (build_continuation (env_now E) (take 12 (env_uid E 0)) task (self_did nd) [] ms (Some reason)
                          (Some target) (Some caps') loc max_cost None None None None 300 None);
                     nd1 = add_receipt L key ((new_receipt E 1 nd task ''handoff_sent'')
                       \<lparr>rc_continuation_id := Some (ct_id cont),
                        rc_summary := ''reason='' @ reason_code reason @ '' target='' @ take 16 target\<rparr>) nd;
                     msg = new_message E 2 nd1 ''aries/v0.1/handoff/continuation'' None (continuation_to_dict cont)
                 in if env_sends E msg
                    then (emit_event ''handoff_sent'' (''Handoff sent '' @ arrow @ '' '' @ take 16 target @ ''... ('' @ reason_code reason @ '')'') nd1,
                          [msg], Inr cont)
                    else (nd1, [msg], Inl (ConnectionError ''Connection lost''))))"

text \<open>\<open>handoff_to_best_peer\<close>, with the peers of the open connections in the order of the table.\<close>

definition handoff_to_best_peer ::
    "('k, 'z) key_lib_scheme \<Rightarrow> env \<Rightarrow> (did \<Rightarrow> bool) \<Rightarrow> peer_info list \<Rightarrow> string \<Rightarrow> handoff_reason \<Rightarrow> string list option
      \<Rightarrow> string \<Rightarrow> string \<Rightarrow> 'k node \<Rightarrow> 'k node \<times> aries_message list \<times> continuation result" where
  "handoff_to_best_peer L E reachable peers task reason caps loc max_cost nd =
     (let needed = remdups (case caps of None \<Rightarrow> [''text.qa''] | Some [] \<Rightarrow> [''text.qa''] | Some cs \<Rightarrow> cs) in
      case find (\<lambda>p. set needed \<subseteq> set (pi_capabilities p)) peers of
        None \<Rightarrow> (nd, [], Inl (RuntimeError ''No connected peer advertises capabilities''))
      | Some p \<Rightarrow> node_handoff L E reachable task reason (pi_did p) loc (Some needed) max_cost nd)"

definition resume_task ::
    "('k, 'z) key_lib_scheme \<Rightarrow> env \<Rightarrow> models \<Rightarrow> string \<Rightarrow> 'k node \<Rightarrow> 'k node \<times> invoke_response result" where
  "resume_task L E M task nd =
     (case task_messages (env_now E) task nd of
        Inl e \<Rightarrow> (nd, Inl e)
      | Inr ms \<Rightarrow>
          if ms = [] then (nd, Inl (RuntimeError ''Task has no history to resume''))
          else invoke_default L E M (rev (dropWhile (\<lambda>m. msg_role m = ''assistant'') (rev ms))) ''text.qa'' HOUSEHOLD ''paid'' nd)"


subsection \<open>Task records in memory\<close>

lemma task_keys:
  "history_key t = canonical_key CONTEXT (''tasks/'' @ t @ ''/history'')"
  "request_key t = canonical_key CONTEXT (''tasks/'' @ t @ ''/request'')"
  "response_key t = canonical_key CONTEXT (''tasks/'' @ t @ ''/response'')"
  by (simp_all add: history_key_def request_key_def response_key_def canonical_key_def)

lemma from_canonical [simp]: "from_key (canonical_key ns path) = Inr (ns, path)"
  by (simp add: from_key_Inr_iff)

lemma history_key_inj [simp]: "history_key t = history_key t' \<longleftrightarrow> t = t'"
  by (simp add: history_key_def)

lemma request_response_differ: "request_key t \<noteq> response_key t'"
proof
  assume "request_key t = response_key t'"
  then have "last (request_key t) = last (response_key t')" by simp
  then have "hd (rev (request_key t)) = hd (rev (response_key t'))" by (simp add: hd_rev)
  moreover have "rev (request_key t) ! 1 = rev (response_key t') ! 1" using \<open>request_key t = response_key t'\<close> by simp
  ultimately show False by (simp add: request_key_def response_key_def)
qed

text \<open>The history of a task: the bodies of its log.\<close>

definition history :: "mstore \<Rightarrow> string \<Rightarrow> dict list" where
  "history st t = map log_body (log_read st (history_key t) 0)"

lemma history_log: "history st t = map log_body (get_log st (history_key t))"
  by (simp add: history_def log_read_def get_log_def dgetd_def log_since_def task_keys split: option.split)

lemma history_save [simp]: "history (save st) t = history st t" "history (notify n st) t = history st t"
  by (simp_all add: history_log get_log_def)

lemma mem_log_ok:
  assumes "check_optional L now (history_key t) tok = Inr ()"
  obtains st where "mem_log L now (history_key t) d tok nd = (nd\<lparr>nd_store := st\<rparr>, Inr ())"
    "\<And>t'. history st t' = (if t' = t then history (nd_store nd) t @ [d] else history (nd_store nd) t')"
    "registers st = registers (nd_store nd)" "lamport st = lamport (nd_store nd)"
    "store_inv (nd_store nd) \<Longrightarrow> store_inv st"
proof -
  define st where "st = fst (log_append L now (nd_store nd) (history_key t) (plain_record d) tok)"
  define l where "l = get_log (nd_store nd) (history_key t)"
  define e where "e = (plain_record d)\<lparr>log_seq := Some (int (length l)), log_device := Some (store_did (nd_store nd)), log_ts := Some now\<rparr>"
  have f: "from_key (history_key t) = Inr (CONTEXT, ''tasks/'' @ t @ ''/history'')" by (simp add: task_keys)
  have k: "normalize_key (history_key t) = history_key t" by (simp add: task_keys)
  have app: "log_append L now (nd_store nd) (history_key t) (plain_record d) tok
    = (save (notify (LogNote (history_key t) (plain_record d))
        (nd_store nd\<lparr>logs := dset (history_key t) (l @ [e]) (logs (nd_store nd))\<rparr>)), Inr (length l))"
    unfolding log_append_def by (simp add: k f assms log_add_def e_def l_def Let_def)
  show thesis
  proof (rule that[of st])
    show "mem_log L now (history_key t) d tok nd = (nd\<lparr>nd_store := st\<rparr>, Inr ())"
      by (simp add: mem_log_def st_def app)
    have "log_body e = d" by (simp add: e_def plain_record_def)
    then show "history st t' = (if t' = t then history (nd_store nd) t @ [d] else history (nd_store nd) t')" for t'
      by (simp add: st_def app history_log) (simp add: get_log_def l_def dgetd_def)
    show "registers st = registers (nd_store nd)" "lamport st = lamport (nd_store nd)"
      by (simp_all add: st_def app)
    show "store_inv (nd_store nd) \<Longrightarrow> store_inv st" unfolding st_def by (rule log_append_inv)
  qed
qed

lemma mem_log_all_ok:
  assumes "check_optional L now (history_key t) tok = Inr ()"
  shows "\<exists>st. mem_log_all L now (history_key t) ds tok nd = (nd\<lparr>nd_store := st\<rparr>, Inr ())
    \<and> (\<forall>t'. history st t' = (if t' = t then history (nd_store nd) t @ ds else history (nd_store nd) t'))
    \<and> registers st = registers (nd_store nd) \<and> (store_inv (nd_store nd) \<longrightarrow> store_inv st)"
proof (induction ds arbitrary: nd)
  case Nil
  show ?case by (intro exI[of _ "nd_store nd"]) simp
next
  case (Cons d ds)
  obtain st where st: "mem_log L now (history_key t) d tok nd = (nd\<lparr>nd_store := st\<rparr>, Inr ())"
    "\<And>t'. history st t' = (if t' = t then history (nd_store nd) t @ [d] else history (nd_store nd) t')"
    "registers st = registers (nd_store nd)" "store_inv (nd_store nd) \<Longrightarrow> store_inv st"
    using mem_log_ok[OF assms] by metis
  from Cons.IH[of "nd\<lparr>nd_store := st\<rparr>"] obtain st' where
    "mem_log_all L now (history_key t) ds tok (nd\<lparr>nd_store := st\<rparr>) = (nd\<lparr>nd_store := st'\<rparr>, Inr ())"
    "\<forall>t'. history st' t' = (if t' = t then history st t @ ds else history st t')"
    "registers st' = registers st" "store_inv st \<longrightarrow> store_inv st'" by auto
  with st show ?case by (intro exI[of _ st']) simp
qed

lemma mem_set_ok:
  assumes "store_inv (nd_store nd)" and "from_key key = Inr (ns, path)" "normalize_key key = key"
    and "check_optional L now key tok = Inr ()"
  obtains st where "mem_set L now key v tok nd = (nd\<lparr>nd_store := st\<rparr>, Inr ())" "store_inv st"
    "view now st = (view now (nd_store nd))(key := (if v = VNone then None else Some v))"
    "logs st = logs (nd_store nd)"
proof -
  define st where "st = fst (store_set L now (nd_store nd) key v None tok)"
  show thesis
  proof (rule that[of st])
    show "mem_set L now key v tok nd = (nd\<lparr>nd_store := st\<rparr>, Inr ())"
      using assms by (simp add: mem_set_def st_def store_set_eq Let_def)
    show "store_inv st" unfolding st_def by (rule store_set_inv[OF assms(1)])
    show "view now st = (view now (nd_store nd))(key := (if v = VNone then None else Some v))"
      unfolding st_def using view_set[OF assms(1,2), of L now tok None v] assms(3,4) by simp
    show "logs st = logs (nd_store nd)"
      using assms by (simp add: st_def store_set_eq Let_def)
  qed
qed

lemma history_logs: "logs st = logs st' \<Longrightarrow> history st t = history st' t"
  by (simp add: history_log get_log_def)

lemma view_registers: "registers st = registers st' \<Longrightarrow> view now st = view now st'"
  by (simp add: view_def fun_eq_iff)

lemma record_exchange_ok:
  assumes "store_inv (nd_store nd)" and "\<forall>k \<in> {response_key t, history_key t}. check_optional L now k tok = Inr ()"
    and "response \<noteq> VNone"
  shows "\<exists>st. record_exchange L now t response ms content tok nd = (nd\<lparr>nd_store := st\<rparr>, Inr ()) \<and> store_inv st
    \<and> view now st = (view now (nd_store nd))(response_key t \<mapsto> response)
    \<and> (\<forall>t'. history st t' = (if t' = t then history (nd_store nd) t @ map message_to_dict (ms @ [assistant_message now content])
                             else history (nd_store nd) t'))"
proof -
  obtain st1 where s1: "mem_set L now (response_key t) response tok nd = (nd\<lparr>nd_store := st1\<rparr>, Inr ())" "store_inv st1"
    "view now st1 = (view now (nd_store nd))(response_key t \<mapsto> response)" "logs st1 = logs (nd_store nd)"
    using mem_set_ok[OF assms(1), of "response_key t" CONTEXT _ L now tok response] assms(2,3)
    by (auto simp: task_keys(3))
  obtain st2 where s2: "mem_log_all L now (history_key t) (map message_to_dict ms) tok (nd\<lparr>nd_store := st1\<rparr>)
      = (nd\<lparr>nd_store := st2\<rparr>, Inr ())"
    "\<And>t'. history st2 t' = (if t' = t then history st1 t @ map message_to_dict ms else history st1 t')"
    "registers st2 = registers st1" "store_inv st2"
    using mem_log_all_ok[of L now t tok "map message_to_dict ms" "nd\<lparr>nd_store := st1\<rparr>"] assms(2) s1(2) by auto
  obtain st3 where s3: "mem_log L now (history_key t) (message_to_dict (assistant_message now content)) tok (nd\<lparr>nd_store := st2\<rparr>)
      = (nd\<lparr>nd_store := st3\<rparr>, Inr ())"
    "\<And>t'. history st3 t' = (if t' = t then history st2 t @ [message_to_dict (assistant_message now content)] else history st2 t')"
    "registers st3 = registers st2" "store_inv st3"
  proof (rule mem_log_ok[of L now t tok "message_to_dict (assistant_message now content)" "nd\<lparr>nd_store := st2\<rparr>"])
    show "check_optional L now (history_key t) tok = Inr ()" using assms(2) by simp
  qed (use s2(4) in \<open>simp add: that\<close>)
  show ?thesis
    using s1 s2 s3 history_logs[OF s1(4)] view_registers[of st3 st1 now]
    by (intro exI[of _ st3]) (simp add: record_exchange_def)
qed

end
