(* ===== verification/NodeHandlers.thy ===== *)
theory NodeHandlers
  imports Node
begin

text \<open>
  \<^verbatim>\<open>node.py\<close>, second half: the handlers of the messages of a peer and the callbacks of the other
  services. A handler gives the new state, the messages it tried to send on the connection, in
  order, and whether it raised (the transport swallows that). The lemmas show what a received
  continuation changes on every branch, that receipt chains always verify, and what a peer can
  and cannot change by what it reports.
\<close>

subsection \<open>Handlers of the agent messages\<close>

type_synonym ('k, 'a) handled = "'k node \<times> aries_message list \<times> 'a result"

text \<open>\<open>repr(exc)\<close>, of the part of the message the model keeps.\<close>

fun error_repr :: "py_error \<Rightarrow> string" where
  "error_repr (ValueError s) = ''ValueError('' @ s @ '')''"
| "error_repr (KeyError s) = ''KeyError('' @ s @ '')''"
| "error_repr (TypeError s) = ''TypeError('' @ s @ '')''"
| "error_repr (IndexError s) = ''IndexError('' @ s @ '')''"
| "error_repr (ZeroDivisionError s) = ''ZeroDivisionError('' @ s @ '')''"
| "error_repr (RuntimeError s) = ''RuntimeError('' @ s @ '')''"
| "error_repr (PermissionError s) = ''PermissionError('' @ s @ '')''"
| "error_repr (ConnectionError s) = ''ConnectionError('' @ s @ '')''"
| "error_repr (LibError s) = s"

definition usage_dict :: "invoke_response \<Rightarrow> pyval" where
  "usage_dict r = VDict (map (\<lambda>(k, n). (k, VInt n)) (rs_usage r))"

text \<open>
  \<open>_handle_invoke\<close>: any exception is answered, also one of the first answer. Identifiers 0 and 1
  are drawn by the invocation.
\<close>

definition handle_invoke ::
    "('k, 'z) key_lib_scheme \<Rightarrow> env \<Rightarrow> models \<Rightarrow> aries_message \<Rightarrow> 'k node \<Rightarrow> ('k, unit) handled" where
  "handle_invoke L E M msg nd =
     (let (nd1, res) =
        (case bindE (get_list (am_body msg) ''messages'' (\<lambda>v. bindE (as_dict v) (message_from_dict (env_now E)))) (\<lambda>ms.
              bindE (as_str (dgetd (am_body msg) ''capability'' (VStr ''text.qa''))) (\<lambda>c. Inr (ms, c))) of
           Inl e \<Rightarrow> (nd, Inl e)
         | Inr (ms, c) \<Rightarrow> invoke_default L E M ms c HOUSEHOLD ''paid''
             (emit_event ''invoke'' (''Remote invoke: '' @ c @ '' from '' @ take 16 (am_sender msg) @ ''...'') nd));
          err = (\<lambda>e. new_message E 3 nd1 ''aries/v0.1/agent/error'' (Some (am_id msg)) [(''error'', VStr (error_repr e))])
      in case res of
           Inl e \<Rightarrow> (nd1, [err e], Inr ())
         | Inr r \<Rightarrow>
             let reply = new_message E 2 nd1 ''aries/v0.1/agent/result'' (Some (am_id msg))
                   [(''content'', VStr (rs_content r)), (''model'', VStr (rs_model r)), (''usage'', usage_dict r)]
             in if env_sends E reply then (nd1, [reply], Inr ())
                else (nd1, [reply, err (ConnectionError ''Connection lost'')], Inr ()))"

definition read_locality :: "string \<Rightarrow> locality" where
  "read_locality s = (if s = ''local-only'' then LOCAL_ONLY else if s = ''household'' then HOUSEHOLD else ANY)"

text \<open>
  \<open>_handle_continuation\<close>: an envelope that cannot be read is ignored; one whose check fails is
  recorded and refused; otherwise its messages go to the history, the receipt and the
  acknowledgement are made, and the task is run here.
\<close>

definition refuse_continuation ::
    "('k, 'z) key_lib_scheme \<Rightarrow> env \<Rightarrow> 'k \<Rightarrow> continuation \<Rightarrow> 'k node \<Rightarrow> ('k, unit) handled" where
  "refuse_continuation L E key cont nd =
     (let nd1 = add_receipt L key ((new_receipt E 1 nd (ct_task_id cont) ''handoff_received'')
            \<lparr>rc_continuation_id := Some (ct_id cont), rc_status := ''error'', rc_summary := ''rejected: bad signature''\<rparr>) nd
      in (nd1, [new_message E 2 nd1 ''aries/v0.1/agent/error'' (Some (ct_id cont))
            [(''continuation_id'', VStr (ct_id cont)), (''error'', VStr ''signature verification failed'')]], Inr ()))"

definition resume_continuation ::
    "('k, 'z) key_lib_scheme \<Rightarrow> env \<Rightarrow> models \<Rightarrow> continuation \<Rightarrow> 'k node \<Rightarrow> ('k, unit) handled" where
  "resume_continuation L E M cont nd =
     (let cap = (if ct_required_capabilities cont = [] then ''text.qa'' else hd (ct_required_capabilities cont));
          (nd1, res) = andThen
            (invoke_default L E M (ct_messages cont) cap (read_locality (ct_locality_preference cont)) (ct_max_cost_class cont) nd)
            (\<lambda>r nd'. andThen (mem_log L (env_now E) (history_key (ct_task_id cont))
                          (message_to_dict (assistant_message (env_now E) (rs_content r))) None nd')
               (\<lambda>_ nd''. (nd'', Inr r)))
      in case res of
           Inl e \<Rightarrow> (nd1, [new_message E 4 nd1 ''aries/v0.1/agent/error'' (Some (ct_id cont))
                [(''error'', VStr (error_repr e)), (''continuation_id'', VStr (ct_id cont))]], Inr ())
         | Inr r \<Rightarrow> (nd1, [new_message E 4 nd1 ''aries/v0.1/agent/result'' (Some (ct_id cont))
                [(''continuation_id'', VStr (ct_id cont)), (''task_id'', VStr (ct_task_id cont)),
                 (''content'', VStr (rs_content r)), (''model'', VStr (rs_model r)), (''usage'', usage_dict r)]], Inr ()))"

definition accept_continuation ::
    "('k, 'z) key_lib_scheme \<Rightarrow> env \<Rightarrow> models \<Rightarrow> 'k \<Rightarrow> continuation \<Rightarrow> 'k node \<Rightarrow> ('k, unit) handled" where
  "accept_continuation L E M key cont nd =
     (case mem_log_all L (env_now E) (history_key (ct_task_id cont)) (map message_to_dict (ct_messages cont)) None
             (emit_event ''handoff_recv'' (''Continuation received from '' @ take 16 (ct_source_device_did cont) @ ''...'') nd) of
        (nd1, Inl e) \<Rightarrow> (nd1, [], Inl e)
      | (nd1, Inr _) \<Rightarrow>
          let nd2 = add_receipt L key ((new_receipt E 2 nd1 (ct_task_id cont) ''handoff_received'')
                \<lparr>rc_continuation_id := Some (ct_id cont), rc_summary := ''from='' @ take 20 (ct_source_device_did cont)\<rparr>) nd1;
              ack = new_message E 3 nd2 ''aries/v0.1/handoff/ack'' (Some (ct_id cont))
                [(''continuation_id'', VStr (ct_id cont)), (''status'', VStr ''received'')];
              (nd3, sent, r) = resume_continuation L E M cont nd2
          in (nd3, ack # sent, r))"

definition handle_continuation ::
    "('k, 'z) key_lib_scheme \<Rightarrow> env \<Rightarrow> models \<Rightarrow> aries_message \<Rightarrow> 'k node \<Rightarrow> ('k, unit) handled" where
  "handle_continuation L E M msg nd =
     (case continuation_from_dict (env_now E) (take 12 (env_uid E 5)) (am_body msg) of
        Inl _ \<Rightarrow> (nd, [], Inr ())
      | Inr cont \<Rightarrow>
          (case device_keypair nd of
             Inl e \<Rightarrow> (nd, [], Inl e)
           | Inr key \<Rightarrow>
               let nd1 = nd\<lparr>nd_chains := dset (ct_task_id cont) (dgetd (nd_chains nd) (ct_task_id cont) []) (nd_chains nd)\<rparr> in
               (case continuation_verify L cont of
                  Inl e \<Rightarrow> (nd1, [], Inl e)
                | Inr ok \<Rightarrow> if \<not> ok then refuse_continuation L E key cont nd1 else accept_continuation L E M key cont nd1)))"

subsection \<open>Handlers of the peer messages\<close>

definition handle_heartbeat :: "env \<Rightarrow> peer_info \<Rightarrow> peer_info" where
  "handle_heartbeat E p = p\<lparr>pi_last_seen := env_now E\<rparr>"

text \<open>\<open>DeviceHealth(**body)\<close>\<close>

definition health_of_dict :: "real \<Rightarrow> dict \<Rightarrow> device_health result" where
  "health_of_dict now d =
     bindE (raise_if (\<not> list_all (\<lambda>k. k \<in> {''device_did'', ''cpu_percent'', ''ram_available_gb'', ''ram_total_gb'',
         ''gpu_utilization'', ''vram_available_gb'', ''battery_pct'', ''charging'', ''thermal'', ''network_type'',
         ''bandwidth_mbps'', ''last_updated''}) (dkeys d)) (TypeError ''unexpected keyword argument'')) (\<lambda>_.
     bindE (keyword d ''device_did'' as_str) (\<lambda>dev.
     bindE (keyword_or d ''cpu_percent'' as_float 0) (\<lambda>cpu.
     bindE (keyword_or d ''ram_available_gb'' as_float 0) (\<lambda>ra.
     bindE (keyword_or d ''ram_total_gb'' as_float 0) (\<lambda>rt.
     bindE (keyword_or d ''gpu_utilization'' as_float 0) (\<lambda>gpu.
     bindE (keyword_or d ''vram_available_gb'' as_float 0) (\<lambda>va.
     bindE (keyword_or d ''battery_pct'' as_opt_float None) (\<lambda>bat.
     bindE (keyword_or d ''charging'' as_bool True) (\<lambda>chg.
     bindE (keyword_or d ''thermal'' as_str ''nominal'') (\<lambda>th.
     bindE (keyword_or d ''network_type'' as_str ''wifi'') (\<lambda>nt.
     bindE (keyword_or d ''bandwidth_mbps'' as_float 0) (\<lambda>bw.
     bindE (keyword_or d ''last_updated'' as_float now) (\<lambda>lu.
       Inr \<lparr>dh_device_did = dev, dh_cpu_percent = cpu, dh_ram_available_gb = ra, dh_ram_total_gb = rt,
            dh_gpu_utilization = gpu, dh_vram_available_gb = va, dh_battery_pct = bat, dh_charging = chg,
            dh_thermal = th, dh_network_type = nt, dh_bandwidth_mbps = bw, dh_last_updated = lu\<rparr>)))))))))))))"

definition handle_profile_update :: "env \<Rightarrow> aries_message \<Rightarrow> 'k node \<Rightarrow> 'k node" where
  "handle_profile_update E msg nd =
     (case health_of_dict (env_now E) (am_body msg) of
        Inl _ \<Rightarrow> nd
      | Inr h \<Rightarrow> nd\<lparr>nd_scheduler := update_device_health h (nd_scheduler nd)\<rparr>)"

definition handle_announce :: "env \<Rightarrow> aries_message \<Rightarrow> peer_info \<Rightarrow> peer_info \<times> unit result" where
  "handle_announce E msg p =
     (let p1 = p\<lparr>pi_last_seen := env_now E\<rparr> in
      case as_str (dgetd (am_body msg) ''name'' (VStr (pi_name p1))) of
        Inl e \<Rightarrow> (p1, Inl e)
      | Inr n \<Rightarrow>
          let p2 = p1\<lparr>pi_name := n\<rparr> in
          (case (case dget (am_body msg) ''capabilities'' of
                   None \<Rightarrow> Inr (pi_capabilities p2) | Some v \<Rightarrow> bindE (as_list v) (mapE as_str)) of
             Inl e \<Rightarrow> (p2, Inl e)
           | Inr cs \<Rightarrow> (p2\<lparr>pi_capabilities := cs\<rparr>, Inr ())))"

definition handle_pairing_request ::
    "('k, 'z) key_lib_scheme \<Rightarrow> env \<Rightarrow> string \<Rightarrow> aries_message \<Rightarrow> 'k node \<Rightarrow> ('k, unit) handled" where
  "handle_pairing_request L E nnc msg nd =
     (let body = am_body msg;
          (nd1, res) =
        (case bindE (bindE (dict_item body ''device_did'') as_str) (\<lambda>d.
              bindE (as_str (dgetd body ''name'' (VStr ''joiner''))) (\<lambda>n.
              bindE (as_str (dgetd body ''platform'' (VStr ''unknown''))) (\<lambda>p.
              bindE (bindE (dict_item body ''code'') as_str) (\<lambda>c. Inr (d, n, p, c))))) of
           Inl e \<Rightarrow> (nd, Inl e)
         | Inr (d, n, p, c) \<Rightarrow>
             (case hh_accept_pairing L (env_now E) nnc (nd_household nd) d n p c of
                (hh, r) \<Rightarrow> (nd\<lparr>nd_household := hh\<rparr>, r)))
      in case res of
           Inl e \<Rightarrow> (nd1, [new_message E 0 nd1 ''aries/v0.1/agent/error'' (Some (am_id msg))
                [(''error'', VStr (error_repr e))]], Inr ())
         | Inr jwt \<Rightarrow> (nd1, [new_message E 0 nd1 ''aries/v0.1/pairing/accept'' (Some (am_id msg))
                [(''membership_ucan'', VStr jwt), (''user_root_did'', opt_str (hh_root_did (nd_household nd1)))]], Inr ()))"

subsection \<open>Handlers of the inference messages\<close>

definition capability_message :: "env \<Rightarrow> nat \<Rightarrow> bool \<Rightarrow> 'k node \<Rightarrow> aries_message option" where
  "capability_message E n reply nd =
     map_option (\<lambda>c. new_message E n nd ''aries/v0.2/inference/capability'' None
        [(''capability'', VDict (capability_report c)), (''reply'', VBool reply)]) (nd_local_cap nd)"

text \<open>The report of a peer is filed under the DID of the sender, whatever it says itself.\<close>

definition claim_report :: "did \<Rightarrow> device_capability \<Rightarrow> device_capability" where
  "claim_report sender c = c\<lparr>dc_did := sender, dc_models := map (\<lambda>m. m\<lparr>mi_did := sender\<rparr>) (dc_models c)\<rparr>"

definition handle_capability ::
    "conversions \<Rightarrow> env \<Rightarrow> aries_message \<Rightarrow> peer_info \<Rightarrow> 'k node \<Rightarrow> ('k, unit) handled" where
  "handle_capability C E msg p nd =
     (case dget (am_body msg) ''capability'' of
        Some (VDict raw) \<Rightarrow>
          (case capability_of_report C raw of
             Inl _ \<Rightarrow> (nd, [], Inr ())
           | Inr c \<Rightarrow>
               let sender = (if am_sender msg \<noteq> [] then am_sender msg else pi_did p) in
               if sender = [] then (nd, [], Inr ())
               else (case update_device sender (claim_report sender c) (nd_registry nd) of
                   (reg, Inl e) \<Rightarrow> (nd\<lparr>nd_registry := reg\<rparr>, [], Inl e)
                 | (reg, Inr _) \<Rightarrow>
                     let nd1 = emit_event ''inference_capability'' (''Capability from '' @ take 16 sender @ ''...'')
                           (nd\<lparr>nd_registry := reg\<rparr>)
                     in (nd1,
                         if py_bool (dgetd (am_body msg) ''reply'' VNone)
                         then (case capability_message E 0 False nd1 of None \<Rightarrow> [] | Some m \<Rightarrow> [m]) else [],
                         Inr ())))
      | _ \<Rightarrow> (nd, [], Inr ()))"

text \<open>
  \<open>_measure_peer_link\<close> when the measurement succeeded. The catalog holds the same object as this
  node, so a change of its link tables is seen there.
\<close>

definition link_measured :: "did \<Rightarrow> real \<Rightarrow> real \<Rightarrow> 'k node \<Rightarrow> 'k node \<times> unit result" where
  "link_measured d latency bandwidth nd =
     (case nd_local_cap nd of
        None \<Rightarrow> (nd, Inr ())
      | Some c \<Rightarrow>
          let c1 = c\<lparr>dc_latency_ms := dset d latency (dc_latency_ms c), dc_bandwidth_mbps := dset d bandwidth (dc_bandwidth_mbps c)\<rparr>;
              (reg, r) = update_device (self_did nd) c1 (nd_registry nd);
              nd1 = nd\<lparr>nd_local_cap := Some c1, nd_registry := reg\<rparr>
          in (case r of Inl e \<Rightarrow> (nd1, Inl e)
              | Inr _ \<Rightarrow> (emit_event ''peer_link_measured'' (''Link to '' @ take 16 d @ ''...'') nd1, Inr ())))"

definition share_cap :: "did \<Rightarrow> device_capability \<Rightarrow> registry \<Rightarrow> registry" where
  "share_cap own c reg = (if dget (rg_caps reg) own = None then reg else reg\<lparr>rg_caps := dset own c (rg_caps reg)\<rparr>)"

definition peer_disconnected :: "did \<Rightarrow> 'k node \<Rightarrow> 'k node \<times> unit result" where
  "peer_disconnected d nd =
     (case (if d = [] then (nd_registry nd, Inr ()) else remove_device d (nd_registry nd)) of
        (reg, Inl e) \<Rightarrow> (nd\<lparr>nd_registry := reg\<rparr>, Inl e)
      | (reg, Inr _) \<Rightarrow>
          let nd1 = (case nd_local_cap nd of
                None \<Rightarrow> nd\<lparr>nd_registry := reg\<rparr>
              | Some c \<Rightarrow>
                  if d = [] then nd\<lparr>nd_registry := reg\<rparr>
                  else let c1 = c\<lparr>dc_latency_ms := dpop d (dc_latency_ms c), dc_bandwidth_mbps := dpop d (dc_bandwidth_mbps c)\<rparr>
                       in nd\<lparr>nd_local_cap := Some c1, nd_registry := share_cap (self_did nd) c1 reg\<rparr>)
          in (emit_event ''peer_disconnect'' (''Peer disconnected: '' @ take 16 d @ ''...'') nd1, Inr ()))"

text \<open>\<open>_handle_inference_setup\<close>: the process is filed under the session identifier.\<close>

definition handle_setup :: "conversions \<Rightarrow> env \<Rightarrow> aries_message \<Rightarrow> 'k node \<Rightarrow> ('k, unit) handled" where
  "handle_setup C E msg nd =
     (let session = to_text C (dgetd (am_body msg) ''session_id'' (VStr '''')) in
      case as_int (dgetd (am_body msg) ''port'' (VInt 50052)) of
        Inl e \<Rightarrow> (nd, [], Inl e)
      | Inr port \<Rightarrow>
          let rpc = (case nd_local_cap nd of None \<Rightarrow> None | Some c \<Rightarrow> dc_rpc_server_path c);
              err = (\<lambda>txt. new_message E 1 nd ''aries/v0.1/agent/error'' (Some (am_id msg))
                      [(''error'', VStr txt), (''session_id'', VStr session)])
          in if \<not> truthy rpc then (nd, [err ''rpc-server not available on this device''], Inr ())
             else (case env_spawn E (or_empty rpc) port of
                 Inl e \<Rightarrow> (nd, [err (error_repr e)], Inr ())
               | Inr pid \<Rightarrow>
                   let nd1 = nd\<lparr>nd_rpc := dset session pid (nd_rpc nd)\<rparr>;
                       ready = new_message E 0 nd1 ''aries/v0.2/inference/ready'' (Some (am_id msg))
                         [(''session_id'', VStr session), (''port'', VInt port)]
                   in (nd1, if env_sends E ready then [ready] else [ready, err (error_repr (ConnectionError ''Connection lost''))],
                       Inr ())))"

definition handle_ready :: "aries_message \<Rightarrow> 'k node \<Rightarrow> 'k node" where
  "handle_ready msg nd =
     (if am_sender msg \<in> set (nd_waiting nd)
      then nd\<lparr>nd_waiting := filter (\<lambda>d. d \<noteq> am_sender msg) (nd_waiting nd), nd_ready := am_sender msg # nd_ready nd\<rparr> else nd)"

definition handle_teardown :: "conversions \<Rightarrow> env \<Rightarrow> aries_message \<Rightarrow> 'k node \<Rightarrow> ('k, unit) handled" where
  "handle_teardown C E msg nd =
     (let session = to_text C (dgetd (am_body msg) ''session_id'' (VStr ''''));
          nd1 = (case dget (nd_rpc nd) session of
             None \<Rightarrow> nd
           | Some pid \<Rightarrow> nd\<lparr>nd_rpc := dpop session (nd_rpc nd), nd_ended := nd_ended nd @ [pid]\<rparr>)
      in (nd1, [new_message E 0 nd1 ''aries/v0.1/handoff/ack'' (Some (am_id msg))
            [(''session_id'', VStr session), (''status'', VStr ''torn-down'')]], Inr ()))"

definition handle_probe :: "env \<Rightarrow> aries_message \<Rightarrow> 'k node \<Rightarrow> ('k, unit) handled" where
  "handle_probe E msg nd =
     (nd, [new_message E 0 nd ''aries/v0.2/inference/probe_response'' (Some (am_id msg)) (am_body msg)], Inr ())"

definition handle_stream_chunk ::
    "('k, 'z) key_lib_scheme \<Rightarrow> conversions \<Rightarrow> env \<Rightarrow> aries_message \<Rightarrow> 'k node \<Rightarrow> 'k node \<times> unit result" where
  "handle_stream_chunk L C E msg nd =
     (let task = to_text C (dgetd (am_body msg) ''task_id'' (VStr ''''));
          tok = to_text C (dgetd (am_body msg) ''token'' (VStr ''''));
          fin = py_bool (dgetd (am_body msg) ''done'' (VBool False))
      in if task = [] \<or> (tok = [] \<and> \<not> fin) then (nd, Inr ())
         else mem_log L (env_now E) (history_key task)
           [(''role'', VStr ''assistant_chunk''), (''content'', VStr tok), (''done'', VBool fin)] None nd)"

text \<open>The messages of \<open>_connect_and_announce\<close> on a new connection, before the memory exchange.\<close>

definition announce_message :: "env \<Rightarrow> nat \<Rightarrow> 'k node \<Rightarrow> aries_message" where
  "announce_message E n nd =
     new_message E n nd ''aries/v0.1/discovery/announce'' None
       [(''name'', VStr (self_device_name nd)), (''capabilities'', VList (map VStr (aggregate_capabilities nd))),
        (''agents'', VList (map (\<lambda>(d, a). VDict [(''did'', VStr (ag_did a)), (''name'', VStr (ag_name a)),
             (''capabilities'', VList (map VStr (ag_capabilities a)))]) (hh_agents (nd_household nd))))]"

definition peer_connected :: "env \<Rightarrow> peer_info \<Rightarrow> 'k node \<Rightarrow> ('k, unit) handled" where
  "peer_connected E p nd =
     (let nd1 = emit_event ''peer_connect'' (''Peer connected: '' @ (if pi_name p \<noteq> [] then pi_name p else take 16 (pi_did p))) nd;
          ann = announce_message E 0 nd1
      in (nd1, if \<not> env_sends E ann then [ann]
               else ann # (case capability_message E 1 True nd1 of None \<Rightarrow> [] | Some m \<Rightarrow> [m]), Inr ()))"

definition health_update :: "env \<Rightarrow> device_health \<Rightarrow> 'k node \<Rightarrow> ('k, unit) handled" where
  "health_update E h nd =
     (let nd1 = nd\<lparr>nd_scheduler := update_device_health h (nd_scheduler nd)\<rparr>
      in (nd1, [new_message E 0 nd1 ''aries/v0.1/health/profile'' None
           [(''device_did'', VStr (dh_device_did h)), (''cpu_percent'', VFloat (dh_cpu_percent h)),
            (''ram_available_gb'', VFloat (dh_ram_available_gb h)), (''ram_total_gb'', VFloat (dh_ram_total_gb h)),
            (''battery_pct'', opt_float (dh_battery_pct h)), (''charging'', VBool (dh_charging h)),
            (''thermal'', VStr (dh_thermal h))]], Inr ()))"

end
