(* ===== verification/NodeStream.thy ===== *)
theory NodeStream
  imports NodeHandlers
begin

text \<open>
  \<open>invoke_stream\<close> of \<^verbatim>\<open>node.py\<close>, consumed to its end: the tokens it yields, how it ends, and what
  it leaves behind. Its lemmas are with those of \<open>invoke\<close>.
\<close>

subsection \<open>Streaming\<close>

text \<open>
  What streams from outside: a stream is the tokens it yields and the exception that ends it, if
  any; \<open>setup_session\<close> is the setup of a distributed session.
\<close>

record stream_models = models +
  run_stream :: "did \<Rightarrow> invoke_request \<Rightarrow> string list \<times> py_error option"
  setup_session :: "inference_config \<Rightarrow> bool result"
  stream_session :: "inference_config \<Rightarrow> string \<Rightarrow> string option \<Rightarrow> string list \<times> py_error option"

definition not_implemented :: "py_error \<Rightarrow> bool" where
  "not_implemented e \<longleftrightarrow> e = LibError ''NotImplementedError''"

type_synonym 'k streamed = "'k node \<times> string list \<times> unit result"

definition stream_request :: "chat_message list \<Rightarrow> string option \<Rightarrow> bool \<Rightarrow> invoke_request" where
  "stream_request ms sys stream =
     \<lparr>rq_messages = ms, rq_system_prompt = sys, rq_max_tokens = 4096, rq_temperature = 0.7,
      rq_stop_sequences = [], rq_stream = stream, rq_metadata = []\<rparr>"

definition model_or_vendor :: "agent_record \<Rightarrow> string" where
  "model_or_vendor a = (if truthy (ag_model a) then or_empty (ag_model a) else ag_vendor a)"

text \<open>What follows the last token: the records and the receipt. \<open>chunks\<close> is the list the code joins.\<close>

definition finish_stream ::
    "('k, 'z) key_lib_scheme \<Rightarrow> env \<Rightarrow> chat_message list \<Rightarrow> agent_record \<Rightarrow> string list \<Rightarrow> string list \<Rightarrow> 'k node \<Rightarrow> 'k streamed" where
  "finish_stream L E ms a yielded chunks nd =
     (let task = ''task_'' @ take 12 (env_uid E 0); content = concat chunks in
      case record_exchange L (env_now E) task
             (VDict [(''content'', VStr content), (''model'', VStr (model_or_vendor a)), (''usage'', VDict [])])
             ms content (ag_token a) nd of
        (nd1, Inl e) \<Rightarrow> (nd1, yielded, Inl e)
      | (nd1, Inr _) \<Rightarrow>
          (case device_keypair nd1 of
             Inl e \<Rightarrow> (nd1, yielded, Inl e)
           | Inr key \<Rightarrow>
               (add_receipt L key ((new_receipt E 1 nd1 task ''invoke_stream'')
                  \<lparr>rc_agent_did := ag_did a, rc_model_used := model_or_vendor a, rc_tokens_used := int (length chunks),
                   rc_latency_ms := env_elapsed E, rc_input_hash := hash_messages L ms,
                   rc_output_hash := hash_text L content, rc_summary := take 80 content\<rparr>) nd1, yielded, Inr ())))"

definition stream_agent ::
    "('k, 'z) key_lib_scheme \<Rightarrow> env \<Rightarrow> stream_models \<Rightarrow> chat_message list \<Rightarrow> string \<Rightarrow> string option \<Rightarrow> agent_record
      \<Rightarrow> 'k node \<Rightarrow> 'k streamed" where
  "stream_agent L E M ms capability sys a nd =
     (if ag_did a \<notin> set (nd_adapters nd)
      then (nd, [], Inl (RuntimeError ''Agent has a record but no live adapter on this device''))
      else case mem_set L (env_now E) (request_key (''task_'' @ take 12 (env_uid E 0)))
                  (VDict [(''messages'', VList (map (\<lambda>m. VDict (message_to_dict m)) ms)), (''capability'', VStr capability)])
                  (ag_token a) nd of
          (nd1, Inl e) \<Rightarrow> (nd1, [], Inl e)
        | (nd1, Inr _) \<Rightarrow>
            (case run_stream M (ag_did a) (stream_request ms sys True) of
               (toks, None) \<Rightarrow> finish_stream L E ms a toks toks nd1
             | (toks, Some e) \<Rightarrow>
                 if not_implemented e
                 then (case run_adapter M (ag_did a) (stream_request ms sys False) of
                     Inl e' \<Rightarrow> (nd1, toks, Inl e')
                   | Inr resp \<Rightarrow> finish_stream L E ms a (toks @ [rs_content resp]) [rs_content resp] nd1)
                 else (nd1, toks, Inl e)))"

text \<open>The tokens of a failed session were yielded before those of the agent.\<close>

definition stream_single ::
    "('k, 'z) key_lib_scheme \<Rightarrow> env \<Rightarrow> stream_models \<Rightarrow> chat_message list \<Rightarrow> string \<Rightarrow> string option \<Rightarrow> string option
      \<Rightarrow> task_constraints \<Rightarrow> string list \<Rightarrow> 'k node \<Rightarrow> 'k streamed" where
  "stream_single L E M ms capability sys agent_did tc before nd =
     (case choose_agent E agent_did tc nd of
        (nd1, Inl e) \<Rightarrow> (nd1, before, Inl e)
      | (nd1, Inr a) \<Rightarrow>
          (case stream_agent L E M ms capability sys a nd1 of (nd2, toks, r) \<Rightarrow> (nd2, before @ toks, r)))"

definition node_invoke_stream ::
    "('k, 'z) key_lib_scheme \<Rightarrow> env \<Rightarrow> stream_models \<Rightarrow> chat_message list \<Rightarrow> string \<Rightarrow> string option \<Rightarrow> string option
      \<Rightarrow> locality \<Rightarrow> string list option \<Rightarrow> string \<Rightarrow> 'k node \<Rightarrow> 'k streamed" where
  "node_invoke_stream L E M ms capability sys agent_did loc tags max_cost nd =
     (let tc = invoke_constraints capability loc tags max_cost;
          single = (\<lambda>before. stream_single L E M ms capability sys agent_did tc before nd)
      in if agent_did \<noteq> None then single []
         else (case get_best_config (nd_registry nd) tc (sc_health (nd_scheduler nd)) of
             None \<Rightarrow> single []
           | Some best \<Rightarrow>
               if ic_type best \<noteq> ''distributed'' then single []
               else (case setup_session M best of
                   Inl (RuntimeError e) \<Rightarrow> single []
                 | Inl e \<Rightarrow> (nd, [], Inl e)
                 | Inr ok \<Rightarrow>
                     if \<not> ok then single []
                     else (case stream_session M best (if ms = [] then [] else msg_content (last ms)) sys of
                         (toks, None) \<Rightarrow> (nd, toks, Inr ())
                       | (toks, Some e) \<Rightarrow> single toks))))"

end
