(* ===== verification/NodeState.thy ===== *)
theory NodeState
  imports NodeStream
begin

text \<open>
  What holds of a daemon in every state it reaches: the operations and handlers of \<^verbatim>\<open>node.py\<close> as
  one transition relation, the invariant that the device keeps its key and that every receipt
  chain verifies, and the properties of invocation, hand-off and the handlers.
\<close>

subsection \<open>Reachable states\<close>

text \<open>
  What a daemon does with its agents as they are: its own calls, the messages of peers, the events of
  connections and sensors, with any arguments.
\<close>

inductive serve_step :: "('k, 'z) key_lib_scheme \<Rightarrow> 'k node \<Rightarrow> 'k node \<Rightarrow> bool" for L nd where
  serve_invoke: "serve_step L nd (fst (node_invoke L E M ms cap sys a loc tags mc mt stream pinned nd))"
| serve_stream: "serve_step L nd (fst (node_invoke_stream L E S ms cap sys a loc tags mc nd))"
| serve_handoff: "serve_step L nd (fst (node_handoff L E ok task r target lc caps mc nd))"
| serve_best: "serve_step L nd (fst (handoff_to_best_peer L E ok peers task r caps lc mc nd))"
| serve_resume: "serve_step L nd (fst (resume_task L E M task nd))"
| serve_asked: "serve_step L nd (fst (handle_invoke L E M msg nd))"
| serve_continuation: "serve_step L nd (fst (handle_continuation L E M msg nd))"
| serve_pairing: "serve_step L nd (fst (handle_pairing_request L E n msg nd))"
| serve_profile: "serve_step L nd (handle_profile_update E msg nd)"
| serve_capability: "serve_step L nd (fst (handle_capability C E msg p nd))"
| serve_link: "serve_step L nd (fst (link_measured a x y nd))"
| serve_gone: "serve_step L nd (fst (peer_disconnected a nd))"
| serve_setup: "serve_step L nd (fst (handle_setup C E msg nd))"
| serve_ready: "serve_step L nd (handle_ready msg nd)"
| serve_teardown: "serve_step L nd (fst (handle_teardown C E msg nd))"
| serve_chunk: "serve_step L nd (fst (handle_stream_chunk L C E msg nd))"
| serve_connected: "serve_step L nd (fst (peer_connected E p nd))"
| serve_health: "serve_step L nd (fst (health_update E h nd))"

text \<open>The states of a daemon that only serves, and of one whose agents are registered and attached as well.\<close>

inductive served :: "('k, 'z) key_lib_scheme \<Rightarrow> 'k node \<Rightarrow> 'k node \<Rightarrow> bool" for L nd0 where
  served_started: "served L nd0 nd0"
| served_next: "served L nd0 nd \<Longrightarrow> serve_step L nd nd' \<Longrightarrow> served L nd0 nd'"

inductive node_reach :: "('k, 'z) key_lib_scheme \<Rightarrow> 'k node \<Rightarrow> 'k node \<Rightarrow> bool" for L nd0 where
  reach_started: "node_reach L nd0 nd0"
| reach_register: "node_reach L nd0 nd \<Longrightarrow> node_reach L nd0 (fst (node_register_agent L now n ak nd caps name))"
| reach_attach: "node_reach L nd0 nd \<Longrightarrow> node_reach L nd0 (attach_adapter a nd)"
| reach_served: "node_reach L nd0 nd \<Longrightarrow> serve_step L nd nd' \<Longrightarrow> node_reach L nd0 nd'"

lemma served_reach: "served L nd0 nd \<Longrightarrow> node_reach L nd0 nd"
  by (induction rule: served.induct) (auto intro: node_reach.intros)

lemma reach_handoff: "node_reach L nd0 nd \<Longrightarrow> node_reach L nd0 (fst (node_handoff L E ok task r target lc caps mc nd))"
  by (rule node_reach.reach_served[OF _ serve_step.serve_handoff])

subsection \<open>What every step keeps\<close>

text \<open>The types of the events a daemon emits.\<close>

definition event_type :: "string \<Rightarrow> bool" where
  "event_type ty \<longleftrightarrow> ty \<in> {''agent_register'', ''handoff_sent'', ''handoff_recv'', ''invoke'', ''inference_capability'',
     ''peer_link_measured'', ''peer_disconnect'', ''peer_connect''}"

lemma event_types [simp]:
  "event_type ''agent_register''" "event_type ''handoff_sent''" "event_type ''handoff_recv''" "event_type ''invoke''"
  "event_type ''inference_capability''" "event_type ''peer_link_measured''" "event_type ''peer_disconnect''"
  "event_type ''peer_connect''"
  by (simp_all add: event_type_def)

lemma register_keeps_key:
  "hh_device_key (fst (hh_register_agent L now n ak h spec)) = hh_device_key h
   \<and> hh_device_did (fst (hh_register_agent L now n ak h spec)) = hh_device_did h"
  by (simp add: hh_register_agent_def save_household_def Let_def split: option.split bool.split sum.split prod.split)

lemma pairing_keeps_key:
  "hh_device_key (fst (hh_accept_pairing L now n h cand name platform code)) = hh_device_key h
   \<and> hh_device_did (fst (hh_accept_pairing L now n h cand name platform code)) = hh_device_did h"
  by (simp add: hh_accept_pairing_def save_household_def Let_def split: option.split sum.split prod.split)

text \<open>
  A property of the node that implies its key, that the emission of an event, a new receipt and an
  answered pairing request keep, and that says nothing of the fields the operations write freely
  holds in every state of a daemon that serves. When it says nothing of the adapters either and
  registering an agent keeps it, it holds in every state a daemon reaches.
\<close>

locale served_invariant =
  fixes L :: "('k, 'z) key_lib_scheme" and k :: 'k and d :: did and P :: "'k node \<Rightarrow> bool"
  assumes holds_key: "P nd \<Longrightarrow> hh_device_key (nd_household nd) = Some k \<and> hh_device_did (nd_household nd) = Some d"
    and free_fields: "P (nd\<lparr>nd_store := s\<rparr>) = P nd" "P (nd\<lparr>nd_scheduler := sc\<rparr>) = P nd" "P (nd\<lparr>nd_registry := r\<rparr>) = P nd"
      "P (nd\<lparr>nd_local_cap := c\<rparr>) = P nd" "P (nd\<lparr>nd_waiting := w\<rparr>) = P nd" "P (nd\<lparr>nd_ready := rd\<rparr>) = P nd"
      "P (nd\<lparr>nd_rpc := rp\<rparr>) = P nd" "P (nd\<lparr>nd_ended := en\<rparr>) = P nd"
    and paired: "P nd \<Longrightarrow> P (nd\<lparr>nd_household := fst (hh_accept_pairing L now nnc (nd_household nd) cand name pl code)\<rparr>)"
    and emitted: "event_type ty \<Longrightarrow> P nd \<Longrightarrow> P (emit_event ty txt nd)"
    and receipt_added: "P nd \<Longrightarrow> P (add_receipt L k rc nd)"
    and chain_opened: "P nd \<Longrightarrow> P (nd\<lparr>nd_chains := dset t (dgetd (nd_chains nd) t []) (nd_chains nd)\<rparr>)"
begin

named_theorems keeps \<open>steps that keep the invariant\<close>

declare free_fields [simp] emitted [simp] receipt_added [simp, keeps]

lemma own_key: "P nd \<Longrightarrow> self_did nd = d" "P nd \<Longrightarrow> device_keypair nd = Inr k"
  using holds_key[of nd] by (simp_all add: self_did_def device_keypair_def)

lemma andThen_keeps [keeps]:
  assumes "P (fst p)" and "\<And>x nd. P nd \<Longrightarrow> P (fst (f x nd))"
  shows "P (fst (andThen p f))"
  using assms by (cases p) (auto simp: andThen_def split: sum.split)

lemma mem_set_keeps [simp]: "P (fst (mem_set M now key v tok nd)) = P nd"
  by (simp add: mem_set_def split: prod.split sum.split)

lemma mem_log_keeps [simp]: "P (fst (mem_log M now key b tok nd)) = P nd"
  by (simp add: mem_log_def split: prod.split sum.split)

lemma mem_log_all_keeps [keeps]: "P nd \<Longrightarrow> P (fst (mem_log_all M now key bs tok nd))"
  by (induction bs arbitrary: nd) (auto intro: andThen_keeps)

lemma record_exchange_keeps [keeps]:
  "P nd \<Longrightarrow> P (fst (record_exchange M now t resp ms content tok nd))"
  unfolding record_exchange_def by (intro andThen_keeps) (simp_all add: mem_log_all_keeps)

lemma invoke_distributed_keeps [keeps]:
  "P nd \<Longrightarrow> P (fst (invoke_distributed L E M ms cfg sys mt stream nd))"
  unfolding invoke_distributed_def Let_def
  by (auto intro!: keeps split: sum.split simp: own_key)

lemma choose_agent_keeps [keeps]: "P nd \<Longrightarrow> P (fst (choose_agent E a tc nd))"
  by (auto simp: choose_agent_def split: prod.split sum.split option.split)

lemma invoke_agent_keeps [keeps]:
  "P nd \<Longrightarrow> P (fst (invoke_agent L E M ms cap sys mt a nd))"
  unfolding invoke_agent_def Let_def
  by (auto intro!: keeps split: sum.split simp: own_key)

lemma invoke_single_keeps [keeps]:
  "P nd \<Longrightarrow>
     P (fst (invoke_single L E M ms cap sys a loc tags mc mt nd))"
  unfolding invoke_single_def by (intro keeps)

lemma node_invoke_keeps [keeps]:
  assumes "P nd"
  shows "P (fst (node_invoke L E M ms cap sys a loc tags mc mt stream pinned nd))"
proof -
  have "P (fst (case invoke_distributed L E M ms best sys mt stream nd of
      (nd1, Inl (RuntimeError e)) \<Rightarrow> invoke_single L E M ms cap sys a loc tags mc mt nd1 | r \<Rightarrow> r))" for best
    using invoke_distributed_keeps[OF assms, of E M ms best sys mt stream]
    by (auto intro: invoke_single_keeps split: prod.split sum.split py_error.split)
  with assms show ?thesis
    by (auto simp: node_invoke_def Let_def intro: invoke_single_keeps invoke_distributed_keeps split: option.split)
qed

lemma invoke_default_keeps [keeps]:
  "P nd \<Longrightarrow> P (fst (invoke_default L E M ms cap loc mc nd))"
  unfolding invoke_default_def by (rule node_invoke_keeps)

lemma finish_stream_keeps [keeps]:
  assumes "P nd"
  shows "P (fst (finish_stream L E ms a yielded chunks nd))"
proof -
  have "P (fst (record_exchange L now t v ms c tok nd))" for now t v ms c tok
    using assms(1) by (rule record_exchange_keeps)
  note keep = this own_key(2)[OF this] receipt_added[OF this]
  show ?thesis by (simp add: finish_stream_def Let_def case_prod_beta keep split: sum.split)
qed

lemma stream_agent_keeps [keeps]:
  "P nd \<Longrightarrow> P (fst (stream_agent L E M ms cap sys a nd))"
  by (simp add: stream_agent_def Let_def case_prod_beta finish_stream_keeps split: sum.split option.split)

lemma stream_single_keeps [keeps]:
  assumes "P nd"
  shows "P (fst (stream_single L E M ms cap sys a tc before nd))"
  using stream_agent_keeps[OF choose_agent_keeps[OF assms]] choose_agent_keeps[OF assms]
  by (simp add: stream_single_def case_prod_beta split: sum.split)

lemma node_invoke_stream_keeps [keeps]:
  "P nd \<Longrightarrow> P (fst (node_invoke_stream L E M ms cap sys a loc tags mc nd))"
  by (simp add: node_invoke_stream_def Let_def stream_single_keeps split: option.split sum.split py_error.split prod.split)

lemma node_handoff_keeps [keeps]:
  "P nd \<Longrightarrow> P (fst (node_handoff L E reachable task r target loc caps mc nd))"
  by (auto simp: node_handoff_def Let_def own_key intro: receipt_added split: sum.split)

lemma handoff_to_best_peer_keeps [keeps]:
  "P nd \<Longrightarrow>
     P (fst (handoff_to_best_peer L E reachable peers task r caps loc mc nd))"
  by (auto simp: handoff_to_best_peer_def Let_def intro: node_handoff_keeps split: option.split)

lemma resume_task_keeps [keeps]:
  "P nd \<Longrightarrow> P (fst (resume_task L E M task nd))"
  by (auto simp: resume_task_def intro: invoke_default_keeps split: sum.split)

lemma handle_invoke_keeps [keeps]:
  assumes "P nd"
  shows "P (fst (handle_invoke L E M msg nd))"
proof -
  have "P (fst (invoke_default L E M ms c loc mc (emit_event ty tx nd)))" if "event_type ty" for ms c loc mc ty tx
    using assms that by (intro invoke_default_keeps) simp_all
  with assms show ?thesis by (auto simp: handle_invoke_def Let_def case_prod_beta split: sum.split)
qed

lemma resume_continuation_keeps [keeps]:
  assumes "P nd"
  shows "P (fst (resume_continuation L E M cont nd))"
proof -
  have "P (fst (andThen (invoke_default L E M ms cap loc mc nd)
      (\<lambda>r nd'. andThen (mem_log L now key (b r) None nd') (\<lambda>_ nd''. (nd'', Inr r)))))" for ms cap loc mc now key b
    using assms by (intro andThen_keeps invoke_default_keeps) simp_all
  then show ?thesis by (simp add: resume_continuation_def Let_def case_prod_beta split: sum.split)
qed

lemma accept_continuation_keeps [keeps]:
  assumes "P nd"
  shows "P (fst (accept_continuation L E M k cont nd))"
proof -
  have log: "P (fst (mem_log_all L now key bs None (emit_event ty tx nd)))" if "event_type ty" for now key bs ty tx
    using assms that by (intro mem_log_all_keeps) simp
  then have "P (fst (resume_continuation L E M cont (add_receipt L k r
      (fst (mem_log_all L now key bs None (emit_event ty tx nd))))))" if "event_type ty" for now key bs ty tx r
    using that by (intro resume_continuation_keeps receipt_added)
  with log show ?thesis
    by (simp add: accept_continuation_def Let_def case_prod_beta split: sum.split)
qed

lemma handle_continuation_keeps [keeps]:
  assumes "P nd"
  shows "P (fst (handle_continuation L E M msg nd))"
  using assms
  by (auto simp: handle_continuation_def refuse_continuation_def Let_def own_key
      intro!: accept_continuation_keeps receipt_added chain_opened split: sum.split)

lemma handle_pairing_request_keeps [keeps]: "P nd \<Longrightarrow> P (fst (handle_pairing_request L E n msg nd))"
  by (simp add: handle_pairing_request_def Let_def case_prod_beta paired split: sum.split)

lemma inference_handlers_keep [keeps]:
  assumes "P nd"
  shows "P (fst (handle_capability C E msg p nd))" "P (fst (link_measured a x y nd))"
    "P (fst (peer_disconnected a nd))" "P (fst (handle_setup C E msg nd))"
    "P (handle_ready msg nd)" "P (fst (handle_teardown C E msg nd))"
    "P (fst (handle_stream_chunk M C E msg nd))" "P (handle_profile_update E msg nd)"
    "P (fst (peer_connected E p nd))" "P (fst (health_update E h nd))"
    "P (fst (handle_probe E msg nd))"
  using assms
  by (simp_all add: handle_capability_def link_measured_def peer_disconnected_def handle_setup_def handle_ready_def
      handle_teardown_def handle_stream_chunk_def handle_profile_update_def peer_connected_def health_update_def
      handle_probe_def Let_def split: option.split sum.split prod.split pyval.split)


lemma serve_step_keeps [keeps]: "serve_step L nd nd' \<Longrightarrow> P nd \<Longrightarrow> P nd'"
  by (induction rule: serve_step.induct) (simp_all add: keeps)

lemma served_keeps:
  assumes "served L nd0 nd" and "P nd0"
  shows "P nd"
  using assms(1) by induction (auto intro: assms(2) serve_step_keeps)

end

locale node_invariant = served_invariant +
  assumes free_adapters: "P (nd\<lparr>nd_adapters := a\<rparr>) = P nd"
    and registered: "P nd \<Longrightarrow> P (nd\<lparr>nd_household := fst (hh_register_agent L now nnc ak (nd_household nd) spec)\<rparr>)"
begin

lemma node_register_agent_keeps: "P nd \<Longrightarrow> P (fst (node_register_agent L now n ak nd caps name))"
  by (auto simp: node_register_agent_def case_prod_beta registered free_adapters intro!: emitted split: sum.split)

lemma reach_keeps:
  assumes "node_reach L nd0 nd" and "P nd0"
  shows "P nd"
  using assms(1)
  by induction (auto simp: attach_adapter_def free_adapters intro: assms(2) serve_step_keeps node_register_agent_keeps)

end

subsection \<open>The key and verifiable chains\<close>

definition node_ok :: "('k, 'z) lib_scheme \<Rightarrow> 'k \<Rightarrow> did \<Rightarrow> 'k node \<Rightarrow> bool" where
  "node_ok L k d nd \<longleftrightarrow> owns L k d \<and> hh_device_key (nd_household nd) = Some k \<and> hh_device_did (nd_household nd) = Some d
     \<and> (\<forall>t c. dget (nd_chains nd) t = Some c \<longrightarrow> verify_chain L c = Inr True)"

lemma node_ok_chain: "node_ok L k d nd \<Longrightarrow> verify_chain L (dgetd (nd_chains nd) t []) = Inr True"
  by (simp add: node_ok_def dgetd_def verify_chain_def split: option.split)

lemma node_ok_dset:
  "node_ok L k d nd \<Longrightarrow> verify_chain L c = Inr True \<Longrightarrow> node_ok L k d (nd\<lparr>nd_chains := dset t c (nd_chains nd)\<rparr>)"
  by (simp add: node_ok_def)

lemma node_ok_receipt: "node_ok L k d nd \<Longrightarrow> node_ok L k d (add_receipt L k rc nd)"
  using node_ok_chain[of L k d nd "rc_task_id rc"]
  by (auto simp: node_ok_def add_receipt_def self_did_def chain_add_verifies or_empty_def)

interpretation keyed: node_invariant L k d "node_ok L k d" for L :: "('k, 'z) key_lib_scheme" and k d
  by unfold_locales (simp_all add: node_ok_receipt node_ok_dset node_ok_chain,
    simp_all add: node_ok_def emit_event_def register_keeps_key pairing_keeps_key)

subsection \<open>Only known events\<close>

definition events_ok :: "'k \<Rightarrow> did \<Rightarrow> 'k node \<Rightarrow> bool" where
  "events_ok k d nd \<longleftrightarrow> hh_device_key (nd_household nd) = Some k \<and> hh_device_did (nd_household nd) = Some d
     \<and> list_all (\<lambda>(ty, txt). event_type ty) (nd_events nd)"

interpretation announced: node_invariant L k d "events_ok k d" for L :: "('k, 'z) key_lib_scheme" and k d
  by unfold_locales (simp_all add: events_ok_def emit_event_def add_receipt_def register_keeps_key pairing_keeps_key)

subsection \<open>No pairing offer\<close>

definition no_offer :: "'k \<Rightarrow> did \<Rightarrow> 'k node \<Rightarrow> bool" where
  "no_offer k d nd \<longleftrightarrow> hh_device_key (nd_household nd) = Some k \<and> hh_device_did (nd_household nd) = Some d
     \<and> hh_offer (nd_household nd) = None"

lemma register_keeps_offer: "hh_offer (fst (hh_register_agent L now n ak h spec)) = hh_offer h"
  by (simp add: hh_register_agent_def save_household_def Let_def split: option.split bool.split sum.split prod.split)

lemma pairing_without_offer:
  "hh_offer h = None \<Longrightarrow> hh_accept_pairing L now n h cand name pl code = (h, Inl (RuntimeError ''No pending pairing offer''))"
  by (simp add: hh_accept_pairing_def)

interpretation unoffered: node_invariant L k d "no_offer k d" for L :: "('k, 'z) key_lib_scheme" and k d
  by unfold_locales (simp_all add: no_offer_def emit_event_def add_receipt_def register_keeps_key register_keeps_offer pairing_without_offer)

subsection \<open>No adapters\<close>

definition no_adapter :: "'k \<Rightarrow> did \<Rightarrow> 'k node \<Rightarrow> bool" where
  "no_adapter k d nd \<longleftrightarrow> hh_device_key (nd_household nd) = Some k \<and> hh_device_did (nd_household nd) = Some d \<and> nd_adapters nd = []"

interpretation adapterless: served_invariant L k d "no_adapter k d" for L :: "('k, 'z) key_lib_scheme" and k d
  by unfold_locales (simp_all add: no_adapter_def emit_event_def add_receipt_def pairing_keeps_key)

subsection \<open>Starting\<close>

lemma node_start_fields:
  assumes "node_start L now hh mandates file probe = (hh1, Inr nd)"
  shows "hh_load L now hh = (hh1, Inr ())" "nd_household nd = hh1" "nd_chains nd = []"
    "nd_store nd = load (or_empty (hh_device_did hh1)) True file" "nd_adapters nd = []" "nd_events nd = []"
  using assms by (auto simp: node_start_def Let_def split: prod.splits sum.splits)

lemma node_start_runs:
  assumes "hh_load L now hh = (hh1, Inr ())"
  shows "\<exists>nd. node_start L now hh mandates file probe = (hh1, Inr nd)"
  using assms by (simp add: node_start_def Let_def split: prod.split)


subsection \<open>A concrete daemon\<close>

text \<open>The daemon of the founded household, after a restart; sends succeed, the clock shows 9.\<close>

definition demo_env :: env where
  "demo_env = \<lparr>env_now = 9, env_minutes = 600, env_uid = (\<lambda>n. show_nat n), env_elapsed = 1, env_sends = (\<lambda>m. True),
     env_spawn = (\<lambda>p port. Inr 7)\<rparr>"

definition demo_node :: "bool node" where
  "demo_node = (case node_start demo_hh_lib 9 (reopen demo_household) [] None None of (h, Inr nd) \<Rightarrow> nd | _ \<Rightarrow> undefined)"

lemma demo_hh_owns: "owns demo_hh_lib k (demo_did k)"
  using demo_wire_owns[of "[]" k]
  by (simp add: owns_def ed25519_ok_def demo_hh_lib_def demo_keylib_def wire_lib.defs demo_wire_def lib.defs demo_lib_def)

lemma demo_node_start: "\<exists>h1. node_start demo_hh_lib 9 (reopen demo_household) [] None None = (h1, Inr demo_node)
  \<and> hh_device_key h1 = Some False \<and> hh_device_did h1 = Some (demo_did False)"
proof -
  obtain h1 where h: "hh_load demo_hh_lib 9 (reopen demo_household) = (h1, Inr ())"
    "hh_device_did h1 = hh_device_did demo_household" "hh_device_key h1 = Some False"
    using restart_loads[OF demo_household_reach demo_hh_lib_ok demo_household_facts(1,3)] by blast
  obtain nd where n: "node_start demo_hh_lib 9 (reopen demo_household) [] None None = (h1, Inr nd)"
    using node_start_runs[OF h(1)] by blast
  have "hh_device_did demo_household = Some (demo_did False)"
  proof -
    obtain r sh st c where d: "demo_household = founded demo_hh_lib (open_household None None []) True False (demo_did True) r sh st c"
      and r: "dv_did r = demo_did False" using demo_founded by blast
    show ?thesis unfolding d by (simp add: founded_fields r)
  qed
  with n h(2,3) show ?thesis by (intro exI[of _ h1]) (simp add: demo_node_def)
qed

lemma demo_node_fields:
  "hh_device_key (nd_household demo_node) = Some False" "hh_device_did (nd_household demo_node) = Some (demo_did False)"
  "nd_chains demo_node = []" "nd_store demo_node = load (demo_did False) True None"
proof -
  obtain h1 where s: "node_start demo_hh_lib 9 (reopen demo_household) [] None None = (h1, Inr demo_node)"
    "hh_device_key h1 = Some False" "hh_device_did h1 = Some (demo_did False)" using demo_node_start by blast
  note f = node_start_fields[OF s(1)]
  show "hh_device_key (nd_household demo_node) = Some False" "hh_device_did (nd_household demo_node) = Some (demo_did False)"
    "nd_chains demo_node = []" "nd_store demo_node = load (demo_did False) True None"
    using f(2-4) s(2,3) by simp_all
qed

definition demo_rsn :: handoff_reason where
  "demo_rsn = \<lparr>reason_code = ''user'', reason_description = [], user_initiated = True\<rparr>"

definition demo_handoff :: "bool node \<Rightarrow> bool node" where
  "demo_handoff nd = fst (node_handoff demo_hh_lib demo_env (\<lambda>d. True) ''t'' demo_rsn (demo_did True) ''any'' None ''paid'' nd)"

subsection \<open>Properties\<close>


lemma demo_handoff_chain:
  assumes "task_messages 9 ''t'' nd = Inr []" "hh_device_key (nd_household nd) = Some False"
  shows "\<exists>r. dget (nd_chains (demo_handoff nd)) ''t'' = Some (dgetd (nd_chains nd) ''t'' [] @ [r])"
  using assms
  by (simp add: demo_handoff_def node_handoff_def demo_env_def Let_def device_keypair_def demo_did_def DID_PREFIX_def add_receipt_def
      emit_event_def new_receipt_def chain_add_def)



end
