(* ===== verification/Adapters.thy ===== *)
theory Adapters
  imports NodeState
begin

text \<open>
  The adapters: \<^verbatim>\<open>adapters/mock_adapter.py\<close>, \<^verbatim>\<open>adapters/litellm_adapter.py\<close> with its stock constructors, and
  what the commands of \<^verbatim>\<open>cli/main.py\<close> do with them (\<open>register\<close>, \<open>_adapter_from_record\<close>,
  \<open>_reattach_adapters\<close>, \<open>_find_agent\<close>). The litellm library is an argument: whether it is installed,
  and what it answers to the keyword arguments of a call. The lemmas show what of an adapter
  survives a restart and what the scheduler is told about an endpoint.
\<close>

subsection \<open>The mock adapter\<close>

record mock_adapter =
  mk_model :: string
  mk_canned :: string
  mk_caps :: "string list"
  mk_context_window :: int

definition mock_invoke :: "mock_adapter \<Rightarrow> invoke_request \<Rightarrow> invoke_response" where
  "mock_invoke a req =
     (let last_user = (case find (\<lambda>m. msg_role m = ''user'') (rev (rq_messages req)) of None \<Rightarrow> [] | Some m \<Rightarrow> msg_content m);
          content = mk_canned a @ '' :: echo='' @ take 80 last_user
      in \<lparr>rs_content = content, rs_model = mk_model a, rs_finish_reason = ''stop'',
          rs_usage = [(''prompt_tokens'', int (length last_user)), (''completion_tokens'', int (length content))],
          rs_latency_ms = 0.5, rs_metadata = [(''vendor'', VStr ''mock''), (''mocked'', VBool True)]\<rparr>)"

fun split_space :: "string \<Rightarrow> string \<Rightarrow> string list" where
  "split_space word [] = (if word = [] then [] else [rev word])"
| "split_space word (c # cs) =
     (if ascii_space c then (if word = [] then split_space [] cs else rev word # split_space [] cs)
      else split_space (c # word) cs)"

definition mock_stream :: "mock_adapter \<Rightarrow> invoke_request \<Rightarrow> string list" where
  "mock_stream a req = map (\<lambda>w. w @ '' '') (split_space [] (rs_content (mock_invoke a req)))"

definition mock_capabilities :: "mock_adapter \<Rightarrow> adapter_caps" where
  "mock_capabilities a = \<lparr>ac_vendor = ''mock'', ac_model = Some (mk_model a), ac_capabilities = mk_caps a,
     ac_context_window = mk_context_window a, ac_locality = ''local'', ac_cost_class = ''free''\<rparr>"

text \<open>The constructor with its default values.\<close>

definition new_mock :: "string \<Rightarrow> mock_adapter" where
  "new_mock model = \<lparr>mk_model = model, mk_canned = ''[mock] hello from the mock adapter'',
     mk_caps = [''text.qa'', ''code.generate''], mk_context_window = 8000\<rparr>"

subsection \<open>The litellm adapter\<close>

definition infer_vendor :: "string \<Rightarrow> string" where
  "infer_vendor model =
     (let m = to_lower model in
      if startswith m ''ollama/'' then ''ollama''
      else if has_sub m ''claude'' \<or> startswith m ''anthropic/'' then ''anthropic''
      else if list_ex (has_sub m) [''gpt'', ''o1'', ''o3'', ''o4''] then ''openai''
      else if has_sub m ''gemini'' then ''google''
      else if startswith m ''openai/'' then ''openai-compatible''
      else ''custom'')"

record litellm_adapter =
  la_model :: string
  la_api_key :: "string option"
  la_api_base :: "string option"
  la_vendor :: string
  la_context_window :: int
  la_cost_class :: string
  la_locality :: string
  la_caps :: "string list"

definition new_litellm ::
    "string \<Rightarrow> string option \<Rightarrow> string option \<Rightarrow> string option \<Rightarrow> int \<Rightarrow> string \<Rightarrow> string \<Rightarrow> string list option \<Rightarrow> litellm_adapter" where
  "new_litellm model api_key api_base vendor window cost loc caps =
     \<lparr>la_model = model, la_api_key = api_key, la_api_base = api_base,
      la_vendor = (if truthy vendor then or_empty vendor else infer_vendor model),
      la_context_window = window, la_cost_class = cost, la_locality = loc,
      la_caps = (case caps of None \<Rightarrow> [''text.qa''] | Some cs \<Rightarrow> if cs = [] then [''text.qa''] else cs)\<rparr>"

definition build_messages :: "invoke_request \<Rightarrow> pyval list" where
  "build_messages req =
     (if truthy (rq_system_prompt req)
      then [VDict [(''role'', VStr ''system''), (''content'', opt_str (rq_system_prompt req))]] else [])
     @ map (\<lambda>m. VDict [(''role'', VStr (msg_role m)), (''content'', VStr (msg_content m))]) (rq_messages req)"

definition call_kwargs :: "litellm_adapter \<Rightarrow> invoke_request \<Rightarrow> dict" where
  "call_kwargs a req =
     [(''model'', VStr (la_model a)), (''messages'', VList (build_messages req)),
      (''max_tokens'', VInt (rq_max_tokens req)), (''temperature'', VFloat (rq_temperature req))]
     @ (if rq_stop_sequences req = [] then [] else [(''stop'', VList (map VStr (rq_stop_sequences req)))])
     @ (if truthy (la_api_key a) then [(''api_key'', opt_str (la_api_key a))] else [])
     @ (if truthy (la_api_base a) then [(''api_base'', opt_str (la_api_base a))] else [])"

text \<open>
  Of litellm: whether it is installed, the answer to a call (of each choice its content and finish
  reason; the two token counts, when it reports usage), and the contents of a stream with the
  exception that ends it.
\<close>

record completion =
  cp_choices :: "(string option \<times> string option) list"
  cp_usage :: "(int option \<times> int option) option"

record litellm =
  lt_installed :: bool
  lt_complete :: "dict \<Rightarrow> completion result"
  lt_stream :: "dict \<Rightarrow> string option list \<times> py_error option"

definition count_or_zero :: "int option \<Rightarrow> int" where
  "count_or_zero n = (case n of None \<Rightarrow> 0 | Some i \<Rightarrow> i)"

definition litellm_invoke :: "litellm \<Rightarrow> real \<Rightarrow> litellm_adapter \<Rightarrow> invoke_request \<Rightarrow> invoke_response result" where
  "litellm_invoke T elapsed a req =
     (if \<not> lt_installed T then Inl (LibError ''ImportError'')
      else bindE (lt_complete T (call_kwargs a req)) (\<lambda>cp.
        case cp_choices cp of
          [] \<Rightarrow> Inl (IndexError ''list index out of range'')
        | (content, finish) # _ \<Rightarrow>
            Inr \<lparr>rs_content = or_empty content, rs_model = la_model a,
                 rs_finish_reason = (if truthy finish then or_empty finish else ''stop''),
                 rs_usage = (case cp_usage cp of None \<Rightarrow> []
                   | Some (p, c) \<Rightarrow> [(''prompt_tokens'', count_or_zero p), (''completion_tokens'', count_or_zero c)]),
                 rs_latency_ms = elapsed, rs_metadata = [(''vendor'', VStr (la_vendor a))]\<rparr>))"

definition litellm_stream :: "litellm \<Rightarrow> litellm_adapter \<Rightarrow> invoke_request \<Rightarrow> string list \<times> py_error option" where
  "litellm_stream T a req =
     (if \<not> lt_installed T then ([], Some (LibError ''ImportError''))
      else (case lt_stream T (call_kwargs a req @ [(''stream'', VBool True)]) of
          (chunks, e) \<Rightarrow> (filter (\<lambda>t. t \<noteq> []) (map or_empty chunks), e)))"

definition litellm_health_check :: "litellm \<Rightarrow> real \<Rightarrow> litellm_adapter \<Rightarrow> bool" where
  "litellm_health_check T now a =
     (case litellm_invoke T 0 a \<lparr>rq_messages = [\<lparr>msg_role = ''user'', msg_content = ''ping'', msg_name = None, msg_timestamp = now\<rparr>],
             rq_system_prompt = None, rq_max_tokens = 5, rq_temperature = 0.7, rq_stop_sequences = [], rq_stream = False, rq_metadata = []\<rparr> of
        Inl _ \<Rightarrow> False
      | Inr resp \<Rightarrow> rs_content resp \<noteq> [])"

definition litellm_capabilities :: "litellm_adapter \<Rightarrow> adapter_caps" where
  "litellm_capabilities a = \<lparr>ac_vendor = la_vendor a, ac_model = Some (la_model a), ac_capabilities = la_caps a,
     ac_context_window = la_context_window a, ac_locality = la_locality a, ac_cost_class = la_cost_class a\<rparr>"

subsection \<open>The stock constructors\<close>

definition ollama_adapter :: "string \<Rightarrow> string \<Rightarrow> litellm_adapter" where
  "ollama_adapter model api_base =
     new_litellm (if startswith model ''ollama/'' then model else ''ollama/'' @ model) None (Some api_base) (Some ''ollama'')
       32000 ''free'' ''local'' (Some [''text.qa'', ''code.generate''])"

definition anthropic_adapter :: "string \<Rightarrow> string option \<Rightarrow> litellm_adapter" where
  "anthropic_adapter model api_key =
     new_litellm model api_key None (Some ''anthropic'') 200000 ''paid'' ''cloud-routed''
       (Some [''text.qa'', ''code.generate'', ''summarize''])"

definition openai_adapter :: "string \<Rightarrow> string option \<Rightarrow> litellm_adapter" where
  "openai_adapter model api_key =
     new_litellm model api_key None (Some ''openai'') 128000 ''paid'' ''cloud-routed'' (Some [''text.qa'', ''code.generate''])"

definition google_adapter :: "string \<Rightarrow> string option \<Rightarrow> litellm_adapter" where
  "google_adapter model api_key =
     new_litellm model api_key None (Some ''google'') 1000000 ''metered'' ''cloud-routed'' (Some [''text.qa'', ''summarize''])"

definition custom_adapter :: "string \<Rightarrow> string \<Rightarrow> string option \<Rightarrow> litellm_adapter" where
  "custom_adapter model api_base api_key =
     new_litellm
       (if list_ex (startswith model) [''openai/'', ''ollama/'', ''anthropic/''] then model else ''openai/'' @ model)
       api_key (Some api_base) (Some ''openai-compatible'') 8000 ''free'' ''local'' (Some [''text.qa''])"

subsection \<open>Registering and rebuilding\<close>

datatype adapter = Mock mock_adapter | LiteLLM litellm_adapter

definition capabilities_of :: "adapter \<Rightarrow> adapter_caps" where
  "capabilities_of a = (case a of Mock m \<Rightarrow> mock_capabilities m | LiteLLM l \<Rightarrow> litellm_capabilities l)"

text \<open>The adapter the command \<open>register\<close> makes; \<open>custom\<close> needs an endpoint.\<close>

definition OLLAMA_BASE :: string where "OLLAMA_BASE = ''http://localhost:11434''"

definition register_adapter :: "string \<Rightarrow> string \<Rightarrow> string option \<Rightarrow> string option \<Rightarrow> adapter option" where
  "register_adapter vendor model api_key api_base =
     (if vendor = ''mock'' then Some (Mock (new_mock model))
      else if vendor = ''ollama''
      then Some (LiteLLM (ollama_adapter model (if truthy api_base then or_empty api_base else OLLAMA_BASE)))
      else if vendor = ''anthropic'' then Some (LiteLLM (anthropic_adapter model api_key))
      else if vendor = ''openai'' then Some (LiteLLM (openai_adapter model api_key))
      else if vendor = ''google'' then Some (LiteLLM (google_adapter model api_key))
      else if \<not> truthy api_base then None
      else Some (LiteLLM (custom_adapter model (or_empty api_base) api_key)))"

definition adapter_from_record :: "agent_record \<Rightarrow> adapter option" where
  "adapter_from_record rec =
     (let model = or_empty (ag_model rec) in
      if ag_vendor rec = ''mock'' then Some (Mock (new_mock (if model = [] then ''mock-1'' else model)))
      else if ag_vendor rec = ''ollama'' then Some (LiteLLM (ollama_adapter model OLLAMA_BASE))
      else if ag_vendor rec = ''anthropic'' then Some (LiteLLM (anthropic_adapter model None))
      else if ag_vendor rec = ''openai'' then Some (LiteLLM (openai_adapter model None))
      else if ag_vendor rec = ''google'' then Some (LiteLLM (google_adapter model None))
      else None)"

definition reattach_adapters :: "'k node \<Rightarrow> 'k node" where
  "reattach_adapters nd =
     fold (\<lambda>(d, rec) nd. if d \<in> set (nd_adapters nd) then nd
             else (case adapter_from_record rec of None \<Rightarrow> nd | Some a \<Rightarrow> attach_adapter d nd))
       (hh_agents (nd_household nd)) nd"

definition find_agent :: "'k household \<Rightarrow> string \<Rightarrow> agent_record option" where
  "find_agent hh needle =
     find (\<lambda>rec. needle = ag_name rec \<or> needle = ag_did rec \<or> startswith (ag_did rec) needle) (map snd (hh_agents hh))"


subsection \<open>What is recorded of an adapter\<close>

definition tells :: "agent_record \<Rightarrow> adapter_caps \<Rightarrow> bool" where
  "tells rec caps \<longleftrightarrow> ag_vendor rec = ac_vendor caps \<and> ag_model rec = ac_model caps \<and> ag_capabilities rec = ac_capabilities caps
     \<and> ag_context_window rec = ac_context_window caps \<and> ag_locality rec = ac_locality caps \<and> ag_cost_class rec = ac_cost_class caps"

lemma registered_record:
  "node_register_agent L now nnc k nd caps name = (nd', Inr rec) \<Longrightarrow> tells rec caps"
  by (auto simp: tells_def node_register_agent_def hh_register_agent_def Let_def
      split: sum.splits prod.splits bool.splits option.splits if_splits)

lemmas adapter_defs = capabilities_of_def mock_capabilities_def litellm_capabilities_def new_mock_def new_litellm_def
  ollama_adapter_def anthropic_adapter_def openai_adapter_def google_adapter_def custom_adapter_def

lemma rebuilt:
  "tells rec (capabilities_of (Mock (new_mock m))) \<Longrightarrow> m \<noteq> [] \<Longrightarrow> adapter_from_record rec = Some (Mock (new_mock m))"
  "tells rec (capabilities_of (LiteLLM (ollama_adapter m base))) \<Longrightarrow>
     adapter_from_record rec = Some (LiteLLM (ollama_adapter (la_model (ollama_adapter m base)) OLLAMA_BASE))"
  "tells rec (capabilities_of (LiteLLM (anthropic_adapter m key))) \<Longrightarrow> adapter_from_record rec = Some (LiteLLM (anthropic_adapter m None))"
  "tells rec (capabilities_of (LiteLLM (openai_adapter m key))) \<Longrightarrow> adapter_from_record rec = Some (LiteLLM (openai_adapter m None))"
  "tells rec (capabilities_of (LiteLLM (google_adapter m key))) \<Longrightarrow> adapter_from_record rec = Some (LiteLLM (google_adapter m None))"
  "tells rec (capabilities_of (LiteLLM (custom_adapter m base' key))) \<Longrightarrow> adapter_from_record rec = None"
  by (simp_all add: tells_def adapter_from_record_def Let_def adapter_defs or_empty_def truthy_def)

lemma same_profile:
  "capabilities_of (LiteLLM (ollama_adapter (la_model (ollama_adapter m base)) OLLAMA_BASE)) = capabilities_of (LiteLLM (ollama_adapter m base))"
  "capabilities_of (LiteLLM (anthropic_adapter m None)) = capabilities_of (LiteLLM (anthropic_adapter m key))"
  "capabilities_of (LiteLLM (openai_adapter m None)) = capabilities_of (LiteLLM (openai_adapter m key))"
  "capabilities_of (LiteLLM (google_adapter m None)) = capabilities_of (LiteLLM (google_adapter m key))"
  by (simp_all add: adapter_defs)

text \<open>A registration that runs, for the examples.\<close>

lemma demo_registration:
  assumes "name \<noteq> []"
  shows "\<exists>(nd :: bool node) nd' rec. node_register_agent demo_agent_lib 1 ''n'' True nd caps (Some name) = (nd', Inr rec)"
proof -
  let ?spec = "\<lparr>ag_did = [], ag_name = name, ag_vendor = ac_vendor caps, ag_model = ac_model caps,
     ag_capabilities = ac_capabilities caps, ag_context_window = ac_context_window caps, ag_locality = ac_locality caps,
     ag_cost_class = ac_cost_class caps, ag_registered_at = 0, ag_token = None, ag_pid = None\<rparr>"
  from demo_first_registration[of ?spec] obtain h1 h2 rec where
    "hh_register_agent demo_agent_lib 1 ''n'' True h1 ?spec = (h2, Inr rec)" by blast
  then show ?thesis
    using assms by - (rule exI[of _ "demo_node\<lparr>nd_household := h1\<rparr>"], simp add: node_register_agent_def or_empty_def)
qed

text \<open>
  An agent that was registered with a stock adapter is rebuilt after a restart from its record
  alone: the new adapter tells the same vendor, model, capabilities, context window, locality and
  cost class. Only an endpoint of the user's own cannot be rebuilt.
\<close>

theorem rebuilt_adapter_tells_the_same:
  assumes "register_adapter vendor model api_key api_base = Some a"
    and "node_register_agent L now nnc k nd (capabilities_of a) name = (nd', Inr rec)" and "vendor = ''mock'' \<longrightarrow> model \<noteq> []"
  shows "if vendor \<in> {''mock'', ''ollama'', ''anthropic'', ''openai'', ''google''}
     then \<exists>b. adapter_from_record rec = Some b \<and> capabilities_of b = capabilities_of a
     else adapter_from_record rec = None"
proof -
  note t = registered_record[OF assms(2)]
  consider "vendor = ''mock''" | "vendor = ''ollama''" | "vendor = ''anthropic''" | "vendor = ''openai''" | "vendor = ''google''"
    | "vendor \<notin> {''mock'', ''ollama'', ''anthropic'', ''openai'', ''google''}" by blast
  then show ?thesis
  proof cases
    case 1
    with assms(1) have "a = Mock (new_mock model)" by (simp add: register_adapter_def)
    with 1 t assms(3) rebuilt(1) show ?thesis by simp
  next
    case 2
    with assms(1) obtain base where "a = LiteLLM (ollama_adapter model base)" by (auto simp: register_adapter_def)
    with 2 t rebuilt(2) same_profile(1) show ?thesis by simp
  next
    case 3
    with assms(1) have "a = LiteLLM (anthropic_adapter model api_key)" by (simp add: register_adapter_def)
    with 3 t rebuilt(3) same_profile(2) show ?thesis by simp
  next
    case 4
    with assms(1) have "a = LiteLLM (openai_adapter model api_key)" by (simp add: register_adapter_def)
    with 4 t rebuilt(4) same_profile(3) show ?thesis by simp
  next
    case 5
    with assms(1) have "a = LiteLLM (google_adapter model api_key)" by (simp add: register_adapter_def)
    with 5 t rebuilt(5) same_profile(4) show ?thesis by simp
  next
    case 6
    with assms(1) have "a = LiteLLM (custom_adapter model (or_empty api_base) api_key)"
      by (simp add: register_adapter_def split: if_splits)
    with 6 t rebuilt(6) show ?thesis by simp
  qed
qed

theorem rebuilt_adapter_tells_the_same_witness:
  "\<exists>rec b. ag_vendor rec = ''ollama'' \<and> adapter_from_record rec = Some b
     \<and> capabilities_of b = capabilities_of (LiteLLM (ollama_adapter ''qwen3:32b'' OLLAMA_BASE))"
proof -
  let ?a = "LiteLLM (ollama_adapter ''qwen3:32b'' OLLAMA_BASE)"
  obtain nd nd' :: "bool node" and rec where
    r: "node_register_agent demo_agent_lib 1 ''n'' True nd (capabilities_of ?a) (Some ''q'') = (nd', Inr rec)"
    using demo_registration[of "''q''" "capabilities_of ?a"] by auto
  have "register_adapter ''ollama'' ''qwen3:32b'' None None = Some ?a" by (simp add: register_adapter_def truthy_def)
  from rebuilt_adapter_tells_the_same[OF this r] registered_record[OF r] show ?thesis by (auto simp: tells_def adapter_defs truthy_def or_empty_def)
qed

text \<open>
  The endpoint of an Ollama agent does not survive a restart: whatever base URL it was registered
  with, the rebuilt adapter calls the default one on the local machine.
\<close>

theorem ollama_endpoint_is_forgotten:
  assumes "register_adapter ''ollama'' model api_key (Some base) = Some a" and "base \<noteq> []"
    and "node_register_agent L now nnc k nd (capabilities_of a) name = (nd', Inr rec)"
  shows "\<exists>l m. a = LiteLLM l \<and> la_api_base l = Some base \<and> adapter_from_record rec = Some (LiteLLM m)
     \<and> la_api_base m = Some OLLAMA_BASE"
proof -
  have a: "a = LiteLLM (ollama_adapter model base)"
    using assms(1,2) by (simp add: register_adapter_def truthy_def or_empty_def)
  with rebuilt(2) registered_record[OF assms(3)] show ?thesis
    by (simp add: ollama_adapter_def new_litellm_def)
qed

theorem ollama_endpoint_is_forgotten_witness:
  "\<exists>rec m. ag_vendor rec = ''ollama'' \<and> adapter_from_record rec = Some (LiteLLM m) \<and> la_api_base m \<noteq> Some ''http://nas:11434''"
proof -
  let ?a = "LiteLLM (ollama_adapter ''qwen3:32b'' ''http://nas:11434'')"
  obtain nd nd' :: "bool node" and rec where
    r: "node_register_agent demo_agent_lib 1 ''n'' True nd (capabilities_of ?a) (Some ''q'') = (nd', Inr rec)"
    using demo_registration[of "''q''" "capabilities_of ?a"] by auto
  have "register_adapter ''ollama'' ''qwen3:32b'' None (Some ''http://nas:11434'') = Some ?a"
    by (simp add: register_adapter_def truthy_def or_empty_def)
  from ollama_endpoint_is_forgotten[OF this _ r] registered_record[OF r] show ?thesis
    by (auto simp: tells_def adapter_defs truthy_def or_empty_def OLLAMA_BASE_def)
qed

text \<open>
  An endpoint of the user's own counts as local and free wherever it is: an agent registered with
  any base URL passes the filter of a task that may not leave the device and may not cost anything.
\<close>

theorem any_endpoint_counts_as_local:
  assumes "register_adapter ''custom'' model api_key (Some base) = Some a"
    and "node_register_agent L now nnc k nd (capabilities_of a) name = (nd', Inr rec)"
  shows "filter_agents [rec] (invoke_constraints ''text.qa'' LOCAL_ONLY tags ''free'') = Inr [rec]"
proof -
  from assms(1) have "a = LiteLLM (custom_adapter model base api_key)"
    by (auto simp: register_adapter_def or_empty_def split: if_splits)
  then show ?thesis
    using registered_record[OF assms(2)]
    by (simp add: tells_def adapter_defs filter_agents_def cost_index_def COST_ORDER_def invoke_constraints_def agent_passes_def)
qed

theorem any_endpoint_counts_as_local_witness:
  "\<exists>rec. ag_vendor rec = ''openai-compatible''
     \<and> filter_agents [rec] (invoke_constraints ''text.qa'' LOCAL_ONLY None ''free'') = Inr [rec]"
proof -
  let ?a = "LiteLLM (custom_adapter ''llama-3'' ''https://api.example.com/v1'' None)"
  obtain nd nd' :: "bool node" and rec where
    r: "node_register_agent demo_agent_lib 1 ''n'' True nd (capabilities_of ?a) (Some ''q'') = (nd', Inr rec)"
    using demo_registration[of "''q''" "capabilities_of ?a"] by auto
  have "register_adapter ''custom'' ''llama-3'' None (Some ''https://api.example.com/v1'') = Some ?a"
    by (simp add: register_adapter_def truthy_def or_empty_def)
  from any_endpoint_counts_as_local[OF this r, of None] registered_record[OF r] show ?thesis
    by (auto simp: tells_def adapter_defs truthy_def or_empty_def)
qed

end
