(* ===== verification/Mandates.thy ===== *)
theory Mandates
  imports Registry
begin

text \<open>
  \<^verbatim>\<open>load_mandates_from_yaml\<close> of \<^verbatim>\<open>scheduler/router.py\<close>: from the value of the mandate file to the list
  the scheduler is built with. The YAML library is an argument: what it makes of the file. A
  dataclass does not check its fields, so a loaded mandate holds whatever the file says; \<open>as_mandate\<close>
  is the mandate of \<^theory_text>\<open>Router\<close> it is when every field has its declared type. The lemmas show that
  well-typed mandates load as they were written, which files stop the loader, and what a tag
  written without brackets becomes.
\<close>

subsection \<open>Loading\<close>

record raw_weights =
  rw_privacy :: pyval
  rw_capability :: pyval
  rw_latency :: pyval
  rw_cost :: pyval
  rw_health :: pyval

record raw_mandate =
  rm_name :: pyval
  rm_when_tags :: "pyval list"
  rm_when_time :: pyval
  rm_is_default :: bool
  rm_enforce_locality :: pyval
  rm_enforce_cost_class :: pyval
  rm_enforce_max_tokens :: pyval
  rm_scoring_overrides :: "raw_weights option"

text \<open>\<open>list(v)\<close> and \<open>ScoringWeights(**v)\<close>.\<close>

definition py_list :: "pyval \<Rightarrow> pyval list result" where
  "py_list v = (case v of VList xs \<Rightarrow> Inr xs | VStr s \<Rightarrow> Inr (map (\<lambda>c. VStr [c]) s) | VDict d \<Rightarrow> Inr (map VStr (dkeys d))
     | _ \<Rightarrow> Inl (TypeError ''object is not iterable''))"

definition WEIGHT_NAMES :: "string list" where
  "WEIGHT_NAMES = [''privacy'', ''capability'', ''latency'', ''cost'', ''health'']"

definition weights_from :: "pyval \<Rightarrow> raw_weights result" where
  "weights_from v = (case v of
     VDict d \<Rightarrow>
       if list_all (\<lambda>k. k \<in> set WEIGHT_NAMES) (dkeys d)
       then Inr \<lparr>rw_privacy = dgetd d ''privacy'' (VFloat 3), rw_capability = dgetd d ''capability'' (VFloat 2),
                 rw_latency = dgetd d ''latency'' (VFloat 1.5), rw_cost = dgetd d ''cost'' (VFloat 1),
                 rw_health = dgetd d ''health'' (VFloat 1)\<rparr>
       else Inl (TypeError ''got an unexpected keyword argument'')
   | _ \<Rightarrow> Inl (TypeError ''argument after ** must be a mapping''))"

definition overrides_from :: "pyval \<Rightarrow> raw_weights option result" where
  "overrides_from v = (if v = VNone then Inr None else bindE (weights_from v) (\<lambda>w. Inr (Some w)))"

definition mandate_from :: "dict \<Rightarrow> raw_mandate result" where
  "mandate_from d =
     bindE (overrides_from (dgetd d ''scoring_overrides'' VNone)) (\<lambda>scoring. bindE (py_list (dgetd d ''when_tags'' (VList []))) (\<lambda>tags.
          Inr \<lparr>rm_name = dgetd d ''name'' (VStr ''unnamed''), rm_when_tags = tags, rm_when_time = dgetd d ''when_time'' VNone,
               rm_is_default = py_bool (dgetd d ''is_default'' (VBool False)),
               rm_enforce_locality = dgetd d ''enforce_locality'' VNone,
               rm_enforce_cost_class = dgetd d ''enforce_cost_class'' VNone,
               rm_enforce_max_tokens = dgetd d ''enforce_max_tokens'' VNone, rm_scoring_overrides = scoring\<rparr>))"

text \<open>The loop over the entries; what is not a dictionary is skipped.\<close>

fun load_entries :: "pyval list \<Rightarrow> raw_mandate list result" where
  "load_entries [] = Inr []"
| "load_entries (VDict d # es) = bindE (mandate_from d) (\<lambda>m. bindE (load_entries es) (\<lambda>ms. Inr (m # ms)))"
| "load_entries (e # es) = load_entries es"

text \<open>The file: absent, or what \<open>yaml.safe_load\<close> returns or raises.\<close>

definition load_mandates_from_yaml :: "pyval result option \<Rightarrow> raw_mandate list result" where
  "load_mandates_from_yaml file =
     (case file of
        None \<Rightarrow> Inr []
      | Some r \<Rightarrow> bindE r (\<lambda>v. case (if py_bool v then v else VList []) of
            VList es \<Rightarrow> load_entries es
          | _ \<Rightarrow> Inl (ValueError ''must be a YAML list'')))"

subsection \<open>Mandates of the declared types\<close>

definition text_or_none :: "pyval \<Rightarrow> string option option" where
  "text_or_none v = (case v of VNone \<Rightarrow> Some None | VStr s \<Rightarrow> Some (Some s) | _ \<Rightarrow> None)"

definition int_or_none :: "pyval \<Rightarrow> int option option" where
  "int_or_none v = (case v of VNone \<Rightarrow> Some None | VInt i \<Rightarrow> Some (Some i) | _ \<Rightarrow> None)"

definition plain_text :: "pyval \<Rightarrow> string option" where
  "plain_text v = (case v of VStr s \<Rightarrow> Some s | _ \<Rightarrow> None)"

definition number_of :: "pyval \<Rightarrow> real option" where
  "number_of v = (case v of VFloat x \<Rightarrow> Some x | VInt i \<Rightarrow> Some (of_int i) | _ \<Rightarrow> None)"

definition as_weights :: "raw_weights \<Rightarrow> scoring_weights option" where
  "as_weights w =
     (case (number_of (rw_privacy w), number_of (rw_capability w), number_of (rw_latency w), number_of (rw_cost w), number_of (rw_health w)) of
        (Some p, Some c, Some l, Some k, Some h) \<Rightarrow>
          Some \<lparr>w_privacy = p, w_capability = c, w_latency = l, w_cost = k, w_health = h\<rparr>
      | _ \<Rightarrow> None)"

definition as_overrides :: "raw_weights option \<Rightarrow> scoring_weights option option" where
  "as_overrides w = (case w of None \<Rightarrow> Some None | Some x \<Rightarrow> map_option Some (as_weights x))"

definition as_mandate :: "raw_mandate \<Rightarrow> mandate option" where
  "as_mandate r =
     (case (plain_text (rm_name r), those (map plain_text (rm_when_tags r)), text_or_none (rm_when_time r),
            text_or_none (rm_enforce_locality r), text_or_none (rm_enforce_cost_class r),
            int_or_none (rm_enforce_max_tokens r), as_overrides (rm_scoring_overrides r)) of
        (Some n, Some tags, Some tm, Some loc, Some cost, Some mx, Some ws) \<Rightarrow>
          Some \<lparr>md_name = n, md_when_tags = tags, md_when_time = tm, md_is_default = rm_is_default r,
                md_enforce_locality = loc, md_enforce_cost_class = cost, md_enforce_max_tokens = mx,
                md_scoring_overrides = ws\<rparr>
      | _ \<Rightarrow> None)"

text \<open>The entry that spells out a mandate.\<close>

definition weights_entry :: "scoring_weights \<Rightarrow> pyval" where
  "weights_entry w = VDict [(''privacy'', VFloat (w_privacy w)), (''capability'', VFloat (w_capability w)),
     (''latency'', VFloat (w_latency w)), (''cost'', VFloat (w_cost w)), (''health'', VFloat (w_health w))]"

definition text_entry :: "string option \<Rightarrow> pyval" where
  "text_entry x = (case x of None \<Rightarrow> VNone | Some s \<Rightarrow> VStr s)"

definition mandate_entry :: "mandate \<Rightarrow> pyval" where
  "mandate_entry m = VDict
     [(''name'', VStr (md_name m)), (''when_tags'', VList (map VStr (md_when_tags m))),
      (''when_time'', text_entry (md_when_time m)), (''is_default'', VBool (md_is_default m)),
      (''enforce_locality'', text_entry (md_enforce_locality m)), (''enforce_cost_class'', text_entry (md_enforce_cost_class m)),
      (''enforce_max_tokens'', case md_enforce_max_tokens m of None \<Rightarrow> VNone | Some i \<Rightarrow> VInt i),
      (''scoring_overrides'', case md_scoring_overrides m of None \<Rightarrow> VNone | Some w \<Rightarrow> weights_entry w)]"

subsection \<open>Lemmas\<close>

lemma readers_inverse [simp]:
  "plain_text (VStr s) = Some s" "text_or_none (text_entry x) = Some x"
  "int_or_none (case i of None \<Rightarrow> VNone | Some n \<Rightarrow> VInt n) = Some i" "number_of (VFloat y) = Some y"
  by (simp_all add: plain_text_def text_or_none_def text_entry_def int_or_none_def number_of_def split: option.split)

lemma those_texts [simp]: "those (map (plain_text \<circ> VStr) ts) = Some ts"
  by (induction ts) simp_all

lemma those_letters: "those (map plain_text (map (\<lambda>c. VStr [c]) s)) = Some (map (\<lambda>c. [c]) s)"
  by (induction s) simp_all

lemma weights_inverse:
  "\<exists>r. weights_from (weights_entry w) = Inr r \<and> as_weights r = Some w"
  by (simp add: weights_entry_def weights_from_def WEIGHT_NAMES_def dgetd_def as_weights_def)

lemma mandate_from_entry:
  obtains d r where "mandate_entry m = VDict d" "mandate_from d = Inr r" "as_mandate r = Some m"
proof -
  obtain d where d: "mandate_entry m = VDict d" by (simp add: mandate_entry_def)
  obtain sc where sc: "overrides_from (dgetd d ''scoring_overrides'' VNone) = Inr sc"
    "as_overrides sc = Some (md_scoring_overrides m)"
  proof (cases "md_scoring_overrides m")
    case None
    then have "dgetd d ''scoring_overrides'' VNone = VNone" using d by (auto simp: mandate_entry_def dgetd_def)
    with None show ?thesis by (intro that[of None]) (simp_all add: as_overrides_def overrides_from_def)
  next
    case (Some w)
    obtain r where "weights_from (weights_entry w) = Inr r" "as_weights r = Some w" using weights_inverse by blast
    moreover have "dgetd d ''scoring_overrides'' VNone = weights_entry w"
      using d Some by (auto simp: mandate_entry_def dgetd_def)
    ultimately show ?thesis using Some
      by (intro that[of "Some r"]) (simp_all add: as_overrides_def overrides_from_def weights_entry_def)
  qed
  define r where "r = \<lparr>rm_name = VStr (md_name m), rm_when_tags = map VStr (md_when_tags m),
    rm_when_time = text_entry (md_when_time m), rm_is_default = md_is_default m,
    rm_enforce_locality = text_entry (md_enforce_locality m), rm_enforce_cost_class = text_entry (md_enforce_cost_class m),
    rm_enforce_max_tokens = (case md_enforce_max_tokens m of None \<Rightarrow> VNone | Some i \<Rightarrow> VInt i), rm_scoring_overrides = sc\<rparr>"
  have "mandate_from d = Inr r"
    using d unfolding mandate_from_def sc(1)
    by (auto simp: mandate_entry_def dgetd_def py_list_def py_bool_def r_def)
  moreover have "as_mandate r = Some m"
    by (cases m) (simp add: r_def as_mandate_def sc(2))
  ultimately show ?thesis using d that by blast
qed

lemma load_entries_mandates:
  "\<exists>rs. load_entries (map mandate_entry ms) = Inr rs \<and> map as_mandate rs = map Some ms"
proof (induction ms)
  case (Cons m ms)
  obtain d r where "mandate_entry m = VDict d" "mandate_from d = Inr r" "as_mandate r = Some m"
    by (rule mandate_from_entry)
  with Cons show ?case by auto
qed simp

text \<open>The entries the loader stops at.\<close>

definition bad_weights :: "pyval \<Rightarrow> bool" where
  "bad_weights v \<longleftrightarrow> (case v of VNone \<Rightarrow> False | VDict d \<Rightarrow> \<not> set (dkeys d) \<subseteq> set WEIGHT_NAMES | _ \<Rightarrow> True)"

definition bad_tags :: "pyval \<Rightarrow> bool" where
  "bad_tags v \<longleftrightarrow> (case v of VList l \<Rightarrow> False | VStr s \<Rightarrow> False | VDict d \<Rightarrow> False | _ \<Rightarrow> True)"

definition bad_entry :: "pyval \<Rightarrow> bool" where
  "bad_entry e \<longleftrightarrow> (case e of
     VDict d \<Rightarrow> bad_weights (dgetd d ''scoring_overrides'' VNone) \<or> bad_tags (dgetd d ''when_tags'' (VList []))
   | _ \<Rightarrow> False)"

lemma mandate_from_fails: "(\<exists>e. mandate_from d = Inl e) \<longleftrightarrow> bad_entry (VDict d)"
proof -
  have w: "(\<exists>e. overrides_from v = Inl e) \<longleftrightarrow> bad_weights v" for v
    by (cases v) (auto simp: overrides_from_def weights_from_def bad_weights_def list_all_iff)
  have t: "(\<exists>e. py_list v = Inl e) \<longleftrightarrow> bad_tags v" for v
    by (cases v) (simp_all add: py_list_def bad_tags_def)
  have "(\<exists>e. bindE a (\<lambda>s. bindE b (\<lambda>ts. Inr (f s ts))) = Inl e) \<longleftrightarrow> (\<exists>e. a = Inl e) \<or> (\<exists>e. b = Inl e)"
    for a :: "raw_weights option result" and b :: "pyval list result" and f :: "raw_weights option \<Rightarrow> pyval list \<Rightarrow> raw_mandate"
    by (cases a; cases b) simp_all
  then show ?thesis unfolding mandate_from_def bad_entry_def by (simp only: w t pyval.case)
qed

lemma load_entries_fails: "(\<exists>e. load_entries es = Inl e) \<longleftrightarrow> (\<exists>e \<in> set es. bad_entry e)"
proof (induction es rule: load_entries.induct)
  case (2 d es)
  show ?case
    using 2 mandate_from_fails[of d] by (cases "mandate_from d"; cases "load_entries es") auto
qed (simp_all add: bad_entry_def)

subsection \<open>Properties\<close>

text \<open>
  C21: mandates of the declared types load as they were written: the loader returns them in order,
  each with exactly its fields, whatever fields they set.
\<close>

theorem mandates_load_as_written:
  "\<exists>rs. load_mandates_from_yaml (Some (Inr (VList (map mandate_entry ms)))) = Inr rs \<and> map as_mandate rs = map Some ms"
  using load_entries_mandates[of ms] by (cases ms) (simp_all add: load_mandates_from_yaml_def py_bool_def)

text \<open>
  The loader raises exactly when the file holds a value that is neither empty nor a list, or a
  list with an entry whose weights are not a mapping of the five names or whose tags cannot be
  listed (an empty \<open>when_tags:\<close> is null, which cannot): one such entry stops the whole file.
\<close>

theorem one_bad_entry_stops_the_file:
  "(\<exists>e. load_mandates_from_yaml (Some (Inr v)) = Inl e) \<longleftrightarrow>
     (py_bool v \<and> (case v of VList es \<Rightarrow> \<exists>e \<in> set es. bad_entry e | _ \<Rightarrow> True))"
  using load_entries_fails by (cases v) (auto simp: load_mandates_from_yaml_def py_bool_def)

theorem one_bad_entry_stops_the_file_witness:
  "\<exists>e. load_mandates_from_yaml (Some (Inr (VList [VDict [(''name'', VStr ''night'')], VDict [(''when_tags'', VNone)]]))) = Inl e"
  unfolding one_bad_entry_stops_the_file by (simp add: py_bool_def bad_entry_def bad_weights_def bad_tags_def dgetd_def)

text \<open>
  A tag written without brackets is split into its letters, so the mandate says nothing about
  the tasks that carry the tag: with \<open>when_tags: medical\<close> and neither a time nor \<open>is_default\<close>, no
  task without a one-letter tag is changed by it, and a task tagged \<open>medical\<close> is free to leave the
  device.
\<close>

theorem bare_tag_is_ignored:
  assumes "dget d ''when_tags'' = Some (VStr s)" and "dget d ''when_time'' = None" and "dget d ''is_default'' = None"
    and "load_mandates_from_yaml (Some (Inr (VList [VDict d]))) = Inr [r]" and "as_mandate r = Some m"
    and "list_all (\<lambda>t. length t \<noteq> 1) (tc_tags tc)"
  shows "md_when_tags m = map (\<lambda>c. [c]) s \<and> effective now (new_scheduler w [m]) tc = tc"
proof -
  have r: "mandate_from d = Inr r" using assms(4) by (auto simp: load_mandates_from_yaml_def py_bool_def bindE_eq_Inr_iff)
  then have f: "rm_when_tags r = map (\<lambda>c. VStr [c]) s" "rm_when_time r = VNone" "\<not> rm_is_default r"
    using assms(1-3) by (auto simp: mandate_from_def bindE_eq_Inr_iff dgetd_def py_list_def py_bool_def)
  then have m: "md_when_tags m = map (\<lambda>c. [c]) s" "md_when_time m = None" "\<not> md_is_default m"
    using assms(5) unfolding as_mandate_def f(1) those_letters
    by (auto simp: text_or_none_def split: option.splits prod.splits)
  have "t \<notin> set (tc_tags tc)" if "t \<in> set (md_when_tags m)" for t
    using that assms(6) m(1) by (auto simp: list_all_iff)
  then have "\<not> mandate_applies now m tc"
    using m(2,3) by (auto simp: mandate_applies_def truthy_def list_ex_iff)
  then show ?thesis using m(1) by (simp add: effective_def apply_mandates_def new_scheduler_def)
qed

definition demo_bare :: dict where
  "demo_bare = [(''name'', VStr ''sensitive''), (''when_tags'', VStr ''private''), (''enforce_locality'', VStr ''local'')]"

definition demo_bare_mandate :: mandate where
  "demo_bare_mandate = \<lparr>md_name = ''sensitive'', md_when_tags = map (\<lambda>c. [c]) ''private'', md_when_time = None, md_is_default = False,
     md_enforce_locality = Some ''local'', md_enforce_cost_class = None, md_enforce_max_tokens = None, md_scoring_overrides = None\<rparr>"

theorem bare_tag_is_ignored_witness:
  "''private'' \<in> set (tc_tags demo_task) \<and> effective 0 (new_scheduler None [demo_bare_mandate]) demo_task = demo_task
   \<and> (\<exists>v. snd (select_agent 0 (new_scheduler None [demo_bare_mandate]) [demo_cloud] demo_task []) = Inr (Some (demo_cloud, v)))"
proof -
  obtain r where r: "load_mandates_from_yaml (Some (Inr (VList [VDict demo_bare]))) = Inr [r]" "as_mandate r = Some demo_bare_mandate"
    by (simp add: load_mandates_from_yaml_def py_bool_def demo_bare_def mandate_from_def dgetd_def py_list_def as_mandate_def
        overrides_from_def plain_text_def text_or_none_def int_or_none_def as_overrides_def demo_bare_mandate_def)
  have e: "effective 0 (new_scheduler None [demo_bare_mandate]) demo_task = demo_task"
    using bare_tag_is_ignored[where d = demo_bare and s = "''private''" and r = r and m = demo_bare_mandate and tc = demo_task
        and now = 0 and w = None] r by (simp add: demo_bare_def demo_task_def)
  moreover have "filter (allowed demo_task) [demo_cloud] = [demo_cloud]"
    by (simp add: allowed_def demo_task_def demo_cloud_def demo_spec_def cost_le_def COST_ORDER_def)
  ultimately show ?thesis
    unfolding select_agent_eq by (simp add: demo_task_def COST_ORDER_def sorted_pick_def)
qed

end
