(* ===== verification/NodeHandoff.thy ===== *)
theory NodeHandoff
  imports NodeState "HOL-Library.Sublist"
begin

text \<open>
  What a hand-off does to the two devices, and what a received continuation changes: the history of
  a task only ever grows, the receiver holds the messages of the sender, a refused envelope leaves
  the memory alone.
\<close>

subsection \<open>Histories only grow\<close>

definition grows :: "'k node \<Rightarrow> 'k node \<Rightarrow> bool" where
  "grows nd nd' \<longleftrightarrow> (\<forall>t. prefix (history (nd_store nd) t) (history (nd_store nd') t))"

named_theorems grow \<open>steps under which the history of every task grows\<close>

lemma grows_same_store [simp]: "nd_store nd' = nd_store nd \<Longrightarrow> grows nd nd'"
  by (simp add: grows_def)

lemma grows_trans [trans]: "grows a b \<Longrightarrow> grows b c \<Longrightarrow> grows a c"
  unfolding grows_def by (meson prefix_order.trans)

lemma grows_from_store: "nd_store a = nd_store a' \<Longrightarrow> grows a b = grows a' b"
  by (simp add: grows_def)

lemma grows_upd [simp]:
  "grows nd (b\<lparr>nd_scheduler := sc\<rparr>) = grows nd b" "grows nd (b\<lparr>nd_registry := r\<rparr>) = grows nd b"
  "grows nd (b\<lparr>nd_chains := c\<rparr>) = grows nd b" "grows nd (b\<lparr>nd_household := h\<rparr>) = grows nd b"
  "grows nd (emit_event ty tx b) = grows nd b" "grows nd (add_receipt L k rc b) = grows nd b"
  "grows (nd\<lparr>nd_scheduler := sc\<rparr>) b = grows nd b" "grows (nd\<lparr>nd_chains := c\<rparr>) b = grows nd b"
  "grows (emit_event ty tx nd) b = grows nd b" "grows (add_receipt L k rc nd) b = grows nd b"
  by (simp_all add: grows_def emit_event_def add_receipt_def)

lemma andThen_grows [grow]:
  assumes "grows nd (fst p)" and "\<And>x s. grows s (fst (f x s))"
  shows "grows nd (fst (andThen p f))"
  using assms grows_trans[of nd "fst p"] by (cases p) (auto simp: andThen_def split: sum.split)

lemma store_set_logs [simp]: "logs (fst (store_set L now st key v ttl tok)) = logs st"
  by (simp add: store_set_def Let_def tick_def split: sum.split option.split prod.split)

lemma mem_set_grows [grow]: "grows nd (fst (mem_set L now key v tok nd))"
  using store_set_logs[of L now "nd_store nd" key v None tok]
  by (cases "store_set L now (nd_store nd) key v None tok") (auto simp: grows_def mem_set_def history_log get_log_def split: sum.split)

lemma log_append_history:
  "prefix (history st t) (history (fst (log_append L now st key e tok)) t)"
  by (simp add: log_append_def log_add_def history_log get_log_def dgetd_def Let_def split: sum.split)

lemma mem_log_grows [grow]: "grows nd (fst (mem_log L now key b tok nd))"
  using log_append_history[of "nd_store nd" _ L now key "plain_record b" tok]
  by (cases "log_append L now (nd_store nd) key (plain_record b) tok") (auto simp: grows_def mem_log_def split: sum.split)

lemma mem_log_all_grows [grow]: "grows nd (fst (mem_log_all L now key bs tok nd))"
  by (induction bs arbitrary: nd) (auto intro!: grow)

lemma record_exchange_grows [grow]: "grows nd (fst (record_exchange L now t resp ms content tok nd))"
  unfolding record_exchange_def by (intro grow)

lemma invoke_distributed_grows [grow]: "grows nd (fst (invoke_distributed L E M ms cfg sys mt stream nd))"
  unfolding invoke_distributed_def Let_def by (auto intro!: grow split: sum.split)

lemma choose_agent_store [simp]: "nd_store (fst (choose_agent E a tc nd)) = nd_store nd"
  by (auto simp: choose_agent_def split: prod.split sum.split option.split)

lemma invoke_agent_grows [grow]: "grows nd (fst (invoke_agent L E M ms cap sys mt a nd))"
  unfolding invoke_agent_def Let_def by (auto intro!: grow split: sum.split)

lemma invoke_single_grows [grow]: "grows nd (fst (invoke_single L E M ms cap sys a loc tags mc mt nd))"
  unfolding invoke_single_def by (intro andThen_grows grow) simp

lemma node_invoke_grows [grow]:
  "grows nd (fst (node_invoke L E M ms cap sys a loc tags mc mt stream pinned nd))"
proof -
  have "grows nd (fst (case invoke_distributed L E M ms best sys mt stream nd of
      (nd1, Inl (RuntimeError e)) \<Rightarrow> invoke_single L E M ms cap sys a loc tags mc mt nd1 | r \<Rightarrow> r))" for best
    using invoke_distributed_grows[of nd L E M ms best sys mt stream]
    by (auto intro: grows_trans invoke_single_grows split: prod.split sum.split py_error.split)
  then show ?thesis
    by (auto simp: node_invoke_def Let_def intro: invoke_single_grows invoke_distributed_grows split: option.split)
qed

lemma invoke_default_grows [grow]: "grows nd (fst (invoke_default L E M ms cap loc mc nd))"
  unfolding invoke_default_def by (rule node_invoke_grows)


subsection \<open>Receiving a continuation\<close>

lemma resume_continuation_grows:
  "grows nd (fst (resume_continuation L E M cont nd))"
proof -
  have "grows nd (fst (andThen (invoke_default L E M ms cap loc mc nd)
      (\<lambda>r nd'. andThen (mem_log L now key (b r) None nd') (\<lambda>_ nd''. (nd'', Inr r)))))" for ms cap loc mc now key b
    by (intro grow) simp
  then show ?thesis by (simp add: resume_continuation_def Let_def case_prod_beta split: sum.split)
qed

lemma resume_continuation_sends:
  "\<exists>m. snd (resume_continuation L E M cont nd) = ([m], Inr ()) \<and> am_thread m = Some (ct_id cont)"
  by (simp add: resume_continuation_def new_message_def Let_def split: prod.split sum.split)

lemma mem_log_all_history:
  "\<exists>st. mem_log_all L now (history_key t) ds None nd = (nd\<lparr>nd_store := st\<rparr>, Inr ())
     \<and> (\<forall>t'. history st t' = (if t' = t then history (nd_store nd) t @ ds else history (nd_store nd) t'))"
  using mem_log_all_ok[of L now t None ds nd] by (auto simp: check_optional_def)

lemma accepted_history:
  fixes nd :: "'k node"
  assumes "accept_continuation L E M key cont nd = (nd', sent, r)"
  shows "prefix (history (nd_store nd) (ct_task_id cont) @ map message_to_dict (ct_messages cont))
      (history (nd_store nd') (ct_task_id cont))
    \<and> (\<exists>m1 m2. sent = [m1, m2] \<and> am_type m1 = ''aries/v0.1/handoff/ack'' \<and> am_thread m1 = Some (ct_id cont)
         \<and> am_thread m2 = Some (ct_id cont)) \<and> r = Inr ()"
proof -
  define nd0 where "nd0 = emit_event ''handoff_recv'' (''Continuation received from '' @ take 16 (ct_source_device_did cont) @ ''...'') nd"
  obtain st where st: "mem_log_all L (env_now E) (history_key (ct_task_id cont)) (map message_to_dict (ct_messages cont)) None nd0
      = (nd0\<lparr>nd_store := st\<rparr>, Inr ())"
    "history st (ct_task_id cont) = history (nd_store nd0) (ct_task_id cont) @ map message_to_dict (ct_messages cont)"
    using mem_log_all_history[of L "env_now E" "ct_task_id cont" "map message_to_dict (ct_messages cont)" nd0] by auto
  define nd2 where "nd2 = add_receipt L key ((new_receipt E 2 (nd0\<lparr>nd_store := st\<rparr>) (ct_task_id cont) ''handoff_received'')
      \<lparr>rc_continuation_id := Some (ct_id cont), rc_summary := ''from='' @ take 20 (ct_source_device_did cont)\<rparr>)
      (nd0\<lparr>nd_store := st\<rparr>)"
  obtain m2 where m2: "snd (resume_continuation L E M cont nd2) = ([m2], Inr ())" "am_thread m2 = Some (ct_id cont)"
    using resume_continuation_sends[of L E M cont nd2] by blast
  have res: "nd' = fst (resume_continuation L E M cont nd2)"
    "sent = new_message E 3 nd2 ''aries/v0.1/handoff/ack'' (Some (ct_id cont))
       [(''continuation_id'', VStr (ct_id cont)), (''status'', VStr ''received'')] # [m2]" "r = Inr ()"
    using assms[unfolded accept_continuation_def nd0_def[symmetric] st(1) prod.case sum.case Let_def nd2_def[symmetric]] m2(1)
    by (auto split: prod.splits)
  have "history (nd_store nd2) (ct_task_id cont) = history (nd_store nd) (ct_task_id cont) @ map message_to_dict (ct_messages cont)"
    by (simp add: nd2_def add_receipt_def st(2)) (simp add: nd0_def emit_event_def)
  moreover have "prefix (history (nd_store nd2) (ct_task_id cont)) (history (nd_store nd') (ct_task_id cont))"
    using resume_continuation_grows[of nd2 L E M cont] by (simp add: grows_def res(1))
  ultimately show ?thesis using res(2,3) m2(2) by (simp add: new_message_def)
qed

lemma handoff_sent:
  assumes "node_handoff L E reachable task reason target loc caps mc nd = (nd', msgs, Inr cont)"
    and "hh_device_key (nd_household nd) = Some k"
  shows "\<exists>c. cont = continuation_sign L k (self_did nd) c"
    and "am_body (hd msgs) = continuation_to_dict cont" "length msgs = 1"
    and "task_messages (env_now E) task nd = Inr (ct_messages cont)" "ct_task_id cont = task"
    and "nd_store nd' = nd_store nd"
proof -
  have k: "device_keypair nd = Inr k" using assms(2) by (simp add: device_keypair_def)
  show "\<exists>c. cont = continuation_sign L k (self_did nd) c"
    using assms(1) by (auto simp: node_handoff_def k Let_def split: if_splits sum.splits)
  show "am_body (hd msgs) = continuation_to_dict cont" "length msgs = 1" "nd_store nd' = nd_store nd"
    using assms(1)
    by (auto simp: node_handoff_def k Let_def new_message_def add_receipt_def emit_event_def split: if_splits sum.splits)
  show "task_messages (env_now E) task nd = Inr (ct_messages cont)" "ct_task_id cont = task"
    using assms(1)
    by (auto simp: node_handoff_def k Let_def continuation_sign_def build_continuation_def split: if_splits sum.splits)
qed


definition demo_models :: models where
  "demo_models = \<lparr>run_adapter = (\<lambda>a r. Inl (RuntimeError ''offline'')), run_session = (\<lambda>c p s m b. Inl (RuntimeError ''offline''))\<rparr>"

definition demo_question :: chat_message where
  "demo_question = \<lparr>msg_role = ''user'', msg_content = ''hello'', msg_name = None, msg_timestamp = 8\<rparr>"

text \<open>The daemon after a question was logged for the task \<open>t\<close>.\<close>

definition demo_asked :: "bool node" where
  "demo_asked = fst (mem_log_all demo_hh_lib 8 (history_key ''t'') [message_to_dict demo_question] None demo_node)"

lemma demo_asked_fields:
  "hh_device_key (nd_household demo_asked) = Some False" "hh_device_did (nd_household demo_asked) = Some (demo_did False)"
  "history (nd_store demo_asked) ''t'' = [message_to_dict demo_question]"
proof -
  obtain st where st: "mem_log_all demo_hh_lib 8 (history_key ''t'') [message_to_dict demo_question] None demo_node
      = (demo_node\<lparr>nd_store := st\<rparr>, Inr ())" "history st ''t'' = history (nd_store demo_node) ''t'' @ [message_to_dict demo_question]"
    using mem_log_all_history[of demo_hh_lib 8 "''t''" "[message_to_dict demo_question]" demo_node] by auto
  have "history (nd_store demo_node) ''t'' = []"
    by (simp add: demo_node_fields history_log get_log_def load_def dgetd_def)
  with st show "hh_device_key (nd_household demo_asked) = Some False" "hh_device_did (nd_household demo_asked) = Some (demo_did False)"
    "history (nd_store demo_asked) ''t'' = [message_to_dict demo_question]"
    by (simp_all add: demo_asked_def demo_node_fields)
qed

lemma mapE_comp: "mapE f (map g xs) = mapE (\<lambda>x. f (g x)) xs"
  by (induction xs) auto

lemma message_role: "dget (message_to_dict m) ''role'' = Some (VStr (msg_role m))"
  by (simp add: message_to_dict_def Let_def split: option.split)

lemma task_messages_history:
  "task_messages now t nd = mapE (message_from_dict now) (filter (\<lambda>b. dget b ''role'' \<noteq> None) (history (nd_store nd) t))"
  by (simp add: task_messages_def history_def filter_map comp_def mapE_comp)

lemma demo_asked_messages: "task_messages 9 ''t'' demo_asked = Inr [demo_question]"
  by (simp add: task_messages_history demo_asked_fields(3) message_role)

definition demo_sent :: "bool node \<times> aries_message list \<times> continuation result" where
  "demo_sent = node_handoff demo_hh_lib demo_env (\<lambda>d. True) ''t'' demo_rsn (demo_did True) ''any'' None ''paid'' demo_asked"

lemma demo_sent_ok: "\<exists>A' msgs cont. demo_sent = (A', msgs, Inr cont)"
  using demo_asked_messages
  by (simp add: demo_sent_def node_handoff_def demo_env_def device_keypair_def demo_asked_fields Let_def demo_did_def DID_PREFIX_def)


text \<open>
  C29: an envelope whose check fails changes nothing but the receipts: memory, agents, scheduler and
  catalog stay as they were, no model runs, one signed error receipt joins the chain of the task,
  and the sender gets exactly one message, the error.
\<close>

theorem refused_continuation_changes_nothing:
  assumes "continuation_from_dict (env_now E) (take 12 (env_uid E 5)) (am_body msg) = Inr cont"
    and "continuation_verify L cont = Inr False"
    and "hh_device_key (nd_household nd) = Some k" "hh_device_did (nd_household nd) = Some d" "owns L k d"
  shows "\<exists>c r m. handle_continuation L E M msg nd = (nd\<lparr>nd_chains := c\<rparr>, [m], Inr ())
    \<and> (\<forall>t. dget c t = (if t = ct_task_id cont then Some (dgetd (nd_chains nd) t [] @ [r]) else dget (nd_chains nd) t))
    \<and> rc_status r = ''error'' \<and> receipt_verify L r = Inr True
    \<and> am_type m = ''aries/v0.1/agent/error'' \<and> am_thread m = Some (ct_id cont)"
proof -
  define nd1 where "nd1 = nd\<lparr>nd_chains := dset (ct_task_id cont) (dgetd (nd_chains nd) (ct_task_id cont) []) (nd_chains nd)\<rparr>"
  define r0 where "r0 = (new_receipt E 1 nd1 (ct_task_id cont) ''handoff_received'')
      \<lparr>rc_continuation_id := Some (ct_id cont), rc_status := ''error'', rc_summary := ''rejected: bad signature''\<rparr>"
  define chain where "chain = dgetd (nd_chains nd) (ct_task_id cont) []"
  define r where "r = snd (chain_add L chain r0 (Some k) (Some d))"
  have kd: "device_keypair nd = Inr k" "self_did nd1 = d"
    using assms(3,4) by (simp_all add: device_keypair_def nd1_def self_did_def)
  have c: "fst (chain_add L chain r0 (Some k) (Some d)) = chain @ [r]" by (simp add: chain_add_def Let_def r_def)
  have add: "add_receipt L k r0 nd1 = nd\<lparr>nd_chains := dset (ct_task_id cont) (chain @ [r]) (nd_chains nd1)\<rparr>"
  proof -
    have t: "rc_task_id r0 = ct_task_id cont" by (simp add: r0_def new_receipt_def)
    have "dgetd (nd_chains nd1) (ct_task_id cont) [] = chain" by (simp add: nd1_def chain_def dgetd_def)
    then show ?thesis unfolding add_receipt_def kd t by (simp add: c) (simp add: nd1_def)
  qed
  have r: "rc_status r = ''error''" "receipt_verify L r = Inr True"
  proof -
    have "rc_status (receipt_sign L k d x) = rc_status x" for x by (simp add: receipt_sign_def Let_def)
    then show "rc_status r = ''error''" by (simp add: r_def chain_add_def Let_def r0_def)
    show "receipt_verify L r = Inr True"
      using rcpt.verify_sign[OF assms(5)] by (simp add: r_def chain_add_def Let_def)
  qed
  have h: "handle_continuation L E M msg nd = refuse_continuation L E k cont nd1"
    by (simp add: handle_continuation_def assms(1,2) kd nd1_def Let_def)
  show ?thesis
    unfolding h refuse_continuation_def r0_def[symmetric] add Let_def
    by (rule exI, rule exI[of _ r], rule exI, intro conjI, rule refl)
      (use r in \<open>simp_all add: nd1_def chain_def new_message_def dgetd_def\<close>)
qed


theorem refused_continuation_changes_nothing_witness:
  "\<exists>c (r :: receipt) m. handle_continuation demo_hh_lib demo_env demo_models
      (demo_message\<lparr>am_body := continuation_to_dict (demo_continuation\<lparr>ct_signature := None\<rparr>)\<rparr>) demo_node
      = (demo_node\<lparr>nd_chains := c\<rparr>, [m], Inr ()) \<and> am_type m = ''aries/v0.1/agent/error'' \<and> rc_status r = ''error''"
proof -
  have "continuation_verify demo_hh_lib (demo_continuation\<lparr>ct_signature := None\<rparr>) = Inr False"
    by (rule cont.unsigned_refused) simp
  moreover have "continuation_from_dict (env_now demo_env) (take 12 (env_uid demo_env 5))
      (am_body (demo_message\<lparr>am_body := continuation_to_dict (demo_continuation\<lparr>ct_signature := None\<rparr>)\<rparr>))
      = Inr (demo_continuation\<lparr>ct_signature := None\<rparr>)" by (simp add: continuation_roundtrip)
  ultimately show ?thesis
    using refused_continuation_changes_nothing[OF _ _ demo_node_fields(1,2) demo_hh_owns] by blast
qed

subsection \<open>The history over a run\<close>

lemma handle_invoke_grows [grow]: "grows nd (fst (handle_invoke L E M msg nd))"
proof -
  have "grows nd (fst (invoke_default L E M ms c loc mc (emit_event ty tx nd)))" for ms c loc mc ty tx
    using invoke_default_grows[of "emit_event ty tx nd" L E M ms c loc mc] by simp
  then show ?thesis by (auto simp: handle_invoke_def Let_def case_prod_beta split: sum.split)
qed

lemma handle_continuation_grows [grow]: "grows nd (fst (handle_continuation L E M msg nd))"
proof -
  have "grows nd (fst (mem_log_all L now key bs None (emit_event ty tx nd)))" for now key bs ty tx and nd :: "'a node"
    using mem_log_all_grows[of "emit_event ty tx nd"] by simp
  then have "grows nd (fst (accept_continuation L E M k cont nd))" for k cont and nd :: "'a node"
    using resume_continuation_grows[of "add_receipt L k r (fst p)" L E M cont for r p] grows_trans
    by (simp add: accept_continuation_def Let_def case_prod_beta split: sum.split) blast
  from this[of "nd\<lparr>nd_chains := c\<rparr>" for c] show ?thesis
    by (auto simp: handle_continuation_def refuse_continuation_def Let_def split: sum.split)
qed

lemma resume_task_grows [grow]: "grows nd (fst (resume_task L E M task nd))"
  by (auto simp: resume_task_def intro: invoke_default_grows split: sum.split)

lemma same_store_steps [simp]:
  "nd_store (fst (node_register_agent L now n ak nd caps name)) = nd_store nd"
  "nd_store (attach_adapter a nd) = nd_store nd"
  "nd_store (fst (node_handoff L E reachable task r target loc cs mc nd)) = nd_store nd"
  "nd_store (fst (handoff_to_best_peer L E reachable peers task r cs loc mc nd)) = nd_store nd"
  "nd_store (handle_profile_update E msg nd) = nd_store nd"
  "nd_store (fst (handle_capability C E msg p nd)) = nd_store nd"
  "nd_store (fst (link_measured a x y nd)) = nd_store nd" "nd_store (fst (peer_disconnected a nd)) = nd_store nd"
  "nd_store (fst (handle_setup C E msg nd)) = nd_store nd" "nd_store (handle_ready msg nd) = nd_store nd"
  "nd_store (fst (handle_teardown C E msg nd)) = nd_store nd" "nd_store (fst (peer_connected E p nd)) = nd_store nd"
  "nd_store (fst (health_update E h nd)) = nd_store nd"
  by (simp_all add: node_register_agent_def attach_adapter_def node_handoff_def handoff_to_best_peer_def
      handle_profile_update_def handle_capability_def link_measured_def peer_disconnected_def
      handle_setup_def handle_ready_def handle_teardown_def peer_connected_def health_update_def add_receipt_def
      emit_event_def Let_def split: option.split sum.split prod.split pyval.split)

lemma handle_pairing_store [simp]: "nd_store (fst (handle_pairing_request L E n msg nd)) = nd_store nd"
  by (simp add: handle_pairing_request_def Let_def case_prod_beta split: sum.split)

lemma handle_stream_chunk_grows [grow]: "grows nd (fst (handle_stream_chunk L C E msg nd))"
  by (auto simp: handle_stream_chunk_def Let_def intro: mem_log_grows)

lemma finish_stream_grows [grow]: "grows nd (fst (finish_stream L E ms a yielded chunks nd))"
  using record_exchange_grows[of nd L]
  by (simp add: finish_stream_def Let_def case_prod_beta split: sum.split)

lemma stream_agent_grows [grow]: "grows nd (fst (stream_agent L E M ms cap sys a nd))"
  using mem_set_grows[of nd L] finish_stream_grows grows_trans
  by (simp add: stream_agent_def Let_def case_prod_beta split: sum.split option.split) blast

lemma stream_single_grows [grow]: "grows nd (fst (stream_single L E M ms cap sys a tc before nd))"
  using stream_agent_grows[of "fst (choose_agent E a tc nd)" L E M ms cap sys]
  by (simp add: stream_single_def case_prod_beta grows_from_store[of "fst (choose_agent E a tc nd)" nd] split: sum.split)

lemma node_invoke_stream_grows [grow]: "grows nd (fst (node_invoke_stream L E M ms cap sys a loc tags mc nd))"
  by (simp add: node_invoke_stream_def Let_def stream_single_grows split: option.split sum.split py_error.split prod.split)

lemma serve_step_grows: "serve_step L nd nd' \<Longrightarrow> grows nd nd'"
  by (induction rule: serve_step.induct) (auto intro: grow grows_same_store)

text \<open>
  The conversation of a task is append-only: no call of the node and no message of a peer ever
  removes, changes or reorders a message that the history of a task already has.
\<close>

theorem history_is_append_only:
  assumes "node_reach L nd0 nd"
  shows "prefix (history (nd_store nd0) t) (history (nd_store nd) t)"
proof -
  from assms have "grows nd0 nd"
  proof induction
    case reach_started
    show ?case by simp
  qed (auto intro: grows_trans grow grows_same_store serve_step_grows)
  then show ?thesis by (simp add: grows_def)
qed

theorem history_is_append_only_witness:
  "prefix [message_to_dict demo_question] (history (nd_store (fst (resume_task demo_hh_lib demo_env demo_models ''t'' demo_asked))) ''t'')"
  using history_is_append_only[OF reach_served[OF reach_started serve_resume], of demo_asked "''t''" demo_hh_lib demo_env demo_models "''t''"]
  by (simp add: demo_asked_fields)

end
