(* ===== verification/NodePeers.thy ===== *)
theory NodePeers
  imports NodeHandoff
begin

text \<open>
  What a peer can and cannot change by what it reports: capabilities, health, sessions.
\<close>

subsection \<open>Reports of capabilities\<close>

lemma all_models_dget:
  "distinct (dkeys (rg_models r)) \<Longrightarrow> x \<in> set (all_models r) \<longleftrightarrow> (\<exists>n l. dget (rg_models r) n = Some l \<and> x \<in> set l)"
  by (auto simp: all_models_mem dest: dget_Some_mem dget_mem)

lemma register_other:
  assumes "distinct (dkeys (rg_models r))" and "mi_did x \<noteq> mi_did m"
  shows "x \<in> set (all_models (register_no_recompute m r)) \<longleftrightarrow> x \<in> set (all_models r)"
proof -
  let ?r = "register_no_recompute m r"
  have d: "distinct (dkeys (rg_models ?r))" using assms(1) by (simp add: register_no_recompute_def)
  have "dget (rg_models ?r) n = (if n = mi_name m then Some (drop_device (mi_did m) (dgetd (rg_models r) n []) @ [m]) else dget (rg_models r) n)"
    for n by (simp add: register_no_recompute_def)
  moreover have "x \<in> set (drop_device (mi_did m) l @ [m]) \<longleftrightarrow> x \<in> set l" for l
    using assms(2) by (auto simp: drop_device_def)
  ultimately show ?thesis
    unfolding all_models_dget[OF d] all_models_dget[OF assms(1)]
    by (auto simp: dgetd_def split: if_splits option.splits) (metis emptyE empty_set option.exhaust)+
qed

lemma fold_register_other:
  assumes "distinct (dkeys (rg_models r))" and "\<forall>m \<in> set ms. mi_did m = d" and "mi_did x \<noteq> d"
  shows "x \<in> set (all_models (fold register_no_recompute ms r)) \<longleftrightarrow> x \<in> set (all_models r)"
  using assms
proof (induction ms arbitrary: r)
  case (Cons m ms)
  have "distinct (dkeys (rg_models (register_no_recompute m r)))" using Cons.prems(1) by (simp add: register_no_recompute_def)
  with Cons show ?case by (simp add: register_other)
qed simp

lemma compute_configs_keeps:
  "rg_models (fst (compute_configs r)) = rg_models r" "rg_caps (fst (compute_configs r)) = rg_caps r"
  "all_models (fst (compute_configs r)) = all_models r"
  by (simp_all add: compute_configs_def all_models_def split: sum.split)

lemma claim_report_models: "\<forall>m \<in> set (dc_models (claim_report d c)). mi_did m = d"
  by (auto simp: claim_report_def)

lemma update_device_other:
  assumes "distinct (dkeys (rg_models r))"
  shows "d' \<noteq> d \<Longrightarrow> dget (rg_caps (fst (update_device d (claim_report d c) r))) d' = dget (rg_caps r) d'"
    and "mi_did x \<noteq> d \<Longrightarrow> x \<in> set (all_models (fst (update_device d (claim_report d c) r))) \<longleftrightarrow> x \<in> set (all_models r)"
  using fold_register_other[OF _ claim_report_models, of "r\<lparr>rg_caps := k\<rparr>" for k] assms
  by (simp_all add: update_device_def compute_configs_keeps) (simp_all add: all_models_def)

text \<open>The DID a capability message is filed under.\<close>

definition report_sender :: "aries_message \<Rightarrow> peer_info \<Rightarrow> did" where
  "report_sender msg p = (if am_sender msg \<noteq> [] then am_sender msg else pi_did p)"

lemma handle_capability_registry:
  "nd_registry (fst (handle_capability C E msg p nd)) = nd_registry nd
    \<or> (\<exists>c. nd_registry (fst (handle_capability C E msg p nd))
          = fst (update_device (report_sender msg p) (claim_report (report_sender msg p) c) (nd_registry nd)))"
  by (auto simp: handle_capability_def report_sender_def Let_def case_prod_beta emit_event_def
      split: option.split pyval.split sum.split)

subsection \<open>Hostile reports\<close>

lemma mapE_fails: "x \<in> set xs \<Longrightarrow> f x = Inl e \<Longrightarrow> \<exists>e. mapE f xs = Inl e"
proof (induction xs)
  case (Cons y ys)
  then show ?case by (cases "f y") auto
qed simp

lemma worker_configs_fails:
  "(w, cap) \<in> set ws \<Longrightarrow> w \<noteq> mi_did m \<Longrightarrow> mi_size_gb m \<le> usable_memory host + usable_memory cap \<Longrightarrow>
     build_distributed_config host cap m (usable_memory host) (usable_memory cap) = Inl e \<Longrightarrow>
     \<exists>e. worker_configs ws host m = Inl e"
proof (induction ws)
  case (Cons p ws)
  obtain w' c' where p: "p = (w', c')" by (cases p)
  show ?case
  proof (cases "p = (w, cap)")
    case True
    with Cons.prems show ?thesis by simp
  next
    case False
    then obtain e' where "worker_configs ws host m = Inl e'" using Cons by auto
    then show ?thesis
      by (cases "build_distributed_config host c' m (usable_memory host) (usable_memory c')") (auto simp: p)
  qed
qed simp

text \<open>A catalog in which some model makes the computation divide by zero.\<close>

definition poisoned :: "registry \<Rightarrow> did \<Rightarrow> did \<Rightarrow> bool" where
  "poisoned r a w \<longleftrightarrow> a \<noteq> w \<and> (\<exists>m host cap. m \<in> set (all_models r) \<and> mi_did m = a \<and> mi_size_gb m = 0
     \<and> dget (rg_caps r) a = Some host \<and> dget (rg_caps r) w = Some cap \<and> usable_memory host + usable_memory cap = 0)"

lemma poisoned_fails: "poisoned r a w \<Longrightarrow> \<exists>e. compute_configs r = (r, Inl e)"
proof -
  assume "poisoned r a w"
  then obtain m host cap where p: "a \<noteq> w" "m \<in> set (all_models r)" "mi_did m = a" "mi_size_gb m = 0" "dget (rg_caps r) a = Some host"
    "dget (rg_caps r) w = Some cap" "usable_memory host + usable_memory cap = 0" by (auto simp: poisoned_def)
  have "build_distributed_config host cap m (usable_memory host) (usable_memory cap) = Inl (ZeroDivisionError ''float division by zero'')"
    by (simp add: build_distributed_config_def py_div_def p(7))
  then obtain e where "worker_configs (rg_caps r) host m = Inl e"
    using worker_configs_fails[of w cap "rg_caps r" m host] p dget_Some_mem[OF p(6)] by auto
  then have "model_configs (rg_caps r) m = Inl e" using p(3,5) by (simp add: model_configs_def)
  then obtain e' where "mapE (model_configs (rg_caps r)) (all_models r) = Inl e'"
    using mapE_fails[OF p(2), of "model_configs (rg_caps r)"] by blast
  then show ?thesis by (simp add: compute_configs_def)
qed

lemma poisoned_update:
  assumes "poisoned r a w" and "distinct (dkeys (rg_models r))" and "d \<noteq> a" "d \<noteq> w"
  shows "poisoned (fst (update_device d (claim_report d c) r)) a w"
    and "\<exists>e. snd (update_device d (claim_report d c) r) = Inl e"
    and "rg_configs (fst (update_device d (claim_report d c) r)) = rg_configs r"
proof -
  let ?r = "fold register_no_recompute (dc_models (claim_report d c)) (r\<lparr>rg_caps := dset d (claim_report d c) (rg_caps r)\<rparr>)"
  have m: "x \<in> set (all_models ?r) \<longleftrightarrow> x \<in> set (all_models r)" if "mi_did x = a" for x
    using fold_register_other[OF _ claim_report_models, of "r\<lparr>rg_caps := dset d (claim_report d c) (rg_caps r)\<rparr>" x] that assms(2,3)
    by (simp add: all_models_def)
  have "poisoned ?r a w" using assms(1,3,4) m by (auto simp: poisoned_def)
  from poisoned_fails[OF this] obtain e where e: "compute_configs ?r = (?r, Inl e)" by blast
  have "rg_configs (fold register_no_recompute ms r') = rg_configs r'" for ms r'
    by (induction ms arbitrary: r') (auto simp: register_no_recompute_def)
  then show "poisoned (fst (update_device d (claim_report d c) r)) a w"
    "\<exists>e. snd (update_device d (claim_report d c) r) = Inl e"
    "rg_configs (fst (update_device d (claim_report d c) r)) = rg_configs r"
    using \<open>poisoned ?r a w\<close> by (simp_all add: update_device_def e)
qed

lemma update_device_distinct:
  assumes "distinct (dkeys (rg_models r))"
  shows "distinct (dkeys (rg_models (fst (update_device d c r))))"
proof -
  have "distinct (dkeys (rg_models (fold register_no_recompute ms r)))" if "distinct (dkeys (rg_models r))" for ms r
    using that by (induction ms arbitrary: r) (auto simp: register_no_recompute_def)
  with assms show ?thesis by (simp add: update_device_def compute_configs_keeps)
qed


lemma poisoning:
  assumes "distinct (dkeys (rg_models r))" and "dget (rg_caps r) w = Some cap" "a \<noteq> w"
    and "\<not> dc_has_gpu c" "dc_ram_available c = - usable_memory cap" "dc_models c = [m]" "mi_size_gb m = 0"
  shows "poisoned (fst (update_device a (claim_report a c) r)) a w"
    and "\<exists>e. snd (update_device a (claim_report a c) r) = Inl e"
    and "rg_configs (fst (update_device a (claim_report a c) r)) = rg_configs r"
proof -
  define m' where "m' = m\<lparr>mi_did := a\<rparr>"
  define r0 where "r0 = r\<lparr>rg_caps := dset a (claim_report a c) (rg_caps r)\<rparr>"
  have ms: "dc_models (claim_report a c) = [m']" by (simp add: claim_report_def assms(6) m'_def)
  have dist: "distinct (dkeys (rg_models (register_no_recompute m' r0)))"
    using assms(1) by (simp add: register_no_recompute_def r0_def)
  have "m' \<in> set (all_models (register_no_recompute m' r0))"
    unfolding all_models_dget[OF dist] by (intro exI[of _ "mi_name m'"]) (simp add: register_no_recompute_def)
  moreover have "usable_memory (claim_report a c) = - usable_memory cap"
    using assms(4,5) by (simp add: usable_memory_def claim_report_def)
  ultimately have p: "poisoned (register_no_recompute m' r0) a w"
    using assms(2,3,7)
    by (auto simp: poisoned_def register_no_recompute_def r0_def m'_def intro!: bexI[of _ m'] exI[of _ m'])
  from poisoned_fails[OF this] obtain e where "compute_configs (register_no_recompute m' r0) = (register_no_recompute m' r0, Inl e)" by blast
  then have "update_device a (claim_report a c) r = (register_no_recompute m' r0, Inl e)"
    by (simp add: update_device_def ms r0_def)
  with p show "poisoned (fst (update_device a (claim_report a c) r)) a w" "\<exists>e. snd (update_device a (claim_report a c) r) = Inl e"
    "rg_configs (fst (update_device a (claim_report a c) r)) = rg_configs r"
    by (simp_all add: register_no_recompute_def r0_def)
qed

text \<open>A run of capability messages.\<close>

definition receive_reports :: "conversions \<Rightarrow> env \<Rightarrow> (aries_message \<times> peer_info) list \<Rightarrow> 'k node \<Rightarrow> 'k node" where
  "receive_reports C E = fold (\<lambda>(msg, p) nd. fst (handle_capability C E msg p nd))"

lemma poisoned_receive:
  assumes "poisoned (nd_registry nd) a w" and "distinct (dkeys (rg_models (nd_registry nd)))"
    and "\<forall>(msg, p) \<in> set later. report_sender msg p \<noteq> a \<and> report_sender msg p \<noteq> w"
  shows "rg_configs (nd_registry (receive_reports C E later nd)) = rg_configs (nd_registry nd)"
  using assms
proof (induction later arbitrary: nd)
  case Nil
  show ?case by (simp add: receive_reports_def)
next
  case (Cons x later)
  obtain msg p where x: "x = (msg, p)" by (cases x)
  let ?nd = "fst (handle_capability C E msg p nd)"
  have ne: "report_sender msg p \<noteq> a" "report_sender msg p \<noteq> w" using Cons.prems(3) by (simp_all add: x)
  consider "nd_registry ?nd = nd_registry nd"
    | c where "nd_registry ?nd = fst (update_device (report_sender msg p) (claim_report (report_sender msg p) c) (nd_registry nd))"
    using handle_capability_registry[of C E msg p nd] by blast
  then have "poisoned (nd_registry ?nd) a w \<and> distinct (dkeys (rg_models (nd_registry ?nd)))
    \<and> rg_configs (nd_registry ?nd) = rg_configs (nd_registry nd)"
    using Cons.prems(1,2) by cases (simp_all add: poisoned_update[OF Cons.prems(1,2) ne] update_device_distinct)
  with Cons show ?case by (simp add: receive_reports_def x)
qed


subsection \<open>Sound reports\<close>

lemma handle_sound_report:
  assumes "registry_reach (nd_registry nd)" and "report_ok d (claim_report d c)" and "d \<noteq> []"
    and "dget (am_body msg) ''capability'' = Some (VDict (capability_report c))" "am_sender msg = d"
  shows "\<exists>nd'. handle_capability C E msg p nd
      = (nd', if py_bool (dgetd (am_body msg) ''reply'' VNone)
              then (case capability_message E 0 False nd' of None \<Rightarrow> [] | Some m \<Rightarrow> [m]) else [], Inr ())
    \<and> dget (rg_caps (nd_registry nd')) d = Some (claim_report d c) \<and> nd_local_cap nd' = nd_local_cap nd
    \<and> self_did nd' = self_did nd"
proof -
  have "catalog_ok (nd_registry nd)" using registry_in_sync[OF assms(1)] by (simp add: in_sync_def)
  from compute_configs_in_sync[OF update_catalog[OF this assms(2)]]
  obtain reg where reg: "update_device d (claim_report d c) (nd_registry nd) = (reg, Inr ())"
    "rg_caps reg = dset d (claim_report d c) (rg_caps (nd_registry nd))"
    by (cases "update_device d (claim_report d c) (nd_registry nd)") (auto simp: update_device_def)
  show ?thesis
    using assms(3-5) reg
    by (simp add: handle_capability_def report_roundtrip Let_def emit_event_def self_did_def capability_message_def)
qed

subsection \<open>Health\<close>

definition health_body :: "device_health \<Rightarrow> dict" where
  "health_body h =
     [(''device_did'', VStr (dh_device_did h)), (''cpu_percent'', VFloat (dh_cpu_percent h)),
      (''ram_available_gb'', VFloat (dh_ram_available_gb h)), (''ram_total_gb'', VFloat (dh_ram_total_gb h)),
      (''gpu_utilization'', VFloat (dh_gpu_utilization h)), (''vram_available_gb'', VFloat (dh_vram_available_gb h)),
      (''battery_pct'', opt_float (dh_battery_pct h)), (''charging'', VBool (dh_charging h)),
      (''thermal'', VStr (dh_thermal h)), (''network_type'', VStr (dh_network_type h)),
      (''bandwidth_mbps'', VFloat (dh_bandwidth_mbps h)), (''last_updated'', VFloat (dh_last_updated h))]"

lemma health_roundtrip: "health_of_dict now (health_body h) = Inr h"
  by (simp add: health_of_dict_def health_body_def keyword_def keyword_or_def as_str_def as_float_def as_bool_def raise_if_def)

subsection \<open>Concrete daemons and messages\<close>

definition demo_conversions :: conversions where
  "demo_conversions = \<lparr>float_of_text = (\<lambda>s. Inl (ValueError s)), text_of = (\<lambda>v. [])\<rparr>"

definition demo_other :: peer_info where
  "demo_other = \<lparr>pi_did = [], pi_name = ''c'', pi_host = ''10.0.0.3'', pi_port = 1, pi_tag = [],
     pi_capabilities = [], pi_last_seen = 0, pi_latency = None\<rparr>"

text \<open>The daemon with the catalog of the two devices.\<close>

definition demo_catalog :: "bool node" where
  "demo_catalog = demo_node\<lparr>nd_registry := demo_registry\<rparr>"

lemma demo_catalog_names: "distinct (dkeys (rg_models (nd_registry demo_catalog)))"
  by (simp add: demo_catalog_def demo_registry_fields)

definition demo_hostile :: device_capability where
  "demo_hostile = demo_report ''did:key:b'' (- 8) [demo_model\<lparr>mi_size_gb := 0\<rparr>]"

definition demo_capability_message :: "did \<Rightarrow> device_capability \<Rightarrow> aries_message" where
  "demo_capability_message d c = demo_message\<lparr>am_sender := d, am_body := [(''capability'', VDict (capability_report c)), (''reply'', VBool True)]\<rparr>"


text \<open>Two daemons that know their own capability.\<close>

definition demo_worker :: "bool node" where
  "demo_worker = demo_node\<lparr>nd_registry := new_registry None, nd_local_cap := Some ((demo_report (demo_did False) 8 [])\<lparr>dc_rpc_server_path := Some ''/bin/rpc-server''\<rparr>)\<rparr>"

lemma demo_worker_fields: "self_did demo_worker = demo_did False" "nd_registry demo_worker = new_registry None"
  "nd_local_cap demo_worker = Some ((demo_report (demo_did False) 8 [])\<lparr>dc_rpc_server_path := Some ''/bin/rpc-server''\<rparr>)"
  by (simp_all add: demo_worker_def self_did_def demo_node_fields)

lemma demo_worker_rest: "nd_rpc demo_node = []" "nd_ended demo_node = []"
proof -
  have "nd_rpc nd = [] \<and> nd_ended nd = []" if "node_start L now hh mandates f probe = (hh1, Inr nd)" for L :: "bool key_lib" and now hh mandates f probe hh1 nd
    using that by (auto simp: node_start_def Let_def split: prod.splits sum.splits)
  then show "nd_rpc demo_node = []" "nd_ended demo_node = []" using demo_node_start by blast+
qed

subsection \<open>Properties\<close>

text \<open>
  C34: the report of a peer is filed under the sender that the transport authenticated, whatever
  device it names itself: it changes the capability and the models of no other device.
\<close>

theorem capability_report_stays_with_sender:
  assumes "distinct (dkeys (rg_models (nd_registry nd)))" and "handle_capability C E msg p nd = (nd', sent, r)"
  shows "(\<forall>d. d \<noteq> report_sender msg p \<longrightarrow> dget (rg_caps (nd_registry nd')) d = dget (rg_caps (nd_registry nd)) d)
    \<and> (\<forall>m. mi_did m \<noteq> report_sender msg p \<longrightarrow>
         (m \<in> set (all_models (nd_registry nd')) \<longleftrightarrow> m \<in> set (all_models (nd_registry nd))))"
  using handle_capability_registry[of C E msg p nd] update_device_other[OF assms(1)] assms(2) by auto

theorem capability_report_stays_with_sender_witness:
  "dget (rg_caps (nd_registry (fst (handle_capability demo_conversions demo_env
      (demo_capability_message ''did:key:b'' (demo_report ''did:key:a'' 99 [])) demo_other demo_catalog)))) ''did:key:a''
     = Some (demo_report ''did:key:a'' 8 [demo_model])"
proof -
  let ?h = "handle_capability demo_conversions demo_env (demo_capability_message ''did:key:b'' (demo_report ''did:key:a'' 99 [])) demo_other demo_catalog"
  have "?h = (fst ?h, fst (snd ?h), snd (snd ?h))" by simp
  from capability_report_stays_with_sender[OF demo_catalog_names this]
  show ?thesis by (simp add: report_sender_def demo_capability_message_def demo_catalog_def demo_registry_fields)
qed

text \<open>
  One hostile report freezes the catalog: a peer that reports a model of size zero and minus the
  memory of a known device makes the computation of the configurations divide by zero; its
  message raises, the offered configurations stay as they were, and no later report of other
  peers changes them any more.
\<close>

theorem hostile_report_freezes_catalog:
  assumes "distinct (dkeys (rg_models (nd_registry nd)))" and "dget (rg_caps (nd_registry nd)) w = Some cap" "a \<noteq> w" "a \<noteq> []"
    and "\<not> dc_has_gpu c" "dc_ram_available c = - usable_memory cap" "dc_models c = [m]" "mi_size_gb m = 0"
    and "am_sender msg = a" "dget (am_body msg) ''capability'' = Some (VDict (capability_report c))"
    and "\<forall>(msg', p) \<in> set later. report_sender msg' p \<noteq> a \<and> report_sender msg' p \<noteq> w"
  shows "\<exists>nd1 e. handle_capability C E msg p nd = (nd1, [], Inl e)
    \<and> rg_configs (nd_registry (receive_reports C E later nd1)) = rg_configs (nd_registry nd)"
proof -
  note p = poisoning[OF assms(1-3,5-8)]
  obtain reg e where u: "update_device a (claim_report a c) (nd_registry nd) = (reg, Inl e)"
    using p(2) by (metis prod.collapse)
  have "handle_capability C E msg p nd = (nd\<lparr>nd_registry := reg\<rparr>, [], Inl e)"
    using assms(4,9,10) by (simp add: handle_capability_def report_roundtrip Let_def u)
  moreover have "rg_configs (nd_registry (receive_reports C E later (nd\<lparr>nd_registry := reg\<rparr>))) = rg_configs (nd_registry nd)"
    using poisoned_receive[of "nd\<lparr>nd_registry := reg\<rparr>" a w later C E] p(1,3) u update_device_distinct[OF assms(1), of a "claim_report a c"]
      assms(11) by simp
  ultimately show ?thesis by blast
qed

theorem hostile_report_freezes_catalog_witness:
  "\<exists>nd1 e. handle_capability demo_conversions demo_env (demo_capability_message ''did:key:c'' demo_hostile) demo_other demo_catalog = (nd1, [], Inl e)
    \<and> rg_configs (nd_registry (receive_reports demo_conversions demo_env
         [(demo_capability_message ''did:key:b'' (demo_report ''did:key:b'' 64 []), demo_other)] nd1)) = rg_configs demo_registry"
proof -
  have c: "nd_registry demo_catalog = demo_registry" by (simp add: demo_catalog_def)
  have w: "dget (rg_caps (nd_registry demo_catalog)) ''did:key:a'' = Some (demo_report ''did:key:a'' 8 [demo_model])"
    by (simp add: c demo_registry_fields)
  have h: "\<not> dc_has_gpu demo_hostile" "dc_ram_available demo_hostile = - usable_memory (demo_report ''did:key:a'' 8 [demo_model])"
    "dc_models demo_hostile = [demo_model\<lparr>mi_size_gb := 0\<rparr>]" "mi_size_gb (demo_model\<lparr>mi_size_gb := 0\<rparr>) = 0"
    by (simp_all add: demo_hostile_def) (simp_all add: demo_report_def)
  have m: "am_sender (demo_capability_message ''did:key:c'' demo_hostile) = ''did:key:c''"
    "dget (am_body (demo_capability_message ''did:key:c'' demo_hostile)) ''capability'' = Some (VDict (capability_report demo_hostile))"
    by (simp_all add: demo_capability_message_def)
  have l: "\<forall>(msg', p) \<in> set [(demo_capability_message ''did:key:b'' (demo_report ''did:key:b'' 64 []), demo_other)].
      report_sender msg' p \<noteq> ''did:key:c'' \<and> report_sender msg' p \<noteq> ''did:key:a''"
    by (simp add: report_sender_def demo_capability_message_def)
  from hostile_report_freezes_catalog[OF demo_catalog_names w _ _ h m l] show ?thesis by (simp add: c)
qed



text \<open>
  A profile update is believed about any device: whoever sends it, the scheduler takes the
  health record it spells out for the device it names, this one included, and scores agents
  with it.
\<close>

theorem peer_reports_any_health:
  "dget (sc_health (nd_scheduler (handle_profile_update E (msg\<lparr>am_sender := anyone, am_body := health_body h\<rparr>) nd))) (dh_device_did h)
     = Some h"
  by (simp add: handle_profile_update_def health_roundtrip update_device_health_def)

text \<open>
  Two sessions under one identifier leave a process behind: the second setup replaces the entry
  of the first, so the teardown ends the second rpc-server only, and no later message can end
  the first.
\<close>

theorem session_collision_leaks_process:
  assumes "nd_local_cap nd = Some c" "dc_rpc_server_path c = Some path" "path \<noteq> []"
    and "\<forall>m \<in> {m1, m2, m3}. to_text C (dgetd (am_body m) ''session_id'' (VStr '''')) = s"
    and "as_int (dgetd (am_body m1) ''port'' (VInt 50052)) = Inr p1" "env_spawn E1 path p1 = Inr pid1"
    and "as_int (dgetd (am_body m2) ''port'' (VInt 50052)) = Inr p2" "env_spawn E2 path p2 = Inr pid2"
    and "pid1 \<noteq> pid2" "pid1 \<notin> set (nd_ended nd)" "\<forall>k. dget (nd_rpc nd) k \<noteq> Some pid1"
  shows "\<exists>nd1 nd2 nd3 out1 out2 out3. handle_setup C E1 m1 nd = (nd1, out1, Inr ()) \<and> handle_setup C E2 m2 nd1 = (nd2, out2, Inr ())
    \<and> handle_teardown C E3 m3 nd2 = (nd3, out3, Inr ())
    \<and> nd_ended nd3 = nd_ended nd @ [pid2] \<and> pid1 \<notin> set (nd_ended nd3) \<and> (\<forall>k. dget (nd_rpc nd3) k \<noteq> Some pid1)"
proof -
  let ?nd1 = "nd\<lparr>nd_rpc := dset s pid1 (nd_rpc nd)\<rparr>"
  let ?nd2 = "nd\<lparr>nd_rpc := dset s pid2 (dset s pid1 (nd_rpc nd))\<rparr>"
  have s: "to_text C (dgetd (am_body m1) ''session_id'' (VStr '''')) = s" "to_text C (dgetd (am_body m2) ''session_id'' (VStr '''')) = s"
    "to_text C (dgetd (am_body m3) ''session_id'' (VStr '''')) = s" using assms(4) by simp_all
  obtain out1 where 1: "handle_setup C E1 m1 nd = (?nd1, out1, Inr ())"
    using assms(3) by (simp add: handle_setup_def s(1) assms Let_def)
  obtain out2 where 2: "handle_setup C E2 m2 ?nd1 = (?nd2, out2, Inr ())"
    using assms(3) by (simp add: handle_setup_def s(2) assms Let_def)
  obtain nd3 out3 where 3: "handle_teardown C E3 m3 ?nd2 = (nd3, out3, Inr ())"
    and f: "nd3 = ?nd2\<lparr>nd_rpc := dpop s (nd_rpc ?nd2), nd_ended := nd_ended nd @ [pid2]\<rparr>"
    by (simp add: handle_teardown_def s(3) Let_def)
  have "nd_ended nd3 = nd_ended nd @ [pid2]" "\<forall>k. dget (nd_rpc nd3) k \<noteq> Some pid1"
    using assms(9,11) by (simp_all add: f)
  with 1 2 3 assms(9,10) show ?thesis by (intro exI[of _ ?nd1] exI[of _ ?nd2] exI[of _ nd3]) simp
qed

theorem session_collision_leaks_process_witness:
  "\<exists>nd1 nd2 nd3 out1 out2 out3. handle_setup demo_conversions demo_env demo_message demo_worker = (nd1, out1, Inr ())
    \<and> handle_setup demo_conversions (demo_env\<lparr>env_spawn := \<lambda>p port. Inr 8\<rparr>) demo_message nd1 = (nd2, out2, Inr ())
    \<and> handle_teardown demo_conversions demo_env demo_message nd2 = (nd3, out3, Inr ()) \<and> nd_ended nd3 = [8]"
proof -
  let ?E2 = "demo_env\<lparr>env_spawn := \<lambda>p port. Inr 8\<rparr>"
  have path: "dc_rpc_server_path ((demo_report (demo_did False) 8 [])\<lparr>dc_rpc_server_path := Some ''/bin/rpc-server''\<rparr>) = Some ''/bin/rpc-server''"
    by simp
  have s: "\<forall>m \<in> {demo_message, demo_message, demo_message}. to_text demo_conversions (dgetd (am_body m) ''session_id'' (VStr '''')) = []"
    by (simp add: demo_message_def to_text_def dgetd_def)
  have p: "as_int (dgetd (am_body demo_message) ''port'' (VInt 50052)) = Inr 50052"
    by (simp add: demo_message_def dgetd_def as_int_def)
  have sp: "env_spawn demo_env ''/bin/rpc-server'' 50052 = Inr 7" "env_spawn ?E2 ''/bin/rpc-server'' 50052 = Inr 8"
    by (simp_all add: demo_env_def)
  have e: "nd_ended demo_worker = []" "\<forall>k. dget (nd_rpc demo_worker) k \<noteq> Some 7" "(7 :: nat) \<notin> set (nd_ended demo_worker)"
    by (simp_all add: demo_worker_def demo_worker_rest)
  from session_collision_leaks_process[OF demo_worker_fields(3) path _ s p sp(1) p sp(2) _ e(3,2), of demo_env] show ?thesis
    by (simp add: e(1)) blast
qed

end
