(* ===== verification/NodeInvoke.thy ===== *)
theory NodeInvoke
  imports NodeHandoff
begin

text \<open>
  What an invocation leaves behind: the request, the response and the conversation in the shared
  memory, and one signed receipt that commits to both texts; and which configuration the node
  takes when it may use the devices of its peers.
\<close>

subsection \<open>The token of a registered agent opens the records of tasks\<close>

lemma context_covers: "covers (normalize_key ''aries:context://*'') (canonical_key CONTEXT path)"
  using normalize_canonical[of CONTEXT "''*''"] by (simp add: canonical_key_prefix covers_def suffix_def)

lemma agent_token_permits:
  assumes "json_ok L jwt_header" "json_ok L (payload (agent_token t1 n dd ad agent_caps ttl parent cavs))"
  shows "check_optional L now (canonical_key CONTEXT path) (Some (build_agent_token L t1 n dk dd ad agent_caps ttl parent cavs)) = Inr ()"
proof -
  let ?t = "agent_token t1 n dd ad agent_caps ttl parent cavs"
  have "ucan_caps (fst (sign_token L dk ?t)) = agent_caps" by (simp add: sign_token_def Let_def agent_token_def)
  then have "\<lparr>resource = ''aries:context://*'', ability = ''aries/context.write''\<rparr> \<in> set (ucan_caps (fst (sign_token L dk ?t)))"
    by (simp add: agent_caps_def)
  with context_covers decode_signed[OF assms] show ?thesis
    unfolding check_optional_def build_agent_token_def option.case check_write_Inr_iff
    by (intro exI[of _ "fst (sign_token L dk ?t)"] exI[of _ "\<lparr>resource = ''aries:context://*'', ability = ''aries/context.write''\<rparr>"])
      (simp add: WRITE_ABILITY_def)
qed

subsection \<open>The records of an invocation\<close>

lemma check_task_keys:
  assumes "\<And>path. check_optional L now (canonical_key CONTEXT path) tok = Inr ()"
  shows "check_optional L now (request_key t) tok = Inr ()" "check_optional L now (response_key t) tok = Inr ()"
    "check_optional L now (history_key t) tok = Inr ()"
  unfolding task_keys by (rule assms)+

text \<open>The values that an invocation stores under the request and the response key.\<close>

definition request_value :: "chat_message list \<Rightarrow> string \<Rightarrow> pyval" where
  "request_value ms capability =
     VDict [(''messages'', VList (map (\<lambda>m. VDict (message_to_dict m)) ms)), (''capability'', VStr capability)]"

definition response_value :: "invoke_response \<Rightarrow> pyval" where
  "response_value resp = VDict [(''content'', VStr (rs_content resp)), (''model'', VStr (rs_model resp)), (''usage'', usage_dict resp)]"

lemma request_recorded:
  assumes "store_inv (nd_store nd)" "check_optional L now (request_key t) tok = Inr ()" "v \<noteq> VNone"
  obtains st where "mem_set L now (request_key t) v tok nd = (nd\<lparr>nd_store := st\<rparr>, Inr ())" "store_inv st"
    "view now st = (view now (nd_store nd))(request_key t \<mapsto> v)" "logs st = logs (nd_store nd)"
proof (rule mem_set_ok[OF assms(1), of "request_key t" CONTEXT _ L now tok v])
  show "from_key (request_key t) = Inr (CONTEXT, ''tasks/'' @ t @ ''/request'')" by (simp add: task_keys)
  show "normalize_key (request_key t) = request_key t" by (simp add: task_keys)
qed (use assms that in simp_all)

text \<open>A receipt added to a chain: the chain grows by one, signed with the device key.\<close>

lemma receipt_added:
  assumes "self_did nd' = self_did nd" "nd_chains nd' = nd_chains nd"
  obtains r where "add_receipt L k r0 nd' = nd'\<lparr>nd_chains := dset (rc_task_id r0) (dgetd (nd_chains nd) (rc_task_id r0) [] @ [r]) (nd_chains nd)\<rparr>"
    "rc_agent_did r = rc_agent_did r0" "rc_input_hash r = rc_input_hash r0" "rc_output_hash r = rc_output_hash r0"
    "owns L k (self_did nd) \<Longrightarrow> receipt_verify L r = Inr True"
proof
  let ?r = "snd (chain_add L (dgetd (nd_chains nd) (rc_task_id r0) []) r0 (Some k) (Some (self_did nd)))"
  show "add_receipt L k r0 nd' = nd'\<lparr>nd_chains := dset (rc_task_id r0) (dgetd (nd_chains nd) (rc_task_id r0) [] @ [?r]) (nd_chains nd)\<rparr>"
    by (simp add: add_receipt_def assms chain_add_def Let_def)
  show "rc_agent_did ?r = rc_agent_did r0" "rc_input_hash ?r = rc_input_hash r0" "rc_output_hash ?r = rc_output_hash r0"
    by (simp_all add: chain_add_def Let_def receipt_sign_def)
  show "receipt_verify L ?r = Inr True" if "owns L k (self_did nd)"
    using rcpt.verify_sign[OF that] by (simp add: chain_add_def Let_def)
qed

lemma invoke_agent_runs:
  assumes inv: "store_inv (nd_store nd)" and tok: "\<And>path. check_optional L (env_now E) (canonical_key CONTEXT path) (ag_token a) = Inr ()"
    and live: "ag_did a \<in> set (nd_adapters nd)" and key: "hh_device_key (nd_household nd) = Some k"
    and run: "run_adapter M (ag_did a) \<lparr>rq_messages = ms, rq_system_prompt = sys, rq_max_tokens = mt,
        rq_temperature = 0.7, rq_stop_sequences = [], rq_stream = False, rq_metadata = []\<rparr> = Inr resp"
    and t: "t = ''task_'' @ take 12 (env_uid E 0)"
  shows "\<exists>st r. invoke_agent L E M ms capability sys mt a nd
      = (nd\<lparr>nd_store := st, nd_chains := dset t (dgetd (nd_chains nd) t [] @ [r]) (nd_chains nd)\<rparr>,
         Inr (resp\<lparr>rs_metadata := dset ''task_id'' (VStr t) (rs_metadata resp)\<rparr>))
    \<and> store_inv st
    \<and> view (env_now E) st = (view (env_now E) (nd_store nd))(request_key t \<mapsto> request_value ms capability,
         response_key t \<mapsto> response_value resp)
    \<and> (\<forall>t'. history st t' = history (nd_store nd) t'
         @ (if t' = t then map message_to_dict (ms @ [assistant_message (env_now E) (rs_content resp)]) else []))
    \<and> rc_agent_did r = ag_did a \<and> rc_input_hash r = hash_messages L ms \<and> rc_output_hash r = hash_text L (rs_content resp)
    \<and> (owns L k (self_did nd) \<longrightarrow> receipt_verify L r = Inr True)"
proof -
  note tk = check_task_keys[OF tok]
  obtain st1 where s1: "mem_set L (env_now E) (request_key t) (request_value ms capability) (ag_token a) nd = (nd\<lparr>nd_store := st1\<rparr>, Inr ())"
    "store_inv st1" "view (env_now E) st1 = (view (env_now E) (nd_store nd))(request_key t \<mapsto> request_value ms capability)"
    "logs st1 = logs (nd_store nd)"
    by (rule request_recorded[OF inv tk(1), of "request_value ms capability"]) (simp_all add: request_value_def)
  obtain st where s2: "record_exchange L (env_now E) t (response_value resp) ms (rs_content resp) (ag_token a) (nd\<lparr>nd_store := st1\<rparr>)
      = (nd\<lparr>nd_store := st\<rparr>, Inr ())" "store_inv st"
    "view (env_now E) st = (view (env_now E) st1)(response_key t \<mapsto> response_value resp)"
    "\<forall>t'. history st t' = (if t' = t then history st1 t @ map message_to_dict (ms @ [assistant_message (env_now E) (rs_content resp)])
                           else history st1 t')"
    using record_exchange_ok[of "nd\<lparr>nd_store := st1\<rparr>" t L "env_now E" "ag_token a" "response_value resp" ms "rs_content resp"] s1(2) tk
    by (auto simp: response_value_def)
  define r0 where "r0 = (new_receipt E 1 (nd\<lparr>nd_store := st\<rparr>) t ''invoke'')
     \<lparr>rc_agent_did := ag_did a, rc_model_used := rs_model resp, rc_tokens_used := total_tokens resp,
      rc_latency_ms := env_elapsed E, rc_input_hash := hash_messages L ms,
      rc_output_hash := hash_text L (rs_content resp), rc_summary := take 80 (rs_content resp)\<rparr>"
  have sd: "self_did (nd\<lparr>nd_store := st\<rparr>) = self_did nd" by (simp add: self_did_def)
  have t0: "rc_task_id r0 = t" by (simp add: r0_def new_receipt_def)
  obtain r where add: "add_receipt L k r0 (nd\<lparr>nd_store := st\<rparr>)
      = nd\<lparr>nd_store := st, nd_chains := dset t (dgetd (nd_chains nd) t [] @ [r]) (nd_chains nd)\<rparr>"
    and r: "rc_agent_did r = ag_did a" "rc_input_hash r = hash_messages L ms" "rc_output_hash r = hash_text L (rs_content resp)"
      "owns L k (self_did nd) \<Longrightarrow> receipt_verify L r = Inr True"
    by (rule receipt_added[OF sd, of L k r0, unfolded t0]) (simp_all add: r0_def)
  have kp: "device_keypair (nd\<lparr>nd_store := st\<rparr>) = Inr k" using key by (simp add: device_keypair_def)
  have "invoke_agent L E M ms capability sys mt a nd
      = (add_receipt L k r0 (nd\<lparr>nd_store := st\<rparr>), Inr (resp\<lparr>rs_metadata := dset ''task_id'' (VStr t) (rs_metadata resp)\<rparr>))"
    unfolding invoke_agent_def Let_def t[symmetric] request_value_def[symmetric] usage_dict_def[symmetric]
      response_value_def[symmetric] s1(1) andThen_simps
    using live by (simp add: run s2(1) kp r0_def)
  then show ?thesis
    unfolding add using r s2(2-4) s1(3) history_logs[OF s1(4)] by (intro exI[of _ st] exI[of _ r]) simp
qed

subsection \<open>Properties\<close>

text \<open>
  C13: running a registered agent on this device stores the request and the response under the two
  keys of a new task, appends the messages and the reply of the agent to its history and to no
  other, and adds one receipt to its chain, signed by the device, with the hashes of the messages
  and of the reply. It does so with the token of the registration at any later time, since no
  expiry is looked at.
\<close>

theorem invocation_is_recorded:
  assumes "store_inv (nd_store nd)" and "ag_did a \<in> set (nd_adapters nd)"
    and "hh_device_key (nd_household nd) = Some k" "owns L k (self_did nd)"
    and "json_ok L jwt_header" "json_ok L (payload (agent_token t1 n dd ad agent_caps 86400 parent []))"
    and "ag_token a = Some (build_agent_token L t1 n k dd ad agent_caps 86400 parent [])"
    and "run_adapter M (ag_did a) \<lparr>rq_messages = ms, rq_system_prompt = sys, rq_max_tokens = mt,
        rq_temperature = 0.7, rq_stop_sequences = [], rq_stream = False, rq_metadata = []\<rparr> = Inr resp"
    and "t = ''task_'' @ take 12 (env_uid E 0)"
  shows "\<exists>st r. invoke_agent L E M ms capability sys mt a nd
      = (nd\<lparr>nd_store := st, nd_chains := dset t (dgetd (nd_chains nd) t [] @ [r]) (nd_chains nd)\<rparr>,
         Inr (resp\<lparr>rs_metadata := dset ''task_id'' (VStr t) (rs_metadata resp)\<rparr>))
    \<and> view (env_now E) st = (view (env_now E) (nd_store nd))(request_key t \<mapsto> request_value ms capability,
         response_key t \<mapsto> response_value resp)
    \<and> (\<forall>t'. history st t' = history (nd_store nd) t'
         @ (if t' = t then map message_to_dict (ms @ [assistant_message (env_now E) (rs_content resp)]) else []))
    \<and> rc_agent_did r = ag_did a \<and> rc_input_hash r = hash_messages L ms \<and> rc_output_hash r = hash_text L (rs_content resp)
    \<and> receipt_verify L r = Inr True"
  using invoke_agent_runs[OF assms(1) _ assms(2,3,8,9), where L = L and capability = capability]
    agent_token_permits[OF assms(5,6)] assms(4) unfolding assms(7) by blast

definition demo_registered :: agent_record where
  "demo_registered = demo_spec\<lparr>ag_did := demo_did True,
     ag_token := Some (build_agent_token demo_agent_lib 1 ''n'' False (demo_did False) (demo_did True) agent_caps 86400 (Some demo_first_cid) [])\<rparr>"

definition demo_reply :: invoke_response where
  "demo_reply = \<lparr>rs_content = ''hi'', rs_model = ''mock'', rs_finish_reason = ''stop'', rs_usage = [], rs_latency_ms = 1, rs_metadata = []\<rparr>"

definition demo_replies :: models where
  "demo_replies = \<lparr>run_adapter = (\<lambda>a r. Inr demo_reply), run_session = (\<lambda>c p s m b. Inr [''hi''])\<rparr>"

definition demo_live :: "bool node" where
  "demo_live = demo_node\<lparr>nd_adapters := [demo_did True]\<rparr>"

lemma demo_live_fields:
  "store_inv (nd_store demo_live)" "nd_adapters demo_live = [demo_did True]" "self_did demo_live = demo_did False"
  "hh_device_key (nd_household demo_live) = Some False"
  using empty_store_inv[of "demo_did False" True] by (simp_all add: demo_live_def self_did_def demo_node_fields)

lemma demo_agent_owns: "owns demo_agent_lib k (demo_did k)"
  using demo_wire_owns[of "[]" k]
  by (simp add: owns_def ed25519_ok_def demo_agent_lib_def demo_keylib_def wire_lib.defs demo_wire_def lib.defs demo_lib_def)

theorem invocation_is_recorded_witness:
  "\<exists>st r. invoke_agent demo_agent_lib (demo_env\<lparr>env_now := 1000000\<rparr>) demo_replies [] ''text.qa'' None 4096 demo_registered demo_live
      = (demo_live\<lparr>nd_store := st, nd_chains := dset ''task_0'' [r] []\<rparr>, Inr (demo_reply\<lparr>rs_metadata := [(''task_id'', VStr ''task_0'')]\<rparr>))
    \<and> history st ''task_0'' = [message_to_dict (assistant_message 1000000 ''hi'')]"
proof -
  let ?E = "demo_env\<lparr>env_now := 1000000\<rparr>"
  have t: "''task_0'' = ''task_'' @ take 12 (env_uid ?E 0)" by (simp add: demo_env_def show_nat.simps digit_char_def, code_simp)
  have own: "owns demo_agent_lib False (self_did demo_live)" using demo_agent_owns[of False] by (simp add: demo_live_fields)
  have j: "json_ok demo_agent_lib (payload (agent_token 1 ''n'' (demo_did False) (demo_did True) agent_caps 86400 (Some demo_first_cid) []))"
    using demo_tokens_json(3) by (simp add: demo_first_agent_def)
  have e: "history (nd_store demo_live) ''task_0'' = []" "nd_chains demo_live = []" "rs_metadata demo_reply = []"
    by (simp_all add: demo_live_def demo_node_fields history_log get_log_def load_def dgetd_def demo_reply_def)
  have tok: "ag_token demo_registered = Some (build_agent_token demo_agent_lib 1 ''n'' False (demo_did False) (demo_did True) agent_caps 86400
      (Some demo_first_cid) [])" by (simp add: demo_registered_def)
  have live: "ag_did demo_registered \<in> set (nd_adapters demo_live)" by (simp add: demo_registered_def demo_live_fields)
  from invocation_is_recorded[OF demo_live_fields(1) live demo_live_fields(4) own demo_tokens_json(1) j tok, of demo_replies "[]" None 4096
      demo_reply "''task_0''" ?E "''text.qa''"] t
  obtain st r where "invoke_agent demo_agent_lib ?E demo_replies [] ''text.qa'' None 4096 demo_registered demo_live
      = (demo_live\<lparr>nd_store := st, nd_chains := dset ''task_0'' (dgetd (nd_chains demo_live) ''task_0'' [] @ [r]) (nd_chains demo_live)\<rparr>,
         Inr (demo_reply\<lparr>rs_metadata := dset ''task_id'' (VStr ''task_0'') (rs_metadata demo_reply)\<rparr>))"
    "\<forall>t'. history st t' = history (nd_store demo_live) t'
         @ (if t' = ''task_0'' then map message_to_dict ([] @ [assistant_message (env_now ?E) (rs_content demo_reply)]) else [])"
    by (auto simp: demo_replies_def)
  then show ?thesis
    by (intro exI[of _ st] exI[of _ r]) (simp add: e dgetd_def, simp add: demo_env_def demo_reply_def)
qed


text \<open>
  A task restricted to this device still runs on other devices: whenever the catalog's best
  configuration is a distributed one, \<open>invoke\<close> gives the prompt to its session, whatever the
  locality of the task, whatever the mandates of the household say, and without asking the
  scheduler; the answer is recorded as that of no agent.
\<close>

theorem local_only_task_runs_distributed:
  assumes "get_best_config (nd_registry nd) (invoke_constraints capability loc tags max_cost) (sc_health (nd_scheduler nd)) = Some best"
    and "ic_type best = ''distributed''" and "run_session M best (msg_content (last ms)) sys mt stream = Inr chunks" "ms \<noteq> []"
    and "store_inv (nd_store nd)" "hh_device_key (nd_household nd) = Some k"
  shows "\<exists>nd' resp r. node_invoke L E M ms capability sys None loc tags max_cost mt stream None nd = (nd', Inr resp)
    \<and> rs_content resp = concat chunks \<and> nd_scheduler nd' = nd_scheduler nd
    \<and> dget (nd_chains nd') (''task_'' @ take 12 (env_uid E 0))
        = Some (dgetd (nd_chains nd) (''task_'' @ take 12 (env_uid E 0)) [] @ [r])
    \<and> rc_action r = ''invoke_distributed'' \<and> rc_agent_did r = []"
proof -
  define t where "t = ''task_'' @ take 12 (env_uid E 0)"
  define v where "v = VDict [(''messages'', VList (map (\<lambda>m. VDict (message_to_dict m)) ms)), (''config_id'', VStr (ic_id best)),
      (''model'', VStr (ic_model_name best))]"
  define w where "w = VDict [(''content'', VStr (concat chunks)), (''model'', VStr (ic_model_name best)), (''usage'', VDict [])]"
  obtain st1 where s1: "mem_set L (env_now E) (request_key t) v None nd = (nd\<lparr>nd_store := st1\<rparr>, Inr ())" "store_inv st1"
    by (rule request_recorded[OF assms(5), of L "env_now E" t None v]) (simp_all add: check_optional_def v_def)
  obtain st where s2: "record_exchange L (env_now E) t w ms (concat chunks) None (nd\<lparr>nd_store := st1\<rparr>) = (nd\<lparr>nd_store := st\<rparr>, Inr ())"
    using record_exchange_ok[of "nd\<lparr>nd_store := st1\<rparr>" t L "env_now E" None w ms "concat chunks"] s1(2)
    by (auto simp: check_optional_def w_def)
  define r0 where "r0 = (new_receipt E 1 (nd\<lparr>nd_store := st\<rparr>) t ''invoke_distributed'')
     \<lparr>rc_model_used := ic_model_name best, rc_tokens_used := int (length chunks), rc_latency_ms := env_elapsed E,
      rc_input_hash := hash_messages L ms, rc_output_hash := hash_text L (concat chunks),
      rc_summary := ''config='' @ ic_id best @ '' devices='' @ show_nat (length (ic_devices best))\<rparr>"
  have kp: "device_keypair (nd\<lparr>nd_store := st\<rparr>) = Inr k" using assms(6) by (simp add: device_keypair_def)
  obtain resp where run: "invoke_distributed L E M ms best sys mt stream nd = (add_receipt L k r0 (nd\<lparr>nd_store := st\<rparr>), Inr resp)"
    and resp: "rs_content resp = concat chunks"
    unfolding invoke_distributed_def Let_def t_def[symmetric] using assms(3,4)
    by (simp add: v_def[symmetric] w_def[symmetric] s1(1) s2 kp r0_def)
  have r0: "rc_task_id r0 = t" "rc_action r0 = ''invoke_distributed''" "rc_agent_did r0 = []"
    by (simp_all add: r0_def new_receipt_def)
  have "\<exists>r. dget (nd_chains (add_receipt L k r0 (nd\<lparr>nd_store := st\<rparr>))) t = Some (dgetd (nd_chains nd) t [] @ [r])
      \<and> rc_action r = rc_action r0 \<and> rc_agent_did r = rc_agent_did r0"
    by (simp add: add_receipt_def r0(1) chain_add_def Let_def receipt_sign_def)
  moreover have "nd_scheduler (add_receipt L k r0 (nd\<lparr>nd_store := st\<rparr>)) = nd_scheduler nd" by (simp add: add_receipt_def)
  ultimately show ?thesis
    unfolding node_invoke_def t_def[symmetric] using assms(1,2) resp run r0(2,3) by simp
qed

lemma py_max_mem: "py_max f x xs \<in> insert x (set xs)"
  by (induction f x xs rule: py_max.induct) auto

lemma demo_best: "\<exists>best. get_best_config demo_registry tc healths = Some best \<and> ic_type best = ''distributed''"
proof -
  let ?cs = "filter_by_constraints demo_registry tc"
  have dist: "ic_type c = ''distributed''" if "c \<in> set (rg_configs demo_registry)" for c
    using that registry_in_sync[OF demo_registry_reach] distributed_shares(4)
    by (force simp: in_sync_def feasible_def demo_registry_models demo_registry_fields)
  then have "?cs = rg_configs demo_registry" by (auto simp: filter_by_constraints_def filter_id_conv)
  moreover obtain c cs where "rg_configs demo_registry = c # cs"
    using demo_registry_offers by (meson neq_Nil_conv)
  ultimately have cs: "?cs = c # cs" "set (c # cs) \<subseteq> set (rg_configs demo_registry)" by simp_all
  then show ?thesis
    using dist py_max_mem[of "live_score demo_registry healths" c cs] by (auto simp: get_best_config_def max_of_def)
qed

theorem local_only_task_runs_distributed_witness:
  "\<exists>nd' resp. node_invoke demo_hh_lib demo_env demo_replies [demo_question] ''text.qa'' None None LOCAL_ONLY None ''free'' 4096 False None
     (demo_node\<lparr>nd_registry := demo_registry\<rparr>) = (nd', Inr resp) \<and> rs_content resp = ''hi''"
proof -
  let ?nd = "demo_node\<lparr>nd_registry := demo_registry\<rparr>"
  obtain best where best: "get_best_config (nd_registry ?nd) (invoke_constraints ''text.qa'' LOCAL_ONLY None ''free'')
      (sc_health (nd_scheduler ?nd)) = Some best" "ic_type best = ''distributed''"
    using demo_best[of "invoke_constraints ''text.qa'' LOCAL_ONLY None ''free''" "sc_health (nd_scheduler ?nd)"] by auto
  have "run_session demo_replies best (msg_content (last [demo_question])) None 4096 False = Inr [''hi'']"
    by (simp add: demo_replies_def)
  from local_only_task_runs_distributed[OF best this _ _ , of False demo_hh_lib demo_env] show ?thesis
    using empty_store_inv[of "demo_did False" True] by (simp add: demo_node_fields) blast
qed

subsection \<open>Streaming\<close>

lemma finish_stream_runs:
  assumes inv: "store_inv (nd_store nd)" and tok: "\<And>path. check_optional L (env_now E) (canonical_key CONTEXT path) (ag_token a) = Inr ()"
    and key: "hh_device_key (nd_household nd) = Some k" and t: "t = ''task_'' @ take 12 (env_uid E 0)"
  shows "\<exists>nd'. finish_stream L E ms a yielded chunks nd = (nd', yielded, Inr ())
    \<and> history (nd_store nd') t = history (nd_store nd) t @ map message_to_dict (ms @ [assistant_message (env_now E) (concat chunks)])
    \<and> (\<exists>r. dget (nd_chains nd') t = Some (dgetd (nd_chains nd) t [] @ [r]) \<and> rc_tokens_used r = int (length chunks)
         \<and> rc_output_hash r = hash_text L (concat chunks))"
proof -
  define w where "w = VDict [(''content'', VStr (concat chunks)), (''model'', VStr (model_or_vendor a)), (''usage'', VDict [])]"
  obtain st where st: "record_exchange L (env_now E) t w ms (concat chunks) (ag_token a) nd = (nd\<lparr>nd_store := st\<rparr>, Inr ())"
    "history st t = history (nd_store nd) t @ map message_to_dict (ms @ [assistant_message (env_now E) (concat chunks)])"
    using record_exchange_ok[OF inv, of t L "env_now E" "ag_token a" w ms "concat chunks"] check_task_keys[OF tok]
    by (auto simp: w_def)
  have kp: "device_keypair (nd\<lparr>nd_store := st\<rparr>) = Inr k" using key by (simp add: device_keypair_def)
  show ?thesis
    unfolding finish_stream_def Let_def t[symmetric] w_def[symmetric] st(1)
    by (simp add: kp st(2) add_receipt_def new_receipt_def chain_add_def Let_def receipt_sign_def)
qed

text \<open>
  A streamed answer of an agent is recorded as it was shown: the consumer gets exactly the
  tokens of the adapter, the history of the new task ends with the messages and the concatenation
  of those tokens, and the receipt carries their number and the hash of their concatenation.
\<close>

theorem streamed_answer_is_recorded:
  assumes "store_inv (nd_store nd)" and "ag_did a \<in> set (nd_adapters nd)" and "hh_device_key (nd_household nd) = Some k"
    and "json_ok L jwt_header" "json_ok L (payload (agent_token t1 n dd ad agent_caps 86400 parent []))"
    and "ag_token a = Some (build_agent_token L t1 n k dd ad agent_caps 86400 parent [])"
    and "run_stream M (ag_did a) (stream_request ms sys True) = (toks, None)"
    and "t = ''task_'' @ take 12 (env_uid E 0)"
  shows "\<exists>nd'. stream_agent L E M ms capability sys a nd = (nd', toks, Inr ())
    \<and> history (nd_store nd') t = history (nd_store nd) t @ map message_to_dict (ms @ [assistant_message (env_now E) (concat toks)])
    \<and> (\<exists>r. dget (nd_chains nd') t = Some (dgetd (nd_chains nd) t [] @ [r]) \<and> rc_tokens_used r = int (length toks)
         \<and> rc_output_hash r = hash_text L (concat toks))"
proof -
  have tok: "check_optional L (env_now E) (canonical_key CONTEXT path) (ag_token a) = Inr ()" for path
    using agent_token_permits[OF assms(4,5)] by (simp add: assms(6))
  obtain st1 where s1: "mem_set L (env_now E) (request_key t) (request_value ms capability) (ag_token a) nd = (nd\<lparr>nd_store := st1\<rparr>, Inr ())"
    "store_inv st1" "logs st1 = logs (nd_store nd)"
    by (rule request_recorded[OF assms(1) check_task_keys(1)[OF tok], of "request_value ms capability"]) (simp_all add: request_value_def)
  have "stream_agent L E M ms capability sys a nd = finish_stream L E ms a toks toks (nd\<lparr>nd_store := st1\<rparr>)"
    unfolding stream_agent_def assms(8)[symmetric] request_value_def[symmetric] s1(1) using assms(2,7) by simp
  with finish_stream_runs[of "nd\<lparr>nd_store := st1\<rparr>" L E a k t ms toks toks] s1 tok assms(3,8) history_logs[OF s1(3)]
  show ?thesis by simp
qed

lemma node_start_adapters: "node_start L now hh mandates file probe = (hh1, Inr nd) \<Longrightarrow> nd_adapters nd = []"
  by (auto simp: node_start_def Let_def split: prod.splits sum.splits)

lemma demo_node_adapters: "nd_adapters demo_node = []"
  using demo_node_start node_start_adapters by blast

lemma choose_agent_adapters: "choose_agent E a tc nd = (nd', r) \<Longrightarrow> nd_adapters nd' = nd_adapters nd"
  by (auto simp: choose_agent_def split: if_splits prod.splits sum.splits option.splits)

definition demo_streams :: "py_error option \<Rightarrow> stream_models" where
  "demo_streams fin = \<lparr>run_adapter = (\<lambda>a r. Inr demo_reply), run_session = (\<lambda>c p s m b. Inr [''hi'']),
     run_stream = (\<lambda>a r. ([''h'', ''i''], None)), setup_session = (\<lambda>c. Inr True), stream_session = (\<lambda>c p s. ([''x''], fin))\<rparr>"

theorem streamed_answer_is_recorded_witness:
  "\<exists>nd'. stream_agent demo_agent_lib demo_env (demo_streams None) [] ''text.qa'' None demo_registered demo_live = (nd', [''h'', ''i''], Inr ())
    \<and> history (nd_store nd') ''task_0'' = [message_to_dict (assistant_message 9 ''hi'')]"
proof -
  have t: "''task_0'' = ''task_'' @ take 12 (env_uid demo_env 0)"
    by (simp add: demo_env_def show_nat.simps digit_char_def, code_simp)
  have j: "json_ok demo_agent_lib (payload (agent_token 1 ''n'' (demo_did False) (demo_did True) agent_caps 86400 (Some demo_first_cid) []))"
    using demo_tokens_json(3) by (simp add: demo_first_agent_def)
  have tok: "ag_token demo_registered = Some (build_agent_token demo_agent_lib 1 ''n'' False (demo_did False) (demo_did True) agent_caps 86400
      (Some demo_first_cid) [])" by (simp add: demo_registered_def)
  have live: "ag_did demo_registered \<in> set (nd_adapters demo_live)" by (simp add: demo_registered_def demo_live_fields)
  have str: "run_stream (demo_streams None) (ag_did demo_registered) (stream_request [] None True) = ([''h'', ''i''], None)"
    by (simp add: demo_streams_def)
  have "history (nd_store demo_live) ''task_0'' = []"
    by (simp add: demo_live_def demo_node_fields history_log get_log_def load_def dgetd_def)
  with streamed_answer_is_recorded[OF demo_live_fields(1) live demo_live_fields(4) demo_tokens_json(1) j tok str t, of "''text.qa''"]
  show ?thesis by (auto simp: demo_env_def)
qed

text \<open>
  A streamed answer of a distributed session leaves no trace: the consumer gets its tokens, and
  memory, history and receipts stay as they were, although the method promises that the
  conversation, the reply and a signed receipt are persisted after the stream.
\<close>

theorem distributed_stream_leaves_no_record:
  assumes "get_best_config (nd_registry nd) (invoke_constraints capability loc tags max_cost) (sc_health (nd_scheduler nd)) = Some best"
    and "ic_type best = ''distributed''" and "setup_session M best = Inr True" and "ms \<noteq> []"
    and "stream_session M best (msg_content (last ms)) sys = (toks, None)"
  shows "node_invoke_stream L E M ms capability sys None loc tags max_cost nd = (nd, toks, Inr ())"
  using assms by (simp add: node_invoke_stream_def)

lemma demo_question_last: "[demo_question] \<noteq> []" by simp

theorem distributed_stream_leaves_no_record_witness:
  "node_invoke_stream demo_hh_lib demo_env (demo_streams None) [demo_question] ''text.qa'' None None HOUSEHOLD None ''paid''
     (demo_node\<lparr>nd_registry := demo_registry\<rparr>) = (demo_node\<lparr>nd_registry := demo_registry\<rparr>, [''x''], Inr ())"
proof -
  let ?nd = "demo_node\<lparr>nd_registry := demo_registry\<rparr>"
  obtain best where "get_best_config (nd_registry ?nd) (invoke_constraints ''text.qa'' HOUSEHOLD None ''paid'')
      (sc_health (nd_scheduler ?nd)) = Some best" "ic_type best = ''distributed''"
    using demo_best[of "invoke_constraints ''text.qa'' HOUSEHOLD None ''paid''" "sc_health (nd_scheduler ?nd)"] by auto
  from distributed_stream_leaves_no_record[OF this _ demo_question_last, of "demo_streams None" None "[''x'']" demo_hh_lib demo_env]
  show ?thesis by (simp add: demo_streams_def)
qed

text \<open>
  A distributed session that breaks off is not retracted: the tokens it already yielded stay
  with the consumer, who then gets the whole answer of a single agent after them, while the
  record of the task has the answer of the agent alone.
\<close>

theorem broken_session_is_not_retracted:
  assumes "get_best_config (nd_registry nd) (invoke_constraints capability loc tags max_cost) (sc_health (nd_scheduler nd)) = Some best"
    and "ic_type best = ''distributed''" and "setup_session M best = Inr True" and "ms \<noteq> []"
    and "stream_session M best (msg_content (last ms)) sys = (toks, Some e)"
    and "stream_single L E M ms capability sys None (invoke_constraints capability loc tags max_cost) [] nd = (nd', answer, r)"
  shows "node_invoke_stream L E M ms capability sys None loc tags max_cost nd = (nd', toks @ answer, r)"
  using assms by (auto simp: node_invoke_stream_def stream_single_def split: prod.splits sum.splits)

theorem broken_session_is_not_retracted_witness:
  "\<exists>nd' r. node_invoke_stream demo_hh_lib demo_env (demo_streams (Some (RuntimeError ''gone''))) [demo_question] ''text.qa'' None None HOUSEHOLD None ''paid''
     (demo_node\<lparr>nd_registry := demo_registry\<rparr>) = (nd', [''x''], r) \<and> (\<exists>e. r = Inl e)"
proof -
  let ?nd = "demo_node\<lparr>nd_registry := demo_registry\<rparr>" and ?M = "demo_streams (Some (RuntimeError ''gone''))"
  let ?tc = "invoke_constraints ''text.qa'' HOUSEHOLD None ''paid''"
  obtain best where best: "get_best_config (nd_registry ?nd) ?tc (sc_health (nd_scheduler ?nd)) = Some best" "ic_type best = ''distributed''"
    using demo_best[of ?tc "sc_health (nd_scheduler ?nd)"] by auto
  obtain nd' answer r where single: "stream_single demo_hh_lib demo_env ?M [demo_question] ''text.qa'' None None ?tc [] ?nd = (nd', answer, r)"
    by (rule prod_cases3)
  then have "answer = [] \<and> (\<exists>e. r = Inl e)"
    by (auto simp: stream_single_def stream_agent_def demo_node_adapters split: prod.splits sum.splits if_splits dest: choose_agent_adapters)
  moreover have "setup_session ?M best = Inr True" "stream_session ?M best (msg_content (last [demo_question])) None = ([''x''], Some (RuntimeError ''gone''))"
    by (simp_all add: demo_streams_def)
  ultimately show ?thesis
    using broken_session_is_not_retracted[OF best _ demo_question_last _ single] by simp
qed

end
