(* ===== verification/Session.thy ===== *)
theory Session
  imports NodePeers NodeInvoke
begin

text \<open>
  A distributed session: \<^verbatim>\<open>inference/coordinator.py\<close> sets up the workers and reads the stream of
  llama-server, \<^verbatim>\<open>inference/streaming.py\<close> reads the same stream and forwards its tokens to the
  device that asked, and \<^verbatim>\<open>inference/capability.py\<close> measures the link to a peer. The transport, the
  processes and the clock are arguments. The workers of a configuration have different DIDs, as in
  those the registry builds; the list of ready workers is the key list of the code's dictionary.
  The lemmas show when a setup succeeds, that both readers agree, and that the forwarded tokens
  arrive in the history of the other device in order.
\<close>

subsection \<open>Setting up and tearing down\<close>

record coordinator =
  co_config :: inference_config
  co_rpc_port :: int
  co_ready :: "did list"
  co_endpoints :: "string list"
  co_local_server :: bool
  co_active :: bool

definition new_coordinator :: "inference_config \<Rightarrow> coordinator" where
  "new_coordinator cfg = \<lparr>co_config = cfg, co_rpc_port = 50052, co_ready = [], co_endpoints = [], co_local_server = False, co_active = False\<rparr>"

text \<open>
  Of the outside: the host of an open connection, whether a message can be sent on it, whether the
  worker reports in time, whether the command of llama-server starts and answers, and how a
  share of the tensors is printed.
\<close>

record session_env =
  se_peer :: "did \<Rightarrow> string option"
  se_sends :: "did \<Rightarrow> bool"
  se_reports :: "did \<Rightarrow> bool"
  se_server :: "string list \<Rightarrow> bool"
  se_share :: "real \<Rightarrow> string"

definition workers_of :: "inference_config \<Rightarrow> device_role list" where
  "workers_of cfg = filter (\<lambda>r. dr_role r = ''worker'') (ic_devices cfg)"

text \<open>
  The loop over the workers: the coordinator, the workers that were sent a setup message, and the
  endpoints when every one of them was ready.
\<close>

fun setup_workers ::
    "session_env \<Rightarrow> coordinator \<Rightarrow> device_role list \<Rightarrow> string list \<Rightarrow> coordinator \<times> did list \<times> string list option" where
  "setup_workers SE co [] resolved = (co, [], Some resolved)"
| "setup_workers SE co (w # ws) resolved =
     (case se_peer SE (dr_did w) of
        None \<Rightarrow> (co, [], None)
      | Some host \<Rightarrow>
          if \<not> se_sends SE (dr_did w) then (co, [], None)
          else if \<not> se_reports SE (dr_did w) then (co, [dr_did w], None)
          else let co1 = co\<lparr>co_ready := co_ready co @ [dr_did w]\<rparr> in
            if host = [] then (co1, [dr_did w], None)
            else (case setup_workers SE co1 ws (resolved @ [host @ '':'' @ show_int (co_rpc_port co)]) of
                (co2, asked, r) \<Rightarrow> (co2, dr_did w # asked, r)))"

definition resolve_model_path :: "inference_config \<Rightarrow> device_capability \<Rightarrow> string option" where
  "resolve_model_path cfg cap = map_option mi_path (find (\<lambda>m. mi_name m = ic_model_name cfg) (dc_models cap))"

fun join_with :: "string \<Rightarrow> string list \<Rightarrow> string" where
  "join_with sep [] = []"
| "join_with sep [x] = x"
| "join_with sep (x # xs) = x @ sep @ join_with sep xs"

definition start_llama_server :: "session_env \<Rightarrow> registry \<Rightarrow> did \<Rightarrow> coordinator \<Rightarrow> bool" where
  "start_llama_server SE reg own co =
     (case dget (rg_caps reg) own of
        None \<Rightarrow> False
      | Some cap \<Rightarrow>
          if \<not> truthy (dc_llama_cpp_path cap) then False
          else if \<not> truthy (resolve_model_path (co_config co) cap) then False
          else se_server SE
            ([or_empty (dc_llama_cpp_path cap), ''--model'', or_empty (resolve_model_path (co_config co) cap),
              ''--port'', ''8081'', ''--host'', ''127.0.0.1'']
             @ (if co_endpoints co = [] then [] else [''--rpc'', join_with '','' (co_endpoints co)])
             @ (case ic_tensor_split (co_config co) of
                  None \<Rightarrow> []
                | Some ss \<Rightarrow> if ss = [] then [] else [''--tensor-split'', join_with '','' (map (se_share SE) ss)])))"

definition co_setup :: "session_env \<Rightarrow> registry \<Rightarrow> did \<Rightarrow> coordinator \<Rightarrow> coordinator \<times> did list \<times> bool" where
  "co_setup SE reg own co =
     (let cfg = co_config co; ws = workers_of cfg in
      if ws = [] \<and> ic_type cfg = ''distributed'' then (co, [], False)
      else if (case find (\<lambda>r. dr_role r = ''host'') (ic_devices cfg) of
                 None \<Rightarrow> False | Some h \<Rightarrow> own \<noteq> [] \<and> dr_did h \<noteq> own) then (co, [], False)
      else (case setup_workers SE co ws [] of
          (co1, asked, None) \<Rightarrow> (co1, asked, False)
        | (co1, asked, Some resolved) \<Rightarrow>
            let co2 = co1\<lparr>co_endpoints := resolved\<rparr>
            in (co2\<lparr>co_local_server := start_llama_server SE reg own co2, co_active := True\<rparr>, asked, True)))"

definition co_teardown :: "session_env \<Rightarrow> coordinator \<Rightarrow> coordinator \<times> did list" where
  "co_teardown SE co =
     (co\<lparr>co_active := False, co_ready := [], co_endpoints := []\<rparr>,
      filter (\<lambda>d. se_peer SE d \<noteq> None \<and> se_sends SE d) (map dr_did (workers_of (co_config co))))"

text \<open>
  One round of the background check: the workers without a connection; when there is one it is
  logged and the check ends, the session stays active.
\<close>

definition monitor_round :: "session_env \<Rightarrow> coordinator \<Rightarrow> did list \<times> bool" where
  "monitor_round SE co =
     (let gone = filter (\<lambda>d. se_peer SE d = None) (map dr_did (workers_of (co_config co))) in (gone, co_active co \<and> gone = []))"

subsection \<open>The stream of llama-server\<close>

text \<open>One line of the event stream; \<open>parse\<close> is the JSON reader.\<close>

datatype line_event = Ignored | Finished | Token string

definition truthy_or :: "dict \<Rightarrow> string \<Rightarrow> (pyval \<Rightarrow> 'a list result) \<Rightarrow> 'a list result" where
  "truthy_or d k f = (case dget d k of None \<Rightarrow> Inr [] | Some v \<Rightarrow> if py_bool v then f v else Inr [])"

fun first_choice :: "pyval list \<Rightarrow> line_event result" where
  "first_choice [] = Inr Ignored"
| "first_choice (c # cs) =
     bindE (as_dict c) (\<lambda>choice.
     bindE (truthy_or choice ''delta'' as_dict) (\<lambda>delta.
     bindE (truthy_or delta ''content'' as_str) (\<lambda>token.
       Inr (if token = [] then Ignored else Token token))))"

definition read_line :: "(string \<Rightarrow> pyval result) \<Rightarrow> string \<Rightarrow> line_event result" where
  "read_line parse line =
     (if line = [] \<or> \<not> startswith line ''data: '' then Inr Ignored
      else let s = strip_space (drop 6 line) in
        if s = ''[DONE]'' then Inr Finished
        else (case parse s of
            Inl _ \<Rightarrow> Inr Ignored
          | Inr v \<Rightarrow>
              bindE (as_dict v) (\<lambda>chunk.
              bindE (truthy_or chunk ''choices'' as_list) first_choice)))"

text \<open>The loop of \<open>generate\<close>: the tokens it yields and the exception that ends it.\<close>

fun read_stream :: "(string \<Rightarrow> pyval result) \<Rightarrow> string list \<Rightarrow> string list \<times> py_error option" where
  "read_stream parse [] = ([], None)"
| "read_stream parse (l # ls) =
     (case read_line parse l of
        Inl e \<Rightarrow> ([], Some e)
      | Inr Ignored \<Rightarrow> read_stream parse ls
      | Inr Finished \<Rightarrow> ([], None)
      | Inr (Token t) \<Rightarrow> (case read_stream parse ls of (ts, e) \<Rightarrow> (t # ts, e)))"

text \<open>The request of \<open>generate\<close>: only the last message of the conversation is its prompt.\<close>

definition chat_messages :: "string option \<Rightarrow> string \<Rightarrow> pyval list" where
  "chat_messages sys prompt =
     (if truthy sys then [VDict [(''role'', VStr ''system''), (''content'', opt_str sys)]] else [])
     @ [VDict [(''role'', VStr ''user''), (''content'', VStr prompt)]]"

definition reply_content :: "pyval \<Rightarrow> string result" where
  "reply_content v =
     bindE (as_dict v) (\<lambda>d.
     bindE (bindE (dict_item d ''choices'') as_list) (\<lambda>cs.
     case cs of
       [] \<Rightarrow> Inl (IndexError ''list index out of range'')
     | c # _ \<Rightarrow> bindE (as_dict c) (\<lambda>choice.
         bindE (bindE (dict_item choice ''message'') as_dict) (\<lambda>m. bindE (dict_item m ''content'') as_str))))"

text \<open>The server: the lines of a streamed answer, or the JSON of a whole one.\<close>

record llama_server =
  ls_parse :: "string \<Rightarrow> pyval result"
  ls_lines :: "pyval list \<Rightarrow> string list"
  ls_reply :: "pyval list \<Rightarrow> pyval result"

definition generate ::
    "llama_server \<Rightarrow> coordinator \<Rightarrow> string \<Rightarrow> string option \<Rightarrow> bool \<Rightarrow> string list \<times> py_error option" where
  "generate S co prompt sys stream =
     (if \<not> co_local_server co then ([], Some (RuntimeError ''llama-server is not running locally; cannot generate''))
      else if stream then read_stream (ls_parse S) (ls_lines S (chat_messages sys prompt))
      else (case bindE (ls_reply S (chat_messages sys prompt)) reply_content of
          Inl e \<Rightarrow> ([], Some e) | Inr content \<Rightarrow> ([content], None)))"

text \<open>Setup, generation and teardown as \<open>_invoke_distributed\<close> composes them.\<close>

definition coordinated_session ::
    "session_env \<Rightarrow> llama_server \<Rightarrow> registry \<Rightarrow> did \<Rightarrow> inference_config \<Rightarrow> string \<Rightarrow> string option \<Rightarrow> int \<Rightarrow> bool
      \<Rightarrow> string list result" where
  "coordinated_session SE S reg own cfg prompt sys max_tokens stream =
     (case co_setup SE reg own (new_coordinator cfg) of
        (co, asked, False) \<Rightarrow> Inl (RuntimeError ''Distributed inference setup failed'')
      | (co, asked, True) \<Rightarrow>
          (case generate S co prompt sys stream of (toks, None) \<Rightarrow> Inr toks | (toks, Some e) \<Rightarrow> Inl e))"

subsection \<open>Forwarding the stream\<close>

definition chunk_body :: "string \<Rightarrow> string \<Rightarrow> nat \<Rightarrow> bool \<Rightarrow> dict" where
  "chunk_body task token index fin =
     [(''task_id'', VStr task), (''token'', VStr token), (''index'', VInt (int index)), (''done'', VBool fin)]"

text \<open>\<open>StreamForwarder\<close> with an open connection: the tokens it yields, the bodies it sends, and how it ends.\<close>

fun forward_stream ::
    "(string \<Rightarrow> pyval result) \<Rightarrow> string \<Rightarrow> nat \<Rightarrow> string list \<Rightarrow> string list \<times> dict list \<times> py_error option" where
  "forward_stream parse task index [] = ([], [], None)"
| "forward_stream parse task index (l # ls) =
     (case read_line parse l of
        Inl e \<Rightarrow> ([], [], Some e)
      | Inr Ignored \<Rightarrow> forward_stream parse task index ls
      | Inr Finished \<Rightarrow> ([], [chunk_body task [] index True], None)
      | Inr (Token t) \<Rightarrow>
          (case forward_stream parse task (index + 1) ls of
             (ts, bodies, e) \<Rightarrow> (t # ts, chunk_body task t index False # bodies, e)))"

subsection \<open>Measuring a link\<close>

text \<open>The answer to a probe: the pending probe of its thread is resolved with the elapsed milliseconds.\<close>

definition probe_elapsed :: "real \<Rightarrow> aries_message \<Rightarrow> real" where
  "probe_elapsed now msg =
     (case dget (am_body msg) ''ts'' of
        Some (VFloat ts) \<Rightarrow> (now - ts) * 1000
      | Some (VInt ts) \<Rightarrow> (now - of_int ts) * 1000
      | Some (VBool b) \<Rightarrow> (now - (if b then 1 else 0)) * 1000
      | _ \<Rightarrow> 0)"

definition handle_probe_response ::
    "real \<Rightarrow> aries_message \<Rightarrow> string list \<Rightarrow> (string \<times> real) list \<Rightarrow> string list \<times> (string \<times> real) list" where
  "handle_probe_response now msg pending results =
     (let thread = or_empty (am_thread msg) in
      if thread \<in> set pending
      then (filter (\<lambda>t. t \<noteq> thread) pending, (thread, probe_elapsed now msg) # results) else (pending, results))"

text \<open>\<open>measure_peer_network\<close>: the round trip of the small probe, then those of the large ones, \<open>None\<close> a failure.\<close>

fun best_throughput :: "real \<Rightarrow> real \<Rightarrow> real option list \<Rightarrow> real \<Rightarrow> real" where
  "best_throughput sz latency [] best = best"
| "best_throughput sz latency (None # rs) best = best"
| "best_throughput sz latency (Some rtt # rs) best =
     (let delta = rtt - latency in
      if delta \<le> 0.05 then best_throughput sz latency rs best
      else best_throughput sz latency rs (max best (sz * 2 * 8 / 1000000 / (delta / 1000))))"

definition MAX_PROBE_PAYLOAD :: int where "MAX_PROBE_PAYLOAD = 48 * 1024"

definition measure_link :: "bool \<Rightarrow> int \<Rightarrow> nat \<Rightarrow> real option \<Rightarrow> (nat \<Rightarrow> real option) \<Rightarrow> real \<times> real" where
  "measure_link has_conn payload_size rounds small large =
     (if \<not> has_conn then (50, 100)
      else case small of
          None \<Rightarrow> (50, 100)
        | Some latency \<Rightarrow>
            let best = best_throughput (of_int (max 1024 (min payload_size MAX_PROBE_PAYLOAD))) latency
                  (map large [0..<max rounds 1]) 0
            in if best \<le> 0 then (latency, 100) else (latency, best))"

text \<open>The layer count that the scan of model files guesses from their size.\<close>

definition estimate_from_size :: "real \<Rightarrow> int" where
  "estimate_from_size size_gb = (if size_gb < 6 then 32 else if size_gb < 12 then 40 else if size_gb < 25 then 48 else 80)"

subsection \<open>Reading and forwarding agree\<close>

lemma forward_reads:
  "forward_stream parse task n ls = (ts, bodies, e) \<Longrightarrow> read_stream parse ls = (ts, e)
     \<and> (\<exists>fin. bodies = map (\<lambda>(i, t). chunk_body task t i False) (List.enumerate n ts)
            @ (if fin then [chunk_body task [] (n + length ts) True] else []) \<and> (fin \<longrightarrow> e = None))"
proof (induction ls arbitrary: n ts bodies e)
  case Nil
  then show ?case by (auto intro: exI[of _ False])
next
  case (Cons l ls)
  show ?case
  proof (cases "read_line parse l")
    case (Inl x)
    with Cons.prems show ?thesis by (auto intro: exI[of _ False])
  next
    case (Inr ev)
    show ?thesis
    proof (cases ev)
      case Ignored
      with Cons.prems Cons.IH[of n ts bodies] Inr show ?thesis by simp
    next
      case Finished
      with Cons.prems Inr show ?thesis by (auto intro: exI[of _ True])
    next
      case (Token t)
      obtain ts' bodies' e' where f: "forward_stream parse task (n + 1) ls = (ts', bodies', e')" by (rule prod_cases3)
      then have c: "ts = t # ts'" "bodies = chunk_body task t n False # bodies'" "e = e'"
        using Cons.prems Inr Token by simp_all
      from Cons.IH[OF f] obtain fin where fin: "read_stream parse ls = (ts', e')"
        "bodies' = map (\<lambda>(i, t). chunk_body task t i False) (List.enumerate (n + 1) ts')
           @ (if fin then [chunk_body task [] (n + 1 + length ts') True] else [])" "fin \<longrightarrow> e' = None" by blast
      have "read_stream parse (l # ls) = (ts, e)" using fin(1) by (simp add: Inr Token c)
      moreover have "bodies = map (\<lambda>(i, t). chunk_body task t i False) (List.enumerate n ts)
          @ (if fin then [chunk_body task [] (n + length ts) True] else [])" by (simp add: c fin(2))
      ultimately show ?thesis using fin(3) c(3) by blast
    qed
  qed
qed

subsection \<open>When a setup succeeds\<close>

definition worker_ready :: "session_env \<Rightarrow> device_role \<Rightarrow> bool" where
  "worker_ready SE w \<longleftrightarrow> (case se_peer SE (dr_did w) of None \<Rightarrow> False | Some host \<Rightarrow> host \<noteq> [])
     \<and> se_sends SE (dr_did w) \<and> se_reports SE (dr_did w)"

definition endpoint_of :: "session_env \<Rightarrow> coordinator \<Rightarrow> device_role \<Rightarrow> string" where
  "endpoint_of SE co w = or_empty (se_peer SE (dr_did w)) @ '':'' @ show_int (co_rpc_port co)"

lemma setup_workers_ready:
  "list_all (worker_ready SE) ws \<Longrightarrow> setup_workers SE co ws res
     = (co\<lparr>co_ready := co_ready co @ map dr_did ws\<rparr>, map dr_did ws, Some (res @ map (endpoint_of SE co) ws))"
proof (induction ws arbitrary: co res)
  case (Cons w ws)
  then obtain host where "se_peer SE (dr_did w) = Some host" "host \<noteq> []" "se_sends SE (dr_did w)" "se_reports SE (dr_did w)"
    by (auto simp: worker_ready_def split: option.splits)
  moreover have "endpoint_of SE (co\<lparr>co_ready := x\<rparr>) = endpoint_of SE co" for x by (simp add: endpoint_of_def fun_eq_iff)
  ultimately show ?case using Cons by (simp add: endpoint_of_def[of SE co w])
qed simp

lemma setup_workers_not_ready:
  "\<not> list_all (worker_ready SE) ws \<Longrightarrow> snd (snd (setup_workers SE co ws res)) = None"
  by (induction ws arbitrary: co res) (auto simp: worker_ready_def Let_def case_prod_beta split: option.splits)


lemma co_setup_eq:
  "snd (snd (co_setup SE reg own co)) \<longleftrightarrow>
     (workers_of (co_config co) \<noteq> [] \<or> ic_type (co_config co) \<noteq> ''distributed'')
     \<and> (case find (\<lambda>r. dr_role r = ''host'') (ic_devices (co_config co)) of None \<Rightarrow> True | Some h \<Rightarrow> own = [] \<or> dr_did h = own)
     \<and> list_all (worker_ready SE) (workers_of (co_config co))"
proof (cases "list_all (worker_ready SE) (workers_of (co_config co))")
  case True
  then show ?thesis by (auto simp: co_setup_def Let_def setup_workers_ready split: option.splits)
next
  case False
  obtain co1 asked where "setup_workers SE co (workers_of (co_config co)) [] = (co1, asked, None)"
    using setup_workers_not_ready[OF False, of co "[]"] by (metis prod.collapse)
  with False show ?thesis by (auto simp: co_setup_def Let_def split: option.splits)
qed

subsection \<open>Streamed tokens in the history\<close>

definition chunk_record :: "string \<Rightarrow> bool \<Rightarrow> dict" where
  "chunk_record token fin = [(''role'', VStr ''assistant_chunk''), (''content'', VStr token), (''done'', VBool fin)]"

definition receive_chunks ::
    "('k, 'z) key_lib_scheme \<Rightarrow> conversions \<Rightarrow> env \<Rightarrow> aries_message \<Rightarrow> dict list \<Rightarrow> 'k node \<Rightarrow> 'k node" where
  "receive_chunks L C E msg bodies nd = fold (\<lambda>b nd. fst (handle_stream_chunk L C E (msg\<lparr>am_body := b\<rparr>) nd)) bodies nd"

lemma handle_chunk_history:
  assumes "task \<noteq> []" and "token \<noteq> [] \<or> fin"
  shows "history (nd_store (fst (handle_stream_chunk L C E (msg\<lparr>am_body := chunk_body task token i fin\<rparr>) nd))) task
    = history (nd_store nd) task @ [chunk_record token fin]"
proof -
  obtain st where "mem_log L (env_now E) (history_key task) (chunk_record token fin) None nd = (nd\<lparr>nd_store := st\<rparr>, Inr ())"
    "history st task = history (nd_store nd) task @ [chunk_record token fin]"
  proof (rule mem_log_ok[of L "env_now E" task None "chunk_record token fin" nd])
    show "check_optional L (env_now E) (history_key task) None = Inr ()" by (simp add: check_optional_def)
  qed (use that in simp)
  with assms show ?thesis
    by (auto simp: handle_stream_chunk_def chunk_body_def chunk_record_def dgetd_def to_text_def py_bool_def Let_def)
qed

lemma receive_chunk_history:
  "task \<noteq> [] \<Longrightarrow> [] \<notin> set ts \<Longrightarrow>
     history (nd_store (receive_chunks L C E msg (map (\<lambda>(i, t). chunk_body task t i False) (List.enumerate n ts)) nd)) task
       = history (nd_store nd) task @ map (\<lambda>t. chunk_record t False) ts"
proof (induction ts arbitrary: n nd)
  case (Cons t ts)
  then have "t \<noteq> []" by auto
  with Cons show ?case by (simp add: receive_chunks_def handle_chunk_history)
qed (simp add: receive_chunks_def)

lemma read_line_token: "read_line parse l = Inr (Token t) \<Longrightarrow> t \<noteq> []"
proof -
  assume "read_line parse l = Inr (Token t)"
  moreover have "first_choice cs = Inr (Token t) \<Longrightarrow> t \<noteq> []" for cs
    by (cases cs) (auto simp: bindE_eq_Inr_iff split: if_splits)
  ultimately show ?thesis
    by (auto simp: read_line_def Let_def bindE_eq_Inr_iff split: if_splits sum.splits)
qed

lemma read_stream_tokens: "read_stream parse ls = (ts, e) \<Longrightarrow> [] \<notin> set ts"
  by (induction ls arbitrary: ts) (auto split: sum.splits line_event.splits prod.splits dest: read_line_token)


subsection \<open>Properties\<close>

text \<open>A stream of three lines: a token, a comment and the end; its JSON reader knows one chunk.\<close>

definition demo_lines :: "string list" where
  "demo_lines = [''data: x'', '': ping'', ''data: [DONE]'']"

definition demo_parse :: "string \<Rightarrow> pyval result" where
  "demo_parse s = Inr (VDict [(''choices'', VList [VDict [(''delta'', VDict [(''content'', VStr ''hi'')])]])])"

text \<open>
  C27: the device that runs llama-server and the device that asked see the same answer: the
  forwarder yields exactly the tokens the reader of the coordinator yields from the same lines
  and ends the same way, and the asking device, given the forwarded messages in order, appends
  one record per token, in order, to the history of the task, and a final mark only after an
  answer that ended.
\<close>

theorem forwarded_tokens_reach_history:
  assumes "forward_stream parse task 0 ls = (ts, bodies, e)" and "task \<noteq> []"
  shows "read_stream parse ls = (ts, e)
    \<and> (\<exists>fin. history (nd_store (receive_chunks L C E msg bodies nd)) task
          = history (nd_store nd) task @ map (\<lambda>t. chunk_record t False) ts @ (if fin then [chunk_record [] True] else [])
        \<and> (fin \<longrightarrow> e = None))"
proof -
  let ?bs = "map (\<lambda>(i, t). chunk_body task t i False) (List.enumerate 0 ts)"
  obtain fin where fin: "bodies = ?bs @ (if fin then [chunk_body task [] (length ts) True] else [])" "fin \<longrightarrow> e = None"
    and r: "read_stream parse ls = (ts, e)" using forward_reads[OF assms(1), unfolded add_0] by blast
  have h: "history (nd_store (receive_chunks L C E msg ?bs nd)) task = history (nd_store nd) task @ map (\<lambda>t. chunk_record t False) ts"
    by (rule receive_chunk_history[OF assms(2) read_stream_tokens[OF r]])
  have "receive_chunks L C E msg bodies nd = receive_chunks L C E msg (if fin then [chunk_body task [] (length ts) True] else [])
      (receive_chunks L C E msg ?bs nd)" by (simp add: receive_chunks_def fin(1))
  then have "history (nd_store (receive_chunks L C E msg bodies nd)) task
      = history (nd_store nd) task @ map (\<lambda>t. chunk_record t False) ts @ (if fin then [chunk_record [] True] else [])"
    using h assms(2) by (simp add: receive_chunks_def handle_chunk_history)
  with r fin(2) show ?thesis by blast
qed

theorem forwarded_tokens_reach_history_witness:
  "read_stream demo_parse demo_lines = ([''hi''], None)
   \<and> (\<exists>fin. history (nd_store (receive_chunks demo_hh_lib demo_conversions demo_env demo_message (fst (snd (forward_stream demo_parse ''t'' 0 demo_lines))) demo_asked)) ''t''
         = [message_to_dict demo_question, chunk_record ''hi'' False] @ (if fin then [chunk_record [] True] else []))"
proof -
  have "forward_stream demo_parse ''t'' 0 demo_lines
      = ([''hi''], [chunk_body ''t'' ''hi'' 0 False, chunk_body ''t'' [] 1 True], None)"
    by (simp add: demo_lines_def read_line_def demo_parse_def strip_space_def ascii_space_def truthy_or_def py_bool_def Let_def as_dict_def as_list_def as_str_def)
  from forwarded_tokens_reach_history[OF this, of demo_hh_lib demo_conversions demo_env demo_message demo_asked] this show ?thesis
    by (auto simp: demo_asked_fields)
qed

text \<open>
  What the node relies on when it takes a distributed configuration: a session that is not able to
  run raises \<open>RuntimeError\<close>, which leads on to a single agent.
\<close>

locale session_provider =
  fixes session :: "inference_config \<Rightarrow> string \<Rightarrow> string option \<Rightarrow> int \<Rightarrow> bool \<Rightarrow> string list result"
    and able :: "inference_config \<Rightarrow> bool"
  assumes unable_raises: "\<not> able cfg \<Longrightarrow> \<exists>e. session cfg prompt sys max_tokens stream = Inl (RuntimeError e)"
begin

lemma unable_leaves_node:
  assumes "run_session M = session" and "\<not> able cfg"
  shows "\<exists>e. invoke_distributed L E M ms cfg sys max_tokens stream nd = (nd, Inl (RuntimeError e))"
proof -
  obtain e where "session cfg (if ms = [] then [] else msg_content (last ms)) sys max_tokens stream = Inl (RuntimeError e)"
    using unable_raises[OF assms(2)] by blast
  then show ?thesis by (simp add: invoke_distributed_def Let_def assms(1))
qed

lemma falls_back:
  assumes "run_session M = session" and "\<not> able best"
    and "get_best_config (nd_registry nd) (invoke_constraints capability loc tags max_cost) (sc_health (nd_scheduler nd)) = Some best"
  shows "node_invoke L E M ms capability sys None loc tags max_cost max_tokens stream None nd
    = invoke_single L E M ms capability sys None loc tags max_cost max_tokens nd"
proof -
  obtain e where "invoke_distributed L E M ms best sys max_tokens stream nd = (nd, Inl (RuntimeError e))"
    using unable_leaves_node[OF assms(1,2)] by blast
  then show ?thesis by (simp add: node_invoke_def Let_def assms(3))
qed

end

definition session_ready :: "session_env \<Rightarrow> registry \<Rightarrow> did \<Rightarrow> inference_config \<Rightarrow> bool" where
  "session_ready SE reg own cfg \<longleftrightarrow>
     (case co_setup SE reg own (new_coordinator cfg) of (co, asked, ok) \<Rightarrow> ok \<and> co_local_server co)"

interpretation coordinated: session_provider "coordinated_session SE S reg own" "session_ready SE reg own"
  for SE S reg own
proof
  fix cfg prompt sys max_tokens stream
  assume "\<not> session_ready SE reg own cfg"
  then show "\<exists>e. coordinated_session SE S reg own cfg prompt sys max_tokens stream = Inl (RuntimeError e)"
    by (auto simp: session_ready_def coordinated_session_def generate_def split: prod.split bool.split)
qed

lemma not_ready:
  assumes "(workers_of cfg = [] \<and> ic_type cfg = ''distributed'') \<or> \<not> list_all (worker_ready SE) (workers_of cfg)
     \<or> (\<exists>h. find (\<lambda>r. dr_role r = ''host'') (ic_devices cfg) = Some h \<and> own \<noteq> [] \<and> dr_did h \<noteq> own)
     \<or> (\<nexists>cap. dget (rg_caps reg) own = Some cap \<and> truthy (dc_llama_cpp_path cap))"
  shows "\<not> session_ready SE reg own cfg"
proof
  assume r: "session_ready SE reg own cfg"
  obtain co asked ok where c: "co_setup SE reg own (new_coordinator cfg) = (co, asked, ok)" by (rule prod_cases3)
  from r c have ok: "ok" "co_local_server co" by (simp_all add: session_ready_def)
  have "(\<exists>cap. dget (rg_caps reg) own = Some cap \<and> truthy (dc_llama_cpp_path cap))
      \<and> (workers_of cfg \<noteq> [] \<or> ic_type cfg \<noteq> ''distributed'')
      \<and> (\<forall>h. find (\<lambda>r. dr_role r = ''host'') (ic_devices cfg) = Some h \<longrightarrow> own = [] \<or> dr_did h = own)
      \<and> (\<exists>res. snd (snd (setup_workers SE (new_coordinator cfg) (workers_of cfg) [])) = Some res)"
    using c ok by (auto simp: co_setup_def Let_def new_coordinator_def start_llama_server_def
        split: if_splits option.splits prod.splits)
  with assms setup_workers_not_ready[of SE "workers_of cfg" "new_coordinator cfg" "[]"] show False by auto
qed

text \<open>
  C40: a distributed configuration that cannot run here changes nothing here: when it is hosted by another
  device, or a worker is not connected, does not take the setup message or does not report in time,
  or llama-server is not installed here, the invocation is, in its result and in the state it leaves
  on this node, the one with the agent the scheduler selects.
\<close>

theorem unready_session_falls_back:
  assumes "run_session M = coordinated_session SE S reg own"
    and "get_best_config (nd_registry nd) (invoke_constraints capability loc tags max_cost) (sc_health (nd_scheduler nd)) = Some best"
    and "(\<exists>h. find (\<lambda>r. dr_role r = ''host'') (ic_devices best) = Some h \<and> own \<noteq> [] \<and> dr_did h \<noteq> own)
       \<or> \<not> list_all (worker_ready SE) (workers_of best)
       \<or> (\<nexists>cap. dget (rg_caps reg) own = Some cap \<and> truthy (dc_llama_cpp_path cap))"
  shows "node_invoke L E M ms capability sys None loc tags max_cost max_tokens stream None nd
    = invoke_single L E M ms capability sys None loc tags max_cost max_tokens nd"
proof (rule coordinated.falls_back[OF assms(1) _ assms(2)])
  show "\<not> session_ready SE reg own best" using assms(3) by (intro not_ready) blast
qed

text \<open>In the example the best configuration of the catalog is a distributed one and this device has not reported llama-server.\<close>

theorem unready_session_falls_back_witness:
  "\<exists>M. node_invoke demo_hh_lib demo_env M [demo_question] ''text.qa'' None None LOCAL_ONLY None ''free'' 4096 False None
       (demo_node\<lparr>nd_registry := demo_registry\<rparr>)
     = invoke_single demo_hh_lib demo_env M [demo_question] ''text.qa'' None None LOCAL_ONLY None ''free'' 4096
       (demo_node\<lparr>nd_registry := demo_registry\<rparr>)"
proof -
  let ?nd = "demo_node\<lparr>nd_registry := demo_registry\<rparr>"
  let ?SE = "\<lparr>se_peer = (\<lambda>d. None), se_sends = (\<lambda>d. True), se_reports = (\<lambda>d. True), se_server = (\<lambda>c. True), se_share = (\<lambda>r. [])\<rparr>"
  let ?S = "\<lparr>ls_parse = (\<lambda>s. Inr VNone), ls_lines = (\<lambda>m. []), ls_reply = (\<lambda>m. Inr VNone)\<rparr>"
  let ?M = "demo_replies\<lparr>run_session := coordinated_session ?SE ?S demo_registry (self_did ?nd)\<rparr>"
  obtain best where best: "get_best_config (nd_registry ?nd) (invoke_constraints ''text.qa'' LOCAL_ONLY None ''free'')
      (sc_health (nd_scheduler ?nd)) = Some best"
    using demo_best[of "invoke_constraints ''text.qa'' LOCAL_ONLY None ''free''" "sc_health (nd_scheduler ?nd)"] by auto
  have "dget (rg_caps demo_registry) (self_did ?nd) = None"
    by (simp add: demo_registry_fields demo_node_fields self_did_def demo_did_def DID_PREFIX_def)
  then show ?thesis
    by (intro exI[of _ ?M] unready_session_falls_back[OF _ best, where SE = ?SE and S = ?S and reg = demo_registry and own = "self_did ?nd"])
      simp_all
qed

text \<open>
  A setup succeeds exactly when the configuration has a worker (or is not a distributed one), it
  is hosted by this device, and every worker is connected at a known address, takes the setup
  message and reports in time. Otherwise the session is refused and stays inactive.
\<close>

theorem setup_succeeds_iff:
  "(case co_setup SE reg own (new_coordinator cfg) of (co, asked, ok) \<Rightarrow>
     (ok \<longleftrightarrow> (workers_of cfg \<noteq> [] \<or> ic_type cfg \<noteq> ''distributed'')
        \<and> (case find (\<lambda>r. dr_role r = ''host'') (ic_devices cfg) of None \<Rightarrow> True | Some h \<Rightarrow> own = [] \<or> dr_did h = own)
        \<and> list_all (worker_ready SE) (workers_of cfg))
     \<and> co_active co = ok
     \<and> (if ok then asked = map dr_did (workers_of cfg) \<and> co_ready co = asked
          \<and> co_endpoints co = map (endpoint_of SE (new_coordinator cfg)) (workers_of cfg) else co_endpoints co = []))"
proof (cases "list_all (worker_ready SE) (workers_of cfg)")
  case True
  then show ?thesis
    by (auto simp: co_setup_def Let_def setup_workers_ready new_coordinator_def endpoint_of_def split: option.splits)
next
  case False
  have "co_active (fst (setup_workers SE co ws res)) = co_active co \<and> co_endpoints (fst (setup_workers SE co ws res)) = co_endpoints co"
    for co ws res by (induction ws arbitrary: co res) (simp_all add: Let_def case_prod_beta split: option.split)
  moreover obtain co1 asked where "setup_workers SE (new_coordinator cfg) (workers_of cfg) [] = (co1, asked, None)"
    using setup_workers_not_ready[OF False, of "new_coordinator cfg" "[]"] by (metis prod.collapse)
  ultimately have "setup_workers SE (new_coordinator cfg) (workers_of cfg) [] = (co1, asked, None)"
    "\<not> co_active co1" "co_endpoints co1 = []"
    by (metis fst_conv new_coordinator_def coordinator.select_convs)+
  with False show ?thesis
    by (auto simp: co_setup_def Let_def new_coordinator_def split: option.splits)
qed

text \<open>
  A peer chooses the latency this node believes in: the round trip of a probe is taken from the
  time stamp inside the peer's own answer, so for every number there is an answer to the
  pending probe that makes it the measured latency.
\<close>

theorem peer_chooses_latency:
  "handle_probe_response now (msg\<lparr>am_thread := Some probe, am_body := [(''ts'', VFloat (now - wanted / 1000))]\<rparr>) [probe] []
     = ([], [(probe, wanted)])"
  by (simp add: handle_probe_response_def probe_elapsed_def)

text \<open>
  A measured link is plausible: its bandwidth is positive, whatever fails, and a link that cannot
  be probed at all gets the documented defaults.
\<close>

theorem measured_bandwidth_positive:
  "0 < snd (measure_link has_conn payload_size rounds small large)
   \<and> measure_link False payload_size rounds small large = (50, 100) \<and> measure_link True payload_size rounds None large = (50, 100)"
  by (simp add: measure_link_def Let_def split: option.split)

text \<open>
  Streamed tokens come back as conversation: when forwarded tokens were stored in the history of
  a task, resuming it does not go back to the last user turn, as the code intends for trailing
  replies, but sends every token to the model as a message of its own, in the role
  \<open>assistant_chunk\<close>.
\<close>

theorem resume_replays_streamed_tokens:
  assumes "history (nd_store nd) t = map message_to_dict ms @ map (\<lambda>tok. chunk_record tok False) toks" and "toks \<noteq> []"
  shows "resume_task L E M t nd = invoke_default L E M
    (ms @ map (\<lambda>tok. \<lparr>msg_role = ''assistant_chunk'', msg_content = tok, msg_name = None, msg_timestamp = env_now E\<rparr>) toks)
    ''text.qa'' HOUSEHOLD ''paid'' nd"
proof -
  let ?c = "\<lambda>tok. \<lparr>msg_role = ''assistant_chunk'', msg_content = tok, msg_name = None, msg_timestamp = env_now E\<rparr>"
  have c: "message_from_dict (env_now E) (chunk_record tok False) = Inr (?c tok)" for tok
    by (simp add: message_from_dict_def chunk_record_def dict_item_def dgetd_def as_str_def as_opt_str_def as_float_def)
  have r: "dget (chunk_record tok False) ''role'' \<noteq> None" for tok by (simp add: chunk_record_def)
  have f: "filter (\<lambda>b. dget b ''role'' \<noteq> None) (history (nd_store nd) t) = history (nd_store nd) t"
    using r by (auto simp: assms(1) filter_id_conv message_role)
  have m: "mapE (message_from_dict (env_now E)) (map message_to_dict ms @ map (\<lambda>tok. chunk_record tok False) toks) = Inr (ms @ map ?c toks)"
  proof (induction ms)
    case Nil
    show ?case using mapE_map[of toks "message_from_dict (env_now E)" "\<lambda>tok. chunk_record tok False" ?c] c by simp
  qed simp
  have "task_messages (env_now E) t nd = Inr (ms @ map ?c toks)"
    unfolding task_messages_history f unfolding assms(1) by (rule m)
  moreover have "rev (dropWhile (\<lambda>m. msg_role m = ''assistant'') (rev (ms @ map ?c toks))) = ms @ map ?c toks"
    using assms(2) by (cases toks rule: rev_cases) simp_all
  ultimately show ?thesis using assms(2) by (simp add: resume_task_def)
qed

theorem resume_replays_streamed_tokens_witness:
  "resume_task demo_hh_lib demo_env demo_replies ''t''
     (fst (handle_stream_chunk demo_hh_lib demo_conversions demo_env (demo_message\<lparr>am_body := chunk_body ''t'' ''hi'' 0 False\<rparr>) demo_asked))
   = invoke_default demo_hh_lib demo_env demo_replies
       [demo_question, \<lparr>msg_role = ''assistant_chunk'', msg_content = ''hi'', msg_name = None, msg_timestamp = 9\<rparr>] ''text.qa'' HOUSEHOLD ''paid''
       (fst (handle_stream_chunk demo_hh_lib demo_conversions demo_env (demo_message\<lparr>am_body := chunk_body ''t'' ''hi'' 0 False\<rparr>) demo_asked))"
proof -
  let ?nd = "fst (handle_stream_chunk demo_hh_lib demo_conversions demo_env (demo_message\<lparr>am_body := chunk_body ''t'' ''hi'' 0 False\<rparr>) demo_asked)"
  have "history (nd_store ?nd) ''t'' = map message_to_dict [demo_question] @ map (\<lambda>tok. chunk_record tok False) [''hi'']"
    by (simp add: handle_chunk_history demo_asked_fields)
  from resume_replays_streamed_tokens[OF this, of demo_hh_lib demo_env demo_replies] show ?thesis by (simp add: demo_env_def)
qed

end
