(* ===== verification/Profile.thy ===== *)
theory Profile
  imports Router
begin

text \<open>
  \<^verbatim>\<open>scheduler/profile.py\<close>: the health of a device from the readings of psutil, and the periodic
  profiler with its callbacks. The readings are an argument; a sensor the platform lacks reads as
  absent. The lemmas show which reading decides what, and what the scheduler makes of it.
\<close>

subsection \<open>A snapshot\<close>

text \<open>
  Readings: sizes in bytes; the battery with its percentage and whether it is plugged in (\<open>None\<close> of
  the latter: unknown); the temperatures of all sensors; name and speed of every network interface.
\<close>

record readings =
  rd_cpu :: real
  rd_mem_total :: int
  rd_mem_available :: int
  rd_battery :: "(real \<times> bool option) option"
  rd_temps :: "real option list"
  rd_nics :: "(string \<times> int) list"
  rd_darwin :: bool

definition max_temp :: "real option list \<Rightarrow> real" where
  "max_temp ts = foldl (\<lambda>m t. case t of None \<Rightarrow> m | Some x \<Rightarrow> if x > m then x else m) 0 ts"

definition thermal_of :: "real option list \<Rightarrow> string" where
  "thermal_of ts = (let m = max_temp ts in if m > 90 then ''throttled'' else if m > 75 then ''warm'' else ''nominal'')"

definition network_step :: "string \<times> real \<Rightarrow> string \<times> int \<Rightarrow> string \<times> real" where
  "network_step = (\<lambda>(ty, bw) (name, speed).
     (let lname = to_lower name;
          ty1 = (if has_sub lname ''eth'' then ''ethernet''
                 else if has_sub lname ''wi-fi'' \<or> has_sub lname ''wlan'' \<or> has_sub lname ''wifi''
                 then (if ty \<noteq> ''ethernet'' then ''wifi'' else ty) else ty);
          bw1 = (if speed \<noteq> 0 \<and> of_int speed > bw then of_int speed else bw)
      in (ty1, bw1)))"

definition network_of :: "(string \<times> int) list \<Rightarrow> string \<times> real" where
  "network_of nics = foldl network_step (''wifi'', 0) nics"

definition gigabytes :: "int \<Rightarrow> real" where
  "gigabytes n = of_int n / 1024 ^ 3"

text \<open>\<open>None\<close> readings: psutil is not installed.\<close>

definition snapshot :: "did \<Rightarrow> real \<Rightarrow> readings option \<Rightarrow> device_health" where
  "snapshot own now rd =
     (case rd of
        None \<Rightarrow> \<lparr>dh_device_did = own, dh_cpu_percent = 0, dh_ram_available_gb = 4, dh_ram_total_gb = 8, dh_gpu_utilization = 0,
                 dh_vram_available_gb = 0, dh_battery_pct = Some 100, dh_charging = True, dh_thermal = ''nominal'',
                 dh_network_type = ''wifi'', dh_bandwidth_mbps = 50, dh_last_updated = now\<rparr>
      | Some r \<Rightarrow>
          \<lparr>dh_device_did = own, dh_cpu_percent = rd_cpu r, dh_ram_available_gb = gigabytes (rd_mem_available r),
           dh_ram_total_gb = gigabytes (rd_mem_total r), dh_gpu_utilization = 0,
           dh_vram_available_gb = (if rd_darwin r then gigabytes (rd_mem_available r) else 0),
           dh_battery_pct = map_option fst (rd_battery r),
           dh_charging = (case rd_battery r of None \<Rightarrow> True | Some (_, plugged) \<Rightarrow> plugged = Some True),
           dh_thermal = thermal_of (rd_temps r), dh_network_type = fst (network_of (rd_nics r)),
           dh_bandwidth_mbps = snd (network_of (rd_nics r)), dh_last_updated = now\<rparr>)"

subsection \<open>The profiler\<close>

text \<open>
  The state of the profiler; \<open>reported\<close> is what its callbacks were called with, newest first. A
  callback that raises does not stop the others.
\<close>

record profiler =
  pf_did :: did
  pf_running :: bool
  pf_latest :: "device_health option"
  pf_reported :: "device_health list"

definition take_snapshot :: "real \<Rightarrow> readings option \<Rightarrow> profiler \<Rightarrow> profiler" where
  "take_snapshot now rd p =
     (let s = snapshot (pf_did p) now rd in p\<lparr>pf_latest := Some s, pf_reported := s # pf_reported p\<rparr>)"

definition profiler_start :: "real \<Rightarrow> readings option \<Rightarrow> profiler \<Rightarrow> profiler" where
  "profiler_start now rd p = (if pf_running p then p else take_snapshot now rd (p\<lparr>pf_running := True\<rparr>))"

text \<open>One round of the loop, after its sleep of ten seconds.\<close>

definition profiler_tick :: "real \<Rightarrow> readings option \<Rightarrow> profiler \<Rightarrow> profiler" where
  "profiler_tick now rd p = (if \<not> pf_running p then p else take_snapshot now rd p)"

definition profiler_stop :: "profiler \<Rightarrow> profiler" where
  "profiler_stop p = p\<lparr>pf_running := False\<rparr>"

subsection \<open>What decides the health\<close>

lemma max_temp_exceeds: "0 \<le> c \<Longrightarrow> max_temp ts > c \<longleftrightarrow> (\<exists>x. Some x \<in> set ts \<and> x > c)"
proof -
  assume c: "0 \<le> c"
  have "foldl (\<lambda>m t. case t of None \<Rightarrow> m | Some x \<Rightarrow> if x > m then x else m) m ts > c
      \<longleftrightarrow> m > c \<or> (\<exists>x. Some x \<in> set ts \<and> x > c)" for m
    by (induction ts arbitrary: m) (auto split: option.split)
  from this[of 0] c show ?thesis by (simp add: max_temp_def)
qed

definition ether :: "string \<Rightarrow> bool" where
  "ether name \<longleftrightarrow> has_sub (to_lower name) ''eth''"

lemma network_step_type:
  "fst s \<in> {''wifi'', ''ethernet''} \<Longrightarrow>
     fst (network_step s x) = (if fst s = ''ethernet'' \<or> ether (fst x) then ''ethernet'' else ''wifi'')"
  by (cases s; cases x) (auto simp: network_step_def Let_def ether_def)

lemma network_folds:
  "fst s \<in> {''wifi'', ''ethernet''} \<Longrightarrow>
     fst (foldl network_step s nics) = (if fst s = ''ethernet'' \<or> (\<exists>n \<in> fst ` set nics. ether n) then ''ethernet'' else ''wifi'')"
proof (induction nics arbitrary: s)
  case (Cons x nics)
  have "fst (network_step s x) \<in> {''wifi'', ''ethernet''}" using network_step_type[OF Cons.prems, of x] by simp
  from Cons.IH[OF this] network_step_type[OF Cons.prems, of x] show ?case by simp
qed auto

text \<open>
  What the scheduler learns of a device: it is throttled exactly when some sensor reads more than
  90 degrees, which leaves it at most three tenths of its health; its network is \<open>ethernet\<close> exactly
  when the name of some interface contains \<open>eth\<close>, up or down, and \<open>wifi\<close> in every other case.
\<close>

theorem snapshot_decides:
  "(dh_thermal (snapshot own now (Some r)) = ''throttled'' \<longleftrightarrow> (\<exists>x. Some x \<in> set (rd_temps r) \<and> x > 90))
   \<and> ((\<exists>x. Some x \<in> set (rd_temps r) \<and> x > 90) \<longrightarrow> health_score (snapshot own now (Some r)) \<le> 0.3)
   \<and> dh_network_type (snapshot own now (Some r))
      = (if \<exists>n \<in> fst ` set (rd_nics r). ether n then ''ethernet'' else ''wifi'')"
proof -
  have hot: "(\<exists>x. Some x \<in> set (rd_temps r) \<and> x > 90) \<longleftrightarrow> max_temp (rd_temps r) > 90"
    by (simp add: max_temp_exceeds)
  have "health_score (snapshot own now (Some r)) \<le> 0.3" if "max_temp (rd_temps r) > 90"
    using that by (auto simp: health_score_def Let_def snapshot_def thermal_of_def split: option.split)
  then show ?thesis
    using network_folds[of "(''wifi'', 0)" "rd_nics r"]
    unfolding hot by (auto simp: snapshot_def thermal_of_def Let_def network_of_def)
qed

end
