(* ===== verification/Capability.thy ===== *)
theory Capability
  imports Session Profile
begin

text \<open>
  \<^verbatim>\<open>inference/capability.py\<close>: what a device finds out about itself before it reports to its peers: the
  GPU, the binaries of llama.cpp, the model files and the speed of its disk. The machine is an
  argument: a record of what the system calls answer. The measurement of a link, which is in the
  same file, is in \<^theory_text>\<open>Session\<close>. The lemmas show which models a started device offers, when a graphics
  card counts, and how long a disk measurement is kept.
\<close>

subsection \<open>The machine\<close>

text \<open>
  A model file with its path and name, its size in bytes (\<open>None\<close>: \<open>stat\<close> fails) and its first four
  bytes (\<open>None\<close>: opening it fails).
\<close>

record gguf_file =
  gf_path :: string
  gf_name :: string
  gf_size :: "int option"
  gf_magic :: "bytes option"

text \<open>
  The answers: memory in bytes, total and available (\<open>None\<close>: psutil is not installed); the platform;
  \<open>shutil.which\<close>; the return code and output of \<open>nvidia-smi\<close>, or its failure; whether a path is an
  executable file; the model files below a directory in the order of \<open>rglob\<close>, up to an error of it
  (\<open>None\<close>: no such directory); the size of the benchmark file with the time its reading takes
  (\<open>None\<close>: an error on the way); \<open>float\<close> on a text.
\<close>

record machine =
  mc_memory :: "(int \<times> int) option"
  mc_system :: string
  mc_arch :: string
  mc_home :: string
  mc_which :: "string \<Rightarrow> string option"
  mc_smi :: "(int \<times> string) option"
  mc_executable :: "string \<Rightarrow> bool"
  mc_ggufs :: "string \<Rightarrow> gguf_file list option"
  mc_bench :: "(int \<times> real) option"
  mc_float :: "string \<Rightarrow> real result"

subsection \<open>Binaries and the GPU\<close>

definition LLAMA_SERVER_BINS :: "string list" where "LLAMA_SERVER_BINS = [''llama-server'', ''llama-server.exe'']"
definition RPC_SERVER_BINS :: "string list" where "RPC_SERVER_BINS = [''rpc-server'', ''rpc-server.exe'']"

definition common_install_dirs :: "machine \<Rightarrow> string list" where
  "common_install_dirs E = [''/usr/local/bin'', mc_home E @ ''/.local/bin'', mc_home E @ ''/llama.cpp/build/bin'',
     mc_home E @ ''/llama.cpp/build/bin/Release'']"

definition common_model_dirs :: "machine \<Rightarrow> string list" where
  "common_model_dirs E = [mc_home E @ ''/.cache/huggingface'', mc_home E @ ''/models'', mc_home E @ ''/ollama/models'']"

text \<open>On the path first, in the order of the names; then by directory, in each in the order of the names.\<close>

definition find_binary :: "machine \<Rightarrow> string list \<Rightarrow> string option" where
  "find_binary E candidates =
     (case find (\<lambda>n. truthy (mc_which E n)) candidates of
        Some n \<Rightarrow> mc_which E n
      | None \<Rightarrow> find (mc_executable E) (concat (map (\<lambda>d. map (\<lambda>n. d @ ''/'' @ n) candidates) (common_install_dirs E))))"

record gpu =
  gpu_has :: bool
  gpu_label :: string
  gpu_vram_total :: real
  gpu_vram_free :: real
  gpu_backend :: string

definition NO_GPU :: gpu where
  "NO_GPU = \<lparr>gpu_has = False, gpu_label = ''none'', gpu_vram_total = 0, gpu_vram_free = 0, gpu_backend = ''cpu''\<rparr>"

text \<open>The line breaks of \<open>splitlines\<close> among ASCII characters.\<close>

definition line_break :: "char \<Rightarrow> bool" where
  "line_break c \<longleftrightarrow> (of_char c :: nat) \<in> {10, 11, 12, 13, 28, 29, 30}"

definition megabytes_at :: "machine \<Rightarrow> string list \<Rightarrow> nat \<Rightarrow> real result" where
  "megabytes_at E parts i = (if length parts > i then mc_float E (parts ! i) else Inr 0)"

text \<open>The first line of \<open>nvidia-smi\<close>; an error in reading it counts as no answer.\<close>

definition read_smi :: "machine \<Rightarrow> string \<Rightarrow> gpu result" where
  "read_smi E out =
     (let line = takeWhile (\<lambda>c. \<not> line_break c) (strip_space out);
          parts = map strip_space (split_on (CHR '','') line)
      in bindE (megabytes_at E parts 1) (\<lambda>total. bindE (megabytes_at E parts 2) (\<lambda>free.
           Inr \<lparr>gpu_has = True, gpu_label = (case parts of [] \<Rightarrow> ''NVIDIA GPU'' | p # _ \<Rightarrow> p),
                gpu_vram_total = total / 1024, gpu_vram_free = free / 1024, gpu_backend = ''cuda''\<rparr>)))"

definition detect_cuda :: "machine \<Rightarrow> gpu option" where
  "detect_cuda E =
     (if \<not> truthy (mc_which E ''nvidia-smi'') then None
      else case mc_smi E of
          Some (code, out) \<Rightarrow> if code \<noteq> 0 \<or> strip_space out = [] then None
                             else (case read_smi E out of Inr g \<Rightarrow> Some g | Inl _ \<Rightarrow> None)
        | None \<Rightarrow> None)"

definition detect_gpu :: "machine \<Rightarrow> real \<Rightarrow> gpu" where
  "detect_gpu E ram_available =
     (if mc_system E = ''Darwin'' then
        (if has_sub (to_lower (mc_arch E)) ''arm''
         then \<lparr>gpu_has = True, gpu_label = ''Apple Silicon (unified memory)'', gpu_vram_total = ram_available,
               gpu_vram_free = ram_available, gpu_backend = ''metal''\<rparr>
         else NO_GPU)
      else case detect_cuda E of
          Some g \<Rightarrow> g
        | None \<Rightarrow>
            if truthy (mc_which E ''vulkaninfo'')
            then \<lparr>gpu_has = True, gpu_label = ''Vulkan-capable GPU'', gpu_vram_total = 0, gpu_vram_free = 0, gpu_backend = ''vulkan''\<rparr>
            else NO_GPU)"

subsection \<open>Model files\<close>

definition rfind_char :: "char \<Rightarrow> string \<Rightarrow> nat option" where
  "rfind_char c s = (if c \<in> set s then Some (length s - 1 - length (takeWhile (\<lambda>x. x \<noteq> c) (rev s))) else None)"

text \<open>\<open>Path.stem\<close> of a file name.\<close>

definition path_stem :: "string \<Rightarrow> string" where
  "path_stem n = (case rfind_char (CHR ''.'') n of None \<Rightarrow> n | Some i \<Rightarrow> if 0 < i \<and> i < length n - 1 then take i n else n)"

definition parse_gguf_header :: "gguf_file \<Rightarrow> real \<Rightarrow> int \<times> int" where
  "parse_gguf_header f size_gb =
     (case gf_magic f of
        None \<Rightarrow> (estimate_from_size size_gb, 4096)
      | Some m \<Rightarrow> if m \<noteq> encode_str ''GGUF'' then (estimate_from_size size_gb, 4096) else (estimate_from_size size_gb, 4096))"

definition model_of_file :: "did \<Rightarrow> gguf_file \<Rightarrow> int \<Rightarrow> model_info" where
  "model_of_file own f sz =
     (case parse_gguf_header f (gigabytes sz) of (layers, ctx) \<Rightarrow>
       \<lparr>mi_name = path_stem (gf_name f), mi_filename = gf_name f, mi_size_gb = gigabytes sz, mi_path = gf_path f,
        mi_did = own, mi_layer_count = layers, mi_context_window = ctx\<rparr>)"

fun scan_files :: "did \<Rightarrow> string set \<Rightarrow> gguf_file list \<Rightarrow> model_info list" where
  "scan_files own seen [] = []"
| "scan_files own seen (f # fs) =
     (if gf_path f \<in> seen then scan_files own seen fs
      else (case gf_size f of None \<Rightarrow> [] | Some n \<Rightarrow> [model_of_file own f n]) @ scan_files own (insert (gf_path f) seen) fs)"

definition found_files :: "machine \<Rightarrow> string \<Rightarrow> gguf_file list" where
  "found_files E data_dir =
     concat (map (\<lambda>d. case mc_ggufs E d of None \<Rightarrow> [] | Some fs \<Rightarrow> fs) ((data_dir @ ''/models'') # common_model_dirs E))"

definition scan_gguf_models :: "machine \<Rightarrow> string \<Rightarrow> did \<Rightarrow> model_info list" where
  "scan_gguf_models E data_dir own = scan_files own {} (found_files E data_dir)"

subsection \<open>Disk speed\<close>

text \<open>The module's table: path to megabytes per second and the time of the measurement.\<close>

type_synonym disk_cache = "(string \<times> real \<times> real) list"

definition measure_disk_speed :: "machine \<Rightarrow> real \<Rightarrow> string \<Rightarrow> disk_cache \<Rightarrow> disk_cache \<times> real" where
  "measure_disk_speed E now path cache =
     (let fresh = (case mc_bench E of
            None \<Rightarrow> (cache, 100)
          | Some (sz, elapsed) \<Rightarrow>
              let mbps = (of_int sz / (1024 * 1024)) / max elapsed 0.000001 in (dset path (mbps, now) cache, mbps))
      in case dget cache path of
           Some (mbps, since) \<Rightarrow> if now - since < 300 then (cache, mbps) else fresh
         | None \<Rightarrow> fresh)"

subsection \<open>The report of this device\<close>

definition probe_inference_capability :: "machine \<Rightarrow> real \<Rightarrow> did \<Rightarrow> string \<Rightarrow> disk_cache \<Rightarrow> disk_cache \<times> device_capability" where
  "probe_inference_capability E now own data_dir cache =
     (let (ram_total, ram_avail) = (case mc_memory E of Some (t, a) \<Rightarrow> (gigabytes t, gigabytes a) | None \<Rightarrow> (8, 4));
          g = detect_gpu E ram_avail;
          llama_path = find_binary E LLAMA_SERVER_BINS;
          rpc_path = find_binary E RPC_SERVER_BINS;
          models = scan_gguf_models E data_dir own;
          (cache1, disk) = measure_disk_speed E now data_dir cache
      in (cache1,
          \<lparr>dc_did = own, dc_ram_total = ram_total, dc_ram_available = ram_avail, dc_has_gpu = gpu_has g, dc_gpu_name = gpu_label g,
           dc_vram_total = gpu_vram_total g, dc_vram_available = gpu_vram_free g, dc_backend = gpu_backend g,
           dc_disk_read_mbps = disk, dc_llama_cpp_available = (llama_path \<noteq> None \<or> rpc_path \<noteq> None),
           dc_llama_cpp_path = llama_path, dc_rpc_server_path = rpc_path, dc_models = models,
           dc_latency_ms = [], dc_bandwidth_mbps = []\<rparr>))"


subsection \<open>Lemmas\<close>

lemma gigabytes_pos: "0 < gigabytes n \<longleftrightarrow> 0 < n"
  by (simp add: gigabytes_def zero_less_divide_iff)

lemma header_is_not_read: "parse_gguf_header f size_gb = (estimate_from_size size_gb, 4096)"
  by (simp add: parse_gguf_header_def split: option.split)

lemma model_of_file_fields [simp]:
  "mi_did (model_of_file own f n) = own" "mi_path (model_of_file own f n) = gf_path f"
  "mi_size_gb (model_of_file own f n) = gigabytes n" "mi_name (model_of_file own f n) = path_stem (gf_name f)"
  by (simp_all add: model_of_file_def header_is_not_read)

lemma scan_files_mem:
  "m \<in> set (scan_files own seen fs) \<Longrightarrow> \<exists>f n. f \<in> set fs \<and> gf_path f \<notin> seen \<and> gf_size f = Some n \<and> m = model_of_file own f n"
proof (induction own seen fs rule: scan_files.induct)
  case (2 own seen g fs)
  show ?case
  proof (cases "gf_path g \<in> seen")
    case True
    with 2 show ?thesis by fastforce
  next
    case False
    then have "m \<in> set (scan_files own (insert (gf_path g) seen) fs) \<or> (\<exists>n. gf_size g = Some n \<and> m = model_of_file own g n)"
      using "2.prems" by (cases "gf_size g") auto
    with "2.IH"(2)[OF False] False show ?thesis by fastforce
  qed
qed simp

lemma scan_files_complete:
  assumes "inj_on gf_path (set fs)"
  shows "f \<in> set fs \<Longrightarrow> gf_path f \<notin> seen \<Longrightarrow> gf_size f = Some n \<Longrightarrow> model_of_file own f n \<in> set (scan_files own seen fs)"
  using assms
proof (induction own seen fs rule: scan_files.induct)
  case (2 own seen g fs)
  have i: "inj_on gf_path (set fs)" using "2.prems"(4) by (simp add: inj_on_def)
  show ?case
  proof (cases "gf_path f = gf_path g")
    case True
    then have "f = g" using "2.prems"(1,4) by (auto simp: inj_on_def)
    then show ?thesis using "2.prems" by simp
  next
    case False
    then have "f \<in> set fs" using "2.prems"(1) by auto
    then show ?thesis using "2.IH" "2.prems"(2,3) i False by (cases "gf_path g \<in> seen") auto
  qed
qed simp

lemma scan_files_distinct: "distinct (map mi_path (scan_files own seen fs))"
proof (induction own seen fs rule: scan_files.induct)
  case (2 own seen f fs)
  have "gf_path f \<notin> mi_path ` set (scan_files own (insert (gf_path f) seen) fs)"
    using scan_files_mem[of _ own "insert (gf_path f) seen" fs] by fastforce
  with 2 show ?case by (auto split: option.split)
qed simp

lemma probe_fields [simp]:
  "dc_did (snd (probe_inference_capability E now own dir cache)) = own"
  "dc_models (snd (probe_inference_capability E now own dir cache)) = scan_gguf_models E dir own"
  "dc_latency_ms (snd (probe_inference_capability E now own dir cache)) = []"
  by (simp_all add: probe_inference_capability_def case_prod_beta Let_def)

lemma probe_report_ok:
  assumes "\<forall>f \<in> set (found_files E dir). \<forall>n. gf_size f = Some n \<longrightarrow> 0 < n"
  shows "report_ok own (snd (probe_inference_capability E now own dir cache))"
  using scan_files_mem[of _ own "{}" "found_files E dir"] assms
  by (fastforce simp: report_ok_def scan_gguf_models_def gigabytes_pos)

text \<open>The models of one device in an empty catalog: of each name the last.\<close>

definition last_of_name :: "model_info \<Rightarrow> model_info list \<Rightarrow> bool" where
  "last_of_name m ms \<longleftrightarrow> (\<exists>before after. ms = before @ m # after \<and> mi_name m \<notin> mi_name ` set after)"

lemma registered_names:
  assumes "\<forall>m \<in> set ms. mi_did m = own" and "rg_models r = []"
  shows "dget (rg_models (fold register_no_recompute ms r)) n = map_option (\<lambda>m. [m]) (find (\<lambda>m. mi_name m = n) (rev ms))"
  using assms(1)
proof (induction ms arbitrary: n rule: rev_induct)
  case (snoc m ms)
  let ?old = "find (\<lambda>x. mi_name x = mi_name m) (rev ms)"
  have "x \<in> set ms" if "?old = Some x" for x
    using that nth_mem[of _ "rev ms"] by (auto simp: find_Some_iff)
  then have "drop_device (mi_did m) (dgetd (rg_models (fold register_no_recompute ms r)) (mi_name m) []) = []"
    using snoc by (auto simp: dgetd_def drop_device_def split: option.split)
  then have "rg_models (fold register_no_recompute (ms @ [m]) r) = dset (mi_name m) [m] (rg_models (fold register_no_recompute ms r))"
    by (simp add: register_no_recompute_def[of m])
  with snoc show ?case by auto
qed (simp add: assms(2))

lemma find_rev_last: "find (\<lambda>x. mi_name x = n) (rev ms) = Some m \<longleftrightarrow> mi_name m = n \<and> last_of_name m ms"
proof (induction ms rule: rev_induct)
  case (snoc x ms)
  have "last_of_name m (ms @ [x]) \<longleftrightarrow> m = x \<or> mi_name m \<noteq> mi_name x \<and> last_of_name m ms"
  proof
    assume "last_of_name m (ms @ [x])"
    then obtain b a where "ms @ [x] = b @ m # a" "mi_name m \<notin> mi_name ` set a" by (auto simp: last_of_name_def)
    then show "m = x \<or> mi_name m \<noteq> mi_name x \<and> last_of_name m ms"
      by (cases a rule: rev_cases) (auto simp: last_of_name_def)
  next
    assume "m = x \<or> mi_name m \<noteq> mi_name x \<and> last_of_name m ms"
    then show "last_of_name m (ms @ [x])"
    proof
      assume "mi_name m \<noteq> mi_name x \<and> last_of_name m ms"
      then obtain b a where "ms = b @ m # a" "mi_name m \<notin> mi_name ` set a" "mi_name m \<noteq> mi_name x" by (auto simp: last_of_name_def)
      then show ?thesis unfolding last_of_name_def by (intro exI[of _ b] exI[of _ "a @ [x]"]) simp
    next
      assume "m = x"
      then show ?thesis unfolding last_of_name_def by (intro exI[of _ ms] exI[of _ "[]"]) simp
    qed
  qed
  with snoc show ?case by auto
qed (simp add: last_of_name_def)

lemma scanned_catalog:
  assumes "catalog_ok (fold register_no_recompute ms r)" "\<forall>m \<in> set ms. mi_did m = own" "rg_models r = []"
  shows "m \<in> set (all_models (fold register_no_recompute ms r)) \<longleftrightarrow> last_of_name m ms"
proof -
  let ?c = "rg_models (fold register_no_recompute ms r)"
  have "distinct (dkeys ?c)" using assms(1) by (simp add: catalog_ok_def)
  then have "m \<in> set (all_models (fold register_no_recompute ms r)) \<longleftrightarrow> (\<exists>n l. dget ?c n = Some l \<and> m \<in> set l)"
    by (auto simp: all_models_mem)
  also have "\<dots> \<longleftrightarrow> (\<exists>n. find (\<lambda>m. mi_name m = n) (rev ms) = Some m)"
    unfolding registered_names[OF assms(2,3)] by (rule iffI; clarsimp; metis list.set_intros(1))
  also have "\<dots> \<longleftrightarrow> last_of_name m ms"
    by (simp add: find_rev_last)
  finally show ?thesis .
qed


lemma probed_catalog:
  assumes "node_start L now hh mandates file (Some cap) = (hh1, Inr nd)" and "report_ok (or_empty (hh_device_did hh1)) cap"
    and "dc_latency_ms cap = []"
  shows "c \<in> set (rg_configs (nd_registry nd)) \<longleftrightarrow>
    (\<exists>m. last_of_name m (dc_models cap) \<and> mi_size_gb m \<le> usable_memory cap \<and> c = build_local_config cap m)"
proof -
  let ?own = "or_empty (hh_device_did hh1)"
  let ?r0 = "new_registry None\<lparr>rg_caps := dset ?own cap (rg_caps (new_registry None))\<rparr>"
  let ?r = "fold register_no_recompute (dc_models cap) ?r0"
  have d: "\<forall>m \<in> set (dc_models cap). mi_did m = ?own" using assms(2) by (auto simp: report_ok_def)
  have "catalog_ok (new_registry None)" by (simp add: catalog_ok_def new_registry_def all_models_def)
  from update_catalog[OF this assms(2)] have ok: "catalog_ok ?r" .
  have u: "update_device ?own cap (new_registry None) = compute_configs ?r" by (simp add: update_device_def)
  note s = compute_configs_in_sync[OF ok]
  have "nd_registry nd = fst (compute_configs ?r)"
    using assms(1) s by (auto simp: node_start_def u Let_def split: prod.splits sum.splits)
  then have "set (rg_configs (nd_registry nd)) = {c. \<exists>m \<in> set (all_models ?r). feasible [(?own, cap)] m c}"
    using s by (simp add: in_sync_def all_models_def new_registry_def)
  moreover have "m \<in> set (all_models ?r) \<longleftrightarrow> last_of_name m (dc_models cap)" for m
    using scanned_catalog[OF ok d] by (simp add: new_registry_def)
  moreover have "mi_did m = ?own" if "last_of_name m (dc_models cap)" for m
    using that d by (auto simp: last_of_name_def)
  ultimately show ?thesis by (auto simp: feasible_def)
qed

lemma cuda_memory:
  assumes "mc_system E \<noteq> ''Darwin''" "detect_cuda E = Some g" "0 < gpu_vram_free g"
  shows "usable_memory (snd (probe_inference_capability E now own dir cache)) = gpu_vram_free g"
proof -
  have "gpu_has g" using assms(2)
    by (auto simp: detect_cuda_def read_smi_def Let_def bindE_eq_Inr_iff split: if_splits option.splits prod.splits sum.splits)
  with assms show ?thesis
    by (simp add: probe_inference_capability_def case_prod_beta Let_def usable_memory_def detect_gpu_def)
qed

subsection \<open>Properties\<close>

text \<open>
  The scan lists every readable model file below the directories exactly once, however the
  directories overlap, under the name of the file without its extension and with this device
  as its host; what the header of the file says plays no part.
\<close>

theorem scan_lists_files_once:
  assumes "inj_on gf_path (set (found_files E dir))"
  shows "distinct (map mi_path (scan_gguf_models E dir own))
    \<and> set (scan_gguf_models E dir own)
      = {\<lparr>mi_name = path_stem (gf_name f), mi_filename = gf_name f, mi_size_gb = gigabytes n, mi_path = gf_path f, mi_did = own,
           mi_layer_count = estimate_from_size (gigabytes n), mi_context_window = 4096\<rparr> |f n.
         f \<in> set (found_files E dir) \<and> gf_size f = Some n}"
proof -
  have "set (scan_gguf_models E dir own) = {model_of_file own f n |f n. f \<in> set (found_files E dir) \<and> gf_size f = Some n}"
    using scan_files_mem[of _ own "{}" "found_files E dir"] scan_files_complete[OF assms, of _ "{}" _ own]
    unfolding scan_gguf_models_def by (intro set_eqI iffI; clarsimp; blast)
  then show ?thesis
    using scan_files_distinct by (simp add: scan_gguf_models_def model_of_file_def header_is_not_read)
qed


text \<open>A machine with 64 GB of memory and one model of 5 GB, with and without a card of 2 GB.\<close>

definition demo_machine :: "string option \<Rightarrow> machine" where
  "demo_machine smi = \<lparr>mc_memory = Some (64 * 1024 ^ 3, 60 * 1024 ^ 3), mc_system = ''Linux'', mc_arch = ''x86_64'', mc_home = ''/h'',
     mc_which = (\<lambda>n. if n = ''nvidia-smi'' \<and> smi \<noteq> None then Some ''/usr/bin/nvidia-smi'' else None),
     mc_smi = map_option (\<lambda>out. (0, out)) smi, mc_executable = (\<lambda>p. False),
     mc_ggufs = (\<lambda>d. if d = ''/h/models'' then Some [\<lparr>gf_path = ''/h/models/m.gguf'', gf_name = ''m.gguf'',
       gf_size = Some (5 * 1024 ^ 3), gf_magic = None\<rparr>] else None),
     mc_bench = None, mc_float = (\<lambda>s. if s = ''2048'' then Inr 2048 else Inl (ValueError ''could not convert string to float''))\<rparr>"

lemma demo_machine_files [simp]:
  "found_files (demo_machine smi) ''/d'' = [\<lparr>gf_path = ''/h/models/m.gguf'', gf_name = ''m.gguf'', gf_size = Some (5 * 1024 ^ 3), gf_magic = None\<rparr>]"
  by (simp add: found_files_def demo_machine_def common_model_dirs_def)

theorem scan_lists_files_once_witness:
  "map mi_name (scan_gguf_models (demo_machine None) ''/d'' ''did:key:a'') = [''m'']
   \<and> distinct (map mi_path (scan_gguf_models (demo_machine None) ''/d'' ''did:key:a''))"
proof -
  have "inj_on gf_path (set (found_files (demo_machine None) ''/d''))" by simp
  from scan_lists_files_once[OF this] show ?thesis
    by (simp add: scan_gguf_models_def path_stem_def rfind_char_def)
qed

lemma demo_model_found:
  "scan_gguf_models (demo_machine smi) ''/d'' own = [model_of_file own \<lparr>gf_path = ''/h/models/m.gguf'', gf_name = ''m.gguf'',
     gf_size = Some (5 * 1024 ^ 3), gf_magic = None\<rparr> (5 * 1024 ^ 3)]"
  by (simp add: scan_gguf_models_def)




text \<open>
  On a machine with a card of NVIDIA that \<open>nvidia-smi\<close> reports, only the free memory of the card
  counts, so a device with plenty of memory and a small card offers less than the same device
  without it: a model that fits into its memory but not into the card is not offered, and becomes
  offered when the card is taken out.
\<close>

theorem small_card_hides_memory:
  assumes "mc_system E \<noteq> ''Darwin''" and "detect_cuda E = Some g" and "0 < gpu_vram_free g"
    and "mc_memory E = Some (ram, avail)" and "mc_system E' = mc_system E" "mc_memory E' = mc_memory E"
    and "detect_cuda E' = None" "\<not> truthy (mc_which E' ''vulkaninfo'')"
    and "gpu_vram_free g < mi_size_gb m" "mi_size_gb m \<le> gigabytes avail"
  shows "usable_memory (snd (probe_inference_capability E t own dir cache)) < mi_size_gb m
    \<and> mi_size_gb m \<le> usable_memory (snd (probe_inference_capability E' t own dir cache))"
proof -
  have "usable_memory (snd (probe_inference_capability E' t own dir cache)) = gigabytes avail"
    using assms(1,4-8) by (simp add: probe_inference_capability_def case_prod_beta Let_def usable_memory_def detect_gpu_def NO_GPU_def)
  with cuda_memory[OF assms(1-3)] assms(9,10) show ?thesis by simp
qed

lemma demo_card: "detect_cuda (demo_machine (Some ''RTX, 2048, 2048'')) =
    Some \<lparr>gpu_has = True, gpu_label = ''RTX'', gpu_vram_total = 2, gpu_vram_free = 2, gpu_backend = ''cuda''\<rparr>"
  by (simp add: detect_cuda_def demo_machine_def read_smi_def Let_def megabytes_at_def strip_space_def ascii_space_def
      line_break_def truthy_def)

theorem small_card_hides_memory_witness:
  "usable_memory (snd (probe_inference_capability (demo_machine (Some ''RTX, 2048, 2048'')) 0 ''d'' ''/d'' [])) < 5
   \<and> 5 \<le> usable_memory (snd (probe_inference_capability (demo_machine None) 0 ''d'' ''/d'' []))"
proof -
  let ?m = "model_of_file ''d'' \<lparr>gf_path = [], gf_name = [], gf_size = None, gf_magic = None\<rparr> (5 * 1024 ^ 3)"
  have "detect_cuda (demo_machine None) = None" "\<not> truthy (mc_which (demo_machine None) ''vulkaninfo'')"
    by (simp_all add: detect_cuda_def demo_machine_def truthy_def)
  from small_card_hides_memory[OF _ demo_card _ _ _ _ this, of "64 * 1024 ^ 3" "60 * 1024 ^ 3" ?m 0 "''d''" "''/d''" "[]"]
  show ?thesis by (simp add: demo_machine_def gigabytes_def)
qed

text \<open>
  A disk measurement is kept for 300 seconds, whatever the disk does meanwhile, and no longer; a
  measurement that failed is not kept, and a kept one is never negative.
\<close>

theorem disk_speed_is_kept:
  assumes "mc_bench E = Some (sz, elapsed)" and "dget cache path = None"
  shows "snd (measure_disk_speed E' later path (fst (measure_disk_speed E now path cache)))
      = (if later - now < 300 then snd (measure_disk_speed E now path cache)
         else (case mc_bench E' of None \<Rightarrow> 100 | Some (sz', el) \<Rightarrow> of_int sz' / (1024 * 1024) / max el 0.000001))
    \<and> (0 \<le> sz \<longrightarrow> 0 \<le> snd (measure_disk_speed E now path cache))
    \<and> (mc_bench E' = None \<longrightarrow> fst (measure_disk_speed E' now path cache) = cache)"
  using assms by (auto simp: measure_disk_speed_def Let_def split: option.split)

theorem disk_speed_is_kept_witness:
  "snd (measure_disk_speed (demo_machine None\<lparr>mc_bench := Some (1, 9)\<rparr>) 1200 ''/d''
      (fst (measure_disk_speed (demo_machine None\<lparr>mc_bench := Some (5242880, 0.5)\<rparr>) 1000 ''/d'' []))) = 10"
  using disk_speed_is_kept[of "demo_machine None\<lparr>mc_bench := Some (5242880, 0.5)\<rparr>" 5242880 "0.5" "[]" "''/d''"
      "demo_machine None\<lparr>mc_bench := Some (1, 9)\<rparr>" 1200 1000]
  by (simp add: measure_disk_speed_def)

end
