(* ===== verification/Cli.thy ===== *)
theory Cli
  imports Adapters Mandates Capability
begin

text \<open>
  The commands of \<^verbatim>\<open>cli/main.py\<close>. Every command is a process of its own: it opens the files of the data
  directory, works on objects in its memory, prints, and ends. A directory is given as a household
  whose files are read; what a command leaves behind are the files of the household it ends with.
\<close>

subsection \<open>Commands on the household\<close>

datatype 'a printed = NotInitialized | Raises py_error | Prints 'a

text \<open>Open the household of the directory, give up when there is none, load it.\<close>

definition with_household ::
    "('k, 'z) key_lib_scheme \<Rightarrow> real \<Rightarrow> 'k household \<Rightarrow> ('k household \<Rightarrow> 'k household \<times> 'a result)
      \<Rightarrow> 'k household \<times> 'a printed" where
  "with_household L now dir act =
     (let h = reopen dir in
      if file_manifest h = None then (h, NotInitialized)
      else (case andThen (hh_load L now h) (\<lambda>_. act) of (h1, Inl e) \<Rightarrow> (h1, Raises e) | (h1, Inr x) \<Rightarrow> (h1, Prints x)))"

text \<open>\<open>pair --invite\<close>: the offer of five minutes.\<close>

definition pair_invite ::
    "('k, 'z) key_lib_scheme \<Rightarrow> real \<Rightarrow> nat list \<Rightarrow> 'k household \<Rightarrow> 'k household \<times> string printed" where
  "pair_invite L now draws dir =
     with_household L now dir (\<lambda>h. andThen (hh_start_pairing L now draws 300 h) (\<lambda>offer h1. (h1, Inr (of_code offer))))"

text \<open>\<open>agents\<close>: one row per agent.\<close>

definition agent_row :: "agent_record \<Rightarrow> string list" where
  "agent_row a = [ag_name a, ag_vendor a, or_empty (ag_model a), ag_locality a, ag_cost_class a, join_with '', '' (ag_capabilities a)]"

definition agents_command :: "('k, 'z) key_lib_scheme \<Rightarrow> real \<Rightarrow> 'k household \<Rightarrow> 'k household \<times> string list list printed" where
  "agents_command L now dir = with_household L now dir (\<lambda>h. (h, Inr (map (agent_row \<circ> snd) (hh_agents h))))"

text \<open>\<open>household\<close>: a line per device, and under each the lines of the agents.\<close>

definition device_line :: "device_record \<Rightarrow> string" where
  "device_line d = (if dv_is_self d then ''*'' else '' '') @ '' '' @ dv_name d @ '' ['' @ dv_platform d @ ''] '' @ take 24 (dv_did d) @ ''...''"

definition agent_line :: "agent_record \<Rightarrow> string" where
  "agent_line a = ag_name a @ '' ('' @ ag_vendor a @ ''/'' @ or_empty (ag_model a) @ '') - '' @ join_with '', '' (ag_capabilities a)"

definition household_command ::
    "('k, 'z) key_lib_scheme \<Rightarrow> real \<Rightarrow> 'k household \<Rightarrow> 'k household \<times> (string \<times> string list) list printed" where
  "household_command L now dir =
     with_household L now dir (\<lambda>h. (h, Inr (map (\<lambda>(_, d). (device_line d, map (agent_line \<circ> snd) (hh_agents h))) (hh_devices h))))"

text \<open>\<open>mandate\<close>: nothing for no mandates, or a row per mandate.\<close>

definition mandate_row :: "mandate \<Rightarrow> string list" where
  "mandate_row m = [md_name m, if md_is_default m then ''yes'' else [], join_with '','' (md_when_tags m), or_empty (md_when_time m),
     or_empty (md_enforce_locality m), or_empty (md_enforce_cost_class m)]"

subsection \<open>Founding and status\<close>

text \<open>\<open>init\<close>: the household of the directory is founded and saved.\<close>

definition init_command ::
    "('k, 'z) key_lib_scheme \<Rightarrow> real \<Rightarrow> string \<Rightarrow> (nat \<Rightarrow> nat \<Rightarrow> int) \<Rightarrow> 'k \<Rightarrow> 'k \<Rightarrow> string \<Rightarrow> string \<Rightarrow> 'k household
      \<Rightarrow> 'k household \<times> (did \<times> did) result" where
  "init_command L now nnc rnd root_key dev_key name platform dir =
     hh_initialize L now nnc rnd root_key dev_key (reopen dir) name platform"

text \<open>
  The description of the machine: what \<open>platform\<close>, \<open>socket\<close> and \<open>sys\<close> tell, psutil's counts (a \<open>None\<close> memory:
  psutil is not installed), total and free bytes of the disk.
\<close>

record machine_facts =
  mf_system :: string
  mf_version :: string
  mf_arch :: string
  mf_processor :: string
  mf_hostname :: string
  mf_python :: string
  mf_cores :: "int option"
  mf_threads :: "int option"
  mf_memory :: "int option"
  mf_disk :: "(int \<times> int) option"

definition static_info :: "machine_facts \<Rightarrow> dict" where
  "static_info m =
     (case mf_memory m of
        None \<Rightarrow> [(''platform'', VStr (to_lower (mf_system m))), (''platform_version'', VStr (mf_version m)), (''arch'', VStr (mf_arch m)),
          (''cpu_model'', VStr (if mf_processor m = [] then ''unknown'' else mf_processor m)), (''cpu_cores'', VInt 0), (''cpu_threads'', VInt 0),
          (''ram_total_gb'', VFloat 8), (''hostname'', VStr (mf_hostname m)), (''python'', VStr (mf_python m))]
      | Some ram \<Rightarrow> [(''platform'', VStr (to_lower (mf_system m))), (''arch'', VStr (mf_arch m)),
          (''cpu_cores'', VInt (case mf_cores m of None \<Rightarrow> 0 | Some n \<Rightarrow> n)), (''cpu_threads'', VInt (case mf_threads m of None \<Rightarrow> 0 | Some n \<Rightarrow> n)),
          (''ram_total_gb'', VFloat (gigabytes ram)), (''hostname'', VStr (mf_hostname m)), (''python'', VStr (mf_python m))])
     @ (case mf_disk m of None \<Rightarrow> []
        | Some (size_bytes, free_bytes) \<Rightarrow> [(''disk_total_gb'', VFloat (gigabytes size_bytes)), (''disk_free_gb'', VFloat (gigabytes free_bytes))])"

text \<open>\<open>status\<close>: the lines of its panel; \<open>fmt k x\<close> prints \<open>x\<close> with \<open>k\<close> decimals, \<open>repr\<close> a value as Python does.\<close>

definition status_lines ::
    "('k, 'z) lib_scheme \<Rightarrow> (nat \<Rightarrow> real \<Rightarrow> string) \<Rightarrow> (pyval \<Rightarrow> string) \<Rightarrow> dict \<Rightarrow> device_health \<Rightarrow> 'k household \<Rightarrow> string list result" where
  "status_lines L fmt repr static snap h =
     (if \<not> truthy (hh_root_did h) then Inl (RuntimeError ''Household not initialized'')
      else let field = (\<lambda>k. repr (dgetd static k VNone)) in Inr
       [''User root DID:   '' @ or_empty (hh_root_did h), ''Device DID:      '' @ repr (opt_str (hh_device_did h)),
        ''Household tag:   '' @ household_tag L (or_empty (hh_root_did h)),
        ''Devices in mesh: '' @ show_nat (length (hh_devices h)), ''Agents:          '' @ show_nat (length (hh_agents h)), [],
        ''Platform:        '' @ field ''platform'' @ '' / '' @ field ''arch'',
        ''CPU:             '' @ field ''cpu_cores'' @ ''c / '' @ field ''cpu_threads'' @ ''t - load '' @ fmt 0 (dh_cpu_percent snap) @ ''%'',
        ''RAM:             '' @ fmt 1 (dh_ram_available_gb snap) @ '' GB free / '' @ fmt 1 (dh_ram_total_gb snap) @ '' GB'',
        ''Battery:         '' @ (case dh_battery_pct snap of None \<Rightarrow> ''n/a (plugged)'' | Some b \<Rightarrow> repr (VFloat b)),
        ''Thermal:         '' @ dh_thermal snap])"

definition status_command ::
    "('k, 'z) key_lib_scheme \<Rightarrow> real \<Rightarrow> (nat \<Rightarrow> real \<Rightarrow> string) \<Rightarrow> (pyval \<Rightarrow> string) \<Rightarrow> machine_facts \<Rightarrow> readings option \<Rightarrow> 'k household
      \<Rightarrow> 'k household \<times> string list printed" where
  "status_command L now fmt repr box rd dir =
     with_household L now dir (\<lambda>h. (h, status_lines L fmt repr (static_info box) (snapshot (or_empty (hh_device_did h)) now rd) h))"

subsection \<open>The memory command\<close>

datatype memory_output = Listed "string list" | Shown pyval | WasSet

text \<open>
  A store of the command's own on the file of the directory; \<open>parse\<close> is the JSON reader, a text it
  rejects is taken as it is. The result has the file the command leaves.
\<close>

definition memory_command ::
    "('k, 'z) lib_scheme \<Rightarrow> real \<Rightarrow> (string \<Rightarrow> pyval option) \<Rightarrow> did \<Rightarrow> snapshot option \<Rightarrow> string \<Rightarrow> string option \<Rightarrow> bool
      \<Rightarrow> snapshot option \<times> memory_output result" where
  "memory_command L now parse own file key value list_keys =
     (let st = load own True file in
      if list_keys then (disk st, Inr (Listed (store_keys now st key)))
      else (case value of
          None \<Rightarrow> (let (st1, v) = store_get now st key in (disk st1, Inr (Shown v)))
        | Some txt \<Rightarrow>
            (case store_set L now st key (case parse txt of None \<Rightarrow> VStr txt | Some v \<Rightarrow> v) None None of
               (st1, Inl e) \<Rightarrow> (disk st1, Inl e)
             | (st1, Inr _) \<Rightarrow> (disk st1, Inr WasSet))))"


subsection \<open>Registering an agent and using it\<close>

text \<open>The node of a command that is not started: only its household is set.\<close>

definition bare_node :: "'k household \<Rightarrow> 'k node" where
  "bare_node h =
     \<lparr>nd_household = h, nd_scheduler = new_scheduler None [], nd_store = load [] False None, nd_registry = new_registry None,
      nd_local_cap = None, nd_adapters = [], nd_chains = [], nd_events = [], nd_waiting = [], nd_ready = [], nd_rpc = [], nd_ended = []\<rparr>"

text \<open>\<open>register\<close>: nothing is registered when the endpoint of a custom vendor is missing.\<close>

definition register_command ::
    "('k, 'z) key_lib_scheme \<Rightarrow> real \<Rightarrow> string \<Rightarrow> 'k \<Rightarrow> string \<Rightarrow> string \<Rightarrow> string option \<Rightarrow> string option \<Rightarrow> string option
      \<Rightarrow> 'k household \<Rightarrow> 'k household \<times> agent_record option printed" where
  "register_command L now nnc key vendor model api_key api_base name dir =
     (case register_adapter vendor model api_key api_base of
        None \<Rightarrow> (reopen dir, Prints None)
      | Some a \<Rightarrow> with_household L now dir (\<lambda>h.
          case node_register_agent L now nnc key (bare_node h) (capabilities_of a) name of
            (nd, Inl e) \<Rightarrow> (nd_household nd, Inl e) | (nd, Inr rec) \<Rightarrow> (nd_household nd, Inr (Some rec))))"

text \<open>The commands that start a node of their own on the directory; \<open>start\<close> then serves until it is stopped.\<close>

definition start_command ::
    "('k, 'z) key_lib_scheme \<Rightarrow> real \<Rightarrow> mandate list \<Rightarrow> snapshot option \<Rightarrow> device_capability option \<Rightarrow> 'k household
      \<Rightarrow> 'k household \<times> 'k node result" where
  "start_command L now mandates file probe dir = node_start L now (reopen dir) mandates file probe"

definition on_started :: "'k household \<times> 'k node result \<Rightarrow> ('k node \<Rightarrow> 'k node \<times> 'a result) \<Rightarrow> 'k node option \<times> 'a result" where
  "on_started s act =
     (case s of (h, Inl e) \<Rightarrow> (None, Inl e) | (h, Inr nd) \<Rightarrow> (case act nd of (nd1, r) \<Rightarrow> (Some nd1, r)))"

definition resume_command ::
    "('k, 'z) key_lib_scheme \<Rightarrow> env \<Rightarrow> models \<Rightarrow> mandate list \<Rightarrow> snapshot option \<Rightarrow> device_capability option \<Rightarrow> string \<Rightarrow> 'k household
      \<Rightarrow> 'k node option \<times> invoke_response result" where
  "resume_command L E M mandates file probe task dir =
     on_started (start_command L (env_now E) mandates file probe dir) (resume_task L E M task)"

definition user_message :: "env \<Rightarrow> string \<Rightarrow> chat_message" where
  "user_message E s = \<lparr>msg_role = ''user'', msg_content = s, msg_name = None, msg_timestamp = env_now E\<rparr>"

text \<open>\<open>invoke --no-stream\<close>: the adapters are rebuilt first.\<close>

definition invoke_command ::
    "('k, 'z) key_lib_scheme \<Rightarrow> env \<Rightarrow> models \<Rightarrow> mandate list \<Rightarrow> snapshot option \<Rightarrow> device_capability option \<Rightarrow> string \<Rightarrow> string
      \<Rightarrow> string option \<Rightarrow> locality \<Rightarrow> string list \<Rightarrow> 'k household \<Rightarrow> 'k node option \<times> invoke_response result" where
  "invoke_command L E M mandates file probe message capability sys loc tags dir =
     on_started (start_command L (env_now E) mandates file probe dir) (\<lambda>nd.
       node_invoke L E M [user_message E message] capability sys None loc (if tags = [] then None else Some tags)
         ''paid'' 4096 False None (reattach_adapters nd))"

text \<open>\<open>invoke --stream\<close>: what is printed are the tokens.\<close>

definition invoke_stream_command ::
    "('k, 'z) key_lib_scheme \<Rightarrow> env \<Rightarrow> stream_models \<Rightarrow> mandate list \<Rightarrow> snapshot option \<Rightarrow> device_capability option \<Rightarrow> string \<Rightarrow> string
      \<Rightarrow> string option \<Rightarrow> locality \<Rightarrow> string list \<Rightarrow> 'k household \<Rightarrow> 'k node option \<times> (string list \<times> unit result) result" where
  "invoke_stream_command L E M mandates file probe message capability sys loc tags dir =
     on_started (start_command L (env_now E) mandates file probe dir) (\<lambda>nd.
       case node_invoke_stream L E M [user_message E message] capability sys None loc (if tags = [] then None else Some tags)
              ''paid'' (reattach_adapters nd) of (nd1, toks, r) \<Rightarrow> (nd1, Inr (toks, r)))"

subsection \<open>Inference by model name\<close>

text \<open>
  \<open>_resolve_inference_config\<close> over the catalogs it sees while it waits: the best configuration of
  the first one that has any of the model.
\<close>

fun resolve_inference_config :: "inference_config list list \<Rightarrow> string \<Rightarrow> inference_config option" where
  "resolve_inference_config [] model = None"
| "resolve_inference_config (cs # polls) model =
     (case max_of (\<lambda>c. weighted_score c None) (filter (\<lambda>c. ic_model_name c = model) cs) of
        Some c \<Rightarrow> Some c | None \<Rightarrow> resolve_inference_config polls model)"

text \<open>\<open>inference run\<close>: \<open>None\<close> when there is no configuration; the one found is pinned.\<close>

definition inference_run ::
    "('k, 'z) key_lib_scheme \<Rightarrow> env \<Rightarrow> models \<Rightarrow> inference_config list list \<Rightarrow> string \<Rightarrow> string \<Rightarrow> bool \<Rightarrow> int \<Rightarrow> 'k node
      \<Rightarrow> 'k node \<times> invoke_response result option" where
  "inference_run L E M polls model prompt stream max_tokens nd =
     (case resolve_inference_config polls model of
        None \<Rightarrow> (nd, None)
      | Some best \<Rightarrow>
          (case node_invoke L E M [user_message E prompt] ''text.qa'' None None HOUSEHOLD None ''paid'' max_tokens stream (Some best) nd of
             (nd1, r) \<Rightarrow> (nd1, Some r)))"

subsection \<open>The benchmark\<close>

record bench =
  be_ttft :: real
  be_decode :: real
  be_total :: real
  be_tokens :: real

text \<open>A run: when it started, when each token came, when the stream ended. A run without tokens is excluded.\<close>

definition timed_run :: "real \<times> real list \<times> real \<Rightarrow> bench option" where
  "timed_run run = (case run of (began, tokens, finish) \<Rightarrow>
     (case tokens of
        [] \<Rightarrow> None
      | t1 # rest \<Rightarrow>
          let n = length tokens; decode = finish - t1 in
          Some \<lparr>be_ttft = t1 - began, be_decode = (if n > 1 \<and> decode > 0 then (real n - 1) / decode else 0),
                be_total = finish - began, be_tokens = real n\<rparr>))"

definition timed_runs :: "nat \<Rightarrow> (real \<times> real list \<times> real) list \<Rightarrow> bench list" where
  "timed_runs warmup runs = List.map_filter timed_run (drop warmup runs)"

definition median :: "real list \<Rightarrow> real" where
  "median xs = (let ys = sort xs; n = length ys in
     if odd n then ys ! (n div 2) else (ys ! (n div 2 - 1) + ys ! (n div 2)) / 2)"

definition p95 :: "real list \<Rightarrow> real" where
  "p95 xs = sort xs ! min (nat \<lfloor>real (length xs) * 0.95\<rfloor>) (length xs - 1)"

definition report_runs :: "bench list \<Rightarrow> (string \<times> real \<times> real option) list option" where
  "report_runs records =
     (if records = [] then None
      else let row = (\<lambda>name f. (name, median (map f records), Some (p95 (map f records)))) in
        Some [row ''decode tok/s'' be_decode, row ''TTFT (ms)'' (\<lambda>r. be_ttft r * 1000), row ''total (s)'' be_total,
              (''tokens'', median (map be_tokens records), None)])"

text \<open>
  \<open>inference benchmark --model\<close>: one session for all runs, torn down at the end; \<open>None\<close> when there is no
  configuration or its setup fails. A run that raises ends the benchmark.
\<close>

definition benchmark_session ::
    "session_env \<Rightarrow> llama_server \<Rightarrow> registry \<Rightarrow> did \<Rightarrow> inference_config list list \<Rightarrow> string \<Rightarrow> string \<Rightarrow> nat
      \<Rightarrow> (coordinator \<times> string list list result) option" where
  "benchmark_session SE S reg own polls model prompt runs =
     (case resolve_inference_config polls model of
        None \<Rightarrow> None
      | Some cfg \<Rightarrow>
          (case co_setup SE reg own (new_coordinator cfg) of
             (co, asked, False) \<Rightarrow> None
           | (co, asked, True) \<Rightarrow>
               Some (fst (co_teardown SE co),
                 mapE (\<lambda>i. case generate S co prompt None True of (toks, None) \<Rightarrow> Inr toks | (toks, Some e) \<Rightarrow> Inl e) [0..<runs])))"

text \<open>The checks before a benchmark; an empty text counts as not given.\<close>

definition benchmark_arguments :: "string option \<Rightarrow> string option \<Rightarrow> int \<Rightarrow> bool" where
  "benchmark_arguments model agent runs \<longleftrightarrow> truthy model \<noteq> truthy agent \<and> runs \<ge> 1"

subsection \<open>Connecting by address\<close>

text \<open>\<open>address.rsplit(":", 1)\<close> and \<open>int\<close>; \<open>None\<close> is an abort.\<close>

definition parse_address :: "(string \<Rightarrow> int option) \<Rightarrow> string \<Rightarrow> (string \<times> int) option" where
  "parse_address int_of address =
     (case rfind_char (CHR '':'') address of
        None \<Rightarrow> None
      | Some i \<Rightarrow> map_option (\<lambda>port. (take i address, port)) (int_of (drop (i + 1) address)))"

subsection \<open>Lemmas on the commands\<close>

text \<open>The parts of a household that loading does not change: its files and the pending offer.\<close>

definition kept_parts :: "'k household \<Rightarrow> pairing_offer option \<times> manifest option \<times> dict option \<times> share list" where
  "kept_parts h = (hh_offer h, file_manifest h, file_device_key h, file_shares h)"

lemma kept_parts_upd [simp]:
  "kept_parts (h\<lparr>hh_tokens := a\<rparr>) = kept_parts h" "kept_parts (h\<lparr>hh_membership := b\<rparr>) = kept_parts h"
  "kept_parts (h\<lparr>hh_membership_cid := c\<rparr>) = kept_parts h" "kept_parts (h\<lparr>hh_root_did := b\<rparr>) = kept_parts h"
  "kept_parts (h\<lparr>hh_device_did := b\<rparr>) = kept_parts h" "kept_parts (h\<lparr>hh_device_key := e\<rparr>) = kept_parts h"
  "kept_parts (h\<lparr>hh_devices := f\<rparr>) = kept_parts h" "kept_parts (h\<lparr>hh_agents := g\<rparr>) = kept_parts h"
  "kept_parts (h\<lparr>hh_revocations := i\<rparr>) = kept_parts h"
  by (simp_all add: kept_parts_def)

lemma load_devices_keeps: "kept_parts (fst (load_devices L now rs h)) = kept_parts h"
  by (induction rs arbitrary: h) (auto split: sum.split)

lemma load_agents_keeps: "kept_parts (fst (load_agents L now rs h)) = kept_parts h"
  by (induction rs arbitrary: h) (auto split: sum.split)

lemma load_keeps: "kept_parts (fst (hh_load L now h)) = kept_parts h"
  using load_devices_keeps[of L now] load_agents_keeps[of L now]
  by (simp add: hh_load_def Let_def case_prod_beta split: option.split sum.split)

lemma kept_reopen: "kept_parts h = kept_parts h' \<Longrightarrow> reopen h = reopen h' \<and> hh_offer h = hh_offer h'"
  by (simp add: kept_parts_def reopen_def)

lemma reopen_reopen [simp]: "reopen (reopen h) = reopen h" "hh_offer (reopen h) = None"
  by (simp_all add: reopen_def open_household_def)

lemma started_household:
  assumes "start_command L now mandates file probe dir = (h1, Inr nd0)"
  shows "hh_offer (nd_household nd0) = None" "nd_household nd0 = h1" "nd_adapters nd0 = []"
proof -
  note f = node_start_fields[OF assms[unfolded start_command_def]]
  show "nd_household nd0 = h1" "nd_adapters nd0 = []" by (rule f)+
  show "hh_offer (nd_household nd0) = None"
    using kept_reopen[OF load_keeps[of L now "reopen dir"]] by (simp add: f(1,2))
qed

lemma unoffered_request:
  assumes "hh_offer (nd_household nd) = None"
  shows "\<exists>m. handle_pairing_request L E nnc msg nd = (nd, [m], Inr ()) \<and> am_type m = ''aries/v0.1/agent/error''"
  by (auto simp: handle_pairing_request_def pairing_without_offer[OF assms] Let_def case_prod_beta new_message_def split: sum.split)

lemma invitation_files: "reopen (fst (pair_invite L now draws dir)) = reopen dir"
proof -
  have "reopen (fst (hh_start_pairing L now draws 300 h)) = reopen h" for h :: "'a household"
    by (simp add: hh_start_pairing_def Let_def reopen_def)
  then show ?thesis
    using kept_reopen[OF load_keeps[of L now "reopen dir"]]
    by (simp add: pair_invite_def with_household_def andThen_def Let_def case_prod_beta split: sum.split)
qed


text \<open>What an invocation, a request and an envelope come to on a node without adapters.\<close>

definition unserved :: "'k node \<Rightarrow> bool" where
  "unserved nd \<longleftrightarrow> nd_adapters nd = [] \<and> (\<forall>c \<in> set (rg_configs (nd_registry nd)). ic_type c \<noteq> ''distributed'')"

lemma choose_agent_scheduler: "\<exists>sc r. choose_agent E a tc nd = (nd\<lparr>nd_scheduler := sc\<rparr>, r)"
proof -
  have "\<exists>sc. nd = nd\<lparr>nd_scheduler := sc\<rparr>" by (rule exI[of _ "nd_scheduler nd"]) simp
  then show ?thesis
    by (auto simp: choose_agent_def split: prod.split sum.split option.split)
qed

lemma single_unserved:
  assumes "nd_adapters nd = []"
  shows "\<exists>sc e. invoke_single L E M ms cap sys a loc tags mc mt nd = (nd\<lparr>nd_scheduler := sc\<rparr>, Inl e)"
proof -
  obtain sc r where "choose_agent E a (invoke_constraints cap loc tags mc) nd = (nd\<lparr>nd_scheduler := sc\<rparr>, r)"
    using choose_agent_scheduler by blast
  then show ?thesis using assms by (cases r) (auto simp: invoke_single_def andThen_def invoke_agent_def)
qed

lemma default_unserved:
  assumes "unserved nd"
  shows "\<exists>sc e. invoke_default L E M ms cap loc mc nd = (nd\<lparr>nd_scheduler := sc\<rparr>, Inl e)"
proof -
  have "ic_type best \<noteq> ''distributed''"
    if "get_best_config (nd_registry nd) tc h = Some best" for tc h best
    using max_choice.pick_mem[OF that[unfolded get_best_config_def]] assms by (simp add: unserved_def filter_by_constraints_def)
  then have "invoke_default L E M ms cap loc mc nd = invoke_single L E M ms cap None None loc None mc 4096 nd"
    by (auto simp: invoke_default_def node_invoke_def Let_def split: option.split)
  with single_unserved[of nd] assms show ?thesis by (simp add: unserved_def)
qed

lemma unserved_steps [simp]:
  "unserved (emit_event ty tx nd) = unserved nd" "unserved (add_receipt L k r nd) = unserved nd"
  "unserved (nd\<lparr>nd_store := s\<rparr>) = unserved nd" "unserved (nd\<lparr>nd_chains := c\<rparr>) = unserved nd"
  by (simp_all add: unserved_def emit_event_def add_receipt_def)

lemma unserved_log: "unserved (fst (mem_log_all L now key bs tok nd)) = unserved nd"
  by (induction bs arbitrary: nd) (simp_all add: andThen_def mem_log_def case_prod_beta split: sum.split)

definition no_result :: "aries_message list \<Rightarrow> bool" where
  "no_result ms \<longleftrightarrow> (\<forall>m \<in> set ms. am_type m \<noteq> ''aries/v0.1/agent/result'')"

lemma default_no_result: "unserved nd \<Longrightarrow> snd (invoke_default L E M ms cap loc mc nd) \<noteq> Inr r"
  using default_unserved[of nd L E M ms cap loc mc] by auto

lemma request_unserved:
  assumes "unserved nd"
  shows "no_result (fst (snd (handle_invoke L E M msg nd)))"
  using assms default_no_result[of "emit_event ty tx nd" L E M for ty tx]
  by (auto simp: handle_invoke_def Let_def no_result_def case_prod_beta new_message_def split: sum.split)

lemma resumption_unserved:
  assumes "unserved nd"
  shows "no_result (fst (snd (resume_continuation L E M cont nd)))"
  using assms default_no_result[of nd L E M]
  by (auto simp: resume_continuation_def Let_def no_result_def case_prod_beta new_message_def andThen_def split: sum.split)

lemma envelope_unserved:
  assumes "unserved nd"
  shows "no_result (fst (snd (handle_continuation L E M msg nd)))"
proof -
  have "no_result (fst (snd (accept_continuation L E M key cont nd')))" if u: "unserved nd'" for key cont nd'
    using resumption_unserved[of "add_receipt L key r (fst (mem_log_all L now k bs None (emit_event ty tx nd')))" L E M cont for r now k bs ty tx]
    by (simp add: accept_continuation_def Let_def case_prod_beta unserved_log no_result_def new_message_def u split: sum.split)
  then have "no_result (fst (snd (accept_continuation L E M key cont (nd\<lparr>nd_chains := c\<rparr>))))" for key cont c
    using assms by simp
  then show ?thesis
    by (simp add: handle_continuation_def refuse_continuation_def Let_def new_message_def split: sum.split)
      (simp add: no_result_def)
qed

lemma resume_unserved:
  assumes "unserved nd"
  shows "\<exists>e. snd (resume_task L E M task nd) = Inl e"
proof -
  have "\<exists>e. snd (invoke_default L E M ms cap loc mc nd) = Inl e" for ms cap loc mc
    using default_unserved[OF assms, of L E M ms cap loc mc] by auto
  then show ?thesis by (simp add: resume_task_def split: sum.split)
qed


text \<open>Right after its start a node knows only its own hardware.\<close>

lemma alone_local:
  assumes "model_configs [(own, cap)] m = Inr cs" and "c \<in> set cs"
  shows "ic_type c = ''local''"
  using assms by (auto simp: model_configs_def build_local_config_def Let_def split: option.splits if_splits)

lemma mapE_mem: "mapE f xs = Inr ys \<Longrightarrow> y \<in> set ys \<Longrightarrow> \<exists>x \<in> set xs. f x = Inr y"
  by (induction xs arbitrary: ys) (auto simp: bindE_def split: sum.splits)

lemma reported_alone:
  assumes "c \<in> set (rg_configs (fst (update_device own cap (new_registry None))))"
  shows "ic_type c = ''local''"
proof -
  let ?r = "fold register_no_recompute (dc_models cap) ((new_registry None)\<lparr>rg_caps := [(own, cap)]\<rparr>)"
  have n: "rg_configs (fold register_no_recompute ms r) = rg_configs r" for ms r
    by (induction ms arbitrary: r) (simp_all add: register_no_recompute_def)
  have "rg_caps (new_registry None) = []" "rg_configs (new_registry None) = []" by (simp_all add: new_registry_def)
  with assms obtain css where "mapE (model_configs [(own, cap)]) (all_models ?r) = Inr css" "c \<in> set (concat css)"
    by (auto simp: update_device_def compute_configs_def n split: sum.splits)
  then show ?thesis using mapE_mem[of "model_configs [(own, cap)]"] alone_local by fastforce
qed

lemma started_alone:
  assumes "start_command L now mandates file probe dir = (h1, Inr nd)"
  shows "unserved nd"
proof -
  have "nd_registry nd = new_registry None \<or> (\<exists>own cap. nd_registry nd = fst (update_device own cap (new_registry None)))"
    using assms by (auto simp: start_command_def node_start_def Let_def split: prod.splits sum.splits option.splits) (metis fst_conv)+
  then have "ic_type c \<noteq> ''distributed''" if "c \<in> set (rg_configs (nd_registry nd))" for c
    using that reported_alone[of c] by (auto simp: new_registry_def)
  then show ?thesis using started_household(3)[OF assms] by (simp add: unserved_def)
qed

text \<open>A value the command wrote and the next write of the daemon.\<close>

lemma stored_view:
  assumes "store_inv st" and "persist st" and "store_set L now st key v ttl tok = (st1, Inr e)"
  shows "view t (load d True (disk st1)) = view t st1" "store_inv st1"
    "k \<noteq> normalize_key key \<Longrightarrow> view t st1 k = view t st k"
proof -
  obtain ns path where ns: "from_key key = Inr (ns, path)" "check_optional L now (normalize_key key) tok = Inr ()"
    using assms(1,3) by (auto simp: store_set_eq split: sum.splits)
  have "disk st1 = Some (snapshot_of st1)"
    using assms ns by (auto simp: store_set_eq Let_def save_disk snapshot_of_def split: sum.splits)
  then show "view t (load d True (disk st1)) = view t st1" by (simp add: load_def view_def snapshot_of_def fun_eq_iff)
  show "store_inv st1" using store_set_inv[OF assms(1), of L now key v ttl tok] assms(3) by simp
  assume "k \<noteq> normalize_key key"
  then show "view t st1 k = view t st k"
    using assms ns by (auto simp: store_set_eq Let_def view_def split: sum.splits)
qed

lemma memory_set:
  assumes "memory_command L now parse own file key (Some txt) False = (f, Inr out)"
  obtains st1 e where "store_set L now (load own True file) key (case parse txt of None \<Rightarrow> VStr txt | Some v \<Rightarrow> v) None None = (st1, Inr e)"
    "f = disk st1" "out = WasSet"
  using assms by (auto simp: memory_command_def Let_def split: prod.splits sum.splits)

subsection \<open>Properties\<close>

text \<open>
  C6: the daemon serves no agent. A node that \<open>start\<close> brings up has no adapter in any state it
  reaches by serving: running an agent raises, whatever is asked; and unless a distributed
  configuration is in its catalog, no request and no handed-off task of a peer is answered with a
  result, and no task is resumed.
\<close>

theorem daemon_runs_no_agent:
  assumes "start_command L now mandates file probe dir = (h1, Inr nd0)" and "served L nd0 nd"
    and "hh_device_key h1 = Some k" and "hh_device_did h1 = Some d"
  shows "(\<exists>sc e. invoke_single L E M ms cap sys a loc tags mc mt nd = (nd\<lparr>nd_scheduler := sc\<rparr>, Inl e))
    \<and> ((\<forall>c \<in> set (rg_configs (nd_registry nd)). ic_type c \<noteq> ''distributed'') \<longrightarrow>
         no_result (fst (snd (handle_invoke L E M msg nd))) \<and> no_result (fst (snd (handle_continuation L E M msg nd)))
         \<and> (\<exists>e. snd (resume_task L E M task nd) = Inl e))"
proof -
  have "no_adapter k d nd0" using started_household[OF assms(1)] assms(3,4) by (simp add: no_adapter_def)
  from adapterless.served_keeps[OF assms(2) this] have a: "nd_adapters nd = []" by (simp add: no_adapter_def)
  show ?thesis
    using single_unserved[OF a] request_unserved[of nd] envelope_unserved[of nd] resume_unserved[of nd] a
    by (auto simp: unserved_def)
qed

theorem daemon_runs_no_agent_witness:
  "\<forall>msg. no_result (fst (snd (handle_invoke demo_hh_lib demo_env demo_models msg demo_node)))"
proof -
  obtain h1 where s: "node_start demo_hh_lib 9 (reopen demo_household) [] None None = (h1, Inr demo_node)"
    "hh_device_key h1 = Some False" "hh_device_did h1 = Some (demo_did False)" using demo_node_start by blast
  have "rg_configs (nd_registry demo_node) = []"
    using s(1) by (auto simp: node_start_def new_registry_def Let_def split: prod.splits sum.splits
        dest!: arg_cong[of _ demo_node "\<lambda>nd. rg_configs (nd_registry nd)"])
  then show ?thesis
    using daemon_runs_no_agent[OF s(1)[folded start_command_def] served_started s(2,3)] by auto
qed

text \<open>
  The command \<open>resume\<close> never runs a task: it does not rebuild the adapters, and right after its start,
  before any peer has reported, the node has no distributed configuration either.
\<close>

theorem resume_command_never_runs: "\<exists>e. snd (resume_command L E M mandates file probe task dir) = Inl e"
proof -
  obtain h r where s: "start_command L (env_now E) mandates file probe dir = (h, r)" by (cases "start_command L (env_now E) mandates file probe dir")
  show ?thesis
  proof (cases r)
    case (Inr nd)
    with resume_unserved[OF started_alone[OF s[unfolded Inr]]] s show ?thesis
      by (simp add: resume_command_def on_started_def case_prod_beta)
  qed (simp add: resume_command_def on_started_def s)
qed

text \<open>
  C16: the code that \<open>pair --invite\<close> prints admits nobody: the command leaves the files as they were,
  and a daemon on these files answers every pairing request with an error and keeps its household,
  in every state it reaches, because no operation of a daemon makes an offer.
\<close>

theorem invitation_admits_nobody:
  assumes "start_command L now mandates file probe (fst (pair_invite L before draws dir)) = (h1, Inr nd0)" and "node_reach L nd0 nd"
    and "hh_device_key h1 = Some k" and "hh_device_did h1 = Some d"
  shows "start_command L now mandates file probe dir = (h1, Inr nd0)
    \<and> (\<exists>m. handle_pairing_request L E nnc msg nd = (nd, [m], Inr ()) \<and> am_type m = ''aries/v0.1/agent/error'')"
proof -
  have s: "start_command L now mandates file probe dir = (h1, Inr nd0)"
    using assms(1) by (simp add: start_command_def invitation_files)
  have "no_offer k d nd0" using started_household[OF s] assms(3,4) by (simp add: no_offer_def)
  from unoffered.reach_keeps[OF assms(2) this] have "hh_offer (nd_household nd) = None" by (simp add: no_offer_def)
  with s unoffered_request show ?thesis by blast
qed

theorem invitation_admits_nobody_witness:
  "\<exists>code. snd (pair_invite demo_hh_lib 5 [0, 1, 2, 3, 4, 5] demo_household) = Prints code
     \<and> (\<exists>m. handle_pairing_request demo_hh_lib demo_env ''n''
          (new_message demo_env 0 demo_node ''aries/v0.1/pairing/request'' None
             [(''device_did'', VStr (demo_did True)), (''code'', VStr code)]) demo_node = (demo_node, [m], Inr ())
          \<and> am_type m = ''aries/v0.1/agent/error'')"
proof -
  obtain h1 where s: "node_start demo_hh_lib 9 (reopen demo_household) [] None None = (h1, Inr demo_node)"
    "hh_device_key h1 = Some False" "hh_device_did h1 = Some (demo_did False)" using demo_node_start by blast
  have "start_command demo_hh_lib 9 [] None None (fst (pair_invite demo_hh_lib 5 [0, 1, 2, 3, 4, 5] demo_household)) = (h1, Inr demo_node)"
    using s(1) by (simp add: start_command_def invitation_files)
  note t = invitation_admits_nobody[OF this reach_started s(2,3)]
  obtain h where h: "hh_load demo_hh_lib 5 (reopen demo_household) = (h, Inr ())" "hh_root_did h = hh_root_did demo_household"
    "hh_device_key h = Some False"
    using restart_loads[OF demo_household_reach demo_hh_lib_ok demo_household_facts(1,3)] by blast
  moreover have root: "truthy (hh_root_did demo_household)"
  proof -
    obtain r sh st c where d: "demo_household = founded demo_hh_lib (open_household None None []) True False (demo_did True) r sh st c"
      using demo_founded by blast
    show ?thesis unfolding d by (simp add: founded_fields truthy_def demo_did_def DID_PREFIX_def)
  qed
  ultimately have "\<exists>code. snd (pair_invite demo_hh_lib 5 [0, 1, 2, 3, 4, 5] demo_household) = Prints code"
    using demo_household_facts root
    by (auto simp: pair_invite_def with_household_def andThen_def Let_def hh_start_pairing_def)
  with t show ?thesis by blast
qed

text \<open>
  A value set with \<open>memory\<close> while the daemon runs is written to the file and lost: the daemon never
  reads the file again, and with its next write of any other key it replaces the file by its own
  state, in which the key is as it was before the command.
\<close>

theorem command_write_is_lost:
  assumes "store_inv st" and "persist st"
    and "memory_command L now parse (store_did st) (disk st) key (Some txt) False = (f, Inr WasSet)"
    and "store_set L later (st\<lparr>disk := f\<rparr>) key2 v2 ttl tok = (st2, Inr e)" and "normalize_key key2 \<noteq> normalize_key key"
  shows "view now (load (store_did st) True f) (normalize_key key)
       = (case parse txt of None \<Rightarrow> Some (VStr txt) | Some VNone \<Rightarrow> None | Some v \<Rightarrow> Some v)
    \<and> view t (load (store_did st) True (disk st2)) (normalize_key key) = view t st (normalize_key key)"
proof -
  let ?v = "case parse txt of None \<Rightarrow> VStr txt | Some v \<Rightarrow> v"
  obtain st1 e1 where c: "store_set L now (load (store_did st) True (disk st)) key ?v None None = (st1, Inr e1)" "f = disk st1"
    using memory_set[OF assms(3)] by blast
  have i: "store_inv (load (store_did st) True (disk st))" using restart_inv[OF assms(1)] assms(2) by simp
  have p: "persist (load (store_did st) True (disk st))" by (simp add: load_def Let_def split: option.split)
  obtain ns path where "from_key key = Inr (ns, path)" using c(1) by (auto simp: store_set_eq[OF i] split: sum.splits)
  with view_set[OF i this, of L now None None ?v] c(1)
  have "view now st1 (normalize_key key) = (if ?v = VNone then None else Some ?v)" by (simp add: check_optional_def)
  moreover have "store_inv (st\<lparr>disk := f\<rparr>)"
    using stored_view(2)[OF i p c(1)] assms(1) by (simp add: c(2) store_inv_def)
  note w = stored_view[OF this _ assms(4)]
  moreover have "view t (st\<lparr>disk := f\<rparr>) = view t st" by (simp add: view_def fun_eq_iff)
  ultimately show ?thesis
    using stored_view(1)[OF i p c(1)] assms(2,5) by (auto simp: c(2) split: option.split pyval.split)
qed


theorem command_write_is_lost_witness:
  "\<exists>f st2. memory_command demo_L 7 (\<lambda>s. None) ''did:b'' None ''memory://a'' (Some ''x'') False = (f, Inr WasSet)
     \<and> fst (store_set demo_L 8 (demo_store\<lparr>disk := f\<rparr>) ''memory://b'' (VInt 1) None None) = st2
     \<and> view 7 (load ''did:b'' True f) ''aries:memory://a'' = Some (VStr ''x'')
     \<and> view 9 (load ''did:b'' True (disk st2)) ''aries:memory://a'' = None"
proof -
  have k: "from_key ''memory://a'' = Inr (MEMORY, ''a'')" "from_key ''memory://b'' = Inr (MEMORY, ''b'')"
    "normalize_key ''memory://a'' = ''aries:memory://a''" "normalize_key ''memory://b'' = ''aries:memory://b''"
    by (simp_all add: from_key_def normalize_key_def CANONICAL_PREFIXES_def LEGACY_PREFIXES_def canonical_key_def)
  have i: "store_inv demo_store" "persist demo_store" "store_did demo_store = ''did:b''" "disk demo_store = None"
    unfolding demo_store_def by (rule empty_store_inv) (simp_all add: load_def)
  have l: "load ''did:b'' True None = demo_store" by (simp add: demo_store_def)
  obtain st1 e1 where s1: "store_set demo_L 7 demo_store ''memory://a'' (VStr ''x'') None None = (st1, Inr e1)"
    using k by (auto simp: store_set_eq[OF i(1)] check_optional_def Let_def)
  then have m: "memory_command demo_L 7 (\<lambda>s. None) ''did:b'' None ''memory://a'' (Some ''x'') False = (disk st1, Inr WasSet)"
    by (simp add: memory_command_def l)
  have i1: "store_inv (demo_store\<lparr>disk := disk st1\<rparr>)"
    using stored_view(2)[OF i(1,2) s1] i(1) by (simp add: store_inv_def)
  obtain st2 e2 where s2: "store_set demo_L 8 (demo_store\<lparr>disk := disk st1\<rparr>) ''memory://b'' (VInt 1) None None = (st2, Inr e2)"
    using k by (auto simp: store_set_eq[OF i1] check_optional_def Let_def)
  have "normalize_key ''memory://b'' \<noteq> normalize_key ''memory://a''" by (simp add: k)
  from command_write_is_lost[OF i(1,2) _ s2 this, of 7 "\<lambda>s. None" "''x''" 9] m
  have "view 7 (load ''did:b'' True (disk st1)) ''aries:memory://a'' = Some (VStr ''x'')
    \<and> view 9 (load ''did:b'' True (disk st2)) ''aries:memory://a'' = view 9 demo_store ''aries:memory://a''"
    by (simp add: i(3,4) k)
  moreover have "view 9 demo_store ''aries:memory://a'' = None" by (simp add: view_def demo_store_def load_def)
  ultimately show ?thesis using m s2 by (intro exI[of _ "disk st1"] exI[of _ st2]) simp
qed

text \<open>
  The command chooses the best configuration of the model in the first catalog that has one.
\<close>

theorem resolved_is_best:
  assumes "resolve_inference_config polls model = Some c"
  shows "\<exists>before cs later. polls = before @ cs # later \<and> c \<in> set cs \<and> ic_model_name c = model
    \<and> (\<forall>d \<in> set cs. ic_model_name d = model \<longrightarrow> weighted_score d None \<le> weighted_score c None)
    \<and> (\<forall>ds \<in> set before. \<forall>d \<in> set ds. ic_model_name d \<noteq> model)"
  using assms
proof (induction polls)
  case (Cons cs polls)
  let ?p = "max_of (\<lambda>c. weighted_score c None) (filter (\<lambda>c. ic_model_name c = model) cs)"
  show ?case
  proof (cases ?p)
    case None
    then have n: "\<forall>d \<in> set cs. ic_model_name d \<noteq> model" by (simp add: max_choice.pick_None filter_empty_conv)
    from Cons None obtain before ds later where "polls = before @ ds # later \<and> c \<in> set ds \<and> ic_model_name c = model
      \<and> (\<forall>d \<in> set ds. ic_model_name d = model \<longrightarrow> weighted_score d None \<le> weighted_score c None)
      \<and> (\<forall>ds \<in> set before. \<forall>d \<in> set ds. ic_model_name d \<noteq> model)" by auto
    with n show ?thesis by (intro exI[of _ "cs # before"] exI[of _ ds] exI[of _ later]) auto
  next
    case (Some x)
    with Cons have "?p = Some c" by simp
    with max_choice.pick_mem[OF this] max_choice.pick_max[OF this] show ?thesis
      by (intro exI[of _ "[]"] exI[of _ cs] exI[of _ polls]) auto
  qed
qed simp

theorem resolved_is_best_witness:
  "\<exists>c. resolve_inference_config [[], [build_local_config (demo_report ''did:key:a'' 16 []) demo_model]] ''llama'' = Some c
     \<and> ic_model_name c = ''llama''"
proof -
  have "resolve_inference_config [[], [build_local_config (demo_report ''did:key:a'' 16 []) demo_model]] ''llama''
      = Some (build_local_config (demo_report ''did:key:a'' 16 []) demo_model)"
    by (simp add: max_of_def build_local_config_def demo_model_def Let_def)
  from resolved_is_best[OF this] this show ?thesis by auto
qed

text \<open>
  A model that a peer also has, and would run faster, cannot be run by name: the peer's configuration
  is chosen, a session hosted by another device is refused, and the configuration on this device is
  not tried.
\<close>

theorem faster_peer_blocks_run:
  assumes "run_session M = coordinated_session SE S reg (dc_did own)" and "dc_did own \<noteq> []" and "dc_did other \<noteq> dc_did own"
    and "mi_name n = mi_name m" and "capability_score n = capability_score m"
    and "min (estimate_local_tok_s own m / 30) 1 < min (estimate_local_tok_s other n / 30) 1"
  shows "\<exists>e. inference_run L E M [[build_local_config own m, build_local_config other n]] (mi_name m) prompt stream mt nd
    = (nd, Some (Inl (RuntimeError e)))"
proof -
  let ?o = "build_local_config own m" and ?p = "build_local_config other n"
  have "weighted_score ?o None < weighted_score ?p None"
    using assms(5,6) by (simp add: weighted_score_def weighted_def build_local_config_def Let_def default_weights_def divide_strict_right_mono)
  then have r: "resolve_inference_config [[?o, ?p]] (mi_name m) = Some ?p"
    using assms(4) by (simp add: max_of_def build_local_config_def Let_def)
  have "\<not> session_ready SE reg (dc_did own) ?p"
    using assms(2,3) by (intro not_ready) (auto simp: build_local_config_def role_of_def Let_def)
  from coordinated.unable_leaves_node[OF assms(1) this, of L E "[user_message E prompt]" None mt stream nd]
  show ?thesis unfolding inference_run_def r by (auto simp: node_invoke_def)
qed

theorem faster_peer_blocks_run_witness:
  "\<exists>M e. inference_run demo_hh_lib demo_env M [[build_local_config (demo_report ''did:key:a'' 12 []) demo_model,
      build_local_config (demo_report ''did:key:b'' 24 []) (demo_model\<lparr>mi_did := ''did:key:b''\<rparr>)]] ''llama'' ''hi'' False 64 demo_node
    = (demo_node, Some (Inl (RuntimeError e)))"
proof -
  let ?SE = "\<lparr>se_peer = (\<lambda>d. None), se_sends = (\<lambda>d. True), se_reports = (\<lambda>d. True), se_server = (\<lambda>c. True), se_share = (\<lambda>r. [])\<rparr>"
  let ?S = "\<lparr>ls_parse = (\<lambda>s. Inr VNone), ls_lines = (\<lambda>m. []), ls_reply = (\<lambda>m. Inr VNone)\<rparr>"
  let ?M = "demo_replies\<lparr>run_session := coordinated_session ?SE ?S demo_registry (dc_did (demo_report ''did:key:a'' 12 []))\<rparr>"
  have m: "mi_name demo_model = ''llama''" by (simp add: demo_model_def)
  show ?thesis
    by (rule exI[of _ ?M], rule faster_peer_blocks_run[where own = "demo_report ''did:key:a'' 12 []" and m = demo_model, unfolded m,
        where SE = ?SE and S = ?S and reg = demo_registry])
      (simp_all add: demo_report_def demo_model_def capability_score_def estimate_local_tok_s_def usable_memory_def Let_def)
qed


lemma reattached:
  assumes "(d, rec) \<in> set (hh_agents (nd_household nd))" and "adapter_from_record rec \<noteq> None"
  shows "d \<in> set (nd_adapters (reattach_adapters nd))"
proof -
  let ?f = "\<lambda>(d, rec) nd. if d \<in> set (nd_adapters nd) then nd
      else (case adapter_from_record rec of None \<Rightarrow> nd | Some a \<Rightarrow> attach_adapter d nd)"
  have mono: "x \<in> set (nd_adapters nd0) \<Longrightarrow> x \<in> set (nd_adapters (fold ?f as nd0))" for x as and nd0 :: "'a node"
    by (induction as arbitrary: nd0) (auto simp: attach_adapter_def split: option.split)
  obtain xs ys where "hh_agents (nd_household nd) = xs @ (d, rec) # ys" using assms(1) by (auto dest: split_list)
  moreover have "d \<in> set (nd_adapters (?f (d, rec) nd0))" for nd0 :: "'a node"
    using assms(2) by (auto simp: attach_adapter_def split: option.split)
  ultimately show ?thesis using mono by (simp add: reattach_adapters_def)
qed

lemma registered_vendor:
  assumes "register_adapter vendor model api_key api_base = Some a"
    and "vendor \<in> {''mock'', ''ollama'', ''anthropic'', ''openai'', ''google''}"
  shows "ac_vendor (capabilities_of a) = vendor"
  using assms by (auto simp: register_adapter_def adapter_defs truthy_def split: if_splits)

lemma registered_household:
  assumes "node_register_agent L now nnc key nd caps name = (nd1, Inr rec)"
  obtains spec where "hh_register_agent L now nnc key (nd_household nd) spec = (nd_household nd1, Inr rec)"
  using assms by (auto simp: node_register_agent_def emit_event_def split: sum.splits prod.splits)

lemma registered_agent:
  assumes "hh_register_agent L now nnc key h spec = (h1, Inr rec)"
  shows "dget (hh_agents h1) (ag_did rec) = Some rec" "hh_device_key h \<noteq> None"
  using assms by (auto simp: hh_register_agent_def Let_def save_household_def split: sum.splits bool.splits option.splits if_splits)



text \<open>The founded household, loaded again, and a registration on it.\<close>

lemma demo_loaded:
  "\<exists>h c. hh_load demo_hh_lib now (reopen demo_household) = (h, Inr ()) \<and> hh_device_key h = Some False
     \<and> hh_device_did h = Some (demo_did False) \<and> hh_membership_cid h = Some c \<and> c \<noteq> []"
proof -
  obtain r sh st c where d: "demo_household = founded demo_hh_lib (open_household None None []) True False (demo_did True) r sh st c"
    and r: "dv_did r = demo_did False" "dv_is_self r"
      "dv_membership r = build_household_membership demo_hh_lib 0 ''n'' True (demo_did True) (demo_did False)"
    using demo_founded by blast
  have "decodable demo_hh_lib (dv_membership r)" by (simp add: r(3) build_household_membership_def demo_signed_decodable)
  then obtain st1 c1 where t: "store_token demo_hh_lib now [] (dv_membership r) = Inr (st1, c1)"
    using store_token_iff by blast
  then have "c1 \<noteq> []" by (auto simp: store_token_def cid_def bindE_def split: sum.splits option.splits if_splits)
  moreover have "load_keypair demo_hh_lib (save_keypair demo_hh_lib [] [] False None) None = Inr False"
    using demo_hh_lib_ok by (intro plain_key_file) (simp add: hh_lib_ok_def)
  ultimately show ?thesis unfolding d
    by (simp add: reopen_def founded_def save_household_def open_household_def hh_load_def manifest_of_def Let_def t r(1,2))
qed

lemma demo_register_command:
  "\<exists>dir1 rec. register_command demo_hh_lib 5 ''n'' True ''mock'' ''demo'' None None (Some ''m'') demo_household = (dir1, Prints (Some rec))"
proof -
  obtain h c where h: "hh_load demo_hh_lib 5 (reopen demo_household) = (h, Inr ())" "hh_device_key h = Some False"
    "hh_device_did h = Some (demo_did False)" "hh_membership_cid h = Some c" "c \<noteq> []" using demo_loaded by blast
  have pk: "public_key_to_did (ed_public demo_hh_lib True) = Inr (demo_did True)"
    using demo_did_key[of "[]" True] by (simp add: demo_hh_lib_def demo_keylib_def wire_lib.defs demo_wire_def lib.defs demo_lib_def)
  have "decodable demo_hh_lib (build_agent_token demo_hh_lib 5 ''n'' False (demo_did False) (demo_did True) agent_caps 86400 (Some c) [])"
    by (simp add: build_agent_token_def demo_signed_decodable)
  then obtain st1 c1 where st: "store_token demo_hh_lib 5 (hh_tokens h) (build_agent_token demo_hh_lib 5 ''n'' False (demo_did False)
      (demo_did True) agent_caps 86400 (Some c) []) = Inr (st1, c1)" using store_token_iff by blast
  have ne: "demo_did False \<noteq> []" by (simp add: demo_did_def DID_PREFIX_def)
  have m: "file_manifest (reopen demo_household) \<noteq> None" using demo_household_facts(3) by simp
  have reg: "\<exists>h2 rec. hh_register_agent demo_hh_lib 5 ''n'' True h spec = (h2, Inr rec)" for spec
    using register_runs[OF h(2,3) ne h(4,5) pk st, of spec] by blast
  define caps where "caps = capabilities_of (Mock (new_mock ''demo''))"
  obtain nd1 rec where nd1: "node_register_agent demo_hh_lib 5 ''n'' True (bare_node h) caps (Some ''m'') = (nd1, Inr rec)"
    using reg[of "\<lparr>ag_did = [], ag_name = ''m'', ag_vendor = ac_vendor caps, ag_model = ac_model caps,
     ag_capabilities = ac_capabilities caps, ag_context_window = ac_context_window caps, ag_locality = ac_locality caps,
     ag_cost_class = ac_cost_class caps, ag_registered_at = 0, ag_token = None, ag_pid = None\<rparr>"]
    by (auto simp: node_register_agent_def bare_node_def)
  have "register_adapter ''mock'' ''demo'' None None = Some (Mock (new_mock ''demo''))" by (simp add: register_adapter_def)
  then show ?thesis
    using m nd1 unfolding register_command_def with_household_def andThen_def Let_def h(1)
    by (simp add: caps_def[symmetric])
qed



subsection \<open>The report of a benchmark\<close>

lemma nth_sort_bounds:
  assumes "i < length xs"
  shows "Min (set xs) \<le> sort xs ! i" "sort xs ! i \<le> Max (set xs)" "i \<le> j \<Longrightarrow> j < length xs \<Longrightarrow> sort xs ! i \<le> sort xs ! j"
proof -
  have "sort xs ! i \<in> set xs" using nth_mem[of i "sort xs"] assms by simp
  then show "Min (set xs) \<le> sort xs ! i" "sort xs ! i \<le> Max (set xs)" by simp_all
  show "i \<le> j \<Longrightarrow> j < length xs \<Longrightarrow> sort xs ! i \<le> sort xs ! j" by (rule sorted_nth_mono) simp_all
qed

lemma median_between:
  assumes "xs \<noteq> []"
  shows "sort xs ! ((length xs - 1) div 2) \<le> median xs" "median xs \<le> sort xs ! (length xs div 2)"
proof -
  have o: "odd (length xs) \<Longrightarrow> (length xs - 1) div 2 = length xs div 2" by (auto elim!: oddE)
  have e: "even (length xs) \<Longrightarrow> (length xs - 1) div 2 = length xs div 2 - 1" using assms by (auto elim!: evenE)
  have "sort xs ! (length xs div 2 - 1) \<le> sort xs ! (length xs div 2)"
    using length_greater_0_conv[of xs] assms by (intro nth_sort_bounds(3)) linarith+
  with o e show "sort xs ! ((length xs - 1) div 2) \<le> median xs" "median xs \<le> sort xs ! (length xs div 2)"
    by (auto simp: median_def Let_def)
qed

lemma p95_index:
  assumes "xs \<noteq> []"
  shows "min (nat \<lfloor>real (length xs) * 0.95\<rfloor>) (length xs - 1) < length xs"
    "length xs div 2 \<le> min (nat \<lfloor>real (length xs) * 0.95\<rfloor>) (length xs - 1) \<or> length xs = 1"
    "length xs \<le> 20 \<Longrightarrow> min (nat \<lfloor>real (length xs) * 0.95\<rfloor>) (length xs - 1) = length xs - 1"
proof -
  let ?n = "length xs"
  show "min (nat \<lfloor>real ?n * 0.95\<rfloor>) (?n - 1) < ?n" using length_greater_0_conv[of xs] assms by linarith
  have "real (?n div 2) \<le> real ?n * (95 / 100)" using div_times_less_eq_dividend[of ?n 2] by linarith
  then have "int (?n div 2) \<le> \<lfloor>real ?n * 0.95\<rfloor>" by (simp add: le_floor_iff)
  then show "?n div 2 \<le> min (nat \<lfloor>real ?n * 0.95\<rfloor>) (?n - 1) \<or> ?n = 1" by linarith
  assume "?n \<le> 20"
  then have "real ?n - 1 \<le> real ?n * (95 / 100)" by linarith
  then have "int ?n - 1 \<le> \<lfloor>real ?n * 0.95\<rfloor>" by (simp add: le_floor_iff)
  then show "min (nat \<lfloor>real ?n * 0.95\<rfloor>) (?n - 1) = ?n - 1" by linarith
qed

text \<open>
  The two numbers of a metric lie within the runs, the median below the 95th percentile; with the
  default of five runs, and up to twenty, the 95th percentile is just the largest value, for the
  decode rate the best run.
\<close>

theorem p95_of_few_runs_is_max:
  assumes "xs \<noteq> []"
  shows "Min (set xs) \<le> median xs \<and> median xs \<le> p95 xs \<and> p95 xs \<le> Max (set xs) \<and> (length xs \<le> 20 \<longrightarrow> p95 xs = Max (set xs))"
proof -
  note i = p95_index[OF assms] and m = median_between[OF assms]
  have "Min (set xs) \<le> sort xs ! ((length xs - 1) div 2)"
    using length_greater_0_conv[of xs] assms by (intro nth_sort_bounds) linarith
  moreover have "sort xs ! (length xs div 2) \<le> p95 xs"
    using i(1,2) assms by (auto simp: p95_def intro: nth_sort_bounds(3))
  moreover have "p95 xs \<le> Max (set xs)" unfolding p95_def using i(1) by (rule nth_sort_bounds)
  moreover have "p95 xs = Max (set xs)" if "length xs \<le> 20"
  proof -
    have "Max (set xs) \<in> set (sort xs)" using assms by simp
    then obtain j where j: "j < length xs" "sort xs ! j = Max (set xs)" unfolding in_set_conv_nth by auto
    have "sort xs ! j \<le> sort xs ! (length xs - 1)" using j(1) by (intro nth_sort_bounds(3)) simp_all
    moreover have "sort xs ! (length xs - 1) \<le> Max (set xs)" using assms by (intro nth_sort_bounds) simp
    ultimately show ?thesis using i(3)[OF that] j(2) by (simp add: p95_def)
  qed
  ultimately show ?thesis using m by auto
qed

theorem p95_of_few_runs_is_max_witness: "p95 [12, 15, 11, 14, 13] = 15"
  using p95_of_few_runs_is_max[of "[12, 15, 11, 14, 13]"] by simp

text \<open>
  The decode rate is measured to the end of the stream, not to the last token: with more than one
  token, whatever comes after the last one lowers it.
\<close>

theorem decode_counts_the_end:
  assumes "rest \<noteq> []" and "t1 < last rest" and "last rest < finish"
  shows "\<exists>b. timed_run (began, t1 # rest, finish) = Some b \<and> be_decode b < real (length rest) / (last rest - t1)"
  using assms by (auto simp: timed_run_def Let_def intro!: divide_strict_left_mono)

theorem decode_counts_the_end_witness:
  "\<exists>b. timed_run (0, [1, 2, 3], 7) = Some b \<and> be_decode b < 1"
  using decode_counts_the_end[of "[2, 3]" 1 7 0] by simp

subsection \<open>Addresses\<close>

text \<open>The address of a peer is split at its last colon, so that hosts with colons of their own are kept whole.\<close>

theorem address_roundtrip:
  assumes "int_of port = Some p" and "CHR '':'' \<notin> set port"
  shows "parse_address int_of (host @ '':'' @ port) = Some (host, p)"
proof -
  have "takeWhile (\<lambda>x. x \<noteq> CHR '':'') (rev (host @ '':'' @ port)) = rev port"
    using assms(2) by (simp add: takeWhile_append)
  then have "rfind_char (CHR '':'') (host @ '':'' @ port) = Some (length host)"
    by (simp add: rfind_char_def)
  with assms(1) show ?thesis by (simp add: parse_address_def)
qed

theorem address_roundtrip_witness: "parse_address (\<lambda>s. if s = ''47291'' then Some 47291 else None) ''fe80::1:47291'' = Some (''fe80::1'', 47291)"
  using address_roundtrip[of "\<lambda>s. if s = ''47291'' then Some 47291 else None" "''47291''" 47291 "''fe80::1''"] by simp

subsection \<open>The tree of the household\<close>

text \<open>
  The tree lists the agents of this device under every device of the household.
\<close>

theorem tree_repeats_agents:
  assumes "household_command L now dir = (h, Prints tree)"
  shows "length tree = length (hh_devices h) \<and> (\<forall>node \<in> set tree. snd node = map (agent_line \<circ> snd) (hh_agents h))"
  using assms by (auto simp: household_command_def with_household_def andThen_def Let_def split: if_splits prod.splits sum.splits)

theorem tree_repeats_agents_witness:
  "\<exists>h tree. household_command demo_hh_lib 9 demo_household = (h, Prints tree) \<and> length tree = length (hh_devices h)"
proof -
  obtain h where "hh_load demo_hh_lib 9 (reopen demo_household) = (h, Inr ())" using demo_loaded by blast
  then have "\<exists>tree. household_command demo_hh_lib 9 demo_household = (h, Prints tree)"
    using demo_household_facts(3) by (simp add: household_command_def with_household_def andThen_def Let_def)
  with tree_repeats_agents show ?thesis by blast
qed

end
