(* ===== verification/Api.thy ===== *)
theory Api
  imports NodeState
begin

text \<open>
  \<^verbatim>\<open>api/server.py\<close>: the read-only JSON handlers of the dashboard over the state of the node, the
  queues of the event stream, and the choice of the file that answers a page request. Serving
  over HTTP and starting the listener are left out. The lemmas show which tasks the page can
  show, that the counts of the memory add up, that a slow client loses only new events, and that
  no file outside the dashboard is served.
\<close>

subsection \<open>JSON handlers\<close>

text \<open>\<open>round(x, n)\<close>: to the nearest, ties to even.\<close>

definition round_even :: "real \<Rightarrow> int" where
  "round_even y =
     (let f = \<lfloor>y\<rfloor>; d = y - of_int f
      in if d < 1 / 2 then f else if d > 1 / 2 then f + 1 else if even f then f else f + 1)"

definition py_round :: "real \<Rightarrow> nat \<Rightarrow> real" where
  "py_round x n = of_int (round_even (x * 10 ^ n)) / 10 ^ n"

definition short_did :: "did option \<Rightarrow> string" where
  "short_did d = (if truthy d then did_short (or_empty d) 8 else [])"

definition handle_status :: "real \<Rightarrow> int \<Rightarrow> real \<Rightarrow> 'k household \<Rightarrow> dict" where
  "handle_status now port start hh =
     (let rec = dget (hh_devices hh) (or_empty (hh_device_did hh));
          name = (case rec of None \<Rightarrow> [] | Some r \<Rightarrow> dv_name r)
      in [(''device_did'', VStr (or_empty (hh_device_did hh))), (''device_did_short'', VStr (short_did (hh_device_did hh))),
          (''device_name'', VStr (if name = [] then ''aries-node'' else name)),
          (''platform'', VStr (case rec of None \<Rightarrow> [] | Some r \<Rightarrow> dv_platform r)), (''port'', VInt port),
          (''uptime_seconds'', VFloat (py_round (if start = 0 then 0 else max (now - start) 0) 2)),
          (''protocol_version'', VStr ''v0.2''), (''household_did'', VStr (or_empty (hh_root_did hh))),
          (''household_did_short'', VStr (short_did (hh_root_did hh))), (''encrypted_transport'', VBool True)])"

definition handle_health :: "device_health option \<Rightarrow> dict" where
  "handle_health snap =
     (case snap of
        None \<Rightarrow> [(''cpu_percent'', VFloat 0), (''ram_available_gb'', VFloat 0), (''ram_total_gb'', VFloat 0), (''gpu_utilization'', VFloat 0),
                 (''vram_available_gb'', VFloat 0), (''battery_pct'', VNone), (''charging'', VBool True), (''thermal'', VStr ''unknown''),
                 (''network_type'', VStr ''unknown''), (''bandwidth_mbps'', VFloat 0), (''health_score'', VFloat 0)]
      | Some h \<Rightarrow> [(''cpu_percent'', VFloat (dh_cpu_percent h)), (''ram_available_gb'', VFloat (dh_ram_available_gb h)),
                   (''ram_total_gb'', VFloat (dh_ram_total_gb h)), (''gpu_utilization'', VFloat (dh_gpu_utilization h)),
                   (''vram_available_gb'', VFloat (dh_vram_available_gb h)), (''battery_pct'', opt_float (dh_battery_pct h)),
                   (''charging'', VBool (dh_charging h)), (''thermal'', VStr (dh_thermal h)), (''network_type'', VStr (dh_network_type h)),
                   (''bandwidth_mbps'', VFloat (dh_bandwidth_mbps h)), (''health_score'', VFloat (health_score h))])"

text \<open>The peers of the connection table, each with whether its connection is open.\<close>

definition peer_view :: "real \<Rightarrow> 'k household \<Rightarrow> peer_info \<times> bool \<Rightarrow> pyval" where
  "peer_view now hh = (\<lambda>(p, is_open). VDict
     [(''device_did'', VStr (pi_did p)), (''device_did_short'', VStr (if pi_did p = [] then [] else did_short (pi_did p) 8)),
      (''name'', VStr (pi_name p)),
      (''platform'', VStr (case dget (hh_devices hh) (pi_did p) of None \<Rightarrow> [] | Some r \<Rightarrow> dv_platform r)),
      (''host'', VStr (pi_host p)), (''port'', VInt (pi_port p)), (''latency_ms'', opt_float (pi_latency p)),
      (''last_seen_seconds_ago'', if pi_last_seen p = 0 then VNone else VFloat (py_round (now - pi_last_seen p) 1)),
      (''connected'', VBool is_open)])"

definition handle_peers :: "real \<Rightarrow> 'k household \<Rightarrow> (peer_info \<times> bool) list \<Rightarrow> dict" where
  "handle_peers now hh conns =
     [(''peers'', VList (map (peer_view now hh) conns)), (''total'', VInt (int (length conns)))]"

definition agent_view :: "agent_record \<Rightarrow> pyval" where
  "agent_view a = VDict
     [(''agent_did'', VStr (ag_did a)), (''agent_did_short'', VStr (if ag_did a = [] then [] else did_short (ag_did a) 8)),
      (''name'', VStr (ag_name a)), (''vendor'', VStr (ag_vendor a)), (''model'', VStr (or_empty (ag_model a))),
      (''locality'', VStr (ag_locality a)), (''cost_class'', VStr (ag_cost_class a)),
      (''capabilities'', VList (map VStr (ag_capabilities a))), (''context_window'', VInt (ag_context_window a)),
      (''registered_at'', VFloat (ag_registered_at a))]"

definition handle_agents :: "'k household \<Rightarrow> dict" where
  "handle_agents hh =
     [(''agents'', VList (map (\<lambda>(d, a). agent_view a) (hh_agents hh))), (''total'', VInt (int (length (hh_agents hh))))]"

definition keys_under :: "string \<Rightarrow> mstore \<Rightarrow> nat" where
  "keys_under pre st = length (filter (\<lambda>k. startswith k pre) (dkeys (registers st)))"

definition py_trunc :: "real \<Rightarrow> int" where
  "py_trunc x = (if x < 0 then \<lceil>x\<rceil> else \<lfloor>x\<rfloor>)"

definition handle_memory :: "mstore \<Rightarrow> dict" where
  "handle_memory st =
     [(''total_keys'', VInt (int (length (registers st)))), (''total_logs'', VInt (int (length (logs st)))),
      (''by_namespace'', VDict [(''context'', VInt (int (keys_under ''aries:context://'' st))),
         (''memory'', VInt (int (keys_under ''aries:memory://'' st))), (''cache'', VInt (int (keys_under ''aries:cache://'' st)))]),
      (''lamport_clock'', VInt (py_trunc (lamport st))),
      (''log_entries'', VInt (int (sum_list (map (\<lambda>(k, l). length l) (logs st)))))]"

text \<open>
  A configuration with the score it is sorted by. The coordinator attribute of the node is never
  assigned, so the active inference is always \<open>None\<close>.
\<close>

definition config_view :: "inference_config \<Rightarrow> real \<times> pyval" where
  "config_view c = (let score = py_round (weighted_score c None) 3 in
     (score, VDict [(''config_id'', VStr (ic_id c)), (''model_name'', VStr (ic_model_name c)), (''config_type'', VStr (ic_type c)),
        (''devices'', VList (map (\<lambda>d. VStr (dr_did d)) (ic_devices c))), (''estimated_tok_s'', VFloat (py_round (ic_tok_s c) 1)),
        (''privacy_score'', VFloat (py_round (ic_privacy c) 2)), (''capability_score'', VFloat (py_round (ic_capability c) 2)),
        (''cost_score'', VFloat (py_round (ic_cost c) 2)), (''weighted_score'', VFloat score)]))"

definition handle_inference :: "registry \<Rightarrow> dict" where
  "handle_inference r =
     [(''configurations'', VList (map snd (sort_key (\<lambda>(s, v). - s) (map config_view (rg_configs r))))),
      (''active_inference'', VNone), (''total_configurations'', VInt (int (length (rg_configs r))))]"

text \<open>The tasks with the key they are sorted by: \<open>getattr(last, "timestamp", 0.0)\<close> of a class without that field.\<close>

record task_view =
  tv_task :: string
  tv_last :: receipt
  tv_completed_at :: real

definition task_views :: "(string \<times> receipt list) list \<Rightarrow> task_view list" where
  "task_views table =
     map (\<lambda>(t, c). \<lparr>tv_task = t, tv_last = last c, tv_completed_at = 0\<rparr>) (filter (\<lambda>(t, c). c \<noteq> []) table)"

definition task_to_dict :: "task_view \<Rightarrow> pyval" where
  "task_to_dict v = VDict
     [(''task_id'', VStr (tv_task v)), (''action'', VStr (rc_action (tv_last v))), (''status'', VStr (rc_status (tv_last v))),
      (''model_used'', VStr (rc_model_used (tv_last v))), (''tokens_used'', VInt (rc_tokens_used (tv_last v))),
      (''latency_ms'', VFloat (rc_latency_ms (tv_last v))), (''summary'', VStr (rc_summary (tv_last v))),
      (''agent_did'', VStr (rc_agent_did (tv_last v))), (''completed_at'', VFloat (tv_completed_at v))]"

definition shown_tasks :: "(string \<times> receipt list) list \<Rightarrow> task_view list" where
  "shown_tasks table = take 20 (sort_key (\<lambda>v. - tv_completed_at v) (task_views table))"

definition handle_tasks :: "(string \<times> receipt list) list \<Rightarrow> dict" where
  "handle_tasks table =
     [(''tasks'', VList (map task_to_dict (shown_tasks table))), (''total'', VInt (int (length (task_views table))))]"


subsection \<open>The event stream\<close>

text \<open>
  Every open stream has a queue of at most 256 items; \<open>sse_clients\<close> are the streams whose queue still
  gets the pushed events. \<open>Close\<close> is the mark that \<open>stop\<close> puts into the queues.
\<close>

datatype sse_item = Event string string real | Close

record sse_server =
  sse_queues :: "(nat \<times> sse_item list) list"
  sse_clients :: "nat list"
  sse_next :: nat

definition SSE_MAX :: nat where "SSE_MAX = 256"

definition put_nowait :: "sse_item \<Rightarrow> sse_item list \<Rightarrow> sse_item list" where
  "put_nowait x q = (if length q < SSE_MAX then q @ [x] else q)"

definition put_all :: "sse_item \<Rightarrow> sse_server \<Rightarrow> sse_server" where
  "put_all x s = s\<lparr>sse_queues := map (\<lambda>(c, q). (c, if c \<in> set (sse_clients s) then put_nowait x q else q)) (sse_queues s)\<rparr>"

definition push_event :: "real \<Rightarrow> string \<Rightarrow> string \<Rightarrow> sse_server \<Rightarrow> sse_server" where
  "push_event now ty desc = put_all (Event ty desc now)"

definition api_stop :: "sse_server \<Rightarrow> sse_server" where
  "api_stop s = (put_all Close s)\<lparr>sse_clients := []\<rparr>"

text \<open>A stream is opened, its loop takes the next item and writes it, it ends.\<close>

definition sse_connect :: "sse_server \<Rightarrow> sse_server" where
  "sse_connect s = s\<lparr>sse_queues := sse_queues s @ [(sse_next s, [])], sse_clients := sse_clients s @ [sse_next s],
                     sse_next := sse_next s + 1\<rparr>"

definition sse_end :: "nat \<Rightarrow> sse_server \<Rightarrow> sse_server" where
  "sse_end c s = s\<lparr>sse_queues := dpop c (sse_queues s), sse_clients := filter (\<lambda>d. d \<noteq> c) (sse_clients s)\<rparr>"

definition sse_take :: "nat \<Rightarrow> bool \<Rightarrow> sse_server \<Rightarrow> sse_server \<times> sse_item option" where
  "sse_take c writable s =
     (case dget (sse_queues s) c of
        Some (Event ty desc ts # q) \<Rightarrow>
          if writable then (s\<lparr>sse_queues := dset c q (sse_queues s)\<rparr>, Some (Event ty desc ts)) else (sse_end c s, None)
      | Some (Close # q) \<Rightarrow> (sse_end c s, None)
      | _ \<Rightarrow> (s, None))"

subsection \<open>Pages\<close>

text \<open>
  The answer to a page request. Of the file system: the resolution of a path below the dashboard
  directory, whether a file is there, and whether the directory has an \<^verbatim>\<open>index.html\<close>. Paths are
  lists of segments.
\<close>

datatype page_answer = NotFound | Forbidden | File "string list" | NotBuilt

record file_system =
  fs_dist :: "string list"
  fs_resolve :: "string \<Rightarrow> string list"
  fs_is_file :: "string list \<Rightarrow> bool"
  fs_has_index :: bool

definition serve_root :: "file_system \<Rightarrow> page_answer" where
  "serve_root fs = (if fs_has_index fs then File (fs_dist fs @ [''index.html'']) else NotBuilt)"

definition serve_frontend :: "file_system \<Rightarrow> string \<Rightarrow> page_answer" where
  "serve_frontend fs raw =
     (let path = dropWhile (\<lambda>c. c = CHR ''/'') raw in
      if startswith path ''api/'' then NotFound
      else let candidate = fs_resolve fs path in
        if \<not> prefix (fs_dist fs) candidate then Forbidden
        else if fs_is_file fs candidate then File candidate
        else serve_root fs)"

subsection \<open>Properties\<close>

lemma shown_tasks_eq: "shown_tasks table = take 20 (task_views table)"
proof -
  have "\<forall>v \<in> set (task_views table). - tv_completed_at v = 0" by (auto simp: task_views_def)
  then have "map (\<lambda>v. - tv_completed_at v) (task_views table) = replicate (length (task_views table)) 0"
    by (simp add: map_replicate_const[symmetric])
  then have "sorted (map (\<lambda>v. - tv_completed_at v) (task_views table))" by (simp add: sorted_replicate)
  then show ?thesis by (simp add: shown_tasks_def sorted_sort_id sort_key_id_if_sorted)
qed

lemma dset_new: "dget d k = None \<Longrightarrow> dset k v d = d @ [(k, v)]"
  by (induction d) (auto split: if_splits)

text \<open>
  The page of recent tasks shows the oldest: the handler sorts by a field that receipts do not
  have, so all keys are equal and the first twenty tasks stay; once there are twenty, a new task
  never appears.
\<close>

theorem new_task_is_never_shown:
  assumes "20 \<le> length (task_views table)" and "dget table t = None"
  shows "shown_tasks (dset t c table) = shown_tasks table"
  using assms by (simp add: shown_tasks_eq dset_new task_views_def)

definition demo_tasks :: "(string \<times> receipt list) list" where
  "demo_tasks = map (\<lambda>n. (CHR ''t'' # replicate n (CHR ''t''), [demo_receipt ''x''])) [0..<20]"

theorem new_task_is_never_shown_witness:
  "length (shown_tasks demo_tasks) = 20 \<and> shown_tasks (dset ''new'' [demo_receipt ''x''] demo_tasks) = shown_tasks demo_tasks"
proof -
  have l: "length (task_views demo_tasks) = 20"
    by (simp add: task_views_def demo_tasks_def filter_map comp_def)
  have "dget demo_tasks ''new'' = None"
    by (auto simp: demo_tasks_def map_of_eq_None_iff)
  with new_task_is_never_shown[of demo_tasks "''new''" "[demo_receipt ''x'']"] l show ?thesis by (simp add: shown_tasks_eq)
qed

text \<open>
  No file outside the dashboard directory is served: whatever the path of a request, a file in
  the answer lies below the directory, and the names of the API are never answered with a page.
\<close>

theorem only_dashboard_files_served:
  assumes "serve_frontend fs raw = File f"
  shows "prefix (fs_dist fs) f \<and> \<not> startswith (dropWhile (\<lambda>c. c = CHR ''/'') raw) ''api/''"
  using assms by (auto simp: serve_frontend_def serve_root_def Let_def split: if_splits)

theorem only_dashboard_files_served_witness:
  "serve_frontend \<lparr>fs_dist = [''dist''], fs_resolve = (\<lambda>p. [''dist'', p]), fs_is_file = (\<lambda>p. True), fs_has_index = True\<rparr> ''/app.js''
     = File [''dist'', ''app.js''] \<and> prefix [''dist''] [''dist'', ''app.js'']"
proof -
  let ?fs = "\<lparr>fs_dist = [''dist''], fs_resolve = (\<lambda>p. [''dist'', p]), fs_is_file = (\<lambda>p. True), fs_has_index = True\<rparr>"
  have "serve_frontend ?fs ''/app.js'' = File [''dist'', ''app.js'']" by (simp add: serve_frontend_def)
  from only_dashboard_files_served[OF this] this show ?thesis by simp
qed

lemma put_nowait_length: "length q \<le> SSE_MAX \<Longrightarrow> length (put_nowait x q) \<le> SSE_MAX"
  by (auto simp: put_nowait_def)

lemma dget_map_queues: "dget (map (\<lambda>(c, q). (c, f c q)) d) k = map_option (f k) (dget d k)"
  by (induction d) auto

lemma put_nowait_take: "length q \<le> SSE_MAX \<Longrightarrow> put_nowait x q = q @ take (SSE_MAX - length q) [x]"
  by (auto simp: put_nowait_def)

text \<open>
  A client that reads too slowly loses only new events: while nothing is taken from it, its
  queue keeps what it has, in order, takes the first events that fit into its 256 places, and drops
  the rest.
\<close>

theorem slow_client_keeps_oldest:
  assumes "dget (sse_queues s) c = Some q" and "c \<in> set (sse_clients s)" and "length q \<le> SSE_MAX"
  shows "dget (sse_queues (fold (\<lambda>(ty, desc, now). push_event now ty desc) evs s)) c
     = Some (q @ take (SSE_MAX - length q) (map (\<lambda>(ty, desc, now). Event ty desc now) evs))"
  using assms
proof (induction evs arbitrary: s q)
  case (Cons ev evs)
  obtain ty desc now where ev: "ev = (ty, desc, now)" by (rule prod_cases3)
  let ?x = "Event ty desc now"
  have "dget (sse_queues (push_event now ty desc s)) c = Some (put_nowait ?x q)"
    using Cons.prems(1,2) by (simp add: push_event_def put_all_def dget_map_queues)
  then have "dget (sse_queues (fold (\<lambda>(ty, desc, now). push_event now ty desc) evs (push_event now ty desc s))) c
     = Some (put_nowait ?x q @ take (SSE_MAX - length (put_nowait ?x q)) (map (\<lambda>(ty, desc, now). Event ty desc now) evs))"
    using Cons.prems(2,3) put_nowait_length by (intro Cons.IH) (simp_all add: push_event_def put_all_def)
  then show ?case using Cons.prems(3) by (auto simp: ev put_nowait_def take_Cons')
qed simp

theorem slow_client_keeps_oldest_witness:
  "dget (sse_queues (fold (\<lambda>(ty, desc, now). push_event now ty desc) [(''a'', ''b'', 1), (''c'', ''d'', 2)]
     (sse_connect \<lparr>sse_queues = [], sse_clients = [], sse_next = 0\<rparr>))) 0 = Some [Event ''a'' ''b'' 1, Event ''c'' ''d'' 2]"
  using slow_client_keeps_oldest[of "sse_connect \<lparr>sse_queues = [], sse_clients = [], sse_next = 0\<rparr>" 0 "[]" "[(''a'', ''b'', 1), (''c'', ''d'', 2)]"]
  by (simp add: sse_connect_def SSE_MAX_def)

end
