(* ===== verification/JsDom.thy ===== *)
theory JsDom
  imports Prelude
begin

text \<open>
  What the dashboard sources (\<^verbatim>\<open>dashboard/src\<close>) use of JavaScript and of React: decimal
  printing and rounding of numbers, \<open>||\<close> and \<open>??\<close> on optional strings, string search, and the
  elements JSX builds. A component is a function from its props to an element tree; event
  handlers are functions on the component's state, given beside it. A text is the sequence of
  its UTF-8 bytes, so the few non-ASCII characters of the sources are three-byte strings.
  A number that is not NaN is a real; where the code can produce NaN the model has None.
\<close>

subsection \<open>Elements\<close>

text \<open>
  A style value is a text, a number, or a percentage \<^verbatim>\<open>`${x}%`\<close> of a number; \<open>ATranslate\<close>
  is the template \<^verbatim>\<open>`translate(${x}, ${y})`\<close>. White space inside a class list, which has no
  meaning there, is written as one blank.
\<close>

datatype css_val = CStr string | CNum real | CPct real

datatype attr_val = AStr string | ANum real | ABool bool | AStyle "(string \<times> css_val) list" | ATranslate real real

datatype vnode =
    Txt string
  | Elem string "(string \<times> attr_val) list" "vnode list"
  | Frag "vnode list"

text \<open>An element with a class only, which is most of them; a condition renders nothing.\<close>

definition el :: "string \<Rightarrow> string \<Rightarrow> vnode list \<Rightarrow> vnode" where
  "el tag cls cs = Elem tag [(''className'', AStr cls)] cs"

definition show_if :: "bool \<Rightarrow> vnode list \<Rightarrow> vnode list" where
  "show_if b vs = (if b then vs else [])"

lemma show_if_simps [simp]: "show_if True vs = vs" "show_if False vs = []"
  by (simp_all add: show_if_def)

text \<open>The texts of a tree in document order, and how often an element occurs in it.\<close>

fun texts :: "vnode \<Rightarrow> string" where
  "texts (Txt s) = s"
| "texts (Elem t as cs) = concat (map texts cs)"
| "texts (Frag cs) = concat (map texts cs)"

fun count_class :: "string \<Rightarrow> vnode \<Rightarrow> nat" where
  "count_class c (Txt s) = 0"
| "count_class c (Elem t as cs) =
     (if dget as ''className'' = Some (AStr c) then 1 else 0) + sum_list (map (count_class c) cs)"
| "count_class c (Frag cs) = sum_list (map (count_class c) cs)"

lemma el_texts [simp]: "texts (el t c cs) = concat (map texts cs)"
  by (simp add: el_def)

lemma el_count [simp]: "count_class c (el t c' cs) = (if c' = c then 1 else 0) + sum_list (map (count_class c) cs)"
  by (simp add: el_def)

subsection \<open>Characters outside ASCII\<close>

definition em_dash :: string where "em_dash = [CHR 0xE2, CHR 0x80, CHR 0x94]"
definition mid_dot :: string where "mid_dot = [CHR 0xC2, CHR 0xB7]"
definition ellipsis :: string where "ellipsis = [CHR 0xE2, CHR 0x80, CHR 0xA6]"
definition black_star :: string where "black_star = [CHR 0xE2, CHR 0x98, CHR 0x85]"
definition bolt_sign :: string where "bolt_sign = [CHR 0xE2, CHR 0x9A, CHR 0xA1]"

subsection \<open>Numbers\<close>

definition math_round :: "real \<Rightarrow> int" where
  "math_round x = \<lfloor>x + 1 / 2\<rfloor>"

text \<open>\<open>x.toFixed(0)\<close> and \<open>x.toFixed(1)\<close> below 1e21: the nearest, ties away from zero.\<close>

definition to_fixed0 :: "real \<Rightarrow> string" where
  "to_fixed0 x = (if x < 0 then ''-'' @ show_int (math_round (- x)) else show_int (math_round x))"

definition to_fixed1 :: "real \<Rightarrow> string" where
  "to_fixed1 x =
     (let n = math_round (\<bar>x\<bar> * 10)
      in (if x < 0 then ''-'' else '''') @ show_int (n div 10) @ ''.'' @ show_int (n mod 10))"

definition pad_start2 :: "string \<Rightarrow> string" where
  "pad_start2 s = replicate (2 - length s) (CHR ''0'') @ s"

text \<open>\<open>Math.floor(secs % 3600 / 60)\<close> and the like, on non-negative numbers.\<close>

definition js_mod :: "real \<Rightarrow> real \<Rightarrow> real" where
  "js_mod x m = x - m * of_int (if x / m < 0 then \<lceil>x / m\<rceil> else \<lfloor>x / m\<rfloor>)"

subsection \<open>Optional values\<close>

text \<open>\<open>s || t\<close> on strings, where null, undefined and the empty string are false.\<close>

definition or_str :: "string option \<Rightarrow> string \<Rightarrow> string" where
  "or_str s t = (case s of None \<Rightarrow> t | Some u \<Rightarrow> if u = [] then t else u)"

definition truthy_str :: "string option \<Rightarrow> bool" where
  "truthy_str s = (case s of None \<Rightarrow> False | Some u \<Rightarrow> u \<noteq> [])"

text \<open>\<open>x ?? y\<close>\<close>

definition nullish :: "'a option \<Rightarrow> 'a \<Rightarrow> 'a" where
  "nullish x y = (case x of None \<Rightarrow> y | Some v \<Rightarrow> v)"

lemma or_str_simps [simp]: "or_str None t = t" "or_str (Some []) t = t" "u \<noteq> [] \<Longrightarrow> or_str (Some u) t = u"
  by (simp_all add: or_str_def)

lemma nullish_simps [simp]: "nullish None y = y" "nullish (Some v) y = v"
  by (simp_all add: nullish_def)

subsection \<open>Strings\<close>

text \<open>\<open>/a|b|c/.test(s)\<close> for literal alternatives.\<close>

definition test_any :: "string list \<Rightarrow> string \<Rightarrow> bool" where
  "test_any alts s = list_ex (\<lambda>t. has_sub s t) alts"

subsection \<open>Decimal printing\<close>

fun nat_of_digits :: "string \<Rightarrow> nat" where
  "nat_of_digits s = foldl (\<lambda>a c. a * 10 + ((of_char c :: nat) - 48)) 0 s"

lemma digit_char_val: "d < 10 \<Longrightarrow> (of_char (digit_char d) :: nat) = 48 + d"
  by (simp add: digit_char_def)

lemma nat_of_show: "nat_of_digits (show_nat n) = n"
proof (induction n rule: less_induct)
  case (less n)
  show ?case
  proof (cases "n < 10")
    case True
    then show ?thesis by (simp add: show_nat.simps[of n] digit_char_val)
  next
    case False
    then have "nat_of_digits (show_nat (n div 10)) = n div 10" by (intro less) simp
    with False show ?thesis by (simp add: show_nat.simps[of n] digit_char_val)
  qed
qed

lemma show_nat_inj: "show_nat m = show_nat n \<longleftrightarrow> m = n"
  using nat_of_show by metis

lemma show_nat_not_Nil [simp]: "show_nat n \<noteq> []"
  by (simp add: show_nat.simps[of n])

lemma length_show_nat: "n < 100 \<Longrightarrow> length (pad_start2 (show_nat n)) = 2"
  by (cases "n < 10") (simp_all add: pad_start2_def show_nat.simps[of n] show_nat.simps[of "n div 10"])

lemma js_mod_nonneg: "0 \<le> x \<Longrightarrow> 0 < m \<Longrightarrow> js_mod x m = x - m * of_int \<lfloor>x / m\<rfloor>"
  by (simp add: js_mod_def divide_less_0_iff)

lemma js_mod_bounds: "0 \<le> x \<Longrightarrow> 0 < m \<Longrightarrow> 0 \<le> js_mod x m \<and> js_mod x m < m"
proof -
  assume a: "0 \<le> x" "0 < m"
  have "of_int \<lfloor>x / m\<rfloor> \<le> x / m" "x / m < of_int \<lfloor>x / m\<rfloor> + 1" by linarith+
  then have "of_int \<lfloor>x / m\<rfloor> * m \<le> x" "x < (of_int \<lfloor>x / m\<rfloor> + 1) * m"
    using a(2) pos_le_divide_eq[of m "of_int \<lfloor>x / m\<rfloor>" x] pos_divide_less_eq[of m x "of_int \<lfloor>x / m\<rfloor> + 1"]
    by blast+
  then show ?thesis using a by (simp add: js_mod_nonneg algebra_simps)
qed

end
