(* ===== verification/Hooks.thy ===== *)
theory Hooks
  imports JsDom
begin

text \<open>
  \<^verbatim>\<open>dashboard/src/hooks\<close>: the two hooks every page reads its data with, as state machines.
  The state of a machine is what the hook keeps (React state, the variables of its effect,
  and what the browser holds for it: replies on the way, the open event source, pending
  timers); a step is what the browser or React can do to it. The closure variable
  \<^verbatim>\<open>cancelled\<close> of an effect is true exactly when the effect is no longer the current one.
\<close>

subsection \<open>useAPI\<close>

text \<open>
  \<open>inflight\<close> lists the requests whose reply is outstanding, each with the effect that sent it.
  A reply is a body, a status outside 200..299, or an exception with its \<^verbatim>\<open>message\<close> and its
  string form (a failing connection, a body that is not JSON).
\<close>

datatype 'd reply = Body 'd | Status nat | Threw string string

record 'd api_hook =
  api_data :: "'d option"
  api_error :: "string option"
  api_loading :: bool
  effect :: "nat option"
  next_effect :: nat
  inflight :: "(nat \<times> nat) list"
  next_request :: nat

datatype 'd api_event =
    Rerun "string option"
  | IntervalTick
  | Reply nat "'d reply"
  | UnmountAPI

definition api_init :: "'d api_hook" where
  "api_init = \<lparr>api_data = None, api_error = None, api_loading = True, effect = None,
     next_effect = 0, inflight = [], next_request = 0\<rparr>"

definition send_fetch :: "nat \<Rightarrow> 'd api_hook \<Rightarrow> 'd api_hook" where
  "send_fetch eff h = h\<lparr>inflight := inflight h @ [(next_request h, eff)], next_request := next_request h + 1\<rparr>"

text \<open>The reply to one \<^verbatim>\<open>fetchData\<close> call; \<open>live\<close> is \<^verbatim>\<open>!cancelled\<close> at that time.\<close>

definition finish_fetch :: "bool \<Rightarrow> 'd reply \<Rightarrow> 'd api_hook \<Rightarrow> 'd api_hook" where
  "finish_fetch live r h =
     (let h1 = (case r of
                  Body b \<Rightarrow> if live then h\<lparr>api_data := Some b, api_error := None\<rparr> else h
                | Status c \<Rightarrow> if live then h\<lparr>api_error := Some (''HTTP '' @ show_nat c)\<rparr> else h
                | Threw msg str \<Rightarrow> if live then h\<lparr>api_error := Some (or_str (Some msg) str)\<rparr> else h)
      in if live then h1\<lparr>api_loading := False\<rparr> else h1)"

text \<open>
  \<open>Rerun\<close> is React running the effect again because a dependency changed (or for the first
  time): the old effect is cleaned up, and a null endpoint starts nothing.
\<close>

fun api_step :: "'d api_event \<Rightarrow> 'd api_hook \<Rightarrow> 'd api_hook" where
  "api_step (Rerun endpoint) h =
     (let h0 = h\<lparr>effect := None\<rparr>
      in if \<not> truthy_str endpoint then h0
         else send_fetch (next_effect h0)
                (h0\<lparr>effect := Some (next_effect h0), next_effect := next_effect h0 + 1\<rparr>))"
| "api_step IntervalTick h =
     (case effect h of None \<Rightarrow> h | Some eff \<Rightarrow> send_fetch eff h)"
| "api_step (Reply i r) h =
     (case dget (inflight h) i of
        None \<Rightarrow> h
      | Some eff \<Rightarrow> finish_fetch (effect h = Some eff) r (h\<lparr>inflight := dpop i (inflight h)\<rparr>))"
| "api_step UnmountAPI h = h\<lparr>effect := None\<rparr>"

definition api_run :: "'d api_event list \<Rightarrow> 'd api_hook \<Rightarrow> 'd api_hook" where
  "api_run es h = fold api_step es h"

subsection \<open>useSSE\<close>

text \<open>
  \<open>source_open\<close> tells whether \<^verbatim>\<open>sourceRef.current\<close> is an event source that has not been
  closed, which is when the browser calls its handlers; \<open>retry_timers\<close> holds the pending
  reconnection timers with their delays. \<open>parse\<close> is \<^verbatim>\<open>JSON.parse\<close>.
\<close>

record 'e sse_hook =
  sse_events :: "'e list"
  sse_connected :: bool
  sse_cancelled :: bool
  backoff :: nat
  source_open :: bool
  retry_timers :: "nat list"

datatype sse_event = SourceOpen | SourceMessage string | SourceError | RetryTimer | UnmountSSE

definition sse_open :: "'e sse_hook \<Rightarrow> 'e sse_hook" where
  "sse_open h = (if sse_cancelled h then h else h\<lparr>source_open := True\<rparr>)"

definition sse_init :: "'e sse_hook" where
  "sse_init = sse_open \<lparr>sse_events = [], sse_connected = False, sse_cancelled = False, backoff = 1000,
     source_open = False, retry_timers = []\<rparr>"

definition handlers_live :: "'e sse_hook \<Rightarrow> bool" where
  "handlers_live h \<longleftrightarrow> source_open h \<and> \<not> sse_cancelled h"

fun sse_step :: "(string \<Rightarrow> 'e option) \<Rightarrow> nat \<Rightarrow> sse_event \<Rightarrow> 'e sse_hook \<Rightarrow> 'e sse_hook" where
  "sse_step parse maxEvents SourceOpen h =
     (if handlers_live h then h\<lparr>sse_connected := True, backoff := 1000\<rparr> else h)"
| "sse_step parse maxEvents (SourceMessage d) h =
     (if handlers_live h
      then (case parse d of
              None \<Rightarrow> h
            | Some ev \<Rightarrow> h\<lparr>sse_events := take maxEvents (ev # sse_events h)\<rparr>)
      else h)"
| "sse_step parse maxEvents SourceError h =
     (if handlers_live h
      then h\<lparr>sse_connected := False, source_open := False, retry_timers := retry_timers h @ [backoff h]\<rparr>
      else h)"
| "sse_step parse maxEvents RetryTimer h =
     (case retry_timers h of
        [] \<Rightarrow> h
      | _ # ts \<Rightarrow> sse_open (h\<lparr>retry_timers := ts, backoff := min (backoff h * 2) 10000\<rparr>))"
| "sse_step parse maxEvents UnmountSSE h = h\<lparr>sse_cancelled := True, source_open := False\<rparr>"

definition sse_run :: "(string \<Rightarrow> 'e option) \<Rightarrow> nat \<Rightarrow> sse_event list \<Rightarrow> 'e sse_hook \<Rightarrow> 'e sse_hook" where
  "sse_run parse maxEvents es h = fold (sse_step parse maxEvents) es h"

text \<open>The events a run accepts: the well-formed messages that reach a live handler.\<close>

fun accepted :: "(string \<Rightarrow> 'e option) \<Rightarrow> nat \<Rightarrow> sse_event list \<Rightarrow> 'e sse_hook \<Rightarrow> 'e list" where
  "accepted parse n [] h = []"
| "accepted parse n (SourceMessage d # es) h =
     (if handlers_live h then (case parse d of None \<Rightarrow> [] | Some ev \<Rightarrow> [ev]) else [])
       @ accepted parse n es (sse_step parse n (SourceMessage d) h)"
| "accepted parse n (e # es) h = accepted parse n es (sse_step parse n e h)"

subsection \<open>Lemmas on useAPI\<close>

lemma api_run_simps [simp]: "api_run [] h = h" "api_run (e # es) h = api_run es (api_step e h)"
  by (simp_all add: api_run_def)

lemma api_run_append: "api_run (xs @ ys) h = api_run ys (api_run xs h)"
  by (simp add: api_run_def)

definition api_shown :: "'d api_hook \<Rightarrow> 'd option \<times> string option \<times> bool" where
  "api_shown h = (api_data h, api_error h, api_loading h)"

lemma finish_fetch_dead: "finish_fetch False r h = h"
  by (cases r) (simp_all add: finish_fetch_def)

lemma api_step_idle:
  "effect h = None \<Longrightarrow> \<not> (\<exists>ep. e = Rerun ep \<and> truthy_str ep) \<Longrightarrow>
     effect (api_step e h) = None \<and> api_shown (api_step e h) = api_shown h"
  by (cases e) (auto simp: finish_fetch_dead api_shown_def Let_def split: option.split)

text \<open>The requests of the current effect are outstanding requests; ids are not reused.\<close>

definition api_inv :: "'d api_hook \<Rightarrow> bool" where
  "api_inv h \<longleftrightarrow> distinct (dkeys (inflight h)) \<and> (\<forall>(i, eff) \<in> set (inflight h). i < next_request h \<and> eff < next_effect h)
     \<and> (case effect h of None \<Rightarrow> True | Some eff \<Rightarrow> eff < next_effect h)
     \<and> (api_loading h \<longrightarrow> api_data h = None \<and> api_error h = None)
     \<and> (\<not> api_loading h \<longrightarrow> api_data h \<noteq> None \<or> api_error h \<noteq> None)"

lemma api_inv_init: "api_inv api_init"
  by (simp add: api_inv_def api_init_def)

lemma send_fetch_inv: "api_inv h \<Longrightarrow> eff < next_effect h \<Longrightarrow> api_inv (send_fetch eff h)"
  by (force simp: api_inv_def send_fetch_def split: option.splits)

lemma finish_fetch_fields [simp]:
  "inflight (finish_fetch l r h) = inflight h" "effect (finish_fetch l r h) = effect h"
  "next_request (finish_fetch l r h) = next_request h" "next_effect (finish_fetch l r h) = next_effect h"
  by (cases r; simp add: finish_fetch_def)+

lemma finish_fetch_inv: "api_inv h \<Longrightarrow> api_inv (finish_fetch l r h)"
  unfolding api_inv_def finish_fetch_fields
  by (cases l; cases r) (auto simp: finish_fetch_def)

lemma api_step_inv: "api_inv h \<Longrightarrow> api_inv (api_step e h)"
proof (cases e)
  case (Rerun ep)
  assume "api_inv h"
  then have 1: "api_inv (h\<lparr>effect := None\<rparr>)" by (simp add: api_inv_def)
  have 2: "api_inv (h\<lparr>effect := Some (next_effect h), next_effect := next_effect h + 1\<rparr>)"
    using \<open>api_inv h\<close> unfolding api_inv_def by (simp, blast intro: less_SucI)
  show ?thesis using Rerun 1 send_fetch_inv[OF 2] by (simp add: Let_def)
next
  case IntervalTick
  assume "api_inv h"
  then show ?thesis
  proof (cases "effect h")
    case (Some eff)
    then have "eff < next_effect h" using \<open>api_inv h\<close> by (simp add: api_inv_def)
    then show ?thesis using IntervalTick Some send_fetch_inv[OF \<open>api_inv h\<close>] by simp
  qed (use IntervalTick \<open>api_inv h\<close> in simp)
next
  case (Reply i r)
  assume "api_inv h"
  then have "api_inv (h\<lparr>inflight := dpop i (inflight h)\<rparr>)"
    using set_dpop_sub[of i "inflight h"] by (auto simp: api_inv_def split: option.splits)
  then show ?thesis using Reply \<open>api_inv h\<close> by (simp add: finish_fetch_inv split: option.split)
next
  case UnmountAPI
  assume "api_inv h"
  then show ?thesis using UnmountAPI by (simp add: api_inv_def)
qed

lemma api_run_inv: "api_inv h \<Longrightarrow> api_inv (api_run es h)"
  by (induction es arbitrary: h) (simp_all add: api_step_inv)


subsection \<open>Lemmas on useSSE\<close>

lemma sse_run_simps [simp]: "sse_run parse n [] h = h" "sse_run parse n (e # es) h = sse_run parse n es (sse_step parse n e h)"
  by (simp_all add: sse_run_def)

text \<open>
  While the effect lives there is either an open source or exactly one pending timer; the
  backoff stays between one and ten seconds.
\<close>

definition sse_inv :: "nat \<Rightarrow> 'e sse_hook \<Rightarrow> bool" where
  "sse_inv n h \<longleftrightarrow> length (sse_events h) \<le> n \<and> 1000 \<le> backoff h \<and> backoff h \<le> 10000
     \<and> list_all (\<lambda>d. 1000 \<le> d \<and> d \<le> 10000) (retry_timers h)
     \<and> (if sse_cancelled h then \<not> source_open h \<and> length (retry_timers h) \<le> 1
        else if source_open h then retry_timers h = [] else length (retry_timers h) = 1)
     \<and> (sse_connected h \<and> \<not> sse_cancelled h \<longrightarrow> source_open h)"

lemma sse_inv_init: "sse_inv n sse_init"
  by (simp add: sse_inv_def sse_init_def sse_open_def)

lemma sse_step_inv: "sse_inv n h \<Longrightarrow> sse_inv n (sse_step parse n e h)"
proof (cases e)
  case (SourceMessage d)
  assume "sse_inv n h"
  then show ?thesis using SourceMessage by (auto simp: sse_inv_def split: option.split)
next
  case RetryTimer
  assume "sse_inv n h"
  then show ?thesis
    using RetryTimer by (cases "retry_timers h") (auto simp: sse_inv_def sse_open_def split: if_splits)
next
  case SourceOpen
  assume "sse_inv n h"
  moreover have "sse_inv n (h\<lparr>sse_connected := True, backoff := 1000\<rparr>)" if "handlers_live h"
    using that \<open>sse_inv n h\<close> unfolding sse_inv_def handlers_live_def by simp
  ultimately show ?thesis using SourceOpen by simp
next
  case SourceError
  assume "sse_inv n h"
  moreover have "sse_inv n (h\<lparr>sse_connected := False, source_open := False, retry_timers := retry_timers h @ [backoff h]\<rparr>)"
    if "handlers_live h"
    using that \<open>sse_inv n h\<close> unfolding sse_inv_def handlers_live_def by simp
  ultimately show ?thesis using SourceError by simp
next
  case UnmountSSE
  assume "sse_inv n h"
  then show ?thesis using UnmountSSE unfolding sse_inv_def by (auto split: if_splits)
qed

lemma sse_run_inv: "sse_inv n h \<Longrightarrow> sse_inv n (sse_run parse n es h)"
  by (induction es arbitrary: h) (simp_all add: sse_step_inv)

lemma sse_step_events:
  "\<not> (\<exists>d. e = SourceMessage d) \<Longrightarrow> sse_events (sse_step parse n e h) = sse_events h"
  by (cases e) (auto simp: sse_open_def split: list.split)

lemma take_window: "take n (xs @ take n ys) = take n (xs @ ys)"
  by (simp add: take_append take_take min_def)

lemma sse_window:
  "length (sse_events h) \<le> n \<Longrightarrow>
   sse_events (sse_run parse n es h) = take n (rev (accepted parse n es h) @ sse_events h)"
proof (induction es arbitrary: h)
  case (Cons e es)
  show ?case
  proof (cases "\<exists>d. e = SourceMessage d")
    case True
    then obtain d where e: "e = SourceMessage d" by blast
    let ?h = "sse_step parse n e h"
    have "length (sse_events ?h) \<le> n" using Cons.prems e by (auto split: option.split)
    then have "sse_events (sse_run parse n es ?h) = take n (rev (accepted parse n es ?h) @ sse_events ?h)"
      by (rule Cons.IH)
    also have "\<dots> = take n (rev (accepted parse n (e # es) h) @ sse_events h)"
    proof (cases "handlers_live h \<and> parse d \<noteq> None")
      case True
      then obtain ev where "handlers_live h" "parse d = Some ev" by blast
      then have "sse_events ?h = take n (ev # sse_events h)"
        "accepted parse n (e # es) h = ev # accepted parse n es ?h"
        using e by simp_all
      then show ?thesis by (simp only: take_window rev.simps append_assoc append_Cons append_Nil)
    qed (use e in auto)
    finally show ?thesis by simp
  next
    case False
    then have a: "accepted parse n (e # es) h = accepted parse n es (sse_step parse n e h)"
      by (cases e) auto
    show ?thesis using Cons.IH[of "sse_step parse n e h"] Cons.prems sse_step_events[OF False, of parse n h] by (simp add: a)
  qed
qed simp

lemma sse_cancelled_step:
  "sse_cancelled h \<Longrightarrow> sse_cancelled (sse_step parse n e h)
     \<and> sse_events (sse_step parse n e h) = sse_events h \<and> sse_connected (sse_step parse n e h) = sse_connected h"
  by (cases e) (auto simp: handlers_live_def sse_open_def split: list.split)

subsection \<open>Properties\<close>

text \<open>
  After the component is unmounted no reply, however late, changes what the hook showed:
  data, error and loading stay as they were.
\<close>

theorem unmounted_api_is_frozen:
  fixes h :: "'d api_hook"
  assumes "\<forall>e \<in> set es. \<not> (\<exists>ep. e = Rerun ep \<and> truthy_str ep)"
  shows "api_shown (api_run (UnmountAPI # es) h) = api_shown h"
proof -
  have "effect h' = None \<Longrightarrow> api_shown (api_run es h') = api_shown h'" for h' :: "'d api_hook"
    using assms
  proof (induction es arbitrary: h')
    case (Cons e es)
    then show ?case using api_step_idle[of h' e] by auto
  qed simp
  from this[of "h\<lparr>effect := None\<rparr>"] show ?thesis by (simp add: api_shown_def)
qed

theorem unmounted_api_is_frozen_witness:
  "api_shown (api_run [UnmountAPI, Reply 0 (Body (5::nat))] (api_run [Rerun (Some ''status'')] api_init))
     = (None, None, True)"
  using unmounted_api_is_frozen[of "[Reply 0 (Body (5::nat))]" "api_run [Rerun (Some ''status'')] api_init"]
  by (simp add: api_shown_def api_init_def send_fetch_def truthy_str_def)

text \<open>
  The loading flag is true exactly while there is neither data nor an error, in every state
  the hook can reach.
\<close>

theorem loading_iff_nothing_shown:
  "api_loading (api_run es api_init) \<longleftrightarrow>
     api_data (api_run es api_init) = None \<and> api_error (api_run es api_init) = None"
  using api_run_inv[OF api_inv_init, of es] by (auto simp: api_inv_def)

text \<open>
  Replies of overlapping polls are taken in the order they arrive, so an older reply can
  replace a newer one: with two polls under way, answered newest first, the hook ends up
  showing the older body.
\<close>

theorem older_reply_wins:
  "api_data (api_run [Rerun (Some ep), IntervalTick, Reply 1 (Body new), Reply 0 (Body old)] api_init) =
     (if ep = [] then None else Some old)"
  by (simp add: api_init_def send_fetch_def truthy_str_def finish_fetch_def)

text \<open>
  The event list is the window of the newest \<open>maxEvents\<close> accepted messages, newest first,
  across any sequence of connections, errors and malformed messages.
\<close>

theorem sse_events_are_newest:
  "sse_events (sse_run parse maxEvents es sse_init) = take maxEvents (rev (accepted parse maxEvents es sse_init))"
  using sse_window[of sse_init maxEvents parse es] by (simp add: sse_init_def sse_open_def)

text \<open>
  C10: the subscription never dies and never doubles: until the component is unmounted there is
  one open source or one pending reconnection, never both, every wait is between one and ten
  seconds, and the connected flag implies an open source.
\<close>

theorem sse_always_reconnecting:
  assumes "\<not> sse_cancelled (sse_run parse n es sse_init)"
  shows "let h = sse_run parse n es sse_init in
    (source_open h \<and> retry_timers h = []
      \<or> \<not> source_open h \<and> \<not> sse_connected h \<and> (\<exists>d. retry_timers h = [d] \<and> 1000 \<le> d \<and> d \<le> 10000))"
proof -
  have "sse_inv n (sse_run parse n es sse_init)" by (rule sse_run_inv[OF sse_inv_init])
  with assms show ?thesis
    by (auto simp: sse_inv_def Let_def length_Suc_conv split: if_splits)
qed

theorem sse_always_reconnecting_witness:
  "let h = sse_run (\<lambda>d. Some d) 2 [SourceOpen, SourceError] sse_init in
    (source_open h \<and> retry_timers h = []
      \<or> \<not> source_open h \<and> \<not> sse_connected h \<and> (\<exists>d. retry_timers h = [d] \<and> 1000 \<le> d \<and> d \<le> 10000))"
  by (rule sse_always_reconnecting) (simp add: sse_init_def sse_open_def handlers_live_def)

text \<open>
  The waits double from one second and stop at ten: after k failed connections in a row
  the next wait is the smaller of 1000 * 2^k and 10000 milliseconds.
\<close>

theorem sse_backoff_doubles:
  fixes parse :: "string \<Rightarrow> 'a option"
  shows "retry_timers (sse_run parse n (concat (replicate k [SourceError, RetryTimer]) @ [SourceError]) sse_init)
     = [min (1000 * 2 ^ k) 10000]"
proof -
  have step: "sse_step parse n RetryTimer (sse_step parse n SourceError h) =
      h\<lparr>sse_connected := False, backoff := min (b * 2) 10000\<rparr>"
    if "backoff h = min b 10000" "source_open h" "\<not> sse_cancelled h" "retry_timers h = []" for h :: "'a sse_hook" and b
    using that by (cases h) (auto simp: handlers_live_def sse_open_def min_def)
  have "sse_run parse n (concat (replicate k [SourceError, RetryTimer]) @ es) h =
      sse_run parse n es (h\<lparr>sse_connected := (k = 0 \<and> sse_connected h), backoff := min (b * 2 ^ k) 10000\<rparr>)"
    if "backoff h = min b 10000" "source_open h" "\<not> sse_cancelled h" "retry_timers h = []"
    for h :: "'a sse_hook" and b es
    using that
  proof (induction k arbitrary: h b)
    case (Suc k)
    then show ?case
      using Suc.IH[of "h\<lparr>sse_connected := False, backoff := min (b * 2) 10000\<rparr>" "b * 2"] step[of h b]
      by (simp del: sse_step.simps add: mult.assoc)
  next
    case 0
    then have "h = h\<lparr>sse_connected := sse_connected h, backoff := min b 10000\<rparr>" by (cases h) simp
    then show ?case by simp
  qed
  from this[of sse_init 1000 "[SourceError]"] show ?thesis
    by (simp add: sse_init_def sse_open_def handlers_live_def)
qed

end
