(* ===== verification/Components.thy ===== *)
theory Components
  imports Hooks
begin

text \<open>
  \<^verbatim>\<open>dashboard/src/components\<close> and \<^verbatim>\<open>App.jsx\<close>: the presentational components, as functions from
  their props to elements, with the formatting and colour rules they apply. An icon of
  lucide-react is an element of its name. Callback props are not part of the tree.
\<close>

subsection \<open>HealthBar\<close>

text \<open>
  \<open>(value / max) * 100\<close> clamped to 0..100; dividing by zero gives an infinity (clamped) or,
  for 0/0, NaN, which is None.
\<close>

definition health_pct :: "real \<Rightarrow> real \<Rightarrow> real option" where
  "health_pct value mx =
     (if mx = 0 then (if value > 0 then Some 100 else if value < 0 then Some 0 else None)
      else Some (max 0 (min 100 (value / mx * 100))))"

text \<open>Every comparison with NaN is false.\<close>

definition health_tone :: "bool \<Rightarrow> real option \<Rightarrow> string" where
  "health_tone invert pct =
     (case pct of
        None \<Rightarrow> ''bg-aries-success''
      | Some p \<Rightarrow>
          if invert then
            (if p < 20 then ''bg-aries-error'' else if p < 50 then ''bg-aries-warning'' else ''bg-aries-success'')
          else
            (if p > 80 then ''bg-aries-error'' else if p > 60 then ''bg-aries-warning'' else ''bg-aries-success''))"

definition HealthBar :: "string \<Rightarrow> real \<Rightarrow> real \<Rightarrow> string \<Rightarrow> bool \<Rightarrow> string option \<Rightarrow> vnode" where
  "HealthBar label value mx unit invert sublabel =
     (let pct = health_pct value mx
      in Elem ''div'' []
          [el ''div'' ''flex items-baseline justify-between mb-1.5''
             [el ''span'' ''text-xs text-aries-text-dim uppercase tracking-wider'' [Txt label],
              el ''span'' ''text-xs text-aries-text font-mono''
                [Txt (nullish sublabel (to_fixed0 value @ unit))]],
           el ''div'' ''h-1.5 w-full rounded-full bg-aries-border/60 overflow-hidden''
             [Elem ''div''
                [(''className'', AStr (''h-full rounded-full transition-all duration-700 ease-out '' @ health_tone invert pct)),
                 (''style'', AStyle [(''width'', case pct of None \<Rightarrow> CStr ''NaN%'' | Some p \<Rightarrow> CPct p)])]
                []]])"

text \<open>The default props \<^verbatim>\<open>max = 100\<close>, \<^verbatim>\<open>unit = '%'\<close> and \<^verbatim>\<open>invert = false\<close>.\<close>

definition HealthBar_default :: "string \<Rightarrow> real \<Rightarrow> string option \<Rightarrow> vnode" where
  "HealthBar_default label value sublabel = HealthBar label value 100 ''%'' False sublabel"

subsection \<open>StatusBadge\<close>

definition TONES :: "(string \<times> string) list" where
  "TONES =
     [(''success'', ''bg-aries-success/15 text-aries-success ring-aries-success/30''),
      (''warning'', ''bg-aries-warning/15 text-aries-warning ring-aries-warning/30''),
      (''error'', ''bg-aries-error/15 text-aries-error ring-aries-error/30''),
      (''info'', ''bg-aries-teal/10 text-aries-teal ring-aries-teal/25''),
      (''muted'', ''bg-aries-surface text-aries-text-dim ring-aries-border'')]"

definition tone_class :: "string \<Rightarrow> string" where
  "tone_class tone = or_str (dget TONES tone) (dgetd TONES ''muted'' '''')"

definition StatusBadge :: "string \<Rightarrow> string \<Rightarrow> bool \<Rightarrow> vnode" where
  "StatusBadge tone label pulse =
     el ''span''
       (''inline-flex items-center gap-1.5 px-2 py-0.5 rounded-full text-[11px] font-medium ring-1 ring-inset '' @ tone_class tone)
       [el ''span'' (''inline-block w-1.5 h-1.5 rounded-full bg-current '' @ (if pulse then ''aries-pulse'' else '''')) [],
        Txt label]"

subsection \<open>EventCard\<close>

record mesh_event =
  ev_type :: "string option"
  ev_timestamp :: "real option"
  ev_description :: "string option"

definition TYPE_TONE :: "(string \<times> string) list" where
  "TYPE_TONE =
     [(''peer_connect'', ''bg-aries-success''), (''memory_sync'', ''bg-aries-success''),
      (''invoke'', ''bg-sky-400''), (''invoke_distributed'', ''bg-sky-400''),
      (''agent_register'', ''bg-aries-teal''), (''handoff_sent'', ''bg-aries-warning''),
      (''handoff_recv'', ''bg-aries-warning''), (''node_start'', ''bg-aries-teal'')]"

definition toneFor :: "string option \<Rightarrow> string" where
  "toneFor type =
     (case type of
        None \<Rightarrow> ''bg-aries-text-dim''
      | Some t \<Rightarrow>
          if t = [] then ''bg-aries-text-dim''
          else if has_sub (to_lower t) ''error'' then ''bg-aries-error''
          else or_str (dget TYPE_TONE t) ''bg-aries-teal'')"

text \<open>The same ladder of units serves the two relative times of the sources.\<close>

definition ago_ladder :: "real \<Rightarrow> string" where
  "ago_ladder d =
     (if d < 5 then ''just now''
      else if d < 60 then show_int \<lfloor>d\<rfloor> @ ''s ago''
      else if d < 3600 then show_int \<lfloor>d / 60\<rfloor> @ ''m ago''
      else if d < 86400 then show_int \<lfloor>d / 3600\<rfloor> @ ''h ago''
      else show_int \<lfloor>d / 86400\<rfloor> @ ''d ago'')"

text \<open>\<open>now\<close> is \<^verbatim>\<open>Date.now() / 1000\<close>; without a timestamp the difference is NaN.\<close>

definition timeAgo :: "real \<Rightarrow> real option \<Rightarrow> string" where
  "timeAgo now ts = (case ts of None \<Rightarrow> ''NaNd ago'' | Some t \<Rightarrow> ago_ladder (max 0 (now - t)))"

definition EventCard :: "real \<Rightarrow> mesh_event option \<Rightarrow> bool \<Rightarrow> vnode list" where
  "EventCard now event animated =
     (case event of
        None \<Rightarrow> []
      | Some ev \<Rightarrow>
          [el ''div''
             (''flex items-start gap-3 px-3 py-2.5 rounded-lg border border-aries-border/60 bg-aries-surface/55 ''
                @ (if animated then ''aries-slide-in'' else ''''))
             [Elem ''span''
                [(''className'', AStr (''mt-1.5 inline-block w-1.5 h-1.5 rounded-full shrink-0 '' @ toneFor (ev_type ev))),
                 (''aria-hidden'', ABool True)] [],
              el ''div'' ''flex-1 min-w-0''
                [el ''div'' ''flex items-baseline justify-between gap-3''
                   [el ''span'' ''text-[10px] uppercase tracking-[0.16em] font-mono text-aries-text-dim''
                      [Txt (nullish (ev_type ev) '''')],
                    el ''span'' ''text-[10px] text-aries-text-dim font-mono'' [Txt (timeAgo now (ev_timestamp ev))]],
                 el ''div'' ''text-sm text-aries-text truncate'' [Txt (nullish (ev_description ev) '''')]]]])"

subsection \<open>DeviceCircle\<close>

definition iconForDevice :: "string option \<Rightarrow> string option \<Rightarrow> string" where
  "iconForDevice platform name =
     (let lower = to_lower (or_str name '''')
      in if test_any [''tablet'', ''ipad''] lower then ''Tablet''
         else if test_any [''phone'', ''mobile'', ''pixel'', ''iphone'', ''android''] lower then ''Smartphone''
         else if test_any [''desktop'', ''workstation'', ''tower'', ''pc''] lower then ''Monitor''
         else if test_any [''laptop'', ''book'', ''mac''] lower then ''Laptop''
         else (let p = to_lower (or_str platform '''')
               in if p = ''ios'' \<or> p = ''android'' then ''Smartphone''
                  else if p = ''ipados'' then ''Tablet''
                  else if p = ''macos'' \<or> p = ''linux'' \<or> p = ''windows'' then ''Laptop''
                  else ''Cpu''))"

definition labelForPlatform :: "string option \<Rightarrow> string" where
  "labelForPlatform platform =
     (let p = to_lower (or_str platform '''')
      in if p = ''macos'' then ''macOS''
         else if p = ''linux'' then ''Linux''
         else if p = ''windows'' then ''Windows''
         else if p = ''ios'' then ''iOS''
         else if p = ''android'' then ''Android''
         else if p = ''ipados'' then ''iPadOS''
         else or_str platform ''unknown'')"

definition DeviceCircle :: "string option \<Rightarrow> string option \<Rightarrow> bool \<Rightarrow> bool \<Rightarrow> (string \<times> css_val) list \<Rightarrow> vnode" where
  "DeviceCircle name platform isSelf online style =
     (let icon = iconForDevice platform name;
          size = (if isSelf then 96 else 80);
          iconSize = (if isSelf then 36 else 30);
          ringColor = (if isSelf then ''border-aries-teal/70''
                       else if online then ''border-aries-border'' else ''border-aries-error/40'');
          bg = (if isSelf then ''bg-gradient-to-br from-aries-surface-hi via-aries-surface to-aries-indigo''
                else ''bg-aries-surface'');
          iconColor = (if isSelf then ''text-aries-teal''
                       else if online then ''text-aries-text'' else ''text-aries-text-dim'');
          opacity = (if online then '''' else ''opacity-55'')
      in Elem ''div''
          [(''style'', AStyle style),
           (''className'', AStr (''absolute -translate-x-1/2 -translate-y-1/2 flex flex-col items-center group cursor-default '' @ opacity))]
          (show_if isSelf
             [Elem ''div''
                [(''className'', AStr ''aries-ring absolute pointer-events-none''),
                 (''style'', AStyle [(''width'', CNum (size + 24)), (''height'', CNum (size + 24)), (''top'', CPct 50),
                    (''left'', CPct 50), (''transform'', CStr ''translate(-50%, calc(-50% - 14px))'')])]
                [Elem ''svg'' [(''width'', ANum (size + 24)), (''height'', ANum (size + 24)), (''viewBox'', AStr ''0 0 100 100'')]
                   [Elem ''circle'' [(''cx'', AStr ''50''), (''cy'', AStr ''50''), (''r'', AStr ''48''), (''fill'', AStr ''none''),
                      (''stroke'', AStr ''rgba(0, 212, 170, 0.35)''), (''strokeWidth'', AStr ''0.6''),
                      (''strokeDasharray'', AStr ''2 6'')] []]]]
           @ [Elem ''div''
                [(''className'', AStr (''relative rounded-full border '' @ ringColor @ '' '' @ bg
                    @ '' flex items-center justify-center transition-transform duration-200 ease-out group-hover:scale-[1.06] ''
                    @ (if isSelf then ''aries-halo'' else ''shadow-[0_4px_18px_rgba(0,0,0,0.35)]'') @ '' '')),
                 (''style'', AStyle [(''width'', CNum size), (''height'', CNum size)])]
                [Elem icon [(''size'', ANum iconSize), (''strokeWidth'', ANum 1.6), (''className'', AStr iconColor)] [],
                 Elem ''span''
                   [(''className'', AStr (''absolute top-1 right-1 inline-block rounded-full ring-2 ring-aries-dark ''
                       @ (if online then ''bg-aries-success aries-pulse'' else ''bg-aries-error''))),
                    (''style'', AStyle [(''width'', CNum 10), (''height'', CNum 10)]),
                    (''aria-label'', AStr (if online then ''online'' else ''offline''))] []],
              el ''div'' ''mt-3 text-center max-w-[140px]''
                [el ''div'' (''text-sm truncate font-medium '' @ (if isSelf then ''text-aries-teal'' else ''text-aries-text''))
                   [Txt (or_str name em_dash)],
                 el ''div'' ''text-[10px] uppercase tracking-[0.18em] text-aries-text-dim''
                   [Txt (if isSelf then ''This Device'' else labelForPlatform platform)]]]))"

subsection \<open>DeviceNode\<close>

definition DeviceNode :: "real \<Rightarrow> real \<Rightarrow> string option \<Rightarrow> string option \<Rightarrow> bool \<Rightarrow> bool \<Rightarrow> vnode" where
  "DeviceNode x y name subtitle isSelf online =
     (let w = 168; h = 64;
          fill = (if isSelf then ''#162235'' else ''#162235'');
          strokeColor = (if isSelf then ''#00D4AA'' else if online then ''#1E3450'' else ''#3E2A2E'');
          opacity = (if online then 1 else 0.55);
          statusColor = (if online then ''#00D4AA'' else ''#EF4D5E'')
      in Elem ''g'' [(''transform'', ATranslate (x - w / 2) (y - h / 2)), (''opacity'', ANum opacity)]
          (show_if isSelf
             [Elem ''rect'' [(''x'', ANum (-3)), (''y'', ANum (-3)), (''width'', ANum (w + 6)), (''height'', ANum (h + 6)),
                (''rx'', ANum 14), (''fill'', AStr ''none''), (''stroke'', AStr ''#00D4AA''), (''strokeWidth'', ANum 1),
                (''opacity'', ANum 0.28)] []]
           @ [Elem ''rect'' [(''x'', ANum 0), (''y'', ANum 0), (''width'', ANum w), (''height'', ANum h), (''rx'', ANum 11),
                (''fill'', AStr fill), (''stroke'', AStr strokeColor), (''strokeWidth'', ANum (if isSelf then 1.5 else 1))] [],
              Elem ''circle'' [(''cx'', ANum 14), (''cy'', ANum 20), (''r'', ANum 4), (''fill'', AStr statusColor)]
                (show_if online
                   [Elem ''animate'' [(''attributeName'', AStr ''opacity''), (''values'', AStr ''1;0.5;1''),
                      (''dur'', AStr ''2.2s''), (''repeatCount'', AStr ''indefinite'')] []]),
              Elem ''text'' [(''x'', ANum 26), (''y'', ANum 24), (''fill'', AStr ''#C8D6E5''), (''fontSize'', AStr ''13''),
                 (''fontWeight'', AStr ''600''), (''fontFamily'', AStr ''ui-sans-serif, system-ui'')]
                [Txt (nullish name '''')],
              Elem ''text'' [(''x'', ANum 14), (''y'', ANum 45), (''fill'', AStr ''#6B7F99''), (''fontSize'', AStr ''11''),
                 (''fontFamily'', AStr ''ui-sans-serif, system-ui'')]
                [Txt (or_str subtitle '''')]]
           @ show_if isSelf
             [Elem ''text'' [(''x'', ANum (w - 10)), (''y'', ANum 18), (''textAnchor'', AStr ''end''), (''fill'', AStr ''#00D4AA''),
                (''fontSize'', AStr ''9''), (''fontWeight'', AStr ''600''), (''letterSpacing'', AStr ''0.1em''),
                (''fontFamily'', AStr ''ui-sans-serif, system-ui'')]
               [Txt ''THIS DEVICE'']]))"


subsection \<open>DeviceTooltip\<close>

text \<open>
  The shape the topology page builds for the host and for a peer alike. \<open>dev_did\<close> and
  \<open>dev_did_short\<close> are only present on a peer's own record.
\<close>

record tip_device =
  tip_name :: "string option"
  tip_platform :: "string option"
  tip_self :: bool
  tip_online :: bool
  tip_did_short :: "string option"
  tip_host :: "string option"
  tip_port :: "nat option"
  tip_latency :: "real option"
  tip_last_seen :: "real option"
  tip_uptime :: "real option"
  tip_did :: "string option"

definition formatLastSeen :: "real option \<Rightarrow> string" where
  "formatLastSeen secs = (case secs of None \<Rightarrow> em_dash | Some s \<Rightarrow> ago_ladder s)"

text \<open>The parts of a duration that is neither missing, zero nor negative.\<close>

definition dur_h :: "real \<Rightarrow> int" where "dur_h secs = \<lfloor>secs / 3600\<rfloor>"
definition dur_m :: "real \<Rightarrow> int" where "dur_m secs = \<lfloor>js_mod secs 3600 / 60\<rfloor>"
definition dur_s :: "real \<Rightarrow> int" where "dur_s secs = \<lfloor>js_mod secs 60\<rfloor>"

definition formatDuration :: "real option \<Rightarrow> string" where
  "formatDuration secs =
     (case secs of
        None \<Rightarrow> em_dash
      | Some t \<Rightarrow>
          if t = 0 \<or> t < 0 then em_dash
          else if dur_h t > 0 then show_int (dur_h t) @ ''h '' @ show_int (dur_m t) @ ''m''
          else if dur_m t > 0 then show_int (dur_m t) @ ''m '' @ show_int (dur_s t) @ ''s''
          else show_int (dur_s t) @ ''s'')"

definition dt_dd :: "string \<Rightarrow> string \<Rightarrow> string \<Rightarrow> vnode list" where
  "dt_dd term cls value = [el ''dt'' ''text-aries-text-dim'' [Txt term], el ''dd'' cls [Txt value]]"

definition latency_text :: "real option \<Rightarrow> string" where
  "latency_text ms = (case ms of None \<Rightarrow> em_dash | Some l \<Rightarrow> show_int (math_round l) @ '' ms'')"

definition DeviceTooltip :: "tip_device option \<Rightarrow> (string \<times> css_val) list \<Rightarrow> vnode list" where
  "DeviceTooltip device style =
     (case device of
        None \<Rightarrow> []
      | Some d \<Rightarrow>
         [Elem ''div'' [(''className'', AStr ''aries-tooltip absolute z-20 pointer-events-none''), (''style'', AStyle style)]
           [el ''div'' ''w-[260px] rounded-xl border border-aries-border bg-aries-surface/95 backdrop-blur-md shadow-[0_8px_30px_rgba(0,0,0,0.55)] p-3.5''
             [el ''div'' ''flex items-baseline justify-between gap-2 mb-2''
               [el ''div'' ''min-w-0''
                  [el ''div'' ''text-sm font-semibold text-aries-text truncate'' [Txt (or_str (tip_name d) em_dash)],
                   el ''div'' ''text-[10px] uppercase tracking-[0.18em] text-aries-text-dim''
                     [Txt (if tip_self d then ''host device'' else ''peer'')]],
                el ''span''
                  (''inline-flex items-center gap-1.5 px-2 py-0.5 rounded-full text-[10px] font-medium ''
                     @ (if tip_online d then ''bg-aries-success/15 text-aries-success ring-1 ring-aries-success/30''
                        else ''bg-aries-error/15 text-aries-error ring-1 ring-aries-error/30''))
                  [el ''span'' (''w-1.5 h-1.5 rounded-full bg-current '' @ (if tip_online d then ''aries-pulse'' else '''')) [],
                   Txt (if tip_online d then ''online'' else ''offline'')]],
              el ''dl'' ''grid grid-cols-[88px_1fr] gap-y-1.5 gap-x-2 text-[11px] leading-tight''
                (dt_dd ''Platform'' ''text-aries-text'' (labelForPlatform (tip_platform d))
                 @ dt_dd ''Device DID'' ''text-aries-text font-mono truncate'' (or_str (tip_did_short d) em_dash)
                 @ show_if (truthy_str (tip_host d))
                     (dt_dd ''Address'' ''text-aries-text font-mono''
                        (nullish (tip_host d) '''' @
                         (case tip_port d of None \<Rightarrow> '''' | Some p \<Rightarrow> if p = 0 then '''' else '':'' @ show_nat p)))
                 @ show_if (\<not> tip_self d)
                     (dt_dd ''Latency'' ''text-aries-text font-mono'' (latency_text (tip_latency d))
                      @ dt_dd ''Last seen'' ''text-aries-text font-mono'' (formatLastSeen (tip_last_seen d)))
                 @ show_if (tip_self d \<and> tip_uptime d \<noteq> None)
                     (dt_dd ''Uptime'' ''text-aries-text font-mono'' (formatDuration (tip_uptime d))))]]])"

subsection \<open>Layout and App\<close>

text \<open>\<open>active\<close> is what React Router passes to a \<^verbatim>\<open>NavLink\<close>.\<close>

definition NavTab :: "bool \<Rightarrow> string \<Rightarrow> string \<Rightarrow> string \<Rightarrow> vnode" where
  "NavTab active dest icon label =
     Elem ''NavLink''
       [(''to'', AStr dest),
        (''className'', AStr (''flex items-center gap-2 px-3 py-1.5 rounded-md text-sm font-medium transition-colors ''
           @ (if active then ''bg-aries-surface-hi text-aries-teal''
              else ''text-aries-text-dim hover:text-aries-text hover:bg-aries-surface'')))]
       [Elem icon [(''size'', ANum 15), (''strokeWidth'', ANum 1.8)] [], Txt label]"

definition ConnectionIndicator :: "bool \<Rightarrow> string option \<Rightarrow> vnode" where
  "ConnectionIndicator live device_name =
     el ''div'' ''flex items-center gap-2 text-xs''
       ([Elem ''span''
           [(''className'', AStr (''aries-pulse inline-block w-1.5 h-1.5 rounded-full ''
               @ (if live then ''bg-aries-success shadow-[0_0_8px_var(--color-aries-success)]'' else ''bg-aries-error''))),
            (''aria-label'', AStr (if live then ''connected'' else ''disconnected''))] [],
         el ''span'' ''text-aries-text-dim'' [Txt (if live then ''live'' else ''reconnecting'' @ ellipsis)]]
        @ show_if (truthy_str device_name)
            [el ''span'' ''text-aries-text-dim ml-3'' [Txt (mid_dot @ '' '' @ nullish device_name '''')]])"

definition Logo :: vnode where
  "Logo =
     el ''div'' ''flex items-center gap-3''
       [el ''div'' ''relative shrink-0''
          [Elem ''img'' [(''src'', AStr ''simple_icon.png''), (''alt'', AStr ''Aries Mesh''), (''width'', AStr ''36''),
             (''height'', AStr ''36''), (''className'', AStr ''rounded-lg block'')] [],
           el ''div'' ''absolute inset-0 rounded-lg pointer-events-none shadow-[0_0_18px_rgba(0,212,170,0.20)]'' []],
        el ''div'' ''leading-tight''
          [el ''div'' ''text-aries-text font-semibold tracking-wide text-sm'' [Txt ''ARIES MESH''],
           el ''div'' ''text-[10px] uppercase tracking-[0.18em] text-aries-text-dim -mt-0.5''
             [Txt ''Personal Compute Fabric'']]]"

definition nav_tabs :: "(string \<times> string \<times> string) list" where
  "nav_tabs = [(''/topology'', ''Network'', ''Topology''), (''/inference'', ''Cpu'', ''Inference''),
               (''/activity'', ''Activity'', ''Activity'')]"

definition Layout :: "(string \<Rightarrow> bool) \<Rightarrow> string \<Rightarrow> bool \<Rightarrow> string option \<Rightarrow> vnode list \<Rightarrow> vnode" where
  "Layout is_active pathname live device_name children =
     el ''div'' ''min-h-screen flex flex-col''
       [el ''header'' ''sticky top-0 z-10 backdrop-blur-md bg-aries-dark/85 border-b border-aries-border''
          [el ''div'' ''max-w-7xl mx-auto px-6 h-14 flex items-center justify-between''
             [Logo,
              el ''nav'' ''flex items-center gap-1''
                (map (\<lambda>(dest, icon, label). NavTab (is_active dest) dest icon label) nav_tabs),
              ConnectionIndicator live device_name]],
        Elem ''main'' [(''key'', AStr pathname), (''className'', AStr ''max-w-7xl mx-auto w-full px-6 py-6 flex-1'')] children,
        el ''footer'' ''text-center text-[11px] text-aries-text-dim py-4 border-t border-aries-border''
          [Txt (''Aries Mesh v0.2 '' @ mid_dot @ '' localhost-only '' @ mid_dot @ '' all traffic Noise XX encrypted'')]]"

text \<open>The route table, and the page an exact path selects in it.\<close>

datatype page = TopologyPage | InferencePage | ActivityPage | NavigateTo string

definition app_routes :: "(string \<times> page) list" where
  "app_routes = [(''/'', TopologyPage), (''/topology'', TopologyPage), (''/inference'', InferencePage),
                 (''/activity'', ActivityPage), (''*'', NavigateTo ''/'')]"

definition route_of :: "string \<Rightarrow> page" where
  "route_of path = (case dget app_routes path of Some p \<Rightarrow> p | None \<Rightarrow> NavigateTo ''/'')"

subsection \<open>Lemmas\<close>

lemma health_pct_range: "health_pct v m = Some p \<Longrightarrow> 0 \<le> p \<and> p \<le> 100"
  unfolding health_pct_def by (cases "m = 0"; cases "v > 0"; cases "v < 0") auto

lemma dur_parts:
  assumes "0 \<le> t"
  shows "dur_h t * 3600 + dur_m t * 60 + dur_s t = \<lfloor>t\<rfloor> \<and> 0 \<le> dur_h t
    \<and> 0 \<le> dur_m t \<and> dur_m t < 60 \<and> 0 \<le> dur_s t \<and> dur_s t < 60"
proof -
  have q: "\<lfloor>a / 3600\<rfloor> = \<lfloor>a\<rfloor> div 3600" "\<lfloor>a / 60\<rfloor> = \<lfloor>a\<rfloor> div 60" for a :: real
    using floor_divide_real_eq_div[of 3600 a] floor_divide_real_eq_div[of 60 a] by simp_all
  have "js_mod t 3600 = t - of_int (3600 * (\<lfloor>t\<rfloor> div 3600))" "js_mod t 60 = t - of_int (60 * (\<lfloor>t\<rfloor> div 60))"
    using assms by (simp_all add: js_mod_nonneg q)
  then have "\<lfloor>js_mod t 3600\<rfloor> = \<lfloor>t\<rfloor> - 3600 * (\<lfloor>t\<rfloor> div 3600)" "\<lfloor>js_mod t 60\<rfloor> = \<lfloor>t\<rfloor> - 60 * (\<lfloor>t\<rfloor> div 60)"
    by (simp_all only: floor_diff_of_int)
  then have "\<lfloor>js_mod t 3600\<rfloor> = \<lfloor>t\<rfloor> mod 3600" "dur_s t = \<lfloor>t\<rfloor> mod 60"
    by (simp_all only: dur_s_def minus_mult_div_eq_mod)
  then have p: "dur_h t = \<lfloor>t\<rfloor> div 3600" "dur_m t = \<lfloor>t\<rfloor> mod 3600 div 60" "dur_s t = \<lfloor>t\<rfloor> mod 60"
    by (simp_all add: dur_h_def dur_m_def q)
  let ?n = "\<lfloor>t\<rfloor>" and ?r = "\<lfloor>t\<rfloor> mod 3600"
  have n: "0 \<le> ?n" using assms by simp
  have "?n div 3600 * 3600 + ?r = ?n" "?r div 60 * 60 + ?r mod 60 = ?r"
    by (rule div_mult_mod_eq)+
  moreover have "?r mod 60 = ?n mod 60" by (simp add: mod_mod_cancel)
  moreover have "0 \<le> ?n div 3600" using n by (simp add: pos_imp_zdiv_nonneg_iff)
  moreover have "0 \<le> ?r div 60" by (simp add: pos_imp_zdiv_nonneg_iff)
  moreover have "?r < 60 * 60" "0 \<le> ?n mod 60" "?n mod 60 < 60" by simp_all
  moreover have "h * 3600 + m * 60 + s = n \<and> 0 \<le> h \<and> 0 \<le> m \<and> m < 60 \<and> 0 \<le> s \<and> s < 60"
    if "h * 3600 + r = n" "m * 60 + s = r" "0 \<le> h" "0 \<le> m" "r < 60 * 60" "0 \<le> s" "s < 60"
    for h m s r n :: int
    using that by simp
  ultimately show ?thesis unfolding p by metis
qed


lemma ago_ladder_unit:
  assumes "5 \<le> d"
  shows "\<exists>n u c. ago_ladder d = show_int n @ c # '' ago'' \<and> (c, u) \<in> {(CHR ''s'', 1), (CHR ''m'', 60), (CHR ''h'', 3600), (CHR ''d'', 86400)}
    \<and> 1 \<le> n \<and> of_int n * u \<le> d \<and> d < (of_int n + 1) * u"
proof -
  have unit: "of_int \<lfloor>d / u\<rfloor> * u \<le> d \<and> d < (of_int \<lfloor>d / u\<rfloor> + 1) * u" if "0 < u" for u :: real
    using floor_divide_lower[OF that, of d] floor_divide_upper[OF that, of d] by simp
  have one: "1 \<le> \<lfloor>d / u\<rfloor>" if "0 < u" "u \<le> d" for u :: real
    using that by simp
  have *: "\<exists>n u' c'. show_int \<lfloor>d / u\<rfloor> @ c # '' ago'' = show_int n @ c' # '' ago''
      \<and> (c', u') \<in> {(CHR ''s'', 1), (CHR ''m'', 60), (CHR ''h'', 3600), (CHR ''d'', 86400)}
      \<and> 1 \<le> n \<and> of_int n * u' \<le> d \<and> d < (of_int n + 1) * u'"
    if "0 < u" "u \<le> d" "(c, u) \<in> {(CHR ''s'', 1), (CHR ''m'', 60), (CHR ''h'', 3600), (CHR ''d'', 86400)}" for u c
    using unit[OF that(1)] one[OF that(1,2)] that(3) by blast
  consider "d < 60" | "60 \<le> d" "d < 3600" | "3600 \<le> d" "d < 86400" | "86400 \<le> d" by linarith
  then show ?thesis
  proof cases
    case 1 then show ?thesis using *[of 1 "CHR ''s''"] assms by (simp add: ago_ladder_def)
  next
    case 2 then show ?thesis using *[of 60 "CHR ''m''"] by (simp add: ago_ladder_def)
  next
    case 3 then show ?thesis using *[of 3600 "CHR ''h''"] by (simp add: ago_ladder_def)
  next
    case 4 then show ?thesis using *[of 86400 "CHR ''d''"] by (simp add: ago_ladder_def)
  qed
qed

subsection \<open>Properties\<close>

text \<open>
  A positive duration is printed as its whole hours, minutes and seconds: the three numbers
  add up to the whole seconds of the duration, minutes and seconds stay below 60, and the two
  largest units that are not zero are shown.
\<close>

theorem duration_is_decomposed:
  assumes "0 < t"
  shows "\<exists>h m s. h * 3600 + m * 60 + s = \<lfloor>t\<rfloor> \<and> 0 \<le> h \<and> 0 \<le> m \<and> m < 60 \<and> 0 \<le> s \<and> s < 60
    \<and> formatDuration (Some t) =
        (if h > 0 then show_int h @ ''h '' @ show_int m @ ''m''
         else if m > 0 then show_int m @ ''m '' @ show_int s @ ''s'' else show_int s @ ''s'')"
  using dur_parts[of t] assms by (intro exI[of _ "dur_h t"] exI[of _ "dur_m t"] exI[of _ "dur_s t"])
    (simp add: formatDuration_def)

theorem duration_is_decomposed_witness:
  "\<exists>h m s. h * 3600 + m * 60 + s = \<lfloor>3725.5 :: real\<rfloor> \<and> 0 \<le> h \<and> 0 \<le> m \<and> m < 60 \<and> 0 \<le> s \<and> s < 60
    \<and> formatDuration (Some 3725.5) =
        (if h > 0 then show_int h @ ''h '' @ show_int m @ ''m''
         else if m > 0 then show_int m @ ''m '' @ show_int s @ ''s'' else show_int s @ ''s'')"
  by (rule duration_is_decomposed) simp

text \<open>
  The age shown on an event is its age rounded down in one unit: n units have passed, n + 1
  have not, and n is at least one; an age below five seconds, or a timestamp in the future,
  reads ''just now''.
\<close>

theorem event_age_is_rounded_down:
  "(now - ts < 5 \<and> timeAgo now (Some ts) = ''just now'')
   \<or> (\<exists>n u c. timeAgo now (Some ts) = show_int n @ c # '' ago''
        \<and> (c, u) \<in> {(CHR ''s'', 1), (CHR ''m'', 60), (CHR ''h'', 3600), (CHR ''d'', 86400)}
        \<and> 1 \<le> n \<and> of_int n * u \<le> now - ts \<and> now - ts < (of_int n + 1) * u)"
proof (cases "now - ts < 5")
  case False
  then show ?thesis using ago_ladder_unit[of "now - ts"] by (simp add: timeAgo_def max_def)
qed (simp add: timeAgo_def ago_ladder_def max_def)

text \<open>
  The fill of a bar never leaves 0..100 percent, but the unit is only printed: with the unit
  ''fraction'', whose values the component says run from 0 to 1, a value of 0.9 fills less than
  one percent and keeps the colour of a low reading.
\<close>

theorem fraction_bar_is_not_scaled:
  "(\<forall>v m p. health_pct v m = Some p \<longrightarrow> 0 \<le> p \<and> p \<le> 100)
   \<and> health_pct 0.9 100 = Some 0.9 \<and> health_tone False (health_pct 0.9 100) = ''bg-aries-success''"
  by (simp add: health_pct_range health_tone_def) (simp add: health_pct_def)

theorem fraction_bar_is_not_scaled_witness:
  "0 \<le> (0.9::real) \<and> (0.9::real) \<le> 100"
  using fraction_bar_is_not_scaled by blast

end
