(* ===== verification/TopologyPage.thy ===== *)
theory TopologyPage
  imports Components
begin

text \<open>
  \<^verbatim>\<open>dashboard/src/pages/Topology.jsx\<close>: the mesh drawing with its layout and hover state, the
  side cards and the recent activity. Replies of the API are records of optional fields.
\<close>

subsection \<open>Replies of the API\<close>

record api_status =
  sta_name :: "string option"
  sta_platform :: "string option"
  sta_did_short :: "string option"
  sta_uptime :: "real option"
  sta_port :: "nat option"
  sta_version :: "string option"

record api_peer =
  peer_did :: string
  peer_name :: "string option"
  peer_did_short :: "string option"
  peer_platform :: "string option"
  peer_connected :: bool
  peer_latency :: "real option"
  peer_host :: "string option"
  peer_port :: "nat option"
  peer_last_seen :: "real option"

record api_health =
  he_cpu :: "real option"
  he_ram_total :: "real option"
  he_ram_available :: "real option"
  he_battery :: "real option"
  he_charging :: bool
  he_thermal :: "string option"
  he_network :: "string option"
  he_bandwidth :: "real option"
  he_score :: "real option"

record api_agent =
  ag_did :: string
  ag_name :: string
  ag_vendor :: string
  ag_model :: "string option"
  ag_locality :: string
  ag_cost :: string

record api_memory =
  me_namespaces :: "(nat \<times> nat \<times> nat) option"
  me_total :: "nat option"
  me_clock :: "int option"
  me_logs :: "nat option"
  me_log_entries :: "nat option"

text \<open>\<open>obj?.field\<close> where the field itself may be missing\<close>

definition opt_field :: "'a option \<Rightarrow> ('a \<Rightarrow> 'b option) \<Rightarrow> 'b option" where
  "opt_field x f = (case x of None \<Rightarrow> None | Some v \<Rightarrow> f v)"

lemma opt_field_simps [simp]: "opt_field None f = None" "opt_field (Some v) f = f v"
  by (simp_all add: opt_field_def)

subsection \<open>Uptime\<close>

definition formatUptime :: "real option \<Rightarrow> string" where
  "formatUptime secs =
     (case secs of
        None \<Rightarrow> em_dash
      | Some t \<Rightarrow>
          if t = 0 \<or> t < 0 then em_dash
          else pad_start2 (show_int (dur_h t)) @ '':'' @ pad_start2 (show_int (dur_m t)) @ '':''
                 @ pad_start2 (show_int (dur_s t)))"

subsection \<open>Layout\<close>

text \<open>Positions are percentages of the stage.\<close>

definition host_position :: "real \<times> real" where
  "host_position = (26, 50)"

definition arc_angle :: "nat \<Rightarrow> nat \<Rightarrow> real" where
  "arc_angle n i = -55 + (110 / (real n - 1)) * real i"

definition peer_position :: "nat \<Rightarrow> nat \<Rightarrow> real \<times> real" where
  "peer_position n i =
     (if n = 1 then (74, 50)
      else if n = 2 then (74, if i = 0 then 28 else 72)
      else if n = 3 then (74, [22, 50, 78] ! i)
      else (let rad = arc_angle n i * pi / 180
            in (fst host_position + 56 * cos rad, snd host_position + 46 * sin rad)))"

definition layoutPeers :: "'p list \<Rightarrow> (real \<times> real) \<times> ('p \<times> real \<times> real) list" where
  "layoutPeers peers =
     (if peers = [] then (host_position, [])
      else (host_position, map (\<lambda>(i, p). (p, peer_position (length peers) i)) (enumerate 0 peers)))"

subsection \<open>Hover state\<close>

datatype hover_kind = HoverSelf | HoverPeer

record hover =
  hov_kind :: hover_kind
  hov_pos :: "real \<times> real"
  hov_data :: tip_device

definition host_tip :: "api_status option \<Rightarrow> tip_device" where
  "host_tip status =
     \<lparr>tip_name = opt_field status sta_name, tip_platform = opt_field status sta_platform, tip_self = True,
      tip_online = True, tip_did_short = opt_field status sta_did_short, tip_host = Some ''127.0.0.1'',
      tip_port = opt_field status sta_port, tip_latency = None, tip_last_seen = None,
      tip_uptime = opt_field status sta_uptime, tip_did = None\<rparr>"

text \<open>
  A peer's record is spread into the tooltip's device, which reads \<^verbatim>\<open>did_short\<close>; a peer has
  \<^verbatim>\<open>device_did_short\<close>, so the tooltip of a peer finds no short DID.
\<close>

definition peer_tip :: "api_peer \<Rightarrow> tip_device" where
  "peer_tip p =
     \<lparr>tip_name = peer_name p, tip_platform = peer_platform p, tip_self = False,
      tip_online = peer_connected p, tip_did_short = None, tip_host = peer_host p,
      tip_port = peer_port p, tip_latency = peer_latency p, tip_last_seen = peer_last_seen p,
      tip_uptime = None, tip_did = Some (peer_did p)\<rparr>"

datatype hover_event = EnterHost | LeaveHost | EnterPeer api_peer "real \<times> real" | LeavePeer api_peer

fun hover_step :: "api_status option \<Rightarrow> hover_event \<Rightarrow> hover option \<Rightarrow> hover option" where
  "hover_step status EnterHost h =
     Some \<lparr>hov_kind = HoverSelf, hov_pos = host_position, hov_data = host_tip status\<rparr>"
| "hover_step status LeaveHost h =
     (case h of None \<Rightarrow> None | Some x \<Rightarrow> if hov_kind x = HoverSelf then None else h)"
| "hover_step status (EnterPeer p pos) h =
     Some \<lparr>hov_kind = HoverPeer, hov_pos = pos, hov_data = peer_tip p\<rparr>"
| "hover_step status (LeavePeer p) h =
     (case h of None \<Rightarrow> None
      | Some x \<Rightarrow> if hov_kind x = HoverPeer \<and> tip_did (hov_data x) = Some (peer_did p) then None else h)"

subsection \<open>The drawing\<close>

definition edge :: "real \<times> real \<Rightarrow> api_peer \<times> real \<times> real \<Rightarrow> vnode" where
  "edge host pp =
     (case pp of (peer, x, y) \<Rightarrow>
        let offline = (\<not> peer_connected peer)
        in Elem ''g'' [(''key'', AStr (peer_did peer))]
            [Elem ''line''
              [(''x1'', ANum (fst host)), (''y1'', ANum (snd host)), (''x2'', ANum x), (''y2'', ANum y),
               (''stroke'', AStr (if offline then ''#3E2A2E'' else ''#00D4AA'')),
               (''strokeOpacity'', ANum (if offline then 0.55 else 0.5)), (''strokeWidth'', ANum 0.2),
               (''className'', AStr (if offline then '''' else ''aries-edge'')),
               (''style'', AStyle [(''vectorEffect'', CStr ''non-scaling-stroke'')])] []])"

definition latency_label :: "real \<times> real \<Rightarrow> api_peer \<times> real \<times> real \<Rightarrow> vnode" where
  "latency_label host pp =
     (case pp of (peer, x, y) \<Rightarrow>
        Elem ''div''
          [(''key'', AStr (''label-'' @ peer_did peer)),
           (''className'', AStr ''absolute -translate-x-1/2 -translate-y-1/2 pointer-events-none''),
           (''style'', AStyle [(''left'', CPct ((fst host + x) / 2)), (''top'', CPct ((snd host + y) / 2))])]
          [el ''div'' ''text-[10px] font-mono text-aries-text bg-aries-dark/95 border border-aries-border rounded-full px-2 py-0.5 shadow-sm''
             [Txt (latency_text (peer_latency peer))]])"

definition peer_circle :: "api_peer \<times> real \<times> real \<Rightarrow> vnode" where
  "peer_circle pp =
     (case pp of (peer, x, y) \<Rightarrow>
        DeviceCircle (Some (or_str (peer_name peer) (or_str (peer_did_short peer) ''peer''))) (peer_platform peer)
          False (peer_connected peer) [(''left'', CPct x), (''top'', CPct y)])"

definition TopologyGraph :: "api_status option \<Rightarrow> api_peer list \<Rightarrow> hover option \<Rightarrow> vnode" where
  "TopologyGraph status peers hovered =
     (let (host, positions) = layoutPeers peers;
          offlineCount = length (filter (\<lambda>p. \<not> peer_connected p) peers)
      in el ''div'' ''relative rounded-(--radius-card) border border-aries-border bg-aries-surface/40 overflow-hidden''
          [Elem ''div''
             [(''className'', AStr ''absolute inset-0 pointer-events-none opacity-[0.05]''),
              (''style'', AStyle [(''backgroundImage'', CStr ''radial-gradient(circle at 1px 1px, #00D4AA 1px, transparent 0)''),
                 (''backgroundSize'', CStr ''34px 34px'')])] [],
           el ''div'' ''relative flex items-center justify-between px-5 pt-4 pb-2 z-10''
             [Elem ''div'' []
                [el ''div'' ''text-xs uppercase tracking-[0.18em] text-aries-text-dim'' [Txt ''Mesh Topology''],
                 el ''div'' ''text-lg font-semibold text-aries-text''
                   ([Txt (show_nat (length peers + 1) @ '' device'' @ (if length peers = 0 then '''' else ''s''))]
                    @ show_if (offlineCount > 0)
                        [el ''span'' ''text-aries-text-dim text-sm font-normal ml-2''
                           [Txt (mid_dot @ '' '' @ show_nat offlineCount @ '' offline'')]])],
              StatusBadge ''info''
                (''Protocol '' @ or_str (opt_field status sta_version) ''v0.2'' @ '' '' @ mid_dot @ '' encrypted'') False],
           el ''div'' ''relative w-full h-[420px]''
             ([Elem ''svg''
                 [(''className'', AStr ''absolute inset-0 w-full h-full''), (''viewBox'', AStr ''0 0 100 100''),
                  (''preserveAspectRatio'', AStr ''none'')]
                 (map (edge host) positions)]
              @ map (latency_label host) positions
              @ show_if (peers = [])
                  [Elem ''div''
                     [(''className'', AStr ''absolute -translate-x-1/2 -translate-y-1/2 text-center''),
                      (''style'', AStyle [(''left'', CPct 74), (''top'', CPct 50)])]
                     [el ''div'' ''text-aries-text-dim text-sm'' [Txt ''No peers connected''],
                      el ''div'' ''text-aries-text-dim text-xs mt-1 opacity-75''
                        [Txt ''Run '', el ''code'' ''text-aries-teal'' [Txt ''aries pair --invite''], Txt '' to add one'']]]
              @ [DeviceCircle (Some (or_str (opt_field status sta_name) ''this-device'')) (opt_field status sta_platform)
                   True True [(''left'', CPct (fst host)), (''top'', CPct (snd host))]]
              @ map peer_circle positions
              @ (case hovered of
                   None \<Rightarrow> []
                 | Some h \<Rightarrow> DeviceTooltip (Some (hov_data h))
                     [(''left'', CPct (fst (hov_pos h))), (''top'', CPct (snd (hov_pos h)))]))])"


subsection \<open>Side cards\<close>

definition card :: string where
  "card = ''rounded-(--radius-card) border border-aries-border bg-aries-surface p-5''"

definition ram_used :: "api_health option \<Rightarrow> real" where
  "ram_used health = max (nullish (opt_field health he_ram_total) 0 - nullish (opt_field health he_ram_available) 0) 0"

definition ram_pct :: "api_health option \<Rightarrow> real" where
  "ram_pct health =
     (let total = nullish (opt_field health he_ram_total) 0
      in if total \<noteq> 0 then ram_used health / total * 100 else 0)"

definition he_is_charging :: "api_health option \<Rightarrow> bool" where
  "he_is_charging health = (case health of None \<Rightarrow> False | Some h \<Rightarrow> he_charging h)"

definition ThisDeviceCard :: "api_status option \<Rightarrow> api_health option \<Rightarrow> vnode" where
  "ThisDeviceCard status health =
     (let total = nullish (opt_field health he_ram_total) 0;
          cpu = nullish (opt_field health he_cpu) 0
      in el ''div'' card
          [el ''div'' ''flex items-baseline justify-between mb-1''
             [Elem ''div'' []
                [el ''div'' ''text-xs uppercase tracking-[0.18em] text-aries-text-dim'' [Txt ''This Device''],
                 el ''div'' ''text-lg font-semibold text-aries-text mt-0.5''
                   [Txt (or_str (opt_field status sta_name) em_dash)]],
              el ''div'' ''text-right''
                [el ''div'' ''text-[10px] uppercase tracking-wider text-aries-text-dim'' [Txt ''Uptime''],
                 el ''div'' ''font-mono text-sm text-aries-teal''
                   [Txt (formatUptime (opt_field status sta_uptime))]]],
           el ''div'' ''text-[11px] font-mono text-aries-text-dim mb-4 truncate''
             [Txt (or_str (opt_field status sta_did_short) '''')],
           el ''div'' ''space-y-3''
             ([HealthBar_default ''CPU'' cpu (Some (to_fixed0 cpu @ ''%'')),
               HealthBar_default ''RAM'' (ram_pct health)
                 (Some (to_fixed1 (ram_used health) @ ''/'' @ to_fixed1 total @ '' GB''))]
              @ (case opt_field health he_battery of
                   None \<Rightarrow> []
                 | Some b \<Rightarrow> [HealthBar ''Battery'' b 100 ''%'' True
                     (Some (show_int (math_round b) @ ''%'' @ (if he_is_charging health then '' '' @ bolt_sign else '''')))])),
           el ''div'' ''mt-4 grid grid-cols-2 gap-x-4 gap-y-2 text-xs''
             [el ''div'' ''flex items-center gap-1.5 text-aries-text-dim''
                [Elem ''Thermometer'' [(''size'', ANum 13), (''strokeWidth'', ANum 1.8)] [], Elem ''span'' [] [Txt ''Thermal'']],
              el ''div'' ''text-aries-text text-right capitalize'' [Txt (or_str (opt_field health he_thermal) ''unknown'')],
              el ''div'' ''flex items-center gap-1.5 text-aries-text-dim''
                [Elem ''Wifi'' [(''size'', ANum 13), (''strokeWidth'', ANum 1.8)] [], Elem ''span'' [] [Txt ''Network'']],
              el ''div'' ''text-aries-text text-right''
                [Txt (or_str (opt_field health he_network) ''unknown''), Txt '' '',
                 el ''span'' ''text-aries-text-dim''
                   [Txt (mid_dot @ '' '' @ show_int (math_round (nullish (opt_field health he_bandwidth) 0)) @ '' MB/s'')]],
              el ''div'' ''flex items-center gap-1.5 text-aries-text-dim''
                [Elem (if he_is_charging health then ''BatteryCharging'' else ''Battery'')
                   [(''size'', ANum 13), (''strokeWidth'', ANum 1.8)] [],
                 Elem ''span'' [] [Txt ''Health'']],
              el ''div'' ''text-aries-text text-right''
                [Txt (to_fixed0 (nullish (opt_field health he_score) 0 * 100) @ ''%'')]]])"

definition AgentsCard :: "api_agent list \<Rightarrow> vnode" where
  "AgentsCard agents =
     el ''div'' card
       [el ''div'' ''flex items-baseline justify-between mb-3''
          [Elem ''div'' []
             [el ''div'' ''text-xs uppercase tracking-[0.18em] text-aries-text-dim'' [Txt ''Agents''],
              el ''div'' ''text-lg font-semibold text-aries-text mt-0.5'' [Txt (show_nat (length agents) @ '' registered'')]],
           Elem ''Bot'' [(''size'', ANum 18), (''strokeWidth'', ANum 1.5), (''className'', AStr ''text-aries-text-dim'')] []],
        if agents = [] then
          el ''div'' ''text-sm text-aries-text-dim py-6 text-center''
            [Txt ''No agents registered.'', Elem ''br'' [] [],
             el ''code'' ''text-xs text-aries-teal'' [Txt ''aries register --vendor mock --model demo'']]
        else
          el ''div'' ''space-y-2.5 max-h-[220px] overflow-y-auto pr-1''
            (map (\<lambda>a.
               Elem ''div'' [(''key'', AStr (ag_did a)), (''className'', AStr ''flex items-center justify-between'')]
                 [el ''div'' ''min-w-0''
                    [el ''div'' ''text-sm text-aries-text truncate'' [Txt (ag_name a)],
                     el ''div'' ''text-[11px] text-aries-text-dim font-mono truncate''
                       [Txt (ag_vendor a @ ''/'' @ or_str (ag_model a) em_dash)]],
                  el ''div'' ''flex flex-col items-end gap-0.5 ml-3 shrink-0''
                    [StatusBadge (if ag_locality a = ''local'' then ''success'' else ''info'') (ag_locality a) False,
                     el ''span'' ''text-[10px] text-aries-text-dim font-mono'' [Txt (ag_cost a)]]])
             agents)]"

definition memory_rows :: "api_memory option \<Rightarrow> (string \<times> nat \<times> string) list" where
  "memory_rows memory =
     (case nullish (opt_field memory me_namespaces) (0, 0, 0) of
        (c, m, k) \<Rightarrow> [(''context://'', c, ''text-aries-teal''), (''memory://'', m, ''text-sky-300''),
                       (''cache://'', k, ''text-aries-warning'')])"

definition MemoryCard :: "api_memory option \<Rightarrow> vnode" where
  "MemoryCard memory =
     (let total = nullish (opt_field memory me_total) 0
      in el ''div'' card
          [el ''div'' ''flex items-baseline justify-between mb-3''
             [Elem ''div'' []
                [el ''div'' ''text-xs uppercase tracking-[0.18em] text-aries-text-dim'' [Txt ''Shared Memory''],
                 el ''div'' ''text-lg font-semibold text-aries-text mt-0.5''
                   [Txt (show_nat total @ '' key'' @ (if total = 1 then '''' else ''s''))]],
              Elem ''MemoryStick'' [(''size'', ANum 18), (''strokeWidth'', ANum 1.5), (''className'', AStr ''text-aries-text-dim'')] []],
           el ''div'' ''space-y-2 text-sm''
             (map (\<lambda>(label, count, tint).
                Elem ''div'' [(''key'', AStr label), (''className'', AStr ''flex items-baseline justify-between'')]
                  [el ''span'' (''font-mono text-xs '' @ tint) [Txt label],
                   el ''span'' ''text-aries-text font-mono'' [Txt (show_nat count)]])
              (memory_rows memory)),
           el ''div'' ''mt-4 pt-3 border-t border-aries-border/60 grid grid-cols-2 gap-2 text-xs''
             [el ''div'' ''text-aries-text-dim'' [Txt ''Lamport clock''],
              el ''div'' ''text-right font-mono text-aries-text'' [Txt (show_int (nullish (opt_field memory me_clock) 0))],
              el ''div'' ''text-aries-text-dim'' [Txt ''Append logs''],
              el ''div'' ''text-right font-mono text-aries-text''
                [Txt (show_nat (nullish (opt_field memory me_logs) 0) @ '' '' @ mid_dot @ '' ''
                   @ show_nat (nullish (opt_field memory me_log_entries) 0) @ '' entries'')]]])"

subsection \<open>Activity panel and page\<close>

definition ActivityFeed :: "real \<Rightarrow> mesh_event list \<Rightarrow> vnode" where
  "ActivityFeed now events =
     el ''div'' card
       [el ''div'' ''flex items-baseline justify-between mb-3''
          [Elem ''div'' []
             [el ''div'' ''text-xs uppercase tracking-[0.18em] text-aries-text-dim'' [Txt ''Recent Activity''],
              el ''div'' ''text-lg font-semibold text-aries-text mt-0.5'' [Txt ''Live event feed'']],
           Elem ''Sparkles'' [(''size'', ANum 18), (''strokeWidth'', ANum 1.5), (''className'', AStr ''text-aries-teal'')] []],
        if events = [] then
          el ''div'' ''text-sm text-aries-text-dim py-6 text-center''
            [Txt (''Waiting for events'' @ ellipsis), Elem ''br'' [] [],
             el ''span'' ''text-xs'' [Txt ''Tasks, peer connections, and handoffs appear here in real time.'']]
        else
          el ''div'' ''space-y-2 max-h-[280px] overflow-y-auto pr-1''
            (concat (map (\<lambda>(i, ev). EventCard now (Some ev) (i = 0)) (enumerate 0 (take 10 events))))]"

definition Topology ::
    "real \<Rightarrow> api_status option \<Rightarrow> api_health option \<Rightarrow> api_peer list option \<Rightarrow> api_agent list option
      \<Rightarrow> api_memory option \<Rightarrow> mesh_event list \<Rightarrow> hover option \<Rightarrow> vnode" where
  "Topology now status health peersData agentsData memory events hovered =
     (let peers = nullish peersData []; agents = nullish agentsData []
      in el ''div'' ''space-y-6''
          [TopologyGraph status peers hovered,
           el ''div'' ''grid grid-cols-1 lg:grid-cols-3 gap-6''
             [ThisDeviceCard status health, AgentsCard agents, MemoryCard memory],
           ActivityFeed now events])"

subsection \<open>Lemmas\<close>

lemma arc_angle_range:
  assumes "4 \<le> n" "i < n"
  shows "-55 \<le> arc_angle n i" "arc_angle n i \<le> 55"
proof -
  have n: "real n - 1 > 0" "real i \<le> real n - 1" using assms by auto
  have "110 / (real n - 1) * real i \<le> 110 / (real n - 1) * (real n - 1)"
    using n by (intro mult_left_mono) auto
  also have "\<dots> = 110" using n(1) nonzero_eq_divide_eq[of "real n - 1" 110 110] by (metis less_numeral_extra(3) nonzero_mult_div_cancel_right times_divide_eq_left)
  finally show "arc_angle n i \<le> 55" by (simp add: arc_angle_def)
  show "-55 \<le> arc_angle n i" using n by (simp add: arc_angle_def)
qed

lemma arc_angle_mono:
  assumes "4 \<le> n" "i < j"
  shows "arc_angle n i < arc_angle n j"
proof -
  have "110 / (real n - 1) > 0" using assms(1) by simp
  then have "110 / (real n - 1) * real i < 110 / (real n - 1) * real j"
    using assms(2) by (intro mult_strict_left_mono) auto
  then show ?thesis by (simp add: arc_angle_def)
qed

lemma rad_range:
  assumes "4 \<le> n" "i < n"
  shows "- (pi / 2) < arc_angle n i * pi / 180" "arc_angle n i * pi / 180 < pi / 2"
proof -
  have "arc_angle n i * pi \<le> 55 * pi" "- 55 * pi \<le> arc_angle n i * pi"
    using arc_angle_range[OF assms] mult_right_mono[of "-55" "arc_angle n i" pi] by (simp_all add: mult_right_mono)
  then show "- (pi / 2) < arc_angle n i * pi / 180" "arc_angle n i * pi / 180 < pi / 2"
    using pi_gt_zero by linarith+
qed

lemma peer_position_arc:
  "4 \<le> n \<Longrightarrow> peer_position n i =
     (26 + 56 * cos (arc_angle n i * pi / 180), 50 + 46 * sin (arc_angle n i * pi / 180))"
  by (simp add: peer_position_def Let_def host_position_def)

text \<open>Later peers are drawn strictly lower.\<close>

lemma peer_position_descends:
  assumes "i < j" "j < n"
  shows "snd (peer_position n i) < snd (peer_position n j)"
proof -
  consider "n = 2" | "n = 3" | "4 \<le> n" using assms by linarith
  then show ?thesis
  proof cases
    case 1
    with assms have "i = 0" "j = 1" by auto
    with 1 show ?thesis by (simp add: peer_position_def)
  next
    case 2
    with assms have "i = 0 \<and> j = 1 \<or> i = 0 \<and> j = 2 \<or> i = 1 \<and> j = 2" by auto
    with 2 show ?thesis by (auto simp: peer_position_def)
  next
    case 3
    have "arc_angle n i * pi / 180 < arc_angle n j * pi / 180"
      using arc_angle_mono[OF 3 assms(1)] by simp
    then have "sin (arc_angle n i * pi / 180) < sin (arc_angle n j * pi / 180)"
      using rad_range[OF 3, of i] rad_range[OF 3, of j] assms
      by (intro sin_monotone_2pi) auto
    then show ?thesis by (simp add: peer_position_arc[OF 3])
  qed
qed

lemma peer_position_range:
  assumes "i < n"
  shows "26 < fst (peer_position n i)" "fst (peer_position n i) \<le> 82"
    "4 \<le> snd (peer_position n i)" "snd (peer_position n i) \<le> 96"
proof -
  have "26 < fst (peer_position n i) \<and> fst (peer_position n i) \<le> 82 \<and> 4 \<le> snd (peer_position n i)
      \<and> snd (peer_position n i) \<le> 96"
  proof (cases "4 \<le> n")
    case True
    have "0 < cos (arc_angle n i * pi / 180)" by (rule cos_gt_zero_pi) (use rad_range[OF True assms] in auto)
    moreover have "-1 \<le> sin (arc_angle n i * pi / 180)" by (rule sin_ge_minus_one)
    moreover have "0 < c \<Longrightarrow> -1 \<le> s \<Longrightarrow> c \<le> 1 \<Longrightarrow> s \<le> 1 \<Longrightarrow>
      26 < 26 + 56 * c \<and> 26 + 56 * c \<le> 82 \<and> 4 \<le> 50 + 46 * s \<and> 50 + 46 * s \<le> 96" for c s :: real
      by auto
    ultimately show ?thesis
      using cos_le_one sin_le_one by (simp only: peer_position_arc[OF True] fst_conv snd_conv)
  next
    case False
    with assms have "n = 1 \<or> n = 2 \<or> n = 3 \<and> (i = 0 \<or> i = 1 \<or> i = 2)" by auto
    then show ?thesis by (auto simp: peer_position_def)
  qed
  then show "26 < fst (peer_position n i)" "fst (peer_position n i) \<le> 82"
    "4 \<le> snd (peer_position n i)" "snd (peer_position n i) \<le> 96" by auto
qed

subsection \<open>Properties\<close>

text \<open>
  C37: the layout places every peer, in order, inside the stage and to the right of the host, and
  no two at the same place: each is strictly lower than the one before it.
\<close>

theorem layout_places_peers:
  "case layoutPeers peers of (host, ps) \<Rightarrow>
     map fst ps = peers
     \<and> list_all (\<lambda>(p, x, y). fst host < x \<and> x \<le> 100 \<and> 0 \<le> y \<and> y \<le> 100) ps
     \<and> sorted_wrt (\<lambda>(p, x, y) (q, x', y'). y < y') ps"
proof (cases "peers = []")
  case False
  let ?n = "length peers"
  let ?ps = "map (\<lambda>(i, p). (p, peer_position ?n i)) (enumerate 0 peers)"
  have nth: "i < ?n \<Longrightarrow> ?ps ! i = (peers ! i, peer_position ?n i)" for i
    by (simp add: nth_enumerate_eq)
  have "map fst ?ps = peers" by (simp add: comp_def case_prod_unfold)
  moreover have "26 < fst (peer_position ?n i) \<and> fst (peer_position ?n i) \<le> 100
      \<and> 0 \<le> snd (peer_position ?n i) \<and> snd (peer_position ?n i) \<le> 100" if "i < ?n" for i
    using peer_position_range[OF that] by linarith
  then have "list_all (\<lambda>(p, x, y). 26 < x \<and> x \<le> 100 \<and> 0 \<le> y \<and> y \<le> 100) ?ps"
    unfolding list_all_length using nth by (auto simp: case_prod_unfold)
  moreover have "sorted_wrt (\<lambda>(p, x, y) (q, x', y'). y < y') ?ps"
    unfolding sorted_wrt_iff_nth_less
    using nth peer_position_descends by (auto simp: case_prod_unfold)
  ultimately show ?thesis using False by (simp add: layoutPeers_def host_position_def)
qed (simp add: layoutPeers_def)

text \<open>
  The tooltip closes only for the circle it belongs to: leaving another peer, or the host,
  while a peer is hovered keeps the tooltip of that peer; leaving that peer closes it.
\<close>

theorem tooltip_closes_for_its_peer:
  "hover_step st (LeavePeer q) (hover_step st (EnterPeer p pos) h) =
     (if peer_did q = peer_did p then None else hover_step st (EnterPeer p pos) h)
   \<and> hover_step st LeaveHost (hover_step st (EnterPeer p pos) h) = hover_step st (EnterPeer p pos) h
   \<and> hover_step st (LeavePeer q) (hover_step st EnterHost h) = hover_step st EnterHost h"
  by (simp add: peer_tip_def host_tip_def)

text \<open>
  The tooltip of a peer never shows the peer's DID: the tooltip of any two peers that differ
  only in their short DID is the same, and its DID row reads as missing.
\<close>

theorem peer_tooltip_hides_did:
  "DeviceTooltip (Some (peer_tip p)) style = DeviceTooltip (Some (peer_tip (p\<lparr>peer_did_short := d\<rparr>))) style
   \<and> or_str (tip_did_short (peer_tip p)) em_dash = em_dash"
  by (simp add: peer_tip_def)

end
