(* ===== verification/InferencePage.thy ===== *)
theory InferencePage
  imports TopologyPage
begin

text \<open>
  \<^verbatim>\<open>dashboard/src/pages/Inference.jsx\<close>: the ranked configurations, the active session, the score
  breakdown and the recent tasks. \<open>num\<close> prints a number the way JavaScript does.
\<close>

subsection \<open>Replies of the API\<close>

record api_config =
  co_id :: string
  co_model :: string
  co_type :: string
  co_devices :: "string list option"
  co_tok_s :: real
  co_score :: real
  co_privacy :: "real option"
  co_capability :: "real option"
  co_cost :: "real option"

record api_active =
  ac_model :: string
  ac_type :: string
  ac_config :: string
  ac_workers :: "(string \<times> bool) list option"

record api_task =
  ta_id :: string
  ta_action :: string
  ta_model :: "string option"
  ta_tokens :: "nat option"
  ta_latency :: "real option"
  ta_status :: string

subsection \<open>Cards\<close>

definition configToneBadge :: "string \<Rightarrow> vnode" where
  "configToneBadge type =
     (if type = ''local'' then StatusBadge ''success'' ''local'' False
      else if type = ''distributed'' then StatusBadge ''info'' ''distributed'' True
      else if type = ''cloud'' then StatusBadge ''warning'' ''cloud'' False
      else StatusBadge ''muted'' type False)"

definition score_pct :: "real option \<Rightarrow> real" where
  "score_pct value = max 0 (min 100 (nullish value 0 * 100))"

definition ScoreBar :: "real option \<Rightarrow> string \<Rightarrow> vnode" where
  "ScoreBar value label =
     (let pct = score_pct value
      in el ''div'' ''flex items-center gap-2 text-xs''
          [el ''span'' ''text-aries-text-dim w-16'' [Txt label],
           el ''div'' ''flex-1 h-1 rounded-full bg-aries-border/60''
             [Elem ''div'' [(''className'', AStr ''h-full rounded-full bg-aries-teal/80''), (''style'', AStyle [(''width'', CPct pct)])] []],
           el ''span'' ''text-aries-text font-mono w-9 text-right'' [Txt (to_fixed0 pct)]])"

definition device_count :: "api_config \<Rightarrow> nat" where
  "device_count c = (case co_devices c of None \<Rightarrow> 0 | Some ds \<Rightarrow> length ds)"

definition config_row :: "(real \<Rightarrow> string) \<Rightarrow> nat \<Rightarrow> api_config \<Rightarrow> vnode" where
  "config_row num i c =
     Elem ''tr'' [(''key'', AStr (co_id c)), (''className'', AStr ''hover:bg-aries-surface-hi/30 transition-colors'')]
       [el ''td'' ''px-5 py-3.5''
          [el ''div'' ''text-aries-text font-medium'' [Txt (co_model c)],
           el ''div'' ''text-[11px] text-aries-text-dim font-mono'' [Txt (co_id c)]],
        el ''td'' ''px-5 py-3.5'' [configToneBadge (co_type c)],
        el ''td'' ''px-5 py-3.5''
          [el ''div'' ''flex items-center gap-1.5''
             [el ''span'' ''text-aries-text'' [Txt (show_nat (device_count c))],
              el ''span'' ''text-aries-text-dim text-xs'' [Txt (if device_count c = 1 then ''device'' else ''devices'')]]],
        el ''td'' ''px-5 py-3.5 text-right'' [el ''span'' ''text-aries-text font-mono'' [Txt (num (co_tok_s c))]],
        el ''td'' ''px-5 py-3.5 text-right''
          (el ''span'' (''font-mono '' @ (if i = 0 then ''text-aries-teal font-semibold'' else ''text-aries-text''))
             [Txt (to_fixed0 (co_score c * 100))]
           # show_if (i = 0) [el ''span'' ''ml-1 text-[10px] text-aries-teal'' [Txt black_star]])]"

definition no_configs :: vnode where
  "no_configs =
     el ''div'' ''rounded-(--radius-card) border border-aries-border bg-aries-surface p-8 text-center''
       [Elem ''Brain'' [(''size'', ANum 32), (''strokeWidth'', ANum 1.5), (''className'', AStr ''mx-auto text-aries-text-dim mb-3'')] [],
        el ''div'' ''text-aries-text font-medium mb-1'' [Txt ''No inference configurations yet''],
        el ''div'' ''text-sm text-aries-text-dim max-w-md mx-auto''
          [Txt (''The registry didn'' @ [CHR 0x27] @ ''t find a usable llama.cpp build or any GGUF model files on this device. Install ''),
           el ''code'' ''text-aries-teal'' [Txt ''llama-server''], Txt '' and drop a '',
           el ''code'' ''text-aries-teal'' [Txt ''.gguf''], Txt '' file under'', Txt '' '',
           el ''code'' ''text-aries-teal'' [Txt ''~/.aries/<name>/models/''], Txt ''.'']]"

definition th :: "string \<Rightarrow> string \<Rightarrow> vnode" where
  "th cls label = el ''th'' cls [Txt label]"

definition ConfigsTable :: "(real \<Rightarrow> string) \<Rightarrow> api_config list \<Rightarrow> vnode" where
  "ConfigsTable num configs =
     (if configs = [] then no_configs
      else el ''div'' ''rounded-(--radius-card) border border-aries-border bg-aries-surface overflow-hidden''
        [el ''div'' ''px-5 py-4 border-b border-aries-border flex items-baseline justify-between''
           [Elem ''div'' []
              [el ''div'' ''text-xs uppercase tracking-[0.18em] text-aries-text-dim'' [Txt ''Available Configurations''],
               el ''div'' ''text-lg font-semibold text-aries-text mt-0.5''
                 [Txt (show_nat (length configs) @ '' '' @ (if length configs = 1 then ''option'' else ''options'')
                    @ '' ranked by scheduler'')]],
            Elem ''Cpu'' [(''size'', ANum 18), (''strokeWidth'', ANum 1.5), (''className'', AStr ''text-aries-text-dim'')] []],
         el ''div'' ''overflow-x-auto''
           [el ''table'' ''w-full text-sm''
              [el ''thead'' ''bg-aries-surface-hi/40 text-aries-text-dim text-xs uppercase tracking-wider''
                 [Elem ''tr'' []
                    [th ''px-5 py-3 text-left font-medium'' ''Model'', th ''px-5 py-3 text-left font-medium'' ''Type'',
                     th ''px-5 py-3 text-left font-medium'' ''Devices'', th ''px-5 py-3 text-right font-medium'' ''Est. tok/s'',
                     th ''px-5 py-3 text-right font-medium'' ''Score'']],
               el ''tbody'' ''divide-y divide-aries-border/60''
                 (map (\<lambda>(i, c). config_row num i c) (enumerate 0 configs))]]])"

definition workers :: "api_active \<Rightarrow> (string \<times> bool) list" where
  "workers a = nullish (ac_workers a) []"

definition ready_count :: "api_active \<Rightarrow> nat" where
  "ready_count a = length (filter snd (workers a))"

definition labelled_row :: "string \<Rightarrow> vnode \<Rightarrow> vnode" where
  "labelled_row label v = el ''div'' ''flex items-baseline justify-between'' [el ''span'' ''text-aries-text-dim'' [Txt label], v]"

definition ActiveSession :: "api_active option \<Rightarrow> vnode" where
  "ActiveSession active =
     el ''div'' ''relative rounded-(--radius-card) border border-aries-border bg-aries-surface p-5 overflow-hidden''
       (show_if (active \<noteq> None) [el ''div'' ''absolute inset-x-0 top-0 h-px aries-shimmer pointer-events-none'' []]
        @ [el ''div'' ''flex items-baseline justify-between mb-3''
             [Elem ''div'' []
                [el ''div'' ''text-xs uppercase tracking-[0.18em] text-aries-text-dim'' [Txt ''Active Inference Session''],
                 el ''div'' ''text-lg font-semibold text-aries-text mt-0.5''
                   [Txt (case active of None \<Rightarrow> ''Idle'' | Some a \<Rightarrow> ac_model a)]],
              Elem ''Zap'' [(''size'', ANum 18), (''strokeWidth'', ANum 1.5),
                 (''className'', AStr (if active \<noteq> None then ''text-aries-teal aries-pulse'' else ''text-aries-text-dim''))] []],
           case active of
             None \<Rightarrow> el ''div'' ''text-sm text-aries-text-dim py-4''
                 [Txt ''Nothing running right now. The next '', el ''code'' ''text-aries-teal'' [Txt ''aries invoke''],
                  Txt '' will show up here when it routes to a distributed configuration.'']
           | Some a \<Rightarrow> el ''div'' ''space-y-3 text-sm''
                 [labelled_row ''Type'' (configToneBadge (ac_type a)),
                  labelled_row ''Workers ready''
                    (el ''span'' ''font-mono text-aries-text''
                       [Txt (show_nat (ready_count a) @ ''/'' @ show_nat (length (workers a)))]),
                  labelled_row ''Session''
                    (el ''span'' ''font-mono text-[11px] text-aries-text truncate ml-3 max-w-[200px]'' [Txt (ac_config a)])]])"

definition ConfigDetails :: "api_config list \<Rightarrow> vnode list" where
  "ConfigDetails configs =
     (if configs = [] then []
      else [el ''div'' card
        [el ''div'' ''text-xs uppercase tracking-[0.18em] text-aries-text-dim mb-1'' [Txt ''Scoring breakdown''],
         el ''div'' ''text-lg font-semibold text-aries-text mb-4'' [Txt ''How the scheduler picked''],
         el ''div'' ''space-y-5''
           (map (\<lambda>c. Elem ''div'' [(''key'', AStr (co_id c))]
              [el ''div'' ''flex items-baseline justify-between mb-2''
                 [el ''div'' ''text-sm font-medium text-aries-text'' [Txt (co_model c)], configToneBadge (co_type c)],
               el ''div'' ''space-y-1.5''
                 [ScoreBar (co_privacy c) ''privacy'', ScoreBar (co_capability c) ''capability'', ScoreBar (co_cost c) ''cost'']])
            (take 3 configs))]])"

definition task_row :: "api_task \<Rightarrow> vnode" where
  "task_row t =
     Elem ''tr'' [(''key'', AStr (ta_id t)), (''className'', AStr ''hover:bg-aries-surface-hi/30 transition-colors'')]
       [el ''td'' ''py-2.5 pr-3 font-mono text-[11px] text-aries-text truncate max-w-[140px]'' [Txt (ta_id t)],
        el ''td'' ''py-2.5 px-3 text-aries-text'' [Txt (ta_action t)],
        el ''td'' ''py-2.5 px-3 text-aries-text-dim truncate max-w-[160px]'' [Txt (or_str (ta_model t) em_dash)],
        el ''td'' ''py-2.5 px-3 text-right font-mono text-aries-text'' [Txt (show_nat (nullish (ta_tokens t) 0))],
        el ''td'' ''py-2.5 px-3 text-right font-mono text-aries-text''
          [Txt (case ta_latency t of None \<Rightarrow> em_dash | Some l \<Rightarrow> if l = 0 then em_dash else to_fixed0 l @ ''ms'')],
        el ''td'' ''py-2.5 pl-3 text-right''
          [if ta_status t = ''error''
           then Elem ''X'' [(''size'', ANum 14), (''className'', AStr ''text-aries-error inline'')] []
           else Elem ''Check'' [(''size'', ANum 14), (''className'', AStr ''text-aries-success inline'')] []]]"

definition RecentTasks :: "api_task list \<Rightarrow> vnode" where
  "RecentTasks tasks =
     el ''div'' card
       [el ''div'' ''flex items-baseline justify-between mb-3''
          [Elem ''div'' []
             [el ''div'' ''text-xs uppercase tracking-[0.18em] text-aries-text-dim'' [Txt ''Recent Tasks''],
              el ''div'' ''text-lg font-semibold text-aries-text mt-0.5''
                [Txt (''Last '' @ show_nat (min (length tasks) 20) @ '' receipts'')]]],
        if tasks = [] then el ''div'' ''text-sm text-aries-text-dim py-6 text-center'' [Txt ''No completed tasks yet.'']
        else el ''div'' ''overflow-x-auto''
          [el ''table'' ''w-full text-sm''
             [el ''thead'' ''text-aries-text-dim text-xs uppercase tracking-wider border-b border-aries-border''
                [Elem ''tr'' []
                   [th ''py-2 pr-3 text-left font-medium'' ''Task'', th ''py-2 px-3 text-left font-medium'' ''Action'',
                    th ''py-2 px-3 text-left font-medium'' ''Model'', th ''py-2 px-3 text-right font-medium'' ''Tokens'',
                    th ''py-2 px-3 text-right font-medium'' ''Latency'', th ''py-2 pl-3 text-right font-medium'' ''Status'']],
              el ''tbody'' ''divide-y divide-aries-border/40'' (map task_row tasks)]]]"

subsection \<open>Page\<close>

definition Inference ::
    "(real \<Rightarrow> string) \<Rightarrow> (api_config list option \<times> api_active option) option \<Rightarrow> api_task list option \<Rightarrow> vnode" where
  "Inference num inferenceData tasksData =
     (let configs = nullish (opt_field inferenceData fst) [];
          active = opt_field inferenceData snd;
          tasks = nullish tasksData []
      in el ''div'' ''space-y-6''
          [ConfigsTable num configs,
           el ''div'' ''grid grid-cols-1 lg:grid-cols-2 gap-6'' (ActiveSession active # ConfigDetails configs),
           RecentTasks tasks])"

subsection \<open>Lemmas\<close>

lemma badge_no_star [simp]: "count_class ''ml-1 text-[10px] text-aries-teal'' (configToneBadge t) = 0"
  by (simp add: configToneBadge_def StatusBadge_def)

lemma row_stars: "count_class ''ml-1 text-[10px] text-aries-teal'' (config_row num i c) = (if i = 0 then 1 else 0)"
  by (simp add: config_row_def)

lemma badge_no_hover [simp]: "count_class ''hover:bg-aries-surface-hi/30 transition-colors'' (configToneBadge t) = 0"
  by (simp add: configToneBadge_def StatusBadge_def)

lemma row_hover: "count_class ''hover:bg-aries-surface-hi/30 transition-colors'' (config_row num i c) = 1"
  by (simp add: config_row_def show_if_def)

lemma sum_enumerate: "(\<And>x. x \<in> set xs \<Longrightarrow> f (0, x) = (1::nat)) \<Longrightarrow> (\<And>i x. 0 < i \<Longrightarrow> f (i, x) = 0) \<Longrightarrow>
  sum_list (map f (enumerate 0 xs)) = (if xs = [] then 0 else 1)"
proof (cases xs)
  case (Cons y ys)
  assume f: "\<And>x. x \<in> set xs \<Longrightarrow> f (0, x) = 1" "\<And>i x. 0 < i \<Longrightarrow> f (i, x) = 0"
  have "sum_list (map f (enumerate (Suc n) ys)) = 0" for n
    by (induction ys arbitrary: n) (simp_all add: f(2))
  then show ?thesis using Cons f(1)[of y] by simp
qed simp

lemma sum_ones: "sum_list (map (\<lambda>x. 1 :: nat) xs) = length xs"
  by (induction xs) simp_all

subsection \<open>Properties\<close>

text \<open>
  The table of configurations has one row per configuration and stars exactly the first of
  them, the one the ranking put on top.
\<close>

theorem table_stars_first:
  "count_class ''ml-1 text-[10px] text-aries-teal'' (ConfigsTable num configs) = (if configs = [] then 0 else 1)
   \<and> count_class ''hover:bg-aries-surface-hi/30 transition-colors'' (ConfigsTable num configs) = length configs"
proof
  show "count_class ''ml-1 text-[10px] text-aries-teal'' (ConfigsTable num configs) = (if configs = [] then 0 else 1)"
    using sum_enumerate[of configs "\<lambda>(i, c). count_class ''ml-1 text-[10px] text-aries-teal'' (config_row num i c)"]
    by (simp add: ConfigsTable_def no_configs_def th_def row_stars case_prod_unfold comp_def)
  show "count_class ''hover:bg-aries-surface-hi/30 transition-colors'' (ConfigsTable num configs) = length configs"
    using sum_ones[of "enumerate 0 configs"]
    by (simp add: ConfigsTable_def no_configs_def th_def row_hover case_prod_unfold comp_def)
qed

end
