(* ===== verification/Bodies.thy ===== *)
theory Bodies
  imports Api InferencePage
begin

text \<open>
  The contract between the JSON handlers of \<^verbatim>\<open>api/server.py\<close> and the pages that poll them: how
  \<^verbatim>\<open>pages/Topology.jsx\<close> and \<^verbatim>\<open>pages/Inference.jsx\<close> read the fields of a body, and what the pages draw
  from the bodies the handlers build. The text form of JSON is left out: a body is the value it
  was made from. A field that is missing or null reads as \<open>None\<close>.
\<close>

subsection \<open>Reading fields\<close>

definition js_text :: "pyval option \<Rightarrow> string option" where
  "js_text v = (case v of Some (VStr s) \<Rightarrow> Some s | _ \<Rightarrow> None)"

definition js_number :: "pyval option \<Rightarrow> real option" where
  "js_number v = (case v of Some (VFloat x) \<Rightarrow> Some x | Some (VInt i) \<Rightarrow> Some (of_int i) | _ \<Rightarrow> None)"

definition js_int :: "pyval option \<Rightarrow> int option" where
  "js_int v = (case v of Some (VInt i) \<Rightarrow> Some i | _ \<Rightarrow> None)"

definition js_nat :: "pyval option \<Rightarrow> nat option" where
  "js_nat v = map_option nat (js_int v)"

text \<open>Truth of a value: arrays and objects are true, also when they are empty.\<close>

definition js_truth :: "pyval option \<Rightarrow> bool" where
  "js_truth v = (case v of None \<Rightarrow> False | Some VNone \<Rightarrow> False | Some (VBool b) \<Rightarrow> b | Some (VInt i) \<Rightarrow> i \<noteq> 0
     | Some (VFloat x) \<Rightarrow> x \<noteq> 0 | Some (VStr s) \<Rightarrow> s \<noteq> [] | Some (VList l) \<Rightarrow> True | Some (VDict d) \<Rightarrow> True)"

lemma js_readers [simp]:
  "js_text (Some (VStr s)) = Some s" "js_text None = None" "js_number (Some (VFloat x)) = Some x" "js_number None = None"
  "js_number (Some (VInt i)) = Some (of_int i)" "js_int (Some (VInt i)) = Some i" "js_nat (Some (VInt i)) = Some (nat i)"
  "js_truth (Some (VBool b)) = b" "js_number (Some VNone) = None"
  by (simp_all add: js_text_def js_number_def js_int_def js_nat_def js_truth_def)

text \<open>\<^verbatim>\<open>body?.field || []\<close>, with each element read as an object.\<close>

definition js_objects :: "string \<Rightarrow> dict option \<Rightarrow> dict list" where
  "js_objects k body =
     (case opt_field body (\<lambda>d. dget d k) of
        Some (VList vs) \<Rightarrow> concat (map (\<lambda>v. case v of VDict d \<Rightarrow> [d] | _ \<Rightarrow> []) vs)
      | _ \<Rightarrow> [])"

subsection \<open>The bodies as the pages read them\<close>

definition read_status :: "dict \<Rightarrow> api_status" where
  "read_status d = \<lparr>sta_name = js_text (dget d ''device_name''), sta_platform = js_text (dget d ''platform''),
     sta_did_short = js_text (dget d ''device_did_short''), sta_uptime = js_number (dget d ''uptime_seconds''),
     sta_port = js_nat (dget d ''port''), sta_version = js_text (dget d ''protocol_version'')\<rparr>"

definition read_peer :: "dict \<Rightarrow> api_peer" where
  "read_peer d = \<lparr>peer_did = nullish (js_text (dget d ''device_did'')) '''', peer_name = js_text (dget d ''name''),
     peer_did_short = js_text (dget d ''device_did_short''), peer_platform = js_text (dget d ''platform''),
     peer_connected = js_truth (dget d ''connected''), peer_latency = js_number (dget d ''latency_ms''),
     peer_host = js_text (dget d ''host''), peer_port = js_nat (dget d ''port''),
     peer_last_seen = js_number (dget d ''last_seen_seconds_ago'')\<rparr>"

definition read_health :: "dict \<Rightarrow> api_health" where
  "read_health d = \<lparr>he_cpu = js_number (dget d ''cpu_percent''), he_ram_total = js_number (dget d ''ram_total_gb''),
     he_ram_available = js_number (dget d ''ram_available_gb''), he_battery = js_number (dget d ''battery_pct''),
     he_charging = js_truth (dget d ''charging''), he_thermal = js_text (dget d ''thermal''),
     he_network = js_text (dget d ''network_type''), he_bandwidth = js_number (dget d ''bandwidth_mbps''),
     he_score = js_number (dget d ''health_score'')\<rparr>"

definition read_agent :: "dict \<Rightarrow> api_agent" where
  "read_agent d = api_agent.make (nullish (js_text (dget d ''agent_did'')) '''') (nullish (js_text (dget d ''name'')) '''')
     (nullish (js_text (dget d ''vendor'')) '''') (js_text (dget d ''model'')) (nullish (js_text (dget d ''locality'')) '''')
     (nullish (js_text (dget d ''cost_class'')) '''')"

definition read_memory :: "dict \<Rightarrow> api_memory" where
  "read_memory d = \<lparr>me_namespaces = (case dget d ''by_namespace'' of
       Some (VDict n) \<Rightarrow> Some (nullish (js_nat (dget n ''context'')) 0, nullish (js_nat (dget n ''memory'')) 0, nullish (js_nat (dget n ''cache'')) 0)
     | _ \<Rightarrow> None),
     me_total = js_nat (dget d ''total_keys''), me_clock = js_int (dget d ''lamport_clock''), me_logs = js_nat (dget d ''total_logs''),
     me_log_entries = js_nat (dget d ''log_entries'')\<rparr>"

definition read_config :: "dict \<Rightarrow> api_config" where
  "read_config d = \<lparr>co_id = nullish (js_text (dget d ''config_id'')) '''', co_model = nullish (js_text (dget d ''model_name'')) '''',
     co_type = nullish (js_text (dget d ''config_type'')) '''',
     co_devices = (case dget d ''devices'' of Some (VList vs) \<Rightarrow> Some (map (\<lambda>v. nullish (js_text (Some v)) '''') vs) | _ \<Rightarrow> None),
     co_tok_s = nullish (js_number (dget d ''estimated_tok_s'')) 0, co_score = nullish (js_number (dget d ''weighted_score'')) 0,
     co_privacy = js_number (dget d ''privacy_score''), co_capability = js_number (dget d ''capability_score''),
     co_cost = js_number (dget d ''cost_score'')\<rparr>"

definition read_task :: "dict \<Rightarrow> api_task" where
  "read_task d = \<lparr>ta_id = nullish (js_text (dget d ''task_id'')) '''', ta_action = nullish (js_text (dget d ''action'')) '''',
     ta_model = js_text (dget d ''model_used''), ta_tokens = js_nat (dget d ''tokens_used''),
     ta_latency = js_number (dget d ''latency_ms''), ta_status = nullish (js_text (dget d ''status'')) ''''\<rparr>"

text \<open>
  The topology page and the inference page over the bodies the hooks hold, \<open>None\<close> before the first
  reply. The active session is null in every body the server sends (\<^theory_text>\<open>Api\<close>).
\<close>

definition topology_of_bodies ::
    "real \<Rightarrow> dict option \<Rightarrow> dict option \<Rightarrow> dict option \<Rightarrow> dict option \<Rightarrow> dict option \<Rightarrow> mesh_event list \<Rightarrow> hover option \<Rightarrow> vnode" where
  "topology_of_bodies now st he pe ag me events hov =
     Topology now (map_option read_status st) (map_option read_health he) (Some (map read_peer (js_objects ''peers'' pe)))
       (Some (map read_agent (js_objects ''agents'' ag))) (map_option read_memory me) events hov"

definition inference_of_bodies :: "(real \<Rightarrow> string) \<Rightarrow> dict option \<Rightarrow> dict option \<Rightarrow> vnode" where
  "inference_of_bodies num configs tasks =
     Inference num (map_option (\<lambda>d. (Some (map read_config (js_objects ''configurations'' (Some d))), None)) configs)
       (Some (map read_task (js_objects ''tasks'' tasks)))"


subsection \<open>Counting what is drawn\<close>

text \<open>How many elements carry an accessibility label.\<close>

fun count_label :: "string \<Rightarrow> vnode \<Rightarrow> nat" where
  "count_label c (Txt s) = 0"
| "count_label c (Elem t as cs) =
     (if dget as ''aria-label'' = Some (AStr c) then 1 else 0) + sum_list (map (count_label c) cs)"
| "count_label c (Frag cs) = sum_list (map (count_label c) cs)"

lemma el_label [simp]: "count_label c (el t k cs) = sum_list (map (count_label c) cs)"
  by (simp add: el_def)

lemma show_if_label [simp]: "sum_list (map (count_label c) (show_if b vs)) = (if b then sum_list (map (count_label c) vs) else 0)"
  by (simp add: show_if_def)

lemma circle_label:
  "count_label c (DeviceCircle name platform self online style) = (if c = (if online then ''online'' else ''offline'') then 1 else 0)"
  by (simp add: DeviceCircle_def Let_def)

lemma badge_label [simp]: "count_label c (StatusBadge tone label pulse) = 0"
  by (simp add: StatusBadge_def)

lemma dt_dd_label [simp]: "sum_list (map (count_label c) (dt_dd t k v)) = 0"
  by (simp add: dt_dd_def)

lemma tooltip_label: "sum_list (map (count_label c) (DeviceTooltip d style)) = 0"
  by (cases d) (simp_all add: DeviceTooltip_def)

lemma edge_label: "count_label c (edge host pp) = 0" "count_label c (latency_label host pp) = 0"
  by (cases pp; simp add: edge_def latency_label_def Let_def)+

lemma sum_zero: "(\<And>x. f x = (0::nat)) \<Longrightarrow> sum_list (map f xs) = 0"
  by (induction xs) simp_all

lemma peer_circles_label:
  "sum_list (map (count_label c) (map peer_circle pps))
     = length (filter (\<lambda>(p, x, y). c = (if peer_connected p then ''online'' else ''offline'')) pps)"
  by (induction pps) (auto simp: peer_circle_def circle_label)

lemma layout_peers: "map fst (snd (layoutPeers peers)) = peers"
  by (simp add: layoutPeers_def comp_def case_prod_unfold)

lemma graph_labels:
  "count_label c (TopologyGraph st peers hov)
     = (if c = ''online'' then 1 else 0) + length (filter (\<lambda>p. c = (if peer_connected p then ''online'' else ''offline'')) peers)"
proof -
  obtain host ps where l: "layoutPeers peers = (host, ps)" by (cases "layoutPeers peers")
  then have ps: "map fst ps = peers" using layout_peers[of peers] by simp
  have z: "sum_list (map (count_label c) (map (edge host) ps)) = 0" "sum_list (map (count_label c) (map (latency_label host) ps)) = 0"
    by (simp_all add: comp_def edge_label)
  have h: "sum_list (map (count_label c) (case hov of None \<Rightarrow> [] | Some h \<Rightarrow> DeviceTooltip (Some (hov_data h)) (s h))) = 0" for s
    by (cases hov) (simp, simp only: option.case tooltip_label)
  have "length (filter (\<lambda>(p, x, y). P p) ps) = length (filter P peers)" for P
    unfolding ps[symmetric] by (simp add: filter_map comp_def case_prod_unfold)
  then show ?thesis
    using z h peer_circles_label[of c ps] unfolding TopologyGraph_def l
    by (simp add: circle_label del: map_map)
qed

subsection \<open>What a body tells\<close>

definition peer_of_row :: "real \<Rightarrow> 'k household \<Rightarrow> peer_info \<times> bool \<Rightarrow> api_peer" where
  "peer_of_row now hh row = (case row of (p, opened) \<Rightarrow>
     \<lparr>peer_did = pi_did p, peer_name = Some (pi_name p),
      peer_did_short = Some (if pi_did p = [] then [] else did_short (pi_did p) 8),
      peer_platform = Some (case dget (hh_devices hh) (pi_did p) of None \<Rightarrow> [] | Some r \<Rightarrow> dv_platform r),
      peer_connected = opened, peer_latency = pi_latency p, peer_host = Some (pi_host p), peer_port = Some (nat (pi_port p)),
      peer_last_seen = (if pi_last_seen p = 0 then None else Some (py_round (now - pi_last_seen p) 1))\<rparr>)"

lemma js_objects_list: "js_objects k (Some ((k, VList (map f xs)) # d)) = concat (map (\<lambda>x. case f x of VDict o' \<Rightarrow> [o'] | _ \<Rightarrow> []) xs)"
  by (simp add: js_objects_def comp_def)

lemma concat_singles: "(\<And>x. map g (f x) = [h x]) \<Longrightarrow> map g (concat (map f xs)) = map h xs"
  by (induction xs) simp_all

lemma read_peers: "map read_peer (js_objects ''peers'' (Some (handle_peers now hh conns))) = map (peer_of_row now hh) conns"
proof -
  have "map read_peer (case peer_view now hh row of VDict d \<Rightarrow> [d] | _ \<Rightarrow> []) = [peer_of_row now hh row]" for row
    by (cases row) (simp add: peer_view_def read_peer_def peer_of_row_def opt_float_def split: option.split)
  then show ?thesis
    unfolding handle_peers_def js_objects_list by (rule concat_singles)
qed

lemma read_agents:
  "map read_agent (js_objects ''agents'' (Some (handle_agents hh)))
     = map (\<lambda>(d, a). api_agent.make (Household.ag_did a) (Household.ag_name a) (Household.ag_vendor a)
         (Some (or_empty (Household.ag_model a))) (Household.ag_locality a) (ag_cost_class a)) (hh_agents hh)"
proof -
  have "map read_agent (case (\<lambda>(d, a). agent_view a) row of VDict d \<Rightarrow> [d] | _ \<Rightarrow> [])
      = [(\<lambda>(d, a). api_agent.make (Household.ag_did a) (Household.ag_name a) (Household.ag_vendor a)
         (Some (or_empty (Household.ag_model a))) (Household.ag_locality a) (ag_cost_class a)) row]" for row
    by (cases row) (simp add: agent_view_def read_agent_def)
  then show ?thesis
    unfolding handle_agents_def js_objects_list by (rule concat_singles)
qed

lemma read_memory_body:
  "read_memory (handle_memory st) = \<lparr>me_namespaces = Some (keys_under ''aries:context://'' st, keys_under ''aries:memory://'' st,
     keys_under ''aries:cache://'' st), me_total = Some (length (registers st)), me_clock = Some (py_trunc (lamport st)),
     me_logs = Some (length (logs st)), me_log_entries = Some (sum_list (map (\<lambda>(k, l). length l) (logs st)))\<rparr>"
  by (simp add: read_memory_def handle_memory_def)

text \<open>The namespace of a canonical key is one of three, and at most one.\<close>

lemma namespace_counts:
  "keys_under ''aries:context://'' st + keys_under ''aries:memory://'' st + keys_under ''aries:cache://'' st
     = length (filter (\<lambda>k. \<exists>ns path. k = canonical_key ns path) (dkeys (registers st)))"
proof -
  have one: "(\<exists>ns path. k = canonical_key ns path) \<longleftrightarrow>
      startswith k ''aries:context://'' \<or> startswith k ''aries:memory://'' \<or> startswith k ''aries:cache://''" for k
  proof
    assume "\<exists>ns path. k = canonical_key ns path"
    then obtain ns path where "k = canonical_key ns path" by blast
    then show "startswith k ''aries:context://'' \<or> startswith k ''aries:memory://'' \<or> startswith k ''aries:cache://''"
      by (cases ns) (simp_all add: canonical_key_prefix)
  next
    assume "startswith k ''aries:context://'' \<or> startswith k ''aries:memory://'' \<or> startswith k ''aries:cache://''"
    then show "\<exists>ns path. k = canonical_key ns path"
      unfolding prefix_def canonical_key_prefix[symmetric] by blast
  qed
  have excl: "\<not> (startswith k ''aries:context://'' \<and> startswith k ''aries:memory://'')"
    "\<not> (startswith k ''aries:context://'' \<and> startswith k ''aries:cache://'')"
    "\<not> (startswith k ''aries:memory://'' \<and> startswith k ''aries:cache://'')" for k
    by (auto simp: prefix_def)
  have "length (filter P ks) + length (filter Q ks) + length (filter R ks) = length (filter (\<lambda>k. P k \<or> Q k \<or> R k) ks)"
    if "\<And>k. \<not> (P k \<and> Q k)" "\<And>k. \<not> (P k \<and> R k)" "\<And>k. \<not> (Q k \<and> R k)" for P Q R :: "string \<Rightarrow> bool" and ks
    using that by (induction ks) auto
  note sum = this[of "\<lambda>k. startswith k ''aries:context://''" "\<lambda>k. startswith k ''aries:memory://''" "\<lambda>k. startswith k ''aries:cache://''", OF excl]
  show ?thesis unfolding keys_under_def one by (rule sum)
qed


lemma insort_key_map: "insort_key f (g x) (map g xs) = map g (insort_key (\<lambda>y. f (g y)) x xs)"
  by (induction xs) simp_all

lemma sort_key_map: "sort_key f (map g xs) = map g (sort_key (\<lambda>y. f (g y)) xs)"
  by (induction xs) (simp_all add: insort_key_map)

definition config_of :: "inference_config \<Rightarrow> api_config" where
  "config_of c = \<lparr>co_id = ic_id c, co_model = ic_model_name c, co_type = ic_type c,
     co_devices = Some (map dr_did (ic_devices c)), co_tok_s = py_round (ic_tok_s c) 1,
     co_score = py_round (weighted_score c None) 3, co_privacy = Some (py_round (ic_privacy c) 2),
     co_capability = Some (py_round (ic_capability c) 2), co_cost = Some (py_round (ic_cost c) 2)\<rparr>"

definition ranked_configs :: "registry \<Rightarrow> inference_config list" where
  "ranked_configs r = sort_key (\<lambda>c. - py_round (weighted_score c None) 3) (rg_configs r)"

lemma read_configs: "map read_config (js_objects ''configurations'' (Some (handle_inference r))) = map config_of (ranked_configs r)"
proof -
  have one: "map read_config (case snd (config_view c) of VDict d \<Rightarrow> [d] | _ \<Rightarrow> []) = [config_of c]" for c
    by (simp add: config_view_def read_config_def config_of_def Let_def)
  have key: "(\<lambda>c. case config_view c of (s, v) \<Rightarrow> - s) = (\<lambda>c. - py_round (weighted_score c None) 3)"
    by (rule ext) (simp add: config_view_def Let_def)
  have s: "map snd (sort_key (\<lambda>(s, v). - s) (map config_view (rg_configs r))) = map (\<lambda>c. snd (config_view c)) (ranked_configs r)"
    unfolding sort_key_map ranked_configs_def key by simp
  show ?thesis
    unfolding handle_inference_def s js_objects_list by (rule concat_singles[OF one])
qed

lemma read_tasks: "length (map read_task (js_objects ''tasks'' (Some (handle_tasks table)))) = length (shown_tasks table)"
proof -
  have "map (\<lambda>d. ()) (case task_to_dict v of VDict d \<Rightarrow> [d] | _ \<Rightarrow> []) = [()]" for v by (simp add: task_to_dict_def)
  note c = concat_singles[OF this, where xs = "shown_tasks table", THEN arg_cong[where f = length]]
  show ?thesis using c unfolding handle_tasks_def js_objects_list length_map .
qed

subsection \<open>Properties\<close>

text \<open>
  C22: the drawing shows the connection table: whatever the daemon's peers are and whatever the
  pointer hovers over, the graph has one lit circle for the host and one per open connection,
  one dark circle per closed connection, and every peer circle stands for its own connection,
  with the name, platform, address and latency the table has.
\<close>

theorem graph_shows_connections:
  "let peers = map read_peer (js_objects ''peers'' (Some (handle_peers now hh conns))) in
     count_label ''online'' (TopologyGraph st peers hov) = 1 + length (filter snd conns)
   \<and> count_label ''offline'' (TopologyGraph st peers hov) = length (filter (\<lambda>c. \<not> snd c) conns)
   \<and> peers = map (peer_of_row now hh) conns"
proof -
  have c: "peer_connected (peer_of_row now hh row) = snd row" for row by (cases row) (simp add: peer_of_row_def)
  show ?thesis unfolding Let_def read_peers by (simp add: graph_labels filter_map comp_def c)
qed

text \<open>
  The memory card adds up: the three rows count the keys of their namespace, together all the
  keys that belong to a namespace, so the rows add up to the total exactly when a peer has sent
  no key outside the three namespaces.
\<close>

theorem memory_rows_add_up:
  "let m = Some (read_memory (handle_memory st)) in
     map (\<lambda>(label, n, tint). (label, n)) (memory_rows m)
       = [(''context://'', keys_under ''aries:context://'' st), (''memory://'', keys_under ''aries:memory://'' st),
          (''cache://'', keys_under ''aries:cache://'' st)]
   \<and> (sum_list (map (\<lambda>(label, n, tint). n) (memory_rows m)) = nullish (opt_field m me_total) 0
        \<longleftrightarrow> list_all (\<lambda>k. \<exists>ns path. k = canonical_key ns path) (dkeys (registers st)))"
proof -
  have "length (filter P xs) = length xs \<longleftrightarrow> list_all P xs" for P and xs :: "string list"
    by (metis filter_id_conv length_filter_less less_irrefl list_all_iff)
  from this[of "\<lambda>k. \<exists>ns path. k = canonical_key ns path" "dkeys (registers st)"] namespace_counts[of st]
  show ?thesis by (simp add: Let_def memory_rows_def read_memory_body add.assoc)
qed

text \<open>
  The page ranks the catalog as the server computed it: the rows of the table are exactly the
  configurations of the catalog, each once, with their rounded scores in descending order, so the
  starred first row has the highest score.
\<close>

theorem table_ranks_catalog:
  "let cs = map read_config (js_objects ''configurations'' (Some (handle_inference r))) in
     mset cs = mset (map config_of (rg_configs r)) \<and> sorted_wrt (\<lambda>a b. co_score b \<le> co_score a) cs
   \<and> count_class ''hover:bg-aries-surface-hi/30 transition-colors'' (ConfigsTable num cs) = length (rg_configs r)"
proof -
  have "sorted_wrt (\<lambda>a b. co_score b \<le> co_score a) (map config_of (ranked_configs r))"
    using sorted_sort_key[of "\<lambda>c. - py_round (weighted_score c None) 3" "rg_configs r"]
    by (simp add: ranked_configs_def sorted_map sorted_wrt_map config_of_def)
  moreover have "mset (map config_of (ranked_configs r)) = mset (map config_of (rg_configs r))"
    by (simp add: ranked_configs_def)
  moreover have "length (ranked_configs r) = length (rg_configs r)" by (simp add: ranked_configs_def)
  ultimately show ?thesis unfolding Let_def read_configs using table_stars_first by simp
qed

end
