(* ===== verification/ActivityPage.thy ===== *)
theory ActivityPage
  imports Components
begin

text \<open>
  \<^verbatim>\<open>dashboard/src/pages/Activity.jsx\<close>: the live event feed with its filter and pause button. The
  state is the event list of the subscription (the hook machine of \<^theory_text>\<open>Hooks\<close>), the chosen
  filter, and the snapshot a pause takes.
\<close>

subsection \<open>Filters\<close>

datatype event_match = NoMatch | StartsWith string | HasText string | HasTextNoCase string

record filter_group =
  fg_key :: string
  fg_label :: string
  fg_match :: event_match

definition FILTER_GROUPS :: "filter_group list" where
  "FILTER_GROUPS =
     [\<lparr>fg_key = ''all'', fg_label = ''All'', fg_match = NoMatch\<rparr>,
      \<lparr>fg_key = ''peer'', fg_label = ''Peers'', fg_match = StartsWith ''peer_''\<rparr>,
      \<lparr>fg_key = ''invoke'', fg_label = ''Invocations'', fg_match = HasText ''invoke''\<rparr>,
      \<lparr>fg_key = ''handoff'', fg_label = ''Handoffs'', fg_match = StartsWith ''handoff_''\<rparr>,
      \<lparr>fg_key = ''agent'', fg_label = ''Agents'', fg_match = StartsWith ''agent_''\<rparr>,
      \<lparr>fg_key = ''error'', fg_label = ''Errors'', fg_match = HasTextNoCase ''error''\<rparr>]"

fun matches :: "event_match \<Rightarrow> string \<Rightarrow> bool" where
  "matches NoMatch t = False"
| "matches (StartsWith p) t = startswith t p"
| "matches (HasText p) t = has_sub t p"
| "matches (HasTextNoCase p) t = has_sub (to_lower t) p"

definition group_selects :: "filter_group \<Rightarrow> mesh_event \<Rightarrow> bool" where
  "group_selects g e = matches (fg_match g) (or_str (ev_type e) '''')"

subsection \<open>State\<close>

record activity =
  act_feed :: "mesh_event sse_hook"
  act_filter :: string
  act_paused :: bool
  act_snapshot :: "mesh_event list"

definition activity_init :: activity where
  "activity_init = \<lparr>act_feed = sse_init, act_filter = ''all'', act_paused = False, act_snapshot = []\<rparr>"

definition visible :: "activity \<Rightarrow> mesh_event list" where
  "visible a =
     (let src = (if act_paused a then act_snapshot a else sse_events (act_feed a))
      in if act_filter a = ''all'' then src
         else (case find (\<lambda>g. fg_key g = act_filter a) FILTER_GROUPS of
                 None \<Rightarrow> src
               | Some g \<Rightarrow> if fg_match g = NoMatch then src else filter (group_selects g) src))"

definition togglePause :: "activity \<Rightarrow> activity" where
  "togglePause a =
     (let a1 = (if \<not> act_paused a then a\<lparr>act_snapshot := sse_events (act_feed a)\<rparr> else a)
      in a1\<lparr>act_paused := \<not> act_paused a\<rparr>)"

definition setFilter :: "string \<Rightarrow> activity \<Rightarrow> activity" where
  "setFilter k a = a\<lparr>act_filter := k\<rparr>"

definition groupCounts :: "mesh_event list \<Rightarrow> (string \<times> nat) list" where
  "groupCounts events =
     map (\<lambda>g. (fg_key g, if fg_key g = ''all'' then length events else length (filter (group_selects g) events)))
       FILTER_GROUPS"

datatype activity_event = FeedEvent sse_event | TogglePause | ChooseFilter string

fun activity_step :: "(string \<Rightarrow> mesh_event option) \<Rightarrow> activity_event \<Rightarrow> activity \<Rightarrow> activity" where
  "activity_step parse (FeedEvent e) a = a\<lparr>act_feed := sse_step parse 200 e (act_feed a)\<rparr>"
| "activity_step parse TogglePause a = togglePause a"
| "activity_step parse (ChooseFilter k) a = setFilter k a"

subsection \<open>The page\<close>

definition Activity :: "real \<Rightarrow> activity \<Rightarrow> vnode" where
  "Activity now a =
     (let events = sse_events (act_feed a); vis = visible a; paused = act_paused a
      in el ''div'' ''space-y-5''
          [el ''div'' ''flex flex-wrap items-center justify-between gap-4''
             [Elem ''div'' []
                [el ''div'' ''text-xs uppercase tracking-[0.18em] text-aries-text-dim'' [Txt ''Activity Feed''],
                 el ''div'' ''text-2xl font-semibold text-aries-text mt-0.5''
                   [Txt (if sse_connected (act_feed a) then ''Live event stream'' else ''Reconnecting'' @ ellipsis)]],
              el ''div'' ''flex items-center gap-2''
                [el ''button''
                   (''flex items-center gap-2 px-3 py-1.5 rounded-md text-sm font-medium ''
                      @ (if paused then ''bg-aries-warning/15 text-aries-warning ring-1 ring-aries-warning/30''
                         else ''bg-aries-surface text-aries-text ring-1 ring-aries-border hover:bg-aries-surface-hi''))
                   [Elem (if paused then ''Play'' else ''Pause'') [(''size'', ANum 14), (''strokeWidth'', ANum 1.8)] [],
                    Txt (if paused then ''Resume'' else ''Pause'')]]],
           el ''div'' ''rounded-(--radius-card) border border-aries-border bg-aries-surface p-4''
             [el ''div'' ''flex items-center gap-2 flex-wrap''
                (Elem ''Filter'' [(''size'', ANum 14), (''strokeWidth'', ANum 1.8), (''className'', AStr ''text-aries-text-dim'')] []
                 # map (\<lambda>g. Elem ''button''
                      [(''key'', AStr (fg_key g)),
                       (''className'', AStr (''flex items-center gap-1.5 px-2.5 py-1 rounded-md text-xs font-medium transition-colors ''
                          @ (if act_filter a = fg_key g then ''bg-aries-teal/15 text-aries-teal ring-1 ring-aries-teal/30''
                             else ''text-aries-text-dim hover:text-aries-text hover:bg-aries-surface-hi'')))]
                      [Txt (fg_label g),
                       el ''span'' ''font-mono text-[10px] opacity-75''
                         [Txt (show_nat (nullish (dget (groupCounts events) (fg_key g)) 0))]])
                   FILTER_GROUPS)],
           el ''div'' ''rounded-(--radius-card) border border-aries-border bg-aries-surface p-3''
             [if vis = [] then
                el ''div'' ''text-center py-16''
                  [Elem ''Trash2'' [(''size'', ANum 26), (''strokeWidth'', ANum 1.5), (''className'', AStr ''mx-auto text-aries-text-dim/60 mb-3'')] [],
                   el ''div'' ''text-aries-text text-sm'' [Txt ''No events match this filter.''],
                   el ''div'' ''text-xs text-aries-text-dim mt-1''
                     [Txt (if paused then ''Resume the feed or change filters to see live events.''
                           else ''Run a command on the node to start generating events.'')]]
              else
                el ''div'' ''space-y-1.5''
                  (concat (map (\<lambda>(i, ev). EventCard now (Some ev) (i = 0 \<and> \<not> paused)) (enumerate 0 vis)))],
           el ''div'' ''text-center text-[11px] text-aries-text-dim''
             ([Txt (''Showing '' @ show_nat (length vis) @ '' of '' @ show_nat (length events) @ '' buffered events'')]
              @ show_if paused [el ''span'' ''text-aries-warning'' [Txt ('' '' @ mid_dot @ '' paused'')]])])"

subsection \<open>Lemmas\<close>

lemma filter_groups_keys: "distinct (map fg_key FILTER_GROUPS)"
  by (simp add: FILTER_GROUPS_def)

lemma find_by_key: "distinct (map f xs) \<Longrightarrow> g \<in> set xs \<Longrightarrow> find (\<lambda>x. f x = f g) xs = Some g"
  by (induction xs) auto

lemma dget_by_key: "distinct (map f xs) \<Longrightarrow> g \<in> set xs \<Longrightarrow> dget (map (\<lambda>x. (f x, h x)) xs) (f g) = Some (h g)"
  by (rule dget_mem) (auto simp: comp_def)

lemmas group_found = find_by_key[OF filter_groups_keys]

lemma group_no_match: "g \<in> set FILTER_GROUPS \<Longrightarrow> fg_match g = NoMatch \<longleftrightarrow> fg_key g = ''all''"
proof -
  have "list_all (\<lambda>g. fg_match g = NoMatch \<longleftrightarrow> fg_key g = ''all'') FILTER_GROUPS"
    by (simp add: FILTER_GROUPS_def)
  then show "g \<in> set FILTER_GROUPS \<Longrightarrow> ?thesis" by (simp add: list_all_iff)
qed

lemma groupCounts_get:
  "g \<in> set FILTER_GROUPS \<Longrightarrow> dget (groupCounts events) (fg_key g) =
     Some (if fg_key g = ''all'' then length events else length (filter (group_selects g) events))"
  unfolding groupCounts_def by (rule dget_by_key[OF filter_groups_keys])

subsection \<open>Properties\<close>

text \<open>
  On a live feed, choosing a filter shows exactly as many events as its chip counts, for
  every chip of the bar.
\<close>

theorem chip_counts_what_it_shows:
  assumes "g \<in> set FILTER_GROUPS" and "\<not> act_paused a"
  shows "Some (length (visible (setFilter (fg_key g) a))) = dget (groupCounts (sse_events (act_feed a))) (fg_key g)"
  using assms groupCounts_get[OF assms(1)] group_found[OF assms(1)] group_no_match[OF assms(1)]
  by (simp add: visible_def setFilter_def Let_def)

theorem chip_counts_what_it_shows_witness:
  "Some (length (visible (setFilter ''peer'' activity_init)))
     = dget (groupCounts (sse_events (act_feed activity_init))) ''peer''"
  using chip_counts_what_it_shows[of "\<lparr>fg_key = ''peer'', fg_label = ''Peers'', fg_match = StartsWith ''peer_''\<rparr>" activity_init]
  by (simp add: FILTER_GROUPS_def activity_init_def)

text \<open>
  Pausing freezes what is shown: from the moment of the pause, whatever arrives, fails or
  reconnects on the feed, the visible list is the one at the pause, and resuming shows the
  feed's current window.
\<close>

theorem pause_freezes_list:
  assumes "\<not> act_paused a"
  shows "visible (fold (\<lambda>e. activity_step parse (FeedEvent e)) es (togglePause a)) = visible a
    \<and> act_feed (togglePause (fold (\<lambda>e. activity_step parse (FeedEvent e)) es (togglePause a)))
        = sse_run parse 200 es (act_feed a)
    \<and> \<not> act_paused (togglePause (fold (\<lambda>e. activity_step parse (FeedEvent e)) es (togglePause a)))"
proof -
  have "fold (\<lambda>e. activity_step parse (FeedEvent e)) es b = b\<lparr>act_feed := sse_run parse 200 es (act_feed b)\<rparr>" for b
    by (induction es arbitrary: b) simp_all
  then show ?thesis using assms by (simp add: togglePause_def visible_def Let_def)
qed

theorem pause_freezes_list_witness:
  "visible (fold (\<lambda>e. activity_step (\<lambda>d. None) (FeedEvent e)) [SourceOpen, SourceError] (togglePause activity_init))
     = visible activity_init"
  by (rule pause_freezes_list[THEN conjunct1]) (simp add: activity_init_def)

end
