(* ===== verification/Live.thy ===== *)
theory Live
  imports Bodies ActivityPage
begin

text \<open>
  The event stream from the daemon to the page: \<^verbatim>\<open>push_event\<close> and \<^verbatim>\<open>_handle_events\<close> of \<^verbatim>\<open>api/server.py\<close>
  joined with \<^verbatim>\<open>hooks/useSSE.js\<close> in the browser, in any interleaving with other streams; the events a
  daemon emits and the chips they fall under; and how the page is mounted, built and served
  (\<^verbatim>\<open>main.jsx\<close>, \<^verbatim>\<open>App.jsx\<close>, \<^verbatim>\<open>vite.config.js\<close>, \<^verbatim>\<open>_get_dashboard_dir\<close>). \<open>dumps\<close> and \<open>parse\<close> are the
  JSON functions of the two languages.
\<close>

subsection \<open>The stream\<close>

definition event_payload :: "string \<Rightarrow> string \<Rightarrow> real \<Rightarrow> pyval" where
  "event_payload ty desc ts = VDict [(''type'', VStr ty), (''description'', VStr desc), (''timestamp'', VFloat ts)]"

definition page_event :: "string \<Rightarrow> string \<Rightarrow> real \<Rightarrow> mesh_event" where
  "page_event ty desc ts = \<lparr>ev_type = Some ty, ev_timestamp = Some ts, ev_description = Some desc\<rparr>"

text \<open>
  What can happen: the daemon pushes an event, the stream of our page writes its next item, another
  page connects, another stream writes its next item or finds its connection broken.
\<close>

datatype stream_move = Pushed string string real | Taken | Joins | Takes nat bool

fun server_move :: "nat \<Rightarrow> stream_move \<Rightarrow> sse_server \<Rightarrow> sse_server" where
  "server_move c (Pushed ty desc now) s = push_event now ty desc s"
| "server_move c Taken s = fst (sse_take c True s)"
| "server_move c Joins s = sse_connect s"
| "server_move c (Takes d writable) s = (if d = c then s else fst (sse_take d writable s))"

text \<open>The line \<^verbatim>\<open>data: ...\<close> that a move brings to our page.\<close>

fun arriving :: "(pyval \<Rightarrow> string) \<Rightarrow> nat \<Rightarrow> stream_move \<Rightarrow> sse_server \<Rightarrow> string option" where
  "arriving dumps c Taken s =
     (case snd (sse_take c True s) of Some (Event ty desc ts) \<Rightarrow> Some (dumps (event_payload ty desc ts)) | _ \<Rightarrow> None)"
| "arriving dumps c m s = None"

definition stream_step ::
    "(pyval \<Rightarrow> string) \<Rightarrow> (string \<Rightarrow> mesh_event option) \<Rightarrow> nat \<Rightarrow> nat \<Rightarrow> stream_move
      \<Rightarrow> sse_server \<times> mesh_event sse_hook \<Rightarrow> sse_server \<times> mesh_event sse_hook" where
  "stream_step dumps parse maxEvents c m = (\<lambda>(s, h).
     (server_move c m s, case arriving dumps c m s of None \<Rightarrow> h | Some d \<Rightarrow> sse_step parse maxEvents (SourceMessage d) h))"

definition stream_run ::
    "(pyval \<Rightarrow> string) \<Rightarrow> (string \<Rightarrow> mesh_event option) \<Rightarrow> nat \<Rightarrow> nat \<Rightarrow> stream_move list
      \<Rightarrow> sse_server \<times> mesh_event sse_hook \<Rightarrow> sse_server \<times> mesh_event sse_hook" where
  "stream_run dumps parse maxEvents c ms p = fold (stream_step dumps parse maxEvents c) ms p"

text \<open>The events pushed, and those that found room in the queue of our stream.\<close>

fun pushes :: "stream_move list \<Rightarrow> mesh_event list" where
  "pushes [] = []"
| "pushes (Pushed ty desc now # ms) = page_event ty desc now # pushes ms"
| "pushes (m # ms) = pushes ms"

definition queue_of :: "nat \<Rightarrow> sse_server \<Rightarrow> sse_item list" where
  "queue_of c s = dgetd (sse_queues s) c []"

fun kept :: "nat \<Rightarrow> stream_move list \<Rightarrow> sse_server \<Rightarrow> mesh_event list" where
  "kept c [] s = []"
| "kept c (Pushed ty desc now # ms) s =
     (if length (queue_of c s) < SSE_MAX then [page_event ty desc now] else []) @ kept c ms (push_event now ty desc s)"
| "kept c (m # ms) s = kept c ms (server_move c m s)"

definition queued_events :: "sse_item list \<Rightarrow> mesh_event list" where
  "queued_events q = concat (map (\<lambda>x. case x of Event ty desc ts \<Rightarrow> [page_event ty desc ts] | Close \<Rightarrow> []) q)"

text \<open>Our stream is open: it has a queue of events, within its size, and is on the list.\<close>

definition streaming :: "nat \<Rightarrow> sse_server \<Rightarrow> bool" where
  "streaming c s \<longleftrightarrow> (\<exists>q. dget (sse_queues s) c = Some q \<and> Close \<notin> set q \<and> length q \<le> SSE_MAX)
     \<and> c \<in> set (sse_clients s) \<and> c < sse_next s"

subsection \<open>Lemmas on the stream\<close>

lemma queued_simps [simp]:
  "queued_events [] = []" "queued_events (q @ r) = queued_events q @ queued_events r"
  "queued_events (Event ty desc ts # q) = page_event ty desc ts # queued_events q"
  by (simp_all add: queued_events_def)

lemma queued_length: "Close \<notin> set q \<Longrightarrow> length (queued_events q) = length q"
proof (induction q)
  case (Cons x q)
  then show ?case by (cases x) auto
qed simp

lemma push_queue: "streaming c s \<Longrightarrow> queue_of c (push_event now ty desc s) = put_nowait (Event ty desc now) (queue_of c s)"
  by (auto simp: streaming_def push_event_def put_all_def dget_map_queues queue_of_def dgetd_def)

lemma push_streaming:
  assumes "streaming c s"
  shows "streaming c (push_event now ty desc s)"
proof -
  obtain q where "dget (sse_queues s) c = Some q" "Close \<notin> set q" "length q \<le> SSE_MAX" using assms by (auto simp: streaming_def)
  then show ?thesis using assms put_nowait_length[of q]
    by (auto simp: streaming_def push_event_def put_all_def dget_map_queues put_nowait_def)
qed

lemma other_moves:
  assumes "streaming c s" and "m = Joins \<or> (\<exists>d w. m = Takes d w)"
  shows "streaming c (server_move c m s) \<and> queue_of c (server_move c m s) = queue_of c s"
  using assms(2)
proof
  assume m: "m = Joins"
  have "c \<noteq> sse_next s" using assms(1) by (simp add: streaming_def)
  then show ?thesis using assms(1) m
    by (auto simp: sse_connect_def streaming_def queue_of_def dgetd_def map_add_def split: option.split)
next
  assume "\<exists>d w. m = Takes d w"
  then obtain d w where m: "m = Takes d w" by blast
  show ?thesis using assms(1) m
    by (cases "dget (sse_queues s) d")
      (auto simp: sse_take_def sse_end_def streaming_def queue_of_def dgetd_def split: list.split sse_item.split)
qed

lemma take_cases:
  assumes "streaming c s"
  obtains "queue_of c s = []" "sse_take c True s = (s, None)"
  | ty desc ts q where "queue_of c s = Event ty desc ts # q" "sse_take c True s = (s\<lparr>sse_queues := dset c q (sse_queues s)\<rparr>, Some (Event ty desc ts))"
proof -
  obtain q where q: "dget (sse_queues s) c = Some q" "Close \<notin> set q" using assms by (auto simp: streaming_def)
  show ?thesis
  proof (cases q)
    case Nil
    with q that(1) show ?thesis by (simp add: queue_of_def dgetd_def sse_take_def)
  next
    case (Cons x r)
    then obtain ty desc ts where "x = Event ty desc ts" using q(2) by (cases x) auto
    with Cons q that(2) show ?thesis by (simp add: queue_of_def dgetd_def sse_take_def)
  qed
qed

lemma take_streaming:
  assumes "streaming c s"
  shows "streaming c (fst (sse_take c True s)) \<and> queue_of c (fst (sse_take c True s)) = tl (queue_of c s)"
proof -
  obtain q where q: "dget (sse_queues s) c = Some q" "Close \<notin> set q" "length q \<le> SSE_MAX" using assms by (auto simp: streaming_def)
  show ?thesis
    using assms by (cases rule: take_cases[OF assms]) (use q in \<open>auto simp: streaming_def queue_of_def dgetd_def\<close>)
qed

lemma move_streaming: "streaming c s \<Longrightarrow> streaming c (server_move c m s)"
proof (cases m)
  case (Pushed ty desc now)
  then show "streaming c s \<Longrightarrow> ?thesis" by (simp add: push_streaming)
next
  case Taken
  then show "streaming c s \<Longrightarrow> ?thesis" using take_streaming by simp
next
  case Joins
  then show "streaming c s \<Longrightarrow> ?thesis" using other_moves by blast
next
  case (Takes d w)
  then show "streaming c s \<Longrightarrow> ?thesis" using other_moves by blast
qed

lemma message_live:
  assumes "handlers_live h" "parse d = Some ev"
  shows "handlers_live (sse_step parse n (SourceMessage d) h)"
    "sse_events (sse_step parse n (SourceMessage d) h) = take n (ev # sse_events h)"
  using assms by (simp_all add: handlers_live_def)

text \<open>The texts of an event that the page can read.\<close>

definition readable :: "(pyval \<Rightarrow> string) \<Rightarrow> (string \<Rightarrow> mesh_event option) \<Rightarrow> sse_item \<Rightarrow> bool" where
  "readable dumps parse x \<longleftrightarrow>
     (case x of Event ty desc ts \<Rightarrow> parse (dumps (event_payload ty desc ts)) = Some (page_event ty desc ts) | Close \<Rightarrow> True)"

lemma readable_event: "readable dumps parse (Event ty desc ts) \<longleftrightarrow> parse (dumps (event_payload ty desc ts)) = Some (page_event ty desc ts)"
  by (simp add: readable_def)

text \<open>What was queued and what found room is what arrived and what is still queued.\<close>

lemma kept_step: "kept c (m # ms) s = kept c [m] s @ kept c ms (server_move c m s)"
  by (cases m) simp_all

text \<open>One move: what it keeps, and the events it brings to the page, in the order of the queue.\<close>

lemma stream_step_delivers:
  assumes r: "\<And>ty desc ts. m = Pushed ty desc ts \<Longrightarrow> readable dumps parse (Event ty desc ts)"
    and q: "list_all (readable dumps parse) (queue_of c s)" and s: "streaming c s" and h: "handlers_live h" "length (sse_events h) \<le> n"
  shows "\<exists>arrived h'. stream_step dumps parse n c m (s, h) = (server_move c m s, h')
    \<and> queued_events (queue_of c s) @ kept c [m] s = arrived @ queued_events (queue_of c (server_move c m s))
    \<and> sse_events h' = take n (rev arrived @ sse_events h)
    \<and> list_all (readable dumps parse) (queue_of c (server_move c m s)) \<and> handlers_live h' \<and> length (sse_events h') \<le> n"
proof -
  consider (push) ty desc now where "m = Pushed ty desc now" | (take) "m = Taken" | (other) "m = Joins \<or> (\<exists>d w. m = Takes d w)"
    by (cases m) auto
  then show ?thesis
  proof cases
    case push
    with r q h show ?thesis by (intro exI[of _ "[]"] exI[of _ h]) (simp add: stream_step_def push_queue[OF s] put_nowait_def)
  next
    case other
    with other_moves[OF s other] q h show ?thesis by (intro exI[of _ "[]"] exI[of _ h]) (auto simp: stream_step_def)
  next
    case take
    note t = take_streaming[OF s, THEN conjunct2]
    show ?thesis
    proof (cases rule: take_cases[OF s])
      case 1
      with q h take t show ?thesis by (intro exI[of _ "[]"] exI[of _ h]) (simp add: stream_step_def)
    next
      case (2 ty desc ts q')
      let ?ev = "page_event ty desc ts" and ?d = "dumps (event_payload ty desc ts)"
      have rq: "parse ?d = Some ?ev" using q 2(1) by (simp add: readable_event)
      note l = message_live[where parse = parse and d = ?d and ev = ?ev and n = n and h = h, OF h(1) rq]
      with q 2 take t show ?thesis
        by (intro exI[of _ "[?ev]"] exI[of _ "sse_step parse n (SourceMessage ?d) h"]) (simp add: stream_step_def)
    qed
  qed
qed

lemma stream_run_delivers:
  assumes "\<forall>ty desc ts. Pushed ty desc ts \<in> set ms \<longrightarrow> readable dumps parse (Event ty desc ts)"
    and "list_all (readable dumps parse) (queue_of c s)"
    and "streaming c s" and "handlers_live h" and "length (sse_events h) \<le> n"
  shows "\<exists>arrived. queued_events (queue_of c s) @ kept c ms s
       = arrived @ queued_events (queue_of c (fst (stream_run dumps parse n c ms (s, h))))
     \<and> sse_events (snd (stream_run dumps parse n c ms (s, h))) = take n (rev arrived @ sse_events h)"
  using assms
proof (induction ms arbitrary: s h)
  case Nil
  then show ?case by (intro exI[of _ "[]"]) (simp add: stream_run_def)
next
  case (Cons m ms)
  let ?s = "server_move c m s"
  have "\<And>ty desc ts. m = Pushed ty desc ts \<Longrightarrow> readable dumps parse (Event ty desc ts)" using Cons.prems(1) by simp
  from stream_step_delivers[OF this Cons.prems(2-5)] obtain e h' where
    step: "stream_step dumps parse n c m (s, h) = (?s, h')" "queued_events (queue_of c s) @ kept c [m] s = e @ queued_events (queue_of c ?s)"
      "sse_events h' = take n (rev e @ sse_events h)"
    and keeps: "list_all (readable dumps parse) (queue_of c ?s)" "handlers_live h'" "length (sse_events h') \<le> n" by blast
  have run: "stream_run dumps parse n c (m # ms) (s, h) = stream_run dumps parse n c ms (?s, h')"
    by (simp add: stream_run_def step(1))
  have "\<forall>ty desc ts. Pushed ty desc ts \<in> set ms \<longrightarrow> readable dumps parse (Event ty desc ts)" using Cons.prems(1) by simp
  from Cons.IH[OF this keeps(1) move_streaming[OF Cons.prems(3)] keeps(2,3)] obtain arrived where
    a: "queued_events (queue_of c ?s) @ kept c ms ?s = arrived @ queued_events (queue_of c (fst (stream_run dumps parse n c ms (?s, h'))))"
      "sse_events (snd (stream_run dumps parse n c ms (?s, h'))) = take n (rev arrived @ sse_events h')" by blast
  have "queued_events (queue_of c s) @ kept c (m # ms) s = (e @ arrived) @ queued_events (queue_of c (fst (stream_run dumps parse n c ms (?s, h'))))"
    unfolding kept_step[of c m ms s] using a(1) step(2) by (metis append.assoc)
  moreover have "sse_events (snd (stream_run dumps parse n c ms (?s, h'))) = take n (rev (e @ arrived) @ sse_events h)"
    unfolding a(2) step(3) rev_append append_assoc by (rule take_window)
  ultimately show ?case unfolding run by blast
qed

lemma kept_all:
  assumes "streaming c s" and "length (queue_of c s) + length (pushes ms) \<le> SSE_MAX"
  shows "kept c ms s = pushes ms"
  using assms
proof (induction ms arbitrary: s)
  case (Cons m ms)
  consider (push) ty desc now where "m = Pushed ty desc now" | (take) "m = Taken" | (other) "m = Joins \<or> (\<exists>d w. m = Takes d w)"
    by (cases m) auto
  then show ?case
  proof cases
    case push
    have "length (queue_of c (push_event now ty desc s)) + length (pushes ms) \<le> SSE_MAX"
      unfolding push_queue[OF Cons.prems(1)] using Cons.prems(2) by (simp add: push put_nowait_def)
    from Cons.IH[OF push_streaming[OF Cons.prems(1)] this] Cons.prems(2) show ?thesis by (simp add: push)
  next
    case take
    have "length (queue_of c (server_move c m s)) + length (pushes ms) \<le> SSE_MAX"
      using take_streaming[OF Cons.prems(1)] Cons.prems(2) by (simp add: take)
    from Cons.IH[OF _ this] take_streaming[OF Cons.prems(1)] show ?thesis by (simp add: take)
  next
    case other
    note o = other_moves[OF Cons.prems(1) other]
    have "kept c ms (server_move c m s) = pushes ms"
      using o Cons.prems(2) other by (intro Cons.IH) auto
    then show ?thesis using other by auto
  qed
qed simp


subsection \<open>Events and chips\<close>

text \<open>The events the commands \<open>start\<close> and \<open>connect\<close> add to those of the daemon.\<close>

definition cli_event_type :: "string \<Rightarrow> bool" where
  "cli_event_type ty \<longleftrightarrow> ty \<in> {''node_start'', ''peer_manual_connect''}"

definition chips_of :: "mesh_event \<Rightarrow> string list" where
  "chips_of e = map fg_key (filter (\<lambda>g. fg_key g \<noteq> ''all'' \<and> group_selects g e) FILTER_GROUPS)"

lemma chips_of_type:
  "chips_of (page_event ty desc ts) = map fg_key (filter (\<lambda>g. fg_key g \<noteq> ''all'' \<and> matches (fg_match g) ty) FILTER_GROUPS)"
  by (cases "ty = []") (simp_all add: chips_of_def group_selects_def page_event_def)

lemma no_sub: "length t > length s \<Longrightarrow> \<not> sublist t s"
  by (auto simp: sublist_def)

lemma event_chips:
  "event_type ty \<or> cli_event_type ty \<Longrightarrow> chips_of (page_event ty desc ts) =
     (if ty \<in> {''peer_connect'', ''peer_disconnect'', ''peer_link_measured'', ''peer_manual_connect''} then [''peer'']
      else if ty = ''invoke'' then [''invoke''] else if ty \<in> {''handoff_sent'', ''handoff_recv''} then [''handoff'']
      else if ty = ''agent_register'' then [''agent''] else [])"
  unfolding chips_of_type event_type_def cli_event_type_def
  by (elim disjE insertE emptyE; simp add: FILTER_GROUPS_def to_lower_def lower_char_def sublist_code)

lemma errors_unselected:
  "event_type ty \<or> cli_event_type ty \<Longrightarrow> g \<in> set FILTER_GROUPS \<Longrightarrow> fg_key g = ''error'' \<Longrightarrow> \<not> group_selects g (page_event ty desc ts)"
proof
  assume a: "event_type ty \<or> cli_event_type ty" "g \<in> set FILTER_GROUPS" "fg_key g = ''error''" "group_selects g (page_event ty desc ts)"
  then have "''error'' \<in> set (chips_of (page_event ty desc ts))" by (force simp: chips_of_def)
  then show False unfolding event_chips[OF a(1)] by (simp split: if_splits)
qed

subsection \<open>Mounting, building, serving\<close>

text \<open>\<^verbatim>\<open>main.jsx\<close>: what is mounted into the element \<^verbatim>\<open>root\<close>.\<close>

definition main_tree :: "vnode \<Rightarrow> vnode" where
  "main_tree app = Elem ''React.StrictMode'' [] [Elem ''BrowserRouter'' [] [app]]"

text \<open>\<^verbatim>\<open>App\<close>: the layout around the page of the path; a redirect renders nothing and changes the path.\<close>

definition App :: "(string \<Rightarrow> bool) \<Rightarrow> string \<Rightarrow> bool \<Rightarrow> string option \<Rightarrow> vnode \<Rightarrow> vnode \<Rightarrow> vnode \<Rightarrow> vnode" where
  "App is_active path live name topology inference activity =
     Layout is_active path live name
       (case route_of path of TopologyPage \<Rightarrow> [topology] | InferencePage \<Rightarrow> [inference] | ActivityPage \<Rightarrow> [activity]
        | NavigateTo p \<Rightarrow> [])"

definition redirect :: "string \<Rightarrow> string" where
  "redirect path = (case route_of path of NavigateTo p \<Rightarrow> p | _ \<Rightarrow> path)"

text \<open>\<^verbatim>\<open>vite.config.js\<close>: where the build is written, and the development server.\<close>

definition VITE_OUT_DIR :: "string list" where
  "VITE_OUT_DIR = [''..'', ''src'', ''aries'', ''dashboard'', ''dist'']"

definition VITE_EMPTY_OUT_DIR :: bool where "VITE_EMPTY_OUT_DIR = True"

definition VITE_PORT :: nat where "VITE_PORT = 5173"

definition VITE_PROXY :: "(string \<times> string) list" where
  "VITE_PROXY = [(''/api'', ''http://localhost:7272'')]"

text \<open>A relative path of the configuration, from the directory it stands in.\<close>

fun resolve_from :: "string list \<Rightarrow> string list \<Rightarrow> string list" where
  "resolve_from base [] = base"
| "resolve_from base (p # ps) = resolve_from (if p = ''..'' then butlast base else base @ [p]) ps"

text \<open>The answer of the development server: forwarded to the target of the first matching entry, or its own.\<close>

definition dev_target :: "string \<Rightarrow> string option" where
  "dev_target path = map_option (\<lambda>(p, target). target @ path) (find (\<lambda>(p, target). startswith path p) VITE_PROXY)"

definition DEFAULT_PORT :: nat where "DEFAULT_PORT = 7272"

text \<open>
  \<^verbatim>\<open>_get_dashboard_dir\<close>: inside the unpacked bundle of a frozen binary, or next to the \<^verbatim>\<open>api\<close>
  directory of this module (given by its path).
\<close>

definition get_dashboard_dir :: "string list option \<Rightarrow> string list \<Rightarrow> string list" where
  "get_dashboard_dir meipass file =
     (case meipass of
        Some d \<Rightarrow> d @ [''aries'', ''dashboard'', ''dist'']
      | None \<Rightarrow> butlast (butlast file) @ [''dashboard'', ''dist''])"

subsection \<open>Properties\<close>

text \<open>
  C14: no event is lost, doubled or reordered on the way to the page: from the moment its stream is
  open, in any interleaving with other pages, the page shows the newest \<open>maxEvents\<close> of the events
  that found room in the queue of its stream and are no longer waiting there, newest first; when
  at most 256 events are pushed, these are all.
\<close>

theorem events_reach_the_page:
  assumes "\<forall>ty desc ts. Pushed ty desc ts \<in> set ms \<longrightarrow> parse (dumps (event_payload ty desc ts)) = Some (page_event ty desc ts)"
    and "streaming c s" and "queue_of c s = []" and "handlers_live h" and "sse_events h = []"
  shows "let (s', h') = stream_run dumps parse maxEvents c ms (s, h);
             arrived = take (length (kept c ms s) - length (queue_of c s')) (kept c ms s)
         in sse_events h' = take maxEvents (rev arrived)
            \<and> (length (pushes ms) \<le> 256 \<longrightarrow> kept c ms s = pushes ms)
            \<and> (queue_of c s' = [] \<longrightarrow> sse_events h' = take maxEvents (rev (kept c ms s)))"
proof -
  let ?s' = "fst (stream_run dumps parse maxEvents c ms (s, h))" and ?h' = "snd (stream_run dumps parse maxEvents c ms (s, h))"
  obtain arrived where a: "kept c ms s = arrived @ queued_events (queue_of c ?s')"
    "sse_events ?h' = take maxEvents (rev arrived)"
    using stream_run_delivers[where parse = parse and dumps = dumps and n = maxEvents and ms = ms, OF _ _ assms(2,4)] assms(1,3,5)
    by (auto simp: readable_event)
  have "streaming c (fst (stream_run dumps parse maxEvents c ms (s, h)))" using assms(2)
  proof (induction ms arbitrary: s h)
    case (Cons m ms)
    have "streaming c (server_move c m s)" by (rule move_streaming[OF Cons.prems])
    from Cons.IH[OF this] show ?case by (simp add: stream_run_def stream_step_def)
  qed (simp add: stream_run_def)
  then have "Close \<notin> set (queue_of c ?s')" by (auto simp: streaming_def queue_of_def dgetd_def)
  then have "length (queued_events (queue_of c ?s')) = length (queue_of c ?s')" by (rule queued_length)
  then have t: "take (length (kept c ms s) - length (queue_of c ?s')) (kept c ms s) = arrived" by (simp add: a(1))
  have "length (pushes ms) \<le> 256 \<longrightarrow> kept c ms s = pushes ms"
    using kept_all[OF assms(2), of ms] assms(3) by (simp add: SSE_MAX_def)
  moreover have "queue_of c ?s' = [] \<longrightarrow> kept c ms s = arrived" using a(1) by simp
  ultimately show ?thesis using t a(2) by (simp add: case_prod_beta Let_def)
qed

theorem events_reach_the_page_witness:
  "\<exists>dumps parse. sse_events (snd (stream_run dumps parse 1 0 [Pushed ''invoke'' ''a'' 1, Joins, Pushed ''peer_connect'' ''b'' 2, Taken, Taken]
      (sse_connect \<lparr>sse_queues = [], sse_clients = [], sse_next = 0\<rparr>, sse_init))) = [page_event ''peer_connect'' ''b'' 2]"
proof -
  define dumps :: "pyval \<Rightarrow> string" where "dumps v = (if v = event_payload ''invoke'' ''a'' 1 then ''1'' else ''2'')" for v
  define parse where "parse t = Some (if t = ''1'' then page_event ''invoke'' ''a'' 1 else page_event ''peer_connect'' ''b'' 2)" for t :: string
  define s where "s = sse_connect \<lparr>sse_queues = [], sse_clients = [], sse_next = 0\<rparr>"
  let ?ms = "[Pushed ''invoke'' ''a'' 1, Joins, Pushed ''peer_connect'' ''b'' 2, Taken, Taken]"
  have s: "streaming 0 s" "queue_of 0 s = []"
    by (simp_all add: s_def sse_connect_def streaming_def queue_of_def dgetd_def)
  have r: "\<forall>ty desc ts. Pushed ty desc ts \<in> set ?ms \<longrightarrow> parse (dumps (event_payload ty desc ts)) = Some (page_event ty desc ts)"
    by (auto simp: dumps_def parse_def event_payload_def)
  have h: "handlers_live (sse_init :: mesh_event sse_hook)" "sse_events (sse_init :: mesh_event sse_hook) = []"
    by (simp_all add: handlers_live_def sse_init_def sse_open_def)
  have e: "queue_of 0 (fst (stream_run dumps parse 1 0 ?ms (s, sse_init))) = []"
    by (simp add: stream_run_def stream_step_def s_def sse_connect_def push_event_def put_all_def put_nowait_def SSE_MAX_def
        sse_take_def queue_of_def dgetd_def)
  note t = events_reach_the_page[where dumps = dumps and parse = parse and maxEvents = 1, OF r s h, unfolded case_prod_beta Let_def]
  have "kept 0 ?ms s = pushes ?ms" by (rule t[THEN conjunct2, THEN conjunct1, THEN mp]) simp
  then have "sse_events (snd (stream_run dumps parse 1 0 ?ms (s, sse_init))) = take 1 (rev (pushes ?ms))"
    using t[THEN conjunct2, THEN conjunct2, THEN mp, OF e] by (simp only:)
  then show ?thesis unfolding s_def by (intro exI[of _ dumps] exI[of _ parse]) simp
qed


text \<open>
  C36: every event a daemon can emit, in any state it reaches, falls under at most one chip of the
  activity page; the chip for errors never counts any, and exactly the capability reports and
  the start of the daemon fall under no chip but \<open>All\<close>.
\<close>

theorem errors_chip_stays_empty:
  assumes "node_start L now hh mandates file probe = (hh1, Inr nd0)" and "node_reach L nd0 nd"
    and "hh_device_key hh1 = Some k" and "hh_device_did hh1 = Some d"
    and "\<forall>e \<in> set evs. \<exists>ty txt ts. e = page_event ty txt ts \<and> ((ty, txt) \<in> set (nd_events nd) \<or> cli_event_type ty)"
  shows "dget (groupCounts evs) ''error'' = Some 0
    \<and> (\<forall>e \<in> set evs. length (chips_of e) = (if ev_type e \<in> {Some ''inference_capability'', Some ''node_start''} then 0 else 1))"
proof -
  have "events_ok k d nd0"
    using node_start_fields(2,6)[OF assms(1)] assms(3,4) by (simp add: events_ok_def)
  from announced.reach_keeps[OF assms(2) this] have ok: "list_all (\<lambda>(ty, txt). event_type ty) (nd_events nd)"
    by (simp add: events_ok_def)
  have e: "\<exists>ty txt ts. e = page_event ty txt ts \<and> (event_type ty \<or> cli_event_type ty)" if "e \<in> set evs" for e
    using assms(5) that ok by (fastforce simp: list_all_iff)
  have "filter (group_selects g) evs = []" if "g \<in> set FILTER_GROUPS" "fg_key g = ''error''" for g
    using e errors_unselected[OF _ that] by (fastforce simp: filter_empty_conv)
  from this[of "last FILTER_GROUPS"] have "dget (groupCounts evs) ''error'' = Some 0"
    by (simp add: groupCounts_def FILTER_GROUPS_def)
  moreover have "length (chips_of e) = (if ev_type e \<in> {Some ''inference_capability'', Some ''node_start''} then 0 else 1)"
    if mem: "e \<in> set evs" for e
  proof -
    obtain ty tx ts where t: "e = page_event ty tx ts" "event_type ty \<or> cli_event_type ty" using e[OF mem] by blast
    have "ev_type e = Some ty" by (simp add: t(1) page_event_def)
    then show ?thesis using t(2) unfolding t(1) event_chips[OF t(2)] by (auto simp: event_type_def cli_event_type_def)
  qed
  ultimately show ?thesis by blast
qed

theorem errors_chip_stays_empty_witness:
  "dget (groupCounts [page_event ''node_start'' ''x'' 0]) ''error'' = Some 0"
proof -
  obtain h1 where s: "node_start demo_hh_lib 9 (reopen demo_household) [] None None = (h1, Inr demo_node)"
    "hh_device_key h1 = Some False" "hh_device_did h1 = Some (demo_did False)" using demo_node_start by blast
  have "\<forall>e \<in> set [page_event ''node_start'' ''x'' 0].
      \<exists>ty txt ts. e = page_event ty txt ts \<and> ((ty, txt) \<in> set (nd_events demo_node) \<or> cli_event_type ty)"
    by (auto simp: cli_event_type_def)
  from errors_chip_stays_empty[OF s(1) node_reach.reach_started s(2,3) this] show ?thesis by blast
qed

text \<open>
  Every address of the application shows a page after at most one redirect, and the address of
  every tab can be reloaded or bookmarked: the server answers it with the index file, from which
  the application shows the page of the tab again.
\<close>

theorem tabs_survive_reload:
  assumes "(dest, icon, label) \<in> set nav_tabs" and "fs_has_index fs"
    and "prefix (fs_dist fs) (fs_resolve fs (tl dest))" and "\<not> fs_is_file fs (fs_resolve fs (tl dest))"
  shows "serve_frontend fs dest = File (fs_dist fs @ [''index.html'']) \<and> redirect dest = dest
    \<and> (\<forall>path p. route_of (redirect path) \<noteq> NavigateTo p)"
proof -
  have nav: "q = ''/''" if "route_of path = NavigateTo q" for path q
    using that dget_Some_mem[of app_routes path] by (cases "dget app_routes path") (auto simp: route_of_def app_routes_def)
  have "route_of ''/'' = TopologyPage" by (simp add: route_of_def app_routes_def)
  then have "route_of (redirect path) \<noteq> NavigateTo p" for path p
    using nav[of path] by (cases "route_of path") (simp_all add: redirect_def)
  moreover have "dest \<in> {''/topology'', ''/inference'', ''/activity''}" using assms(1) by (auto simp: nav_tabs_def)
  then have "serve_frontend fs dest = File (fs_dist fs @ [''index.html''])" and "redirect dest = dest"
    using assms(2-4) by (elim insertE emptyE; simp add: serve_frontend_def serve_root_def redirect_def route_of_def app_routes_def)+
  ultimately show ?thesis by blast
qed

theorem tabs_survive_reload_witness:
  "serve_frontend \<lparr>fs_dist = [''dist''], fs_resolve = (\<lambda>p. [''dist'', p]), fs_is_file = (\<lambda>p. False), fs_has_index = True\<rparr> ''/inference''
     = File [''dist'', ''index.html'']"
  using tabs_survive_reload[of "''/inference''" "''Cpu''" "''Inference''"
      "\<lparr>fs_dist = [''dist''], fs_resolve = (\<lambda>p. [''dist'', p]), fs_is_file = (\<lambda>p. False), fs_has_index = True\<rparr>"]
  by (simp add: nav_tabs_def)

text \<open>
  The build is written where the daemon looks for it, in a source checkout at any place, and
  during development every request to the API goes to the port the daemon listens on by default.
\<close>

theorem build_output_is_served:
  "resolve_from (repo @ [''dashboard'']) VITE_OUT_DIR = get_dashboard_dir None (repo @ [''src'', ''aries'', ''api'', ''server.py''])
   \<and> dev_target (''/api/'' @ endpoint) = Some (''http://localhost:'' @ show_nat DEFAULT_PORT @ ''/api/'' @ endpoint)"
proof -
  have "(of_char (CHR ''7'') :: nat) = 55" "(of_char (CHR ''2'') :: nat) = 50" by simp_all
  then have "digit_char 7 = CHR ''7''" "digit_char 2 = CHR ''2''"
    using char_of_char[of "CHR ''7''"] char_of_char[of "CHR ''2''"] by (simp_all add: digit_char_def)
  then have "show_nat 7272 = ''7272''" by (simp add: show_nat.simps)
  then show ?thesis
    by (simp add: VITE_OUT_DIR_def get_dashboard_dir_def dev_target_def VITE_PROXY_def DEFAULT_PORT_def butlast_append)
qed

text \<open>
  Stopping the server marks only the queues that have room: a stream whose queue is full gets no
  mark, so its loop goes on after its pending events; a queue with room ends with the mark. No
  stream receives another event.
\<close>

theorem full_queue_gets_no_mark:
  assumes "streaming c s"
  shows "queue_of c (api_stop s) = (if length (queue_of c s) < SSE_MAX then queue_of c s @ [Close] else queue_of c s)
    \<and> queue_of c (push_event now ty desc (api_stop s)) = queue_of c (api_stop s)"
  using assms by (auto simp: streaming_def api_stop_def push_event_def put_all_def dget_map_queues queue_of_def dgetd_def put_nowait_def)

theorem full_queue_gets_no_mark_witness:
  "queue_of 0 (api_stop (sse_connect \<lparr>sse_queues = [], sse_clients = [], sse_next = 0\<rparr>)) = [Close]"
  using full_queue_gets_no_mark[of 0 "sse_connect \<lparr>sse_queues = [], sse_clients = [], sse_next = 0\<rparr>"]
  by (simp add: streaming_def sse_connect_def queue_of_def dgetd_def SSE_MAX_def)

end
