(* ===== verification/Terminal.thy ===== *)
theory Terminal
  imports Cli Live
begin

text \<open>
  The terminal dashboard of \<^verbatim>\<open>cli/dashboard.py\<close>: its ring buffer of events and the contents of its
  panels, as rows of texts without styles, and how it agrees with the web dashboard.
\<close>

subsection \<open>The activity log\<close>

definition EVENT_BUFFER_SIZE :: nat where "EVENT_BUFFER_SIZE = 20"

type_synonym terminal_event = "string \<times> string \<times> real"

definition add_event :: "string \<Rightarrow> string \<Rightarrow> real \<Rightarrow> terminal_event list \<Rightarrow> terminal_event list" where
  "add_event ty desc now evs =
     (let es = evs @ [(ty, desc, now)]
      in if length es > EVENT_BUFFER_SIZE then drop (length es - EVENT_BUFFER_SIZE) es else es)"

text \<open>\<open>stamp\<close> prints the time of day.\<close>

definition activity_rows :: "(real \<Rightarrow> string) \<Rightarrow> terminal_event list \<Rightarrow> (string \<times> string) list" where
  "activity_rows stamp evs =
     (if evs = [] then [([], ''(no activity yet)'')]
      else map (\<lambda>(ty, desc, ts). (stamp ts, desc)) (drop (length evs - EVENT_BUFFER_SIZE) evs))"

subsection \<open>The panels\<close>

definition two_digits :: "int \<Rightarrow> string" where
  "two_digits n = (let s = show_int n in if length s < 2 then ''0'' @ s else s)"

definition uptime_text :: "int \<Rightarrow> string" where
  "uptime_text secs = two_digits (secs div 3600) @ '':'' @ two_digits (secs mod 3600 div 60) @ '':'' @ two_digits (secs mod 60)"

text \<open>The start time is zero before the first start; the port is a question mark without a transport.\<close>

definition node_lines :: "'k household option \<Rightarrow> real \<Rightarrow> real \<Rightarrow> int option \<Rightarrow> string list" where
  "node_lines hh started_at now port =
     (let name = (case hh of None \<Rightarrow> [] | Some h \<Rightarrow>
            (case dget (hh_devices h) (or_empty (hh_device_did h)) of None \<Rightarrow> [] | Some d \<Rightarrow> dv_name d));
          own = (case hh of None \<Rightarrow> [] | Some h \<Rightarrow> or_empty (hh_device_did h));
          did = (if own = [] then ''(none)'' else own);
          short_did = (if length did > 24 then take 24 did @ ''...'' else did);
          uptime = (if started_at = 0 then ''(starting)'' else uptime_text (py_trunc (now - started_at)))
      in [if name = [] then ''aries-node'' else name, short_did, ''Uptime:    '' @ uptime,
          ''Port:      '' @ (case port of None \<Rightarrow> ''?'' | Some p \<Rightarrow> show_int p), ''Protocol:  v0.2 (Noise XX)''])"

text \<open>The bars are the numbers they show, of 100; \<open>fmt k x\<close> prints \<open>x\<close> with \<open>k\<close> decimals.\<close>

record health_panel =
  hp_cpu :: real
  hp_ram :: real
  hp_texts :: "string list"
  hp_warm :: bool

definition health_panel_of :: "(nat \<Rightarrow> real \<Rightarrow> string) \<Rightarrow> device_health option \<Rightarrow> health_panel option" where
  "health_panel_of fmt snap =
     map_option (\<lambda>h.
       let used = max (dh_ram_total_gb h - dh_ram_available_gb h) 0;
           frac = (if dh_ram_total_gb h \<noteq> 0 then used / dh_ram_total_gb h else 0) in
       \<lparr>hp_cpu = dh_cpu_percent h, hp_ram = frac * 100,
        hp_texts = [fmt 0 (dh_cpu_percent h) @ ''%'', fmt 1 used @ ''/'' @ fmt 1 (dh_ram_total_gb h) @ '' GB'',
          (case dh_battery_pct h of None \<Rightarrow> ''(plugged)'' | Some b \<Rightarrow> fmt 0 b @ ''%'' @ (if dh_charging h then '' '' @ bolt_sign @ '' charging'' else [])),
          dh_thermal h, dh_network_type h @ '' '' @ mid_dot @ '' '' @ fmt 0 (dh_bandwidth_mbps h) @ '' MB/s''],
        hp_warm = (dh_thermal h \<in> {''warm'', ''throttled''})\<rparr>) snap"

text \<open>A row per connection, or the one row of an empty table.\<close>

definition peer_row :: "(nat \<Rightarrow> real \<Rightarrow> string) \<Rightarrow> real \<Rightarrow> peer_info \<times> bool \<Rightarrow> string list" where
  "peer_row fmt now c = (case c of (p, opened) \<Rightarrow>
     [if pi_name p = [] then em_dash else pi_name p, if pi_did p = [] then em_dash else take 18 (pi_did p) @ ''...'',
      (case pi_latency p of None \<Rightarrow> em_dash | Some l \<Rightarrow> fmt 0 l @ '' ms''),
      (if pi_last_seen p = 0 then em_dash else show_int (py_trunc (now - pi_last_seen p)) @ ''s ago''),
      if opened then ''online'' else ''offline''])"

definition peer_rows :: "(nat \<Rightarrow> real \<Rightarrow> string) \<Rightarrow> real \<Rightarrow> (peer_info \<times> bool) list \<Rightarrow> string list list" where
  "peer_rows fmt now conns = (if conns = [] then [[''(none connected)'', [], [], [], []]] else map (peer_row fmt now) conns)"

definition terminal_agent_row :: "agent_record \<Rightarrow> string list" where
  "terminal_agent_row a = [Household.ag_name a, Household.ag_vendor a, if truthy (Household.ag_model a) then or_empty (Household.ag_model a) else em_dash,
     Household.ag_cost_class a, Household.ag_locality a]"

definition terminal_agent_rows :: "'k household \<Rightarrow> string list list" where
  "terminal_agent_rows hh =
     (if hh_agents hh = [] then [[''(none registered)'', [], [], [], []]] else map (terminal_agent_row \<circ> snd) (hh_agents hh))"

definition memory_counts :: "mstore \<Rightarrow> (string \<times> int) list" where
  "memory_counts st = (let keys = dkeys (registers st) in
     [(''context'', int (length (filter (\<lambda>k. startswith k ''aries:context://'') keys))),
      (''memory'', int (length (filter (\<lambda>k. startswith k ''aries:memory://'') keys))),
      (''cache'', int (length (filter (\<lambda>k. startswith k ''aries:cache://'') keys))),
      (''clock'', py_trunc (lamport st)), (''logs'', int (length (logs st)))])"

definition terminal_configs :: "registry \<Rightarrow> inference_config list" where
  "terminal_configs r = take 6 (sort_key (\<lambda>c. - weighted_score c None) (rg_configs r))"

definition inference_rows :: "(nat \<Rightarrow> real \<Rightarrow> string) \<Rightarrow> registry \<Rightarrow> string list list" where
  "inference_rows fmt r =
     (if rg_configs r = [] then [[''(no models available '' @ em_dash @ '' install llama.cpp + GGUF files)'']]
      else map (\<lambda>c. [ic_model_name c, ic_type c, fmt 1 (ic_tok_s c) @ '' tok/s'']) (terminal_configs r))"

subsection \<open>Lemmas\<close>

lemma add_events:
  "fold (\<lambda>(ty, desc, ts). add_event ty desc ts) es [] = drop (length es - EVENT_BUFFER_SIZE) es"
proof (induction es rule: rev_induct)
  case (snoc e es)
  obtain ty desc ts where e: "e = (ty, desc, ts)" by (cases e)
  show ?case
  proof (cases "length es < EVENT_BUFFER_SIZE")
    case True
    with snoc show ?thesis by (simp add: e add_event_def Let_def)
  next
    case False
    then have "Suc (length es - 20) = length es - 19" by (simp add: EVENT_BUFFER_SIZE_def)
    with False snoc show ?thesis by (simp add: e add_event_def Let_def EVENT_BUFFER_SIZE_def)
  qed
qed simp

subsection \<open>Properties\<close>


end
