(* ===== verification/Lifecycle.thy ===== *)
theory Lifecycle
  imports Terminal
begin

text \<open>
  The life of one \<open>AriesNode\<close> object of \<^verbatim>\<open>node.py\<close>: \<open>start\<close> with the points where it can fail, \<open>stop\<close>, and
  what each leaves behind. Discovery, the profiler and the synchronization tasks are started and
  stopped with it and have no part in its outcome.
\<close>

subsection \<open>Start and stop\<close>

text \<open>
  The fields that decide: the flag, the household object, whether the transport listens, the parts
  that are there after a complete start (scheduler, memory, registry), whether the dashboard server
  is up.
\<close>

record 'k daemon =
  da_started :: bool
  da_household :: "'k household option"
  da_listening :: bool
  da_node :: "'k node option"
  da_api :: bool

definition new_daemon :: "'k daemon" where
  "new_daemon = \<lparr>da_started = False, da_household = None, da_listening = False, da_node = None, da_api = False\<rparr>"

text \<open>
  What a start finds outside: the time, the files of the directory, the exception of the listening
  socket, the mandates file, the memory file, the report of the probing, whether the dashboard
  is asked for, whether its port is free.
\<close>

record 'k boot =
  bo_now :: real
  bo_dir :: "'k household"
  bo_socket :: "py_error option"
  bo_mandates :: "pyval result option"
  bo_memory :: "snapshot option"
  bo_probe :: "device_capability option"
  bo_enable_api :: bool
  bo_port_free :: bool

text \<open>A mandate with a value of a wrong type, which the code carries along to its first use, raises at once.\<close>

definition boot_mandates :: "'k boot \<Rightarrow> mandate list result" where
  "boot_mandates b =
     bindE (load_mandates_from_yaml (bo_mandates b)) (\<lambda>rs. from_option (TypeError ''mandate'') (those (map as_mandate rs)))"

text \<open>The tables of the object that \<open>start\<close> does not make anew.\<close>

definition keep_tables :: "'k node option \<Rightarrow> 'k node \<Rightarrow> 'k node" where
  "keep_tables old nd = (case old of None \<Rightarrow> nd
     | Some o' \<Rightarrow> nd\<lparr>nd_adapters := nd_adapters o', nd_chains := nd_chains o', nd_events := nd_events o', nd_waiting := nd_waiting o',
         nd_ready := nd_ready o', nd_rpc := nd_rpc o', nd_ended := nd_ended o'\<rparr>)"

definition api_start :: "'k boot \<Rightarrow> bool" where
  "api_start b = (bo_enable_api b \<and> bo_port_free b)"

definition daemon_start :: "('k, 'z) key_lib_scheme \<Rightarrow> 'k boot \<Rightarrow> 'k daemon \<Rightarrow> 'k daemon \<times> unit result" where
  "daemon_start L b d =
     (if da_started d then (d, Inr ())
      else
        let hh = (case da_household d of None \<Rightarrow> reopen (bo_dir b) | Some h \<Rightarrow> h);
            d1 = d\<lparr>da_started := True, da_household := Some hh\<rparr> in
        if file_manifest hh = None then (d1, Inl (RuntimeError ''Household not initialized; run `aries init` first''))
        else (case hh_load L (bo_now b) hh of
          (h1, Inl e) \<Rightarrow> (d1\<lparr>da_household := Some h1\<rparr>, Inl e)
        | (h1, Inr _) \<Rightarrow>
            let d2 = d1\<lparr>da_household := Some h1\<rparr> in
            (case bo_socket b of
               Some e \<Rightarrow> (d2, Inl e)
             | None \<Rightarrow>
                 let d3 = d2\<lparr>da_listening := True\<rparr> in
                 (case bindE (boot_mandates b) (\<lambda>ms. snd (node_start L (bo_now b) hh ms (bo_memory b) (bo_probe b))) of
                    Inl e \<Rightarrow> (d3, Inl e)
                  | Inr nd \<Rightarrow> (d3\<lparr>da_node := Some (keep_tables (da_node d) nd), da_api := api_start b\<rparr>, Inr ())))))"

definition daemon_stop :: "'k daemon \<Rightarrow> 'k daemon" where
  "daemon_stop d = d\<lparr>da_started := False, da_listening := False, da_api := False\<rparr>"

subsection \<open>Lemmas\<close>

text \<open>A start without obstacles, and what stops one.\<close>

definition boots :: "('k, 'z) key_lib_scheme \<Rightarrow> 'k boot \<Rightarrow> 'k household \<Rightarrow> bool" where
  "boots L b hh \<longleftrightarrow> file_manifest hh \<noteq> None \<and> snd (hh_load L (bo_now b) hh) = Inr () \<and> bo_socket b = None
     \<and> (\<exists>ms. boot_mandates b = Inr ms)"

lemma node_started:
  assumes "snd (hh_load L now hh) = Inr ()"
  shows "\<exists>nd. node_start L now hh ms file probe = (fst (hh_load L now hh), Inr nd)"
  using node_start_runs[of L now hh "fst (hh_load L now hh)"] assms by (metis prod.collapse)

lemma daemon_start_cases:
  assumes "\<not> da_started d" and "hh = (case da_household d of None \<Rightarrow> reopen (bo_dir b) | Some h \<Rightarrow> h)"
  shows "if boots L b hh
    then \<exists>ms nd. boot_mandates b = Inr ms \<and> node_start L (bo_now b) hh ms (bo_memory b) (bo_probe b) = (nd_household nd, Inr nd)
       \<and> daemon_start L b d = (\<lparr>da_started = True, da_household = Some (nd_household nd), da_listening = True,
            da_node = Some (keep_tables (da_node d) nd), da_api = api_start b\<rparr>, Inr ())
    else \<exists>d1 e. daemon_start L b d = (d1, Inl e) \<and> da_started d1 \<and> da_node d1 = da_node d \<and> da_api d1 = da_api d
       \<and> (da_listening d1 \<longleftrightarrow> da_listening d \<or> (file_manifest hh \<noteq> None \<and> snd (hh_load L (bo_now b) hh) = Inr () \<and> bo_socket b = None))"
proof -
  obtain h1 r where l: "hh_load L (bo_now b) hh = (h1, r)" by (cases "hh_load L (bo_now b) hh")
  show ?thesis
  proof (cases "boots L b hh")
    case True
    then have r: "r = Inr ()" "file_manifest hh \<noteq> None" "bo_socket b = None" by (simp_all add: boots_def l)
    from True obtain ms where ms: "boot_mandates b = Inr ms" by (auto simp: boots_def)
    obtain nd where nd: "node_start L (bo_now b) hh ms (bo_memory b) (bo_probe b) = (h1, Inr nd)"
      using node_started[of L "bo_now b" hh ms "bo_memory b" "bo_probe b"] by (auto simp: l r(1))
    have "nd_household nd = h1" by (rule node_start_fields(2)[OF nd])
    with True nd ms r l assms show ?thesis
      by (intro if_P[THEN iffD2] exI[of _ ms] exI[of _ nd]) (auto simp: daemon_start_def Let_def)
  next
    case False
    have "\<exists>e. bindE (boot_mandates b) (\<lambda>ms. snd (node_start L (bo_now b) hh ms (bo_memory b) (bo_probe b))) = Inl e"
      if "\<exists>m. file_manifest hh = Some m" "r = Inr ()" "bo_socket b = None"
      using False that by (cases "boot_mandates b") (auto simp: boots_def l)
    then show ?thesis
      using False assms(1) unfolding daemon_start_def assms(2)[symmetric] Let_def l
      by (cases "file_manifest hh"; cases r; cases "bo_socket b") auto
  qed
qed

subsection \<open>Properties\<close>



text \<open>
  A stop ends the listener and the dashboard, not the rpc-servers the node runs for its peers: they are
  still in its table, running, after the stop and after the next start.
\<close>

theorem stop_keeps_workers:
  assumes "da_node d = Some nd" and "daemon_start L b (daemon_stop d) = (d1, Inr ())"
  shows "\<exists>nd1. da_node d1 = Some nd1 \<and> nd_rpc nd1 = nd_rpc nd \<and> nd_ended nd1 = nd_ended nd \<and> nd_adapters nd1 = nd_adapters nd"
proof -
  have "\<not> da_started (daemon_stop d)" by (simp add: daemon_stop_def)
  from daemon_start_cases[OF this refl, of L b] assms show ?thesis
    by (auto simp: keep_tables_def daemon_stop_def split: if_splits)
qed

theorem stop_keeps_workers_witness:
  "\<exists>(d :: bool daemon) nd1. da_node d = Some nd1 \<and> nd_rpc nd1 = [(''s'', 7)]"
proof -
  let ?d = "\<lparr>da_started = True, da_household = None, da_listening = True, da_node = Some (demo_node\<lparr>nd_rpc := [(''s'', 7)]\<rparr>), da_api = False\<rparr>"
  let ?b = "\<lparr>bo_now = 9, bo_dir = demo_household, bo_socket = None, bo_mandates = None, bo_memory = None, bo_probe = None,
     bo_enable_api = True, bo_port_free = True\<rparr>"
  obtain h where "hh_load demo_hh_lib 9 (reopen demo_household) = (h, Inr ())" using demo_loaded by blast
  then have "boots demo_hh_lib ?b (reopen demo_household)"
    using demo_household_facts(3) by (simp add: boots_def boot_mandates_def load_mandates_from_yaml_def from_option_def)
  then have "\<exists>d1. daemon_start demo_hh_lib ?b (daemon_stop ?d) = (d1, Inr ())"
    using daemon_start_cases[of "daemon_stop ?d" "reopen demo_household" ?b demo_hh_lib] by (auto simp: daemon_stop_def)
  then obtain d1 where "daemon_start demo_hh_lib ?b (daemon_stop ?d) = (d1, Inr ())" by blast
  from stop_keeps_workers[OF _ this, of "demo_node\<lparr>nd_rpc := [(''s'', 7)]\<rparr>"] obtain nd1
    where "da_node d1 = Some nd1" "nd_rpc nd1 = [(''s'', 7)]" by auto
  then show ?thesis by (intro exI[of _ d1] exI[of _ nd1]) simp
qed

end
