(* ===== verification/Spec2Isabelle.thy ===== *)
theory Spec2Isabelle
  imports Sync Transport Discovery Lifecycle
begin

text \<open>
  Verification of aries-mesh: a mesh of the personal devices of one household, each running a
  daemon in Python (\<^verbatim>\<open>src/aries\<close>), and a web dashboard in JavaScript (\<^verbatim>\<open>dashboard/src\<close>).

  \<^bold>\<open>The program.\<close> A household has a root key, split into shares, and devices and agents with keys of
  their own whose authority is delegated in UCAN tokens. Devices find each other by mDNS, talk over
  Noise-encrypted connections, and merge a replicated store of registers and logs. The daemon routes
  a task to an agent (an adapter of a language model) or to an inference configuration over several
  devices, hands tasks to other devices in signed envelopes, and keeps a signed chain of receipts
  per task. The dashboard polls the daemon's JSON API and listens to its event stream.

  \<^bold>\<open>Theories and sources\<close>, from the bottom up:
  \<^item> \<open>Prelude\<close>: Python and JavaScript values, errors as a sum type, ordered dictionaries, strings,
    the interface of codecs.
  \<^item> \<open>Did\<close> (\<^verbatim>\<open>identity/did.py\<close>), \<open>Base64\<close> and \<open>Ucan\<close> (\<^verbatim>\<open>identity/ucan.py\<close>, \<^verbatim>\<open>util.py\<close>), \<open>Shamir\<close> and \<open>Keys\<close>
    (\<^verbatim>\<open>identity/keys.py\<close>, \<^verbatim>\<open>_wordlist.py\<close>), \<open>Household\<close> (\<^verbatim>\<open>identity/household.py\<close>): the identity layer. A
    household is a record with the three kinds of files of its directory.
  \<^item> \<open>Lww\<close>, \<open>AppendLog\<close>, \<open>Store\<close> (\<^verbatim>\<open>memory/store.py\<close>) and \<open>Sync\<close> (\<^verbatim>\<open>memory/sync.py\<close>): the replicated memory.
  \<^item> \<open>Signed\<close> (the interface of signed documents), \<open>Receipts\<close> (\<^verbatim>\<open>receipt.py\<close>), \<open>Continuations\<close>
    (\<^verbatim>\<open>continuation.py\<close>): the audit trail and the envelope of a hand-off.
  \<^item> \<open>Wire\<close> and \<open>Transport\<close> (\<^verbatim>\<open>transport/peer.py\<close>, \<^verbatim>\<open>transport/crypto.py\<close>): messages, frames, one connection,
    and the server as a transition system over its connections; \<open>Discovery\<close> (\<^verbatim>\<open>transport/discovery.py\<close> and
    \<open>pair_with_invitation\<close> of \<^verbatim>\<open>node.py\<close>).
  \<^item> \<open>Router\<close> and \<open>Mandates\<close> (\<^verbatim>\<open>scheduler/router.py\<close>), \<open>Profile\<close> (\<^verbatim>\<open>scheduler/profile.py\<close>), \<open>Registry\<close>
    (\<^verbatim>\<open>inference/registry.py\<close>), \<open>Capability\<close> (\<^verbatim>\<open>inference/capability.py\<close>): the choice of an agent, the file of
    mandates, the catalog of inference configurations, and what a device finds out about itself.
  \<^item> \<open>Node\<close>, \<open>NodeHandlers\<close>, \<open>NodeStream\<close> (\<^verbatim>\<open>node.py\<close>): the daemon, as functions from its state to its
    state, the messages it sends and the result; \<open>NodeState\<close> has its steps and
    reachable states, and with \<open>NodeHandoff\<close>, \<open>NodeInvoke\<close>, \<open>NodePeers\<close> what is proved of it; \<open>Lifecycle\<close> has
    \<open>start\<close> and \<open>stop\<close> of a node object.
  \<^item> \<open>Session\<close> (\<^verbatim>\<open>inference/coordinator.py\<close>, \<^verbatim>\<open>streaming.py\<close>, part of \<^verbatim>\<open>capability.py\<close>), \<open>Adapters\<close>
    (\<^verbatim>\<open>adapters\<close>, part of \<^verbatim>\<open>cli/main.py\<close>), \<open>Api\<close> (\<^verbatim>\<open>api/server.py\<close>).
  \<^item> \<open>Cli\<close> (\<^verbatim>\<open>cli/main.py\<close>) and \<open>Terminal\<close> (\<^verbatim>\<open>cli/dashboard.py\<close>): a command is a process of its own on the
    files of the directory, composed of the operations of household, store, node and session.
  \<^item> \<open>JsDom\<close>, \<open>Hooks\<close> (\<^verbatim>\<open>hooks\<close>), \<open>Components\<close> (\<^verbatim>\<open>components\<close>, \<^verbatim>\<open>App.jsx\<close>), \<open>ActivityPage\<close>, \<open>TopologyPage\<close>,
    \<open>InferencePage\<close> (\<^verbatim>\<open>pages\<close>): the dashboard. Hooks and pages with state are state machines over the
    events of the browser, components are functions from their props to element trees; \<open>Bodies\<close> joins
    them with the JSON handlers, \<open>Live\<close> with the event stream, the build configuration (\<^verbatim>\<open>main.jsx\<close>,
    \<^verbatim>\<open>vite.config.js\<close>) and the served files.

  \<^bold>\<open>Interfaces.\<close> A locale states what a client needs and is interpreted on the code's own
  definitions: \<open>codec\<close> and \<open>strict_codec\<close> on base58, \<^verbatim>\<open>did:key\<close>, base64 and hexadecimal text;
  \<open>signed_doc\<close> on receipts and continuations; \<open>lww_order\<close> on the order of the registers; \<open>first_best\<close> on the
  choice of the router and of the catalog; \<open>session_provider\<close>, what \<open>invoke\<close> needs of a distributed
  session, on the coordinator; \<open>served_invariant\<close> and its extension \<open>node_invariant\<close>, what a property of the
  daemon must keep to hold in every reachable state, on the verifying chains, the known event types,
  the absence of a pairing offer and the absence of adapters.

  \<^bold>\<open>What the groups of lemmas show.\<close>
  \<^item> Identity: encodings are invertible; a validated token has its authority from the root; any two
    shares give back the key; a household keeps well-formed records and survives a restart; a device
    that presents the code joins the household of the inviter.
  \<^item> Memory: a local write updates the map the readers see, merges do not depend on order, one
    exchange makes two stores agree; where the log exchange can stop short.
  \<^item> Transport: messages arrive in order; a handler only sees senders the handshake proved.
  \<^item> Scheduling: the selected agent is the first best allowed one; the catalog is exactly the set of
    feasible configurations after any history.
  \<^item> Daemon: receipt chains verify in every reachable state; invocation, streaming and hand-off leave
    exactly the records they should; refused envelopes change nothing; what a peer's report can change.
  \<^item> Life of a daemon: when a start succeeds and what a failed one leaves; that a started daemon has no
    adapter and no pairing offer in any state; that a command's write to the memory is lost.
  \<^item> Session, adapters, API: reading and forwarding a stream agree; a session that cannot run leads
    on to a single agent; a rebuilt adapter tells the same profile; the counts and pages of the API.
  \<^item> End to end (\<open>Bodies\<close>, \<open>Live\<close>, \<open>Terminal\<close>): the pages read from the bodies of the handlers what the daemon
    knows; pushed events reach the page in order; terminal and web dashboard agree; the build lands
    where the daemon serves it.
  \<^item> Dashboard: the event source always reconnects, no late reply reaches an unmounted page, filters,
    pause, counts and the layout of the peers.
  \<^item> Several theorems state behaviour that the documentation does not promise; each is one of the
    recorded findings.

  \<^bold>\<open>Parameters.\<close> Code outside the sources is an argument of the definitions that use it: digests,
  Ed25519, JSON and CBOR (\<open>lib\<close>, \<open>wire_lib\<close>), key derivation and sealing (\<open>key_lib\<close>), the Noise
  primitives (\<open>noise\<close>), number parsing (\<open>conversions\<close>), the clock, random identifiers and the success of
  sends of one call (\<open>env\<close>), adapters and sessions (\<open>models\<close>, \<open>stream_models\<close>), processes and connections of a
  session (\<open>session_env\<close>, \<open>llama_server\<close>), litellm (\<open>litellm\<close>), mDNS answers (\<open>service_info\<close>, \<open>contact\<close>), sensor
  readings (\<open>readings\<close>), the machine a probing asks (\<open>machine\<close>, \<open>machine_facts\<close>), the parsed YAML of the mandates, what a
  start finds outside (\<open>boot\<close>), number printing (\<open>fmt\<close>), the file system of the pages (\<open>file_system\<close>). Their documented laws (decoding
  inverts encoding, a signature verifies under its own key, a ciphertext decrypts in step) are named
  hypotheses, and every theorem with a hypothesis is applied to a concrete instance.

  \<^bold>\<open>Conventions.\<close> A float is a real number; a text is a list of characters, each one byte of its UTF-8
  form (lengths and slices are those of the code for ASCII text); a dictionary is an association list in insertion order; an exception is a value, and of its
  message only the literal part is kept. Values from the wire are read strictly: where the code would
  carry a value of the wrong type along until it raises, the reader raises at once. A handler or a
  call of the daemon is one step; interleavings are sequences of steps, at the granularity of whole
  receive steps for the server. Definitions are total recursive functions. The one fuel is the depth
  of \<open>validate_chain\<close>: 17 levels, the bound 16 of the code and the outermost call, so running out of fuel
  is exactly the depth error of the code.

  \<^bold>\<open>Not modelled.\<close> The calls of the operating system and of libraries themselves: sockets, processes,
  background tasks and the HTTP server, the YAML and GGUF formats, argument parsing (click), styles and
  screen layout of the terminal (rich), the router of the dashboard beyond its table of paths, the
  bundler. The model has what the program decides with them and the state they leave. The
  generated bundle \<^verbatim>\<open>dashboard/dist\<close> is the build of \<^verbatim>\<open>dashboard/src\<close>, which is modelled. Messages of
  peers that arrive while \<open>start\<close> is under way are left out.
\<close>

end
